(* ===== verification/Prelude.thy ===== *)
theory Prelude
  imports Main "HOL-Library.Char_ord" "HOL-Library.List_Lexorder" "HOL-Library.Product_Lexorder"
begin

text \<open>
  Shared vocabulary of the development: Go errors as values, the loop shapes the sources use
  (a loop that returns at the first failing element, a loop that also looks at the previous
  element, a binary search), and the list lemmas the component theories need.

  A Go function that returns \<open>error\<close> is a function into \<^typ>\<open>'e option\<close>, where
  \<^term>\<open>None\<close> is Go's \<open>nil\<close>. A Go function that returns \<open>(T, error)\<close> is a
  function into a sum, where \<^term>\<open>Inl\<close> is the error return. A Go string is its byte
  sequence, so \<^typ>\<open>string\<close> (a list of 8-bit characters) with the lexicographic order of
  \<open>List_Lexorder\<close> and \<open>Char_ord\<close> is Go's string type with Go's \<open><\<close>.
\<close>

section \<open>Errors\<close>

text \<open>
  The two sentinel errors each package declares. The string is the context a call to
  \<open>fmt.Errorf("...: %w", Err...)\<close> puts in front (empty when the sentinel is returned bare).
  \<open>GoPanic\<close> is a run-time panic (a nil dereference), which no caller recovers from.
\<close>

datatype error = ErrInvalid string | ErrIntegrity string | GoPanic string

type_synonym 'a result = "error + 'a"

text \<open>\<open>fmt.Errorf("prefix: %w", err)\<close> keeps the sentinel and puts the prefix in front of the context.\<close>

fun wrapErr :: "string \<Rightarrow> error \<Rightarrow> error" where
  "wrapErr prefix (ErrInvalid c) = ErrInvalid (if c = [] then prefix else prefix @ '': '' @ c)"
| "wrapErr prefix (ErrIntegrity c) = ErrIntegrity (if c = [] then prefix else prefix @ '': '' @ c)"
| "wrapErr prefix (GoPanic c) = GoPanic c"

named_theorems gate_simps \<open>what it means for a gate of the code to accept\<close>
named_theorems engine_defs \<open>constants of the engine contract\<close>

definition andThen :: "error option \<Rightarrow> error option \<Rightarrow> error option" where
  "andThen e1 e2 = (case e1 of Some e \<Rightarrow> Some e | None \<Rightarrow> e2)"

lemma andThen_None [simp, gate_simps]: "andThen e1 e2 = None \<longleftrightarrow> e1 = None \<and> e2 = None"
  by (auto simp: andThen_def split: option.splits)

lemma andThen_left_None [simp]: "andThen None e = e"
  by (simp add: andThen_def)

definition failIf :: "bool \<Rightarrow> error \<Rightarrow> error option" where
  "failIf c e = (if c then Some e else None)"

lemma failIf_None [simp, gate_simps]: "failIf c e = None \<longleftrightarrow> \<not> c"
  by (simp add: failIf_def)

section \<open>Loops that return early\<close>

text \<open>\<open>for _, x := range xs { if err := f(x); err != nil { return err } }\<close>\<close>

fun firstErr :: "('a \<Rightarrow> error option) \<Rightarrow> 'a list \<Rightarrow> error option" where
  "firstErr f [] = None"
| "firstErr f (x # xs) = (case f x of Some e \<Rightarrow> Some e | None \<Rightarrow> firstErr f xs)"

lemma firstErr_None [simp, gate_simps]: "firstErr f xs = None \<longleftrightarrow> (\<forall>x\<in>set xs. f x = None)"
  by (induction xs) (auto split: option.splits)

text \<open>
  The same loop when the body also reads the previous element (\<open>xs[i-1]\<close> under \<open>i > 0\<close>):
  the first argument of the body is the previous element, \<^term>\<open>None\<close> at index 0.
\<close>

fun firstErrAdj :: "('a option \<Rightarrow> 'a \<Rightarrow> error option) \<Rightarrow> 'a option \<Rightarrow> 'a list \<Rightarrow> error option" where
  "firstErrAdj f p [] = None"
| "firstErrAdj f p (x # xs) = (case f p x of Some e \<Rightarrow> Some e | None \<Rightarrow> firstErrAdj f (Some x) xs)"

fun allAdj :: "('a option \<Rightarrow> 'a \<Rightarrow> bool) \<Rightarrow> 'a option \<Rightarrow> 'a list \<Rightarrow> bool" where
  "allAdj f p [] = True"
| "allAdj f p (x # xs) = (f p x \<and> allAdj f (Some x) xs)"

text \<open>\<open>i > 0 && key(xs[i-1]) >= key(xs[i])\<close>, the order violation every canonical list is checked for.\<close>

definition outOfOrder :: "('a \<Rightarrow> 'k::linorder) \<Rightarrow> 'a option \<Rightarrow> 'a \<Rightarrow> bool" where
  "outOfOrder key p x = (case p of None \<Rightarrow> False | Some y \<Rightarrow> key x \<le> key y)"

lemma outOfOrder_simps [simp]:
  "outOfOrder key None x = False"
  "outOfOrder key (Some y) x = (key x \<le> key y)"
  by (simp_all add: outOfOrder_def)

lemma firstErrAdj_allAdj:
  "firstErrAdj f p xs = None \<longleftrightarrow> allAdj (\<lambda>p x. f p x = None) p xs"
  by (induction xs arbitrary: p) (auto split: option.splits)

lemma allAdj_mono: "(\<And>p x. f p x \<Longrightarrow> g p x) \<Longrightarrow> allAdj f p xs \<Longrightarrow> allAdj g p xs"
  by (induction xs arbitrary: p) auto

text \<open>A list without order violation is strictly sorted, hence without duplicates.\<close>

lemma allAdj_order_Some:
  "allAdj (\<lambda>p x. \<not> outOfOrder key p x \<and> P x) (Some y) xs \<longleftrightarrow>
     sorted_wrt (<) (map key (y # xs)) \<and> (\<forall>x\<in>set xs. P x)"
proof (induction xs arbitrary: y)
  case Nil
  then show ?case by simp
next
  case (Cons x xs)
  then show ?case by (auto simp: not_le intro: less_trans)
qed

lemma allAdj_order:
  "allAdj (\<lambda>p x. \<not> outOfOrder key p x \<and> P x) None xs \<longleftrightarrow>
     sorted_wrt (<) (map key xs) \<and> (\<forall>x\<in>set xs. P x)"
  by (cases xs) (auto simp: allAdj_order_Some)

lemma firstErrAdj_order:
  assumes "\<And>p x. f p x = None \<longleftrightarrow> \<not> outOfOrder key p x \<and> P x"
  shows "firstErrAdj f None xs = None \<longleftrightarrow> sorted_wrt (<) (map key xs) \<and> (\<forall>x\<in>set xs. P x)"
  unfolding firstErrAdj_allAdj assms by (rule allAdj_order)

lemma sorted_wrt_less_distinct: "sorted_wrt (<) (xs :: 'a::linorder list) \<Longrightarrow> distinct xs"
  by (induction xs) auto

lemma sorted_wrt_less_filter:
  "sorted_wrt (<) (map key xs) \<Longrightarrow> sorted_wrt (<) (map key (filter P xs))"
  by (induction xs) auto

section \<open>Joined keys\<close>

text \<open>
  The order of keys joined with a separator that is below every character of the first part is the
  lexicographic order of the parts.
\<close>

lemma sep_key_less:
  fixes z :: "'a::linorder"
  assumes "\<forall>x\<in>set a. z < x" and "\<forall>x\<in>set b. z < x"
  shows "a @ z # s < b @ z # t \<longleftrightarrow> a < b \<or> a = b \<and> s < t"
  using assms
proof (induction a arbitrary: b)
  case Nil
  then show ?case by (cases b) auto
next
  case (Cons x a)
  show ?case
  proof (cases b)
    case Nil
    then show ?thesis using Cons.prems by (auto dest: order_less_asym)
  next
    case (Cons y b')
    then show ?thesis using Cons.IH [of b'] Cons.prems by auto
  qed
qed

lemma sep_key_eq:
  assumes "z \<notin> set a" and "z \<notin> set b"
  shows "a @ z # s = b @ z # t \<longleftrightarrow> a = b \<and> s = t"
  using assms
proof (induction a arbitrary: b)
  case Nil
  then show ?case by (cases b) auto
next
  case (Cons x a)
  then show ?case by (cases b) auto
qed

section \<open>First match in a list\<close>

text \<open>\<open>for _, x := range xs { if P(x) { return x, true } }; return zero, false\<close>\<close>

lemma find_key_unique:
  assumes "distinct (map key xs)" and "x \<in> set xs"
  shows "List.find (\<lambda>y. key y = key x) xs = Some x"
  using assms
proof (induction xs)
  case Nil
  then show ?case by simp
next
  case (Cons y xs)
  show ?case
  proof (cases "key y = key x")
    case True
    with Cons.prems have "y = x" by (auto simp: image_iff dest: sym)
    then show ?thesis by simp
  next
    case False
    with Cons show ?thesis by auto
  qed
qed

lemma find_SomeD: "List.find P xs = Some x \<Longrightarrow> x \<in> set xs \<and> P x"
  by (induction xs) (auto split: if_splits)

lemma find_Some_exists: "x \<in> set xs \<Longrightarrow> P x \<Longrightarrow> \<exists>y. List.find P xs = Some y"
  by (induction xs) auto

section \<open>Binary search\<close>

text \<open>
  The interface of \<open>sort.Search\<close>: on a predicate that is monotone over the index range, the
  result is the least index where it holds, or the upper end when there is none.
\<close>

locale search_contract =
  fixes srch :: "nat \<Rightarrow> (nat \<Rightarrow> bool) \<Rightarrow> nat"
  assumes srch_le: "srch n P \<le> n"
    and srch_below: "(\<And>i j. i \<le> j \<Longrightarrow> j < n \<Longrightarrow> P i \<Longrightarrow> P j) \<Longrightarrow> i < srch n P \<Longrightarrow> \<not> P i"
    and srch_above: "(\<And>i j. i \<le> j \<Longrightarrow> j < n \<Longrightarrow> P i \<Longrightarrow> P j) \<Longrightarrow> srch n P \<le> i \<Longrightarrow> i < n \<Longrightarrow> P i"
begin

text \<open>Looking a key up in a list sorted by that key finds it exactly when it is there.\<close>

lemma search_finds:
  fixes key :: "'a \<Rightarrow> 'k::linorder" and k :: 'k
  assumes sorted: "sorted (map key xs)"
  defines "r \<equiv> srch (length xs) (\<lambda>i. k \<le> key (xs ! i))"
  shows "r < length xs \<and> key (xs ! r) = k \<longleftrightarrow> k \<in> key ` set xs"
proof -
  have mono: "k \<le> key (xs ! j)" if "i \<le> j" "j < length xs" "k \<le> key (xs ! i)" for i j
    using sorted_nth_mono [OF sorted, of i j] that by auto
  show ?thesis
  proof
    assume "r < length xs \<and> key (xs ! r) = k"
    then show "k \<in> key ` set xs" by auto
  next
    assume "k \<in> key ` set xs"
    then obtain i where i: "i < length xs" "key (xs ! i) = k"
      by (auto simp: in_set_conv_nth)
    have "\<not> i < r"
      using srch_below [of "length xs" "\<lambda>i. k \<le> key (xs ! i)" i] mono i unfolding r_def by auto
    then have "r \<le> i" by simp
    then have r: "r < length xs" using i by simp
    have "k \<le> key (xs ! r)"
      using srch_above [of "length xs" "\<lambda>i. k \<le> key (xs ! i)" r] mono r unfolding r_def by auto
    moreover have "key (xs ! r) \<le> key (xs ! i)"
      using sorted_nth_mono [OF sorted, of r i] \<open>r \<le> i\<close> i by simp
    ultimately show "r < length xs \<and> key (xs ! r) = k" using r i by simp
  qed
qed

end

text \<open>\<open>sort.Search\<close> itself: the half-open interval \<open>[i, j)\<close> is halved until it is empty.\<close>

function searchLoop :: "nat \<Rightarrow> nat \<Rightarrow> (nat \<Rightarrow> bool) \<Rightarrow> nat" where
  "searchLoop i j P =
     (if i < j then
        (let h = (i + j) div 2 in
         if \<not> P h then searchLoop (h + 1) j P else searchLoop i h P)
      else i)"
  by pat_completeness auto
termination
  by (relation "measure (\<lambda>(i, j, P). j - i)") auto

declare searchLoop.simps [simp del]

definition sortSearch :: "nat \<Rightarrow> (nat \<Rightarrow> bool) \<Rightarrow> nat" where
  "sortSearch n P = searchLoop 0 n P"

lemma searchLoop_step:
  "\<not> i < j \<Longrightarrow> searchLoop i j P = i"
  "i < j \<Longrightarrow> P ((i + j) div 2) \<Longrightarrow> searchLoop i j P = searchLoop i ((i + j) div 2) P"
  "i < j \<Longrightarrow> \<not> P ((i + j) div 2) \<Longrightarrow> searchLoop i j P = searchLoop ((i + j) div 2 + 1) j P"
  by (simp_all add: searchLoop.simps [of i j P] Let_def)

definition splitsAt :: "nat \<Rightarrow> (nat \<Rightarrow> bool) \<Rightarrow> nat \<Rightarrow> bool" where
  "splitsAt n P r \<longleftrightarrow> (\<forall>a < r. \<not> P a) \<and> (\<forall>a. r \<le> a \<and> a < n \<longrightarrow> P a)"

lemma searchLoop_le: "i \<le> j \<Longrightarrow> i \<le> searchLoop i j P \<and> searchLoop i j P \<le> j"
proof (induction i j P rule: searchLoop.induct)
  case (1 i j P)
  let ?h = "(i + j) div 2"
  show ?case
  proof (cases "i < j")
    case False
    then show ?thesis using "1.prems" by (simp add: searchLoop_step)
  next
    case True
    then have h: "i \<le> ?h" "?h < j" by auto
    show ?thesis
      using "1.IH"(1) [OF True refl] "1.IH"(2) [OF True refl] True h
      by (cases "P ?h") (auto simp: searchLoop_step)
  qed
qed

lemma searchLoop_correct:
  assumes mono: "\<And>a b. a \<le> b \<Longrightarrow> b < n \<Longrightarrow> P a \<Longrightarrow> P b"
  shows "i \<le> j \<Longrightarrow> j \<le> n \<Longrightarrow> \<forall>a < i. \<not> P a \<Longrightarrow> \<forall>a. j \<le> a \<and> a < n \<longrightarrow> P a \<Longrightarrow>
    splitsAt n P (searchLoop i j P)"
proof (induction "j - i" arbitrary: i j rule: less_induct)
  case less
  let ?h = "(i + j) div 2"
  show ?case
  proof (cases "i < j")
    case False
    then show ?thesis using less.prems by (simp add: searchLoop_step splitsAt_def)
  next
    case True
    then have h: "i \<le> ?h" "?h < j" by auto
    show ?thesis
    proof (cases "P ?h")
      case True': True
      then have "\<forall>a. ?h \<le> a \<and> a < n \<longrightarrow> P a" using mono by blast
      then have "splitsAt n P (searchLoop i ?h P)"
        using less.hyps [of ?h i] less.prems h by simp
      then show ?thesis using True True' by (simp add: searchLoop_step)
    next
      case False
      then have "\<forall>a < ?h + 1. \<not> P a" using mono [of _ ?h] less.prems(2) h by fastforce
      then have "splitsAt n P (searchLoop (?h + 1) j P)"
        using less.hyps [of j "?h + 1"] less.prems h by simp
      then show ?thesis using True False by (simp add: searchLoop_step)
    qed
  qed
qed

lemma sortSearch_splits:
  "(\<And>a b. a \<le> b \<Longrightarrow> b < n \<Longrightarrow> P a \<Longrightarrow> P b) \<Longrightarrow> splitsAt n P (sortSearch n P)"
  unfolding sortSearch_def by (rule searchLoop_correct) auto

interpretation go_search: search_contract sortSearch
proof
  fix n and P :: "nat \<Rightarrow> bool" and i
  show "sortSearch n P \<le> n"
    using searchLoop_le [of 0 n P] by (simp add: sortSearch_def)
next
  fix n and P :: "nat \<Rightarrow> bool" and i
  assume "\<And>i j. i \<le> j \<Longrightarrow> j < n \<Longrightarrow> P i \<Longrightarrow> P j"
  then have "splitsAt n P (sortSearch n P)" by (rule sortSearch_splits)
  moreover assume "i < sortSearch n P"
  ultimately show "\<not> P i" unfolding splitsAt_def by blast
next
  fix n and P :: "nat \<Rightarrow> bool" and i
  assume "\<And>i j. i \<le> j \<Longrightarrow> j < n \<Longrightarrow> P i \<Longrightarrow> P j"
  then have "splitsAt n P (sortSearch n P)" by (rule sortSearch_splits)
  moreover assume "sortSearch n P \<le> i" and "i < n"
  ultimately show "P i" unfolding splitsAt_def by blast
qed

end
