(* ===== verification/GoText.thy ===== *)
theory GoText
  imports Prelude
begin

text \<open>
  What the program uses of Go's \<open>strings\<close>, \<open>strconv\<close>, \<open>unicode/utf8\<close> and \<open>unicode\<close>
  packages, on byte strings: character classes, splitting, decimal numerals, UTF-8 decoding
  and the control-character test. The main results are that decimal printing and reading are
  inverse on numerals without leading zeros, and that splitting at a separator loses nothing.
\<close>

section \<open>Bytes and character classes\<close>

abbreviation byte :: "char \<Rightarrow> nat" where
  "byte c \<equiv> of_char c"

definition isDigit :: "char \<Rightarrow> bool" where
  "isDigit c = (CHR ''0'' \<le> c \<and> c \<le> CHR ''9'')"

definition isLower :: "char \<Rightarrow> bool" where
  "isLower c = (CHR ''a'' \<le> c \<and> c \<le> CHR ''z'')"

definition isUpper :: "char \<Rightarrow> bool" where
  "isUpper c = (CHR ''A'' \<le> c \<and> c \<le> CHR ''Z'')"

definition isHexLower :: "char \<Rightarrow> bool" where
  "isHexLower c = (isDigit c \<or> CHR ''a'' \<le> c \<and> c \<le> CHR ''f'')"

text \<open>
  The shape \<open>^[first][rest]{lo,hi}$\<close> shared by most identifiers: one character of the first
  class, then between \<open>lo\<close> and \<open>hi\<close> characters of the second.
\<close>

definition headAndTail :: "(char \<Rightarrow> bool) \<Rightarrow> (char \<Rightarrow> bool) \<Rightarrow> nat \<Rightarrow> nat \<Rightarrow> string \<Rightarrow> bool" where
  "headAndTail first rest lo hi s =
     (case s of [] \<Rightarrow> False
      | c # cs \<Rightarrow> first c \<and> lo \<le> length cs \<and> length cs \<le> hi \<and> list_all rest cs)"

lemma headAndTail_nonempty: "headAndTail f r lo hi s \<Longrightarrow> s \<noteq> []"
  by (auto simp: headAndTail_def)

section \<open>Splitting\<close>

text \<open>\<open>strings.Split\<close> with a one-byte separator.\<close>

fun splitOn :: "char \<Rightarrow> string \<Rightarrow> string list" where
  "splitOn c [] = [[]]"
| "splitOn c (x # xs) =
     (if x = c then [] # splitOn c xs
      else (case splitOn c xs of [] \<Rightarrow> [[x]] | p # ps \<Rightarrow> (x # p) # ps))"

text \<open>\<open>strings.Join\<close> with a one-byte separator.\<close>

fun joinWith :: "char \<Rightarrow> string list \<Rightarrow> string" where
  "joinWith c [] = []"
| "joinWith c [p] = p"
| "joinWith c (p # q # ps) = p @ c # joinWith c (q # ps)"

lemma splitOn_not_Nil [simp]: "splitOn c s \<noteq> []"
  by (induction s) (auto split: list.splits)

lemma joinWith_splitOn [simp]: "joinWith c (splitOn c s) = s"
proof (induction s)
  case Nil
  then show ?case by simp
next
  case (Cons x xs)
  obtain p ps where "splitOn c xs = p # ps" by (cases "splitOn c xs") auto
  with Cons show ?case by (cases ps) auto
qed

lemma splitOn_no_sep: "p \<in> set (splitOn c s) \<Longrightarrow> c \<notin> set p"
proof (induction s arbitrary: p)
  case Nil
  then show ?case by simp
next
  case (Cons x xs)
  obtain q qs where "splitOn c xs = q # qs" by (cases "splitOn c xs") auto
  with Cons show ?case by (auto split: if_splits)
qed

lemma splitOn_append: "c \<notin> set p \<Longrightarrow> splitOn c (p @ c # s) = p # splitOn c s"
  by (induction p) auto

lemma splitOn_plain: "c \<notin> set p \<Longrightarrow> splitOn c p = [p]"
  by (induction p) auto

text \<open>\<open>strings.Cut\<close> with a one-byte separator: the text before and after its first occurrence.\<close>

fun cutAt :: "char \<Rightarrow> string \<Rightarrow> string \<times> string \<times> bool" where
  "cutAt c [] = ([], [], False)"
| "cutAt c (x # xs) =
     (if x = c then ([], xs, True)
      else (case cutAt c xs of (a, b, f) \<Rightarrow> (x # a, b, f)))"

text \<open>\<open>strings.TrimPrefix\<close> and \<open>strings.HasPrefix\<close>.\<close>

definition hasPrefix :: "string \<Rightarrow> string \<Rightarrow> bool" where
  "hasPrefix s p = (take (length p) s = p)"

definition trimPrefix :: "string \<Rightarrow> string \<Rightarrow> string" where
  "trimPrefix s p = (if hasPrefix s p then drop (length p) s else s)"

section \<open>Decimal numerals\<close>

definition digitVal :: "char \<Rightarrow> nat" where
  "digitVal c = byte c - 48"

definition digitChar :: "nat \<Rightarrow> char" where
  "digitChar n = char_of (48 + n)"

definition decVal :: "string \<Rightarrow> nat" where
  "decVal s = foldl (\<lambda>n c. 10 * n + digitVal c) 0 s"

fun decShow :: "nat \<Rightarrow> string" where
  "decShow n = (if n < 10 then [digitChar n] else decShow (n div 10) @ [digitChar (n mod 10)])"

declare decShow.simps [simp del]

text \<open>\<open>(0|[1-9][0-9]*)\<close>: a decimal numeral without superfluous leading zeros.\<close>

definition canonicalNumeral :: "string \<Rightarrow> bool" where
  "canonicalNumeral s =
     (s = ''0'' \<or> (case s of [] \<Rightarrow> False | c # cs \<Rightarrow> isDigit c \<and> c \<noteq> CHR ''0'' \<and> list_all isDigit cs))"

lemma char_of_zero_digit [simp]: "char_of (48::nat) = CHR ''0''"
  by code_simp

lemma isDigit_iff: "isDigit c \<longleftrightarrow> 48 \<le> byte c \<and> byte c \<le> 57"
  by (simp add: isDigit_def less_eq_char_def)

lemma byte_char_of [simp]: "n < 256 \<Longrightarrow> byte (char_of n) = n"
  by simp

lemma isDigit_digitChar [simp]: "n < 10 \<Longrightarrow> isDigit (digitChar n)"
  by (simp add: isDigit_iff digitChar_def)

lemma digitVal_digitChar [simp]: "n < 10 \<Longrightarrow> digitVal (digitChar n) = n"
  by (simp add: digitVal_def digitChar_def)

lemma digitVal_bound: "isDigit c \<Longrightarrow> digitVal c < 10"
  by (auto simp: isDigit_iff digitVal_def)

lemma digitChar_digitVal [simp]: "isDigit c \<Longrightarrow> digitChar (digitVal c) = c"
  by (simp add: isDigit_iff digitVal_def digitChar_def)

lemma digitVal_0_iff: "isDigit c \<Longrightarrow> digitVal c = 0 \<longleftrightarrow> c = CHR ''0''"
  using digitChar_digitVal [of c] by (auto simp: digitVal_def digitChar_def)

lemma decVal_Nil [simp]: "decVal [] = 0"
  by (simp add: decVal_def)

lemma decVal_snoc [simp]: "decVal (s @ [c]) = 10 * decVal s + digitVal c"
  by (simp add: decVal_def)

lemma decVal_decShow [simp]: "decVal (decShow n) = n"
proof (induction n rule: decShow.induct)
  case (1 n)
  show ?case
  proof (cases "n < 10")
    case True
    then show ?thesis using decVal_snoc [of "[]"] by (simp add: decShow.simps [of n])
  next
    case False
    with 1 show ?thesis by (simp add: decShow.simps [of n])
  qed
qed

lemma decShow_digits: "list_all isDigit (decShow n)"
proof (induction n rule: decShow.induct)
  case (1 n)
  then show ?case by (cases "n < 10") (simp_all add: decShow.simps [of n])
qed

lemma decShow_not_Nil [simp]: "decShow n \<noteq> []"
  by (subst decShow.simps) simp

lemma decShow_0 [simp]: "decShow 0 = ''0''"
  by (simp add: decShow.simps digitChar_def)

lemma decShow_hd: "0 < n \<Longrightarrow> hd (decShow n) \<noteq> CHR ''0''"
proof (induction n rule: decShow.induct)
  case (1 n)
  show ?case
  proof (cases "n < 10")
    case True
    with 1 digitVal_0_iff [of "digitChar n"] show ?thesis by (simp add: decShow.simps [of n])
  next
    case False
    then have "0 < n div 10" by simp
    with False 1 show ?thesis by (simp add: decShow.simps [of n])
  qed
qed

lemma canonical_decShow [simp]: "canonicalNumeral (decShow n)"
proof (cases "n = 0")
  case True
  then show ?thesis by (simp add: canonicalNumeral_def)
next
  case False
  obtain c cs where "decShow n = c # cs" by (cases "decShow n") auto
  with False decShow_hd [of n] decShow_digits [of n] show ?thesis
    by (simp add: canonicalNumeral_def)
qed

lemma decVal_pos: "isDigit c \<Longrightarrow> c \<noteq> CHR ''0'' \<Longrightarrow> 0 < decVal (c # cs)"
proof (induction cs rule: rev_induct)
  case Nil
  then show ?case using digitVal_0_iff [of c] decVal_snoc [of "[]" c] by simp
next
  case (snoc x xs)
  then show ?case using decVal_snoc [of "c # xs" x] by simp
qed

lemma decShow_decVal_digits:
  "isDigit c \<Longrightarrow> c \<noteq> CHR ''0'' \<Longrightarrow> list_all isDigit cs \<Longrightarrow> decShow (decVal (c # cs)) = c # cs"
proof (induction cs rule: rev_induct)
  case Nil
  then show ?case
    using digitVal_bound [of c] decVal_snoc [of "[]" c] by (simp add: decShow.simps)
next
  case (snoc x xs)
  let ?n = "decVal (c # xs)"
  have "0 < ?n" using snoc.prems by (simp add: decVal_pos)
  moreover have x: "digitVal x < 10" using snoc.prems by (simp add: digitVal_bound)
  ultimately have "decShow (10 * ?n + digitVal x) = decShow ?n @ [digitChar (digitVal x)]"
    by (subst decShow.simps) simp
  with snoc decVal_snoc [of "c # xs" x] show ?case by simp
qed

lemma decShow_decVal: "canonicalNumeral s \<Longrightarrow> decShow (decVal s) = s"
  using decShow_decVal_digits decVal_snoc [of "[]" "CHR ''0''"]
  by (cases s) (auto simp: canonicalNumeral_def digitVal_def)

lemma canonicalNumeral_no_dot: "canonicalNumeral s \<Longrightarrow> CHR ''.'' \<notin> set s"
  by (cases s) (auto simp: canonicalNumeral_def list_all_iff isDigit_def)

section \<open>UTF-8\<close>

text \<open>
  \<open>utf8.DecodeRune\<close>: the rune at the start of the bytes and its width; an invalid encoding is
  \<open>(utf8.RuneError, 1)\<close>. The table gives, per lead byte, the width and the admitted range of the
  second byte.
\<close>

definition runeError :: nat where
  "runeError = 65533"

definition leadInfo :: "nat \<Rightarrow> (nat \<times> nat \<times> nat) option" where
  "leadInfo n =
     (if 194 \<le> n \<and> n \<le> 223 then Some (2, 128, 191)
      else if n = 224 then Some (3, 160, 191)
      else if n = 237 then Some (3, 128, 159)
      else if 225 \<le> n \<and> n \<le> 239 then Some (3, 128, 191)
      else if n = 240 then Some (4, 144, 191)
      else if n = 244 then Some (4, 128, 143)
      else if 241 \<le> n \<and> n \<le> 243 then Some (4, 128, 191)
      else None)"

definition contByte :: "char \<Rightarrow> bool" where
  "contByte c = (128 \<le> byte c \<and> byte c \<le> 191)"

fun decodeRune :: "string \<Rightarrow> nat \<times> nat" where
  "decodeRune [] = (runeError, 0)"
| "decodeRune (b # bs) =
     (if byte b < 128 then (byte b, 1) else
      case leadInfo (byte b) of
        None \<Rightarrow> (runeError, 1)
      | Some (len, lo, hi) \<Rightarrow>
          (case bs of
             [] \<Rightarrow> (runeError, 1)
           | b1 # bs1 \<Rightarrow>
               if byte b1 < lo \<or> hi < byte b1 then (runeError, 1)
               else if len = 2 then (byte b mod 32 * 64 + byte b1 mod 64, 2)
               else (case bs1 of
                       [] \<Rightarrow> (runeError, 1)
                     | b2 # bs2 \<Rightarrow>
                         if \<not> contByte b2 then (runeError, 1)
                         else if len = 3 then
                           (byte b mod 16 * 4096 + byte b1 mod 64 * 64 + byte b2 mod 64, 3)
                         else (case bs2 of
                                 [] \<Rightarrow> (runeError, 1)
                               | b3 # _ \<Rightarrow>
                                   if \<not> contByte b3 then (runeError, 1)
                                   else (byte b mod 8 * 262144 + byte b1 mod 64 * 4096
                                         + byte b2 mod 64 * 64 + byte b3 mod 64, 4)))))"

text \<open>\<open>for _, r := range s\<close> visits these runes.\<close>

fun runes :: "string \<Rightarrow> nat list" where
  "runes [] = []"
| "runes (b # bs) = (case decodeRune (b # bs) of (r, w) \<Rightarrow> r # runes (drop (w - 1) bs))"

text \<open>\<open>utf8.Valid\<close>.\<close>

fun utf8Valid :: "string \<Rightarrow> bool" where
  "utf8Valid [] = True"
| "utf8Valid (b # bs) =
     (case decodeRune (b # bs) of
        (r, w) \<Rightarrow> \<not> (r = runeError \<and> w = 1) \<and> utf8Valid (drop (w - 1) bs))"

text \<open>Replacement of every invalid byte by the encoding of U+FFFD, as \<open>encoding/json\<close> does.\<close>

fun utf8Coerce :: "string \<Rightarrow> string" where
  "utf8Coerce [] = []"
| "utf8Coerce (b # bs) =
     (case decodeRune (b # bs) of
        (r, w) \<Rightarrow> (if r = runeError \<and> w = 1 then [CHR 0xEF, CHR 0xBF, CHR 0xBD]
                  else b # take (w - 1) bs) @ utf8Coerce (drop (w - 1) bs))"

text \<open>\<open>utf8.EncodeRune\<close>; surrogates and values above U+10FFFF become U+FFFD.\<close>

definition encodeRune :: "nat \<Rightarrow> string" where
  "encodeRune r =
     (if r < 128 then [char_of r]
      else if r < 2048 then [char_of (192 + r div 64), char_of (128 + r mod 64)]
      else if 1114111 < r \<or> 55296 \<le> r \<and> r \<le> 57343 then [CHR 0xEF, CHR 0xBF, CHR 0xBD]
      else if r < 65536 then
        [char_of (224 + r div 4096), char_of (128 + r div 64 mod 64), char_of (128 + r mod 64)]
      else [char_of (240 + r div 262144), char_of (128 + r div 4096 mod 64),
            char_of (128 + r div 64 mod 64), char_of (128 + r mod 64)])"

text \<open>\<open>unicode.IsControl\<close>: category Cc, which lies entirely in Latin-1.\<close>

definition isControl :: "nat \<Rightarrow> bool" where
  "isControl r = (r < 32 \<or> 127 \<le> r \<and> r < 160)"

lemma utf8Coerce_valid: "utf8Valid s \<Longrightarrow> utf8Coerce s = s"
proof (induction s rule: utf8Coerce.induct)
  case 1
  then show ?case by simp
next
  case (2 b bs)
  obtain r w where rw: "decodeRune (b # bs) = (r, w)" by (cases "decodeRune (b # bs)") auto
  with 2 have "utf8Coerce (drop (w - 1) bs) = drop (w - 1) bs" by simp
  with 2 rw show ?case by (auto simp: append_take_drop_id)
qed

lemma utf8Valid_ascii: "list_all (\<lambda>c. byte c < 128) s \<Longrightarrow> utf8Valid s"
  by (induction s) (auto simp: runeError_def)

subsection \<open>Decoding and encoding runes\<close>

lemma digit_mod: "d < m \<Longrightarrow> (q * m + d) mod m = (d::nat)"
  by simp

lemma digit_div: "d < m \<Longrightarrow> (q * m + d) div m = (q::nat)"
  by simp

lemma encode2:
  assumes "194 \<le> byte b" "byte b \<le> 223" "128 \<le> byte b1" "byte b1 \<le> 191"
  shows "encodeRune (byte b mod 32 * 64 + byte b1 mod 64) = [b, b1]"
proof -
  define x y where "x = byte b - 192" and "y = byte b1 - 128"
  have b: "byte b = 192 + x" "2 \<le> x" "x < 32" and b1: "byte b1 = 128 + y" "y < 64"
    using assms by (auto simp: x_def y_def)
  have "byte b mod 32 = x" "byte b1 mod 64 = y"
    using digit_mod [of x 32 6] digit_mod [of y 64 2] b b1 by simp_all
  moreover have "(x * 64 + y) div 64 = x" "(x * 64 + y) mod 64 = y" "128 \<le> x * 64 + y" "x * 64 + y < 2048"
    using digit_div [of y 64 x] digit_mod [of y 64 x] b b1 by simp_all
  moreover have "char_of (192 + x) = b" "char_of (128 + y) = b1"
    using b(1) b1(1) by (metis char_of_char)+
  ultimately show ?thesis by (simp add: encodeRune_def)
qed

lemma encode3:
  assumes "224 \<le> byte b" "byte b \<le> 239" "128 \<le> byte b1" "byte b1 \<le> 191" "128 \<le> byte b2" "byte b2 \<le> 191"
    and "byte b = 224 \<Longrightarrow> 160 \<le> byte b1" and "byte b = 237 \<Longrightarrow> byte b1 \<le> 159"
  shows "encodeRune (byte b mod 16 * 4096 + byte b1 mod 64 * 64 + byte b2 mod 64) = [b, b1, b2]"
proof -
  define x y z where "x = byte b - 224" and "y = byte b1 - 128" and "z = byte b2 - 128"
  have b: "byte b = 224 + x" "x < 16" and b1: "byte b1 = 128 + y" "y < 64" and b2: "byte b2 = 128 + z" "z < 64"
    using assms by (auto simp: x_def y_def z_def)
  have lo: "x = 0 \<Longrightarrow> 32 \<le> y" and hi: "x = 13 \<Longrightarrow> y < 32" using assms b b1 by auto
  let ?r = "x * 4096 + y * 64 + z"
  have "byte b mod 16 = x" "byte b1 mod 64 = y" "byte b2 mod 64 = z"
    using digit_mod [of x 16 14] digit_mod [of y 64 2] digit_mod [of z 64 2] b b1 b2 by simp_all
  moreover have "?r div 4096 = x"
    using digit_div [of "y * 64 + z" 4096 x] b1 b2 by (simp add: add.assoc)
  moreover have "?r div 64 mod 64 = y" "?r mod 64 = z"
    using digit_div [of z 64 "x * 64 + y"] digit_mod [of z 64 "x * 64 + y"] digit_mod [of y 64 x] b1 b2
    by (simp_all add: algebra_simps)
  moreover have "2048 \<le> ?r" "?r < 65536" using b b1 b2 lo by (cases x; simp)+
  moreover have "\<not> (55296 \<le> ?r \<and> ?r \<le> 57343)" using b b1 b2 hi by (cases "x = 13") auto
  moreover have "char_of (224 + x) = b" "char_of (128 + y) = b1" "char_of (128 + z) = b2"
    using b(1) b1(1) b2(1) by (metis char_of_char)+
  ultimately show ?thesis by (auto simp: encodeRune_def)
qed

lemma encode4:
  assumes "240 \<le> byte b" "byte b \<le> 244" "128 \<le> byte b1" "byte b1 \<le> 191" "128 \<le> byte b2" "byte b2 \<le> 191"
    "128 \<le> byte b3" "byte b3 \<le> 191"
    and "byte b = 240 \<Longrightarrow> 144 \<le> byte b1" and "byte b = 244 \<Longrightarrow> byte b1 \<le> 143"
  shows "encodeRune (byte b mod 8 * 262144 + byte b1 mod 64 * 4096 + byte b2 mod 64 * 64 + byte b3 mod 64)
    = [b, b1, b2, b3]"
proof -
  define x y z u where "x = byte b - 240" and "y = byte b1 - 128" and "z = byte b2 - 128" and "u = byte b3 - 128"
  have b: "byte b = 240 + x" "x < 5" and b1: "byte b1 = 128 + y" "y < 64"
    and b2: "byte b2 = 128 + z" "z < 64" and b3: "byte b3 = 128 + u" "u < 64"
    using assms by (auto simp: x_def y_def z_def u_def)
  have lo: "x = 0 \<Longrightarrow> 16 \<le> y" and hi: "x = 4 \<Longrightarrow> y < 16" using assms b b1 by auto
  define r where "r = x * 262144 + y * 4096 + z * 64 + u"
  have "byte b mod 8 = x" "byte b1 mod 64 = y" "byte b2 mod 64 = z" "byte b3 mod 64 = u"
    using digit_mod [of x 8 30] digit_mod [of y 64 2] digit_mod [of z 64 2] digit_mod [of u 64 2] b b1 b2 b3
    by simp_all
  then have "byte b mod 8 * 262144 + byte b1 mod 64 * 4096 + byte b2 mod 64 * 64 + byte b3 mod 64 = r"
    by (simp only: r_def)
  moreover have "r div 262144 = x"
    using digit_div [of "y * 4096 + z * 64 + u" 262144 x] b1 b2 b3 by (simp add: r_def add.assoc)
  moreover have "r div 4096 mod 64 = y"
    using digit_div [of "z * 64 + u" 4096 "x * 64 + y"] digit_mod [of y 64 x] b1 b2 b3
    by (simp add: r_def algebra_simps)
  moreover have "r div 64 mod 64 = z" "r mod 64 = u"
    using digit_div [of u 64 "x * 4096 + y * 64 + z"] digit_mod [of u 64 "x * 4096 + y * 64 + z"]
      digit_mod [of z 64 "x * 64 + y"] b2 b3
    by (simp_all add: r_def algebra_simps)
  moreover have "65536 \<le> r" using b b1 b2 b3 lo unfolding r_def by (cases x) auto
  moreover have "r \<le> 1114111" using b b1 b2 b3 hi unfolding r_def by (cases "x = 4") auto
  moreover have "char_of (240 + x) = b" "char_of (128 + y) = b1" "char_of (128 + z) = b2" "char_of (128 + u) = b3"
    using b(1) b1(1) b2(1) b3(1) by (metis char_of_char)+
  ultimately show ?thesis by (simp add: encodeRune_def)
qed

lemma decodeRune_multi:
  assumes "128 \<le> byte b" and "decodeRune (b # bs) = (r, w)" and "\<not> (r = runeError \<and> w = 1)"
  shows "b # take (w - 1) bs = encodeRune r" and "\<forall>c\<in>set (take (w - 1) bs). 128 \<le> byte c"
  using assms encode2 [of b] encode3 [of b] encode4 [of b]
  by (auto simp: leadInfo_def contByte_def split: if_splits list.splits option.splits)

subsection \<open>Validity of concatenations\<close>

lemma decodeRune_prefix:
  assumes "decodeRune (b # bs) = (r, w)" and "\<not> (r = runeError \<and> w = 1)"
  shows "w - 1 \<le> length bs \<and> decodeRune (b # take (w - 1) bs @ t) = (r, w)"
proof (cases "byte b < 128")
  case True
  then show ?thesis using assms(1) by auto
next
  case hi: False
  then obtain len lo up where li: "leadInfo (byte b) = Some (len, lo, up)"
    using assms by (cases "leadInfo (byte b)") auto
  obtain b1 bs1 where b1: "bs = b1 # bs1" using assms hi li by (cases bs) auto
  have ok1: "\<not> (byte b1 < lo \<or> up < byte b1)" using assms hi li b1 by (cases "byte b1 < lo \<or> up < byte b1") auto
  show ?thesis
  proof (cases "len = 2")
    case True
    then show ?thesis using assms(1) hi li b1 ok1 by auto
  next
    case len2: False
    obtain b2 bs2 where b2: "bs1 = b2 # bs2" using assms hi li b1 ok1 len2 by (cases bs1) auto
    have ok2: "contByte b2" using assms hi li b1 ok1 len2 b2 by (cases "contByte b2") auto
    show ?thesis
    proof (cases "len = 3")
      case True
      then show ?thesis using assms(1) hi li b1 ok1 b2 ok2 by auto
    next
      case len3: False
      obtain b3 bs3 where b3: "bs2 = b3 # bs3" using assms hi li b1 ok1 len2 b2 ok2 len3 by (cases bs2) auto
      have "contByte b3" using assms hi li b1 ok1 len2 b2 ok2 len3 b3 by (cases "contByte b3") auto
      then show ?thesis using assms(1) hi li b1 ok1 len2 b2 ok2 len3 b3 by auto
    qed
  qed
qed

lemma utf8Valid_append: "utf8Valid s \<Longrightarrow> utf8Valid (s @ t) \<longleftrightarrow> utf8Valid t"
proof (induction s rule: utf8Valid.induct)
  case 1
  then show ?case by simp
next
  case (2 b bs)
  obtain r w where rw: "decodeRune (b # bs) = (r, w)" by (cases "decodeRune (b # bs)") auto
  with 2(2) have ok: "\<not> (r = runeError \<and> w = 1)" "utf8Valid (drop (w - 1) bs)" by auto
  note p = decodeRune_prefix [OF rw ok(1), of "drop (w - 1) bs @ t"]
  then have "decodeRune (b # bs @ t) = (r, w)" by (simp flip: append_assoc)
  moreover have "drop (w - 1) (bs @ t) = drop (w - 1) bs @ t" using conjunct1 [OF p] by (simp del: decodeRune.simps)
  ultimately have "utf8Valid ((b # bs) @ t) \<longleftrightarrow> utf8Valid (drop (w - 1) bs @ t)"
    using ok(1) by (simp del: decodeRune.simps drop_append)
  with 2(1) [OF rw [symmetric]] ok show ?case by simp
qed

lemma utf8Valid_rune:
  assumes "decodeRune (b # bs) = (r, w)" and "\<not> (r = runeError \<and> w = 1)"
  shows "utf8Valid (b # take (w - 1) bs)"
proof -
  note p = decodeRune_prefix [OF assms, of "[]"]
  then have "drop (w - 1) (take (w - 1) bs) = []" by simp
  with p assms(2) show ?thesis by (simp del: decodeRune.simps)
qed

lemma utf8Valid_Cons_ascii [simp]: "byte b < 128 \<Longrightarrow> utf8Valid (b # s) \<longleftrightarrow> utf8Valid s"
  by (simp add: runeError_def)

end
