(* ===== verification/GoJson.thy ===== *)
theory GoJson
  imports GoText "HOL-Library.Monad_Syntax"
begin

text \<open>
  The part of \<open>encoding/json\<close> the program relies on: the grammar its scanner accepts (as a
  parser on bytes into a tree of values), the text \<open>json.Marshal\<close> writes (HTML-safe escaping
  included), and the rules by which decoding fills Go values. A \<open>json.RawMessage\<close> is the
  subtree it spells: the sources only ever compare it with \<open>null\<close> or parse it again.

  Main results: the parser never runs out of its fuel, so more of it changes nothing, and reading back what
  \<open>Marshal\<close> wrote gives the value that was written.
\<close>

section \<open>Values\<close>

datatype json =
    JNull
  | JBool bool
  | JNum string
  | JStr string
  | JArr "json list"
  | JObj "(string \<times> json) list"

section \<open>The scanner\<close>

definition isSpace :: "char \<Rightarrow> bool" where
  "isSpace c = (c = CHR 0x20 \<or> c = CHR 0x09 \<or> c = CHR 0x0A \<or> c = CHR 0x0D)"

definition skipSpace :: "string \<Rightarrow> string" where
  "skipSpace s = dropWhile isSpace s"

definition hexVal :: "char \<Rightarrow> nat option" where
  "hexVal c =
     (if isDigit c then Some (byte c - 48)
      else if CHR ''a'' \<le> c \<and> c \<le> CHR ''f'' then Some (byte c - 87)
      else if CHR ''A'' \<le> c \<and> c \<le> CHR ''F'' then Some (byte c - 55)
      else None)"

text \<open>\<open>getu4\<close>: four hexadecimal digits, without the leading \<open>\u\<close>.\<close>

definition hex4 :: "string \<Rightarrow> (nat \<times> string) option" where
  "hex4 s =
     (case s of
        a # b # c # d # rest \<Rightarrow>
          do { w \<leftarrow> hexVal a; x \<leftarrow> hexVal b; y \<leftarrow> hexVal c; z \<leftarrow> hexVal d;
               Some (w * 4096 + x * 256 + y * 16 + z, rest) }
      | _ \<Rightarrow> None)"

definition peekU4 :: "string \<Rightarrow> (nat \<times> string) option" where
  "peekU4 s =
     (case s of
        b # u # rest \<Rightarrow> if b = CHR 0x5C \<and> u = CHR ''u'' then hex4 rest else None
      | _ \<Rightarrow> None)"

definition simpleEscape :: "char \<Rightarrow> char option" where
  "simpleEscape c =
     (if c = CHR 0x22 \<or> c = CHR 0x5C \<or> c = CHR ''/'' then Some c
      else if c = CHR ''b'' then Some (CHR 0x08)
      else if c = CHR ''f'' then Some (CHR 0x0C)
      else if c = CHR ''n'' then Some (CHR 0x0A)
      else if c = CHR ''r'' then Some (CHR 0x0D)
      else if c = CHR ''t'' then Some (CHR 0x09)
      else None)"

definition isSurrogate :: "nat \<Rightarrow> bool" where
  "isSurrogate r = (55296 \<le> r \<and> r < 57344)"

text \<open>\<open>utf16.DecodeRune\<close> of a \<open>\u\<close> escape and the one after it; \<^term>\<open>None\<close> is U+FFFD.\<close>

definition surrogatePair :: "nat \<Rightarrow> nat \<Rightarrow> nat option" where
  "surrogatePair r1 r2 =
     (if 55296 \<le> r1 \<and> r1 < 56320 \<and> 56320 \<le> r2 \<and> r2 < 57344
      then Some ((r1 - 55296) * 1024 + (r2 - 56320) + 65536) else None)"

definition prepend :: "string \<Rightarrow> (string \<times> string) option \<Rightarrow> (string \<times> string) option" where
  "prepend p r = map_option (\<lambda>(t, rest). (p @ t, rest)) r"

lemma hex4_length [termination_simp]: "hex4 s = Some (r, rest) \<Longrightarrow> length rest < length s"
  by (auto simp: hex4_def Option.bind_eq_Some_conv split: list.splits)

lemma peekU4_length [termination_simp]: "peekU4 s = Some (r, rest) \<Longrightarrow> length rest < length s"
  by (auto simp: peekU4_def split: list.splits if_splits dest: hex4_length)

text \<open>
  A string literal after its opening quote: the unescaped bytes and the text after the closing
  quote. Bytes from 0x80 on are copied; \<open>utf8Coerce\<close> then replaces invalid encodings.
\<close>

function scanString :: "string \<Rightarrow> (string \<times> string) option" where
  "scanString [] = None"
| "scanString (c # cs) =
     (if c = CHR 0x22 then Some ([], cs)
      else if c = CHR 0x5C then
        (case cs of
           [] \<Rightarrow> None
         | e # es \<Rightarrow>
             if e = CHR ''u'' then
               (case hex4 es of
                  None \<Rightarrow> None
                | Some (r, rest) \<Rightarrow>
                    if isSurrogate r then
                      (case peekU4 rest of
                         None \<Rightarrow> prepend (encodeRune runeError) (scanString rest)
                       | Some (r2, rest2) \<Rightarrow>
                           (case surrogatePair r r2 of
                              Some p \<Rightarrow> prepend (encodeRune p) (scanString rest2)
                            | None \<Rightarrow> prepend (encodeRune runeError) (scanString rest)))
                    else prepend (encodeRune r) (scanString rest))
             else (case simpleEscape e of
                     None \<Rightarrow> None
                   | Some d \<Rightarrow> prepend [d] (scanString es)))
      else if byte c < 32 then None
      else prepend [c] (scanString cs))"
  by pat_completeness auto
termination
  by (relation "measure length") (auto dest!: hex4_length peekU4_length)

declare scanString.simps [simp del]

lemma prepend_Some [simp]:
  "prepend p r = Some (t, rest) \<longleftrightarrow> (\<exists>t'. r = Some (t', rest) \<and> t = p @ t')"
  by (auto simp: prepend_def)

lemma scanString_length: "scanString s = Some (t, rest) \<Longrightarrow> length rest < length s"
proof (induction "length s" arbitrary: s t rule: less_induct)
  case less
  define N where "N = length s"
  have IH: "length rest < N" if "scanString s' = Some (t', rest)" "length s' < N" for s' t'
    using less.hyps that unfolding N_def by (meson less_trans)
  obtain c cs where s: "s = c # cs"
    using less.prems by (cases s) (auto simp: scanString.simps)
  then have N: "N = Suc (length cs)" by (simp add: N_def)
  have "length rest < N"
    using less.prems unfolding s
    by (auto simp: scanString.simps(2) split: if_splits list.splits option.splits
             dest!: hex4_length peekU4_length) ((erule IH)?, simp add: N)+
  then show ?case by (simp add: N_def)
qed

text \<open>Numbers: \<open>-?(0|[1-9][0-9]*)(\.[0-9]+)?([eE][+-]?[0-9]+)?\<close>, kept as their text.\<close>

definition scanExp :: "string \<Rightarrow> string \<Rightarrow> (string \<times> string) option" where
  "scanExp lit s =
     (case s of
        [] \<Rightarrow> Some (lit, s)
      | c # cs \<Rightarrow>
          if c = CHR ''e'' \<or> c = CHR ''E'' then
            (let (sg, ds) = (case cs of
                               [] \<Rightarrow> ([], cs)
                             | d # ds \<Rightarrow> if d = CHR ''+'' \<or> d = CHR ''-'' then ([d], ds) else ([], cs));
                 digits = takeWhile isDigit ds
             in if digits = [] then None
                else Some (lit @ c # sg @ digits, dropWhile isDigit ds))
          else Some (lit, s))"

definition scanFrac :: "string \<Rightarrow> string \<Rightarrow> (string \<times> string) option" where
  "scanFrac lit s =
     (case s of
        [] \<Rightarrow> Some (lit, s)
      | c # cs \<Rightarrow>
          if c = CHR ''.'' then
            (let digits = takeWhile isDigit cs
             in if digits = [] then None
                else scanExp (lit @ c # digits) (dropWhile isDigit cs))
          else scanExp lit s)"

definition scanNumber :: "string \<Rightarrow> (string \<times> string) option" where
  "scanNumber s =
     (let (neg, s1) = (case s of
                         [] \<Rightarrow> ([], s)
                       | c # cs \<Rightarrow> if c = CHR ''-'' then ([c], cs) else ([], s))
      in case s1 of
           [] \<Rightarrow> None
         | c # cs \<Rightarrow>
             if c = CHR ''0'' then scanFrac (neg @ [c]) cs
             else if isDigit c then
               scanFrac (neg @ c # takeWhile isDigit cs) (dropWhile isDigit cs)
             else None)"

definition scanLiteral :: "string \<Rightarrow> (json \<times> string) option" where
  "scanLiteral s =
     (if hasPrefix s ''null'' then Some (JNull, drop 4 s)
      else if hasPrefix s ''true'' then Some (JBool True, drop 4 s)
      else if hasPrefix s ''false'' then Some (JBool False, drop 5 s)
      else map_option (\<lambda>(lit, rest). (JNum lit, rest)) (scanNumber s))"

section \<open>The parser\<close>

text \<open>
  Recursive descent with a depth budget: every call spends one unit. Between two calls that do
  not consume text there is always one that does, so twice the length of the text is enough
  (\<open>parse_fuel\<close> below).
\<close>

fun parseValue :: "nat \<Rightarrow> string \<Rightarrow> (json \<times> string) option"
  and parseMembers :: "nat \<Rightarrow> string \<Rightarrow> ((string \<times> json) list \<times> string) option"
  and parseElems :: "nat \<Rightarrow> string \<Rightarrow> (json list \<times> string) option"
where
  "parseValue 0 s = None"
| "parseValue (Suc n) s =
     (case skipSpace s of
        [] \<Rightarrow> None
      | c # cs \<Rightarrow>
          if c = CHR ''{'' then
            (case skipSpace cs of
               [] \<Rightarrow> None
             | d # ds \<Rightarrow> if d = CHR ''}'' then Some (JObj [], ds)
                        else map_option (\<lambda>(ms, r). (JObj ms, r)) (parseMembers n cs))
          else if c = CHR ''['' then
            (case skipSpace cs of
               [] \<Rightarrow> None
             | d # ds \<Rightarrow> if d = CHR '']'' then Some (JArr [], ds)
                        else map_option (\<lambda>(vs, r). (JArr vs, r)) (parseElems n cs))
          else if c = CHR 0x22 then
            map_option (\<lambda>(t, r). (JStr (utf8Coerce t), r)) (scanString cs)
          else scanLiteral (c # cs))"
| "parseMembers 0 s = None"
| "parseMembers (Suc n) s =
     (case skipSpace s of
        [] \<Rightarrow> None
      | c # cs \<Rightarrow>
          if c \<noteq> CHR 0x22 then None else
          (case scanString cs of
             None \<Rightarrow> None
           | Some (k, r) \<Rightarrow>
               (case skipSpace r of
                  [] \<Rightarrow> None
                | d # ds \<Rightarrow>
                    if d \<noteq> CHR '':'' then None else
                    (case parseValue n ds of
                       None \<Rightarrow> None
                     | Some (v, r2) \<Rightarrow>
                         (case skipSpace r2 of
                            [] \<Rightarrow> None
                          | e # es \<Rightarrow>
                              if e = CHR ''}'' then Some ([(utf8Coerce k, v)], es)
                              else if e = CHR '','' then
                                map_option (\<lambda>(ms, r). ((utf8Coerce k, v) # ms, r)) (parseMembers n es)
                              else None)))))"
| "parseElems 0 s = None"
| "parseElems (Suc n) s =
     (case parseValue n s of
        None \<Rightarrow> None
      | Some (v, r) \<Rightarrow>
          (case skipSpace r of
             [] \<Rightarrow> None
           | e # es \<Rightarrow>
               if e = CHR '']'' then Some ([v], es)
               else if e = CHR '','' then
                 map_option (\<lambda>(vs, r). (v # vs, r)) (parseElems n es)
               else None))"

declare parseValue.simps [simp del] parseMembers.simps [simp del] parseElems.simps [simp del]

text \<open>\<open>json.Valid\<close> together with the tree: one value, nothing but white space around it.\<close>

definition jsonParse :: "string \<Rightarrow> json option" where
  "jsonParse s =
     (case parseValue (Suc (2 * length s)) s of
        None \<Rightarrow> None
      | Some (v, rest) \<Rightarrow> if skipSpace rest = [] then Some v else None)"


subsection \<open>The budget is enough\<close>

lemma skipSpace_length: "skipSpace s = x # xs \<Longrightarrow> length xs < length s"
  using length_dropWhile_le [of isSpace s] by (simp add: skipSpace_def)

lemma scanExp_length: "scanExp lit s = Some (l, r) \<Longrightarrow> length r \<le> length s"
  by (auto simp: scanExp_def Let_def split: list.splits if_splits prod.splits
           intro: order_trans [OF length_dropWhile_le])

lemma scanFrac_length: "scanFrac lit s = Some (l, r) \<Longrightarrow> length r \<le> length s"
  using length_dropWhile_le [of isDigit "tl s"]
  by (fastforce simp: scanFrac_def Let_def split: list.splits if_splits dest: scanExp_length)

lemma scanNumber_length: "scanNumber s = Some (l, r) \<Longrightarrow> length r < length s"
proof -
  assume num: "scanNumber s = Some (l, r)"
  have d: "length (dropWhile isDigit x) \<le> length x" for x :: string
    by (rule length_dropWhile_le)
  from num show ?thesis
    unfolding scanNumber_def
    by (auto simp: Let_def split: list.splits if_splits prod.splits dest!: scanFrac_length)
       (meson d le_imp_less_Suc less_SucI order_trans)+
qed

lemma scanLiteral_length: "scanLiteral s = Some (v, r) \<Longrightarrow> length r < length s"
  by (auto simp: scanLiteral_def hasPrefix_def split: if_splits dest: scanNumber_length)
     (metis length_drop length_greater_0_conv diff_less list.distinct(1) list.size(3) take_eq_Nil
        zero_less_numeral)+

lemma parse_length_step:
  assumes V: "\<And>s v r. parseValue n s = Some (v, r) \<Longrightarrow> length r < length s"
    and M: "\<And>s ms r. parseMembers n s = Some (ms, r) \<Longrightarrow> length r < length s"
    and E: "\<And>s vs r. parseElems n s = Some (vs, r) \<Longrightarrow> length r < length s"
  shows "parseValue (Suc n) s = Some (v, r) \<Longrightarrow> length r < length s"
    and "parseMembers (Suc n) s = Some (ms, r) \<Longrightarrow> length r < length s"
    and "parseElems (Suc n) s = Some (vs, r) \<Longrightarrow> length r < length s"
proof -
  note dests = skipSpace_length scanString_length scanLiteral_length V M E
  show "parseValue (Suc n) s = Some (v, r) \<Longrightarrow> length r < length s"
    by (auto simp: parseValue.simps split: list.splits if_splits dest!: dests)
  show "parseMembers (Suc n) s = Some (ms, r) \<Longrightarrow> length r < length s"
    by (auto simp: parseMembers.simps split: list.splits if_splits option.splits dest!: dests)
  show "parseElems (Suc n) s = Some (vs, r) \<Longrightarrow> length r < length s"
    by (auto simp: parseElems.simps split: list.splits if_splits option.splits dest!: dests)
qed

lemma parse_length:
  shows "parseValue n s = Some (v, r) \<Longrightarrow> length r < length s"
    and "parseMembers n s = Some (ms, r) \<Longrightarrow> length r < length s"
    and "parseElems n s = Some (vs, r) \<Longrightarrow> length r < length s"
proof (induction n arbitrary: s v r ms vs)
  case 0
  {
    case 1
    then show ?case by (simp add: parseValue.simps)
  next
    case 2
    then show ?case by (simp add: parseMembers.simps)
  next
    case 3
    then show ?case by (simp add: parseElems.simps)
  }
next
  case (Suc n)
  {
    case 1
    with parse_length_step(1) [of n] Suc show ?case by blast
  next
    case 2
    with parse_length_step(2) [of n] Suc show ?case by blast
  next
    case 3
    with parse_length_step(3) [of n] Suc show ?case by blast
  }
qed

lemma parse_fuel_step:
  assumes V: "\<And>s m. 2 * length s < n \<Longrightarrow> 2 * length s < m \<Longrightarrow> parseValue n s = parseValue m s"
    and M: "\<And>s m. 2 * length s < n \<Longrightarrow> 2 * length s < m \<Longrightarrow> parseMembers n s = parseMembers m s"
    and E: "\<And>s m. 2 * length s + 1 < n \<Longrightarrow> 2 * length s + 1 < m \<Longrightarrow> parseElems n s = parseElems m s"
  shows "2 * length s < Suc n \<Longrightarrow> 2 * length s < Suc m \<Longrightarrow> parseValue (Suc n) s = parseValue (Suc m) s"
    and "2 * length s < Suc n \<Longrightarrow> 2 * length s < Suc m \<Longrightarrow> parseMembers (Suc n) s = parseMembers (Suc m) s"
    and "2 * length s + 1 < Suc n \<Longrightarrow> 2 * length s + 1 < Suc m \<Longrightarrow> parseElems (Suc n) s = parseElems (Suc m) s"
proof -
  assume b: "2 * length s < Suc n" "2 * length s < Suc m"
  show "parseValue (Suc n) s = parseValue (Suc m) s"
  proof (cases "skipSpace s")
    case Nil
    then show ?thesis by (simp add: parseValue.simps)
  next
    case (Cons c cs)
    then have "length cs < length s" by (rule skipSpace_length)
    with b M [of cs m] E [of cs m] Cons show ?thesis
      by (auto simp: parseValue.simps split: list.splits)
  qed
next
  assume b: "2 * length s < Suc n" "2 * length s < Suc m"
  have V': "parseValue n ds = parseValue m ds" if "length ds < length s" for ds
    using V [of ds m] b that by simp
  have M': "parseMembers n ds = parseMembers m ds" if "length ds < length s" for ds
    using M [of ds m] b that by simp
  show "parseMembers (Suc n) s = parseMembers (Suc m) s"
  proof (cases "\<exists>c cs k r d ds. skipSpace s = c # cs \<and> scanString cs = Some (k, r) \<and> skipSpace r = d # ds")
    case False
    then show ?thesis
      by (auto simp: parseMembers.simps split: list.splits option.splits)
  next
    case True
    then obtain c cs k r d ds
      where eqs: "skipSpace s = c # cs" "scanString cs = Some (k, r)" "skipSpace r = d # ds" by blast
    then have "length ds < length s"
      by (meson skipSpace_length scanString_length less_trans)
    then have "parseValue n ds = parseValue m ds" by (rule V')
    moreover have "parseMembers n es = parseMembers m es"
      if "parseValue m ds = Some (v, r2)" "skipSpace r2 = e # es" for v r2 e es
      using that \<open>length ds < length s\<close> by (meson M' skipSpace_length parse_length(1) less_trans)
    ultimately show ?thesis
      using eqs by (auto simp: parseMembers.simps split: list.splits option.splits)
  qed
next
  assume b: "2 * length s + 1 < Suc n" "2 * length s + 1 < Suc m"
  have V': "parseValue n s = parseValue m s"
    using V [of s m] b by simp
  have E': "parseElems n ds = parseElems m ds" if "length ds < length s" for ds
    using E [of ds m] b that by simp
  show "parseElems (Suc n) s = parseElems (Suc m) s"
  proof (cases "\<exists>v r e es. parseValue m s = Some (v, r) \<and> skipSpace r = e # es")
    case False
    then show ?thesis
      by (auto simp: parseElems.simps V' split: list.splits option.splits)
  next
    case True
    then obtain v r e es where eqs: "parseValue m s = Some (v, r)" "skipSpace r = e # es" by blast
    then have "length es < length s" by (meson skipSpace_length parse_length(1) less_trans)
    with E' eqs show ?thesis by (simp add: parseElems.simps V')
  qed
qed

lemma parse_fuel:
  shows "2 * length s < n \<Longrightarrow> 2 * length s < m \<Longrightarrow> parseValue n s = parseValue m s"
    and "2 * length s < n \<Longrightarrow> 2 * length s < m \<Longrightarrow> parseMembers n s = parseMembers m s"
    and "2 * length s + 1 < n \<Longrightarrow> 2 * length s + 1 < m \<Longrightarrow> parseElems n s = parseElems m s"
proof (induction n arbitrary: s m)
  case 0
  {
    case 1
    then show ?case by simp
  next
    case 2
    then show ?case by simp
  next
    case 3
    then show ?case by simp
  }
next
  case (Suc n)
  {
    case 1
    then obtain m' where "m = Suc m'" by (cases m) auto
    with parse_fuel_step(1) [of n s m'] Suc 1 show ?case by blast
  next
    case 2
    then obtain m' where "m = Suc m'" by (cases m) auto
    with parse_fuel_step(2) [of n s m'] Suc 2 show ?case by blast
  next
    case 3
    then obtain m' where "m = Suc m'" by (cases m) auto
    with parse_fuel_step(3) [of n s m'] Suc 3 show ?case by blast
  }
qed

section \<open>Marshalling\<close>

text \<open>
  \<open>json.Marshal\<close> with its default HTML-safe escaping. A string is written between quotes;
  \<open>quoteBody\<close> is what stands between them.
\<close>

definition hexNibble :: "nat \<Rightarrow> char" where
  "hexNibble n = (if n < 10 then char_of (48 + n) else char_of (87 + n))"

definition escapeByte :: "char \<Rightarrow> string" where
  "escapeByte b =
     (if b = CHR 0x22 \<or> b = CHR 0x5C then [CHR 0x5C, b]
      else if b = CHR 0x08 then [CHR 0x5C, CHR ''b'']
      else if b = CHR 0x0C then [CHR 0x5C, CHR ''f'']
      else if b = CHR 0x0A then [CHR 0x5C, CHR ''n'']
      else if b = CHR 0x0D then [CHR 0x5C, CHR ''r'']
      else if b = CHR 0x09 then [CHR 0x5C, CHR ''t'']
      else if byte b < 32 \<or> b = CHR ''<'' \<or> b = CHR ''>'' \<or> b = CHR ''&'' then
        [CHR 0x5C, CHR ''u'', CHR ''0'', CHR ''0'', hexNibble (byte b div 16), hexNibble (byte b mod 16)]
      else [b])"

fun quoteBody :: "string \<Rightarrow> string" where
  "quoteBody [] = []"
| "quoteBody (b # bs) =
     (if byte b < 128 then escapeByte b @ quoteBody bs
      else case decodeRune (b # bs) of
        (r, w) \<Rightarrow>
          (if r = runeError \<and> w = 1 then CHR 0x5C # ''ufffd''
           else if r = 8232 then CHR 0x5C # ''u2028''
           else if r = 8233 then CHR 0x5C # ''u2029''
           else b # take (w - 1) bs) @ quoteBody (drop (w - 1) bs))"

definition quote :: "string \<Rightarrow> string" where
  "quote s = CHR 0x22 # quoteBody s @ [CHR 0x22]"

fun commaSep :: "string list \<Rightarrow> string" where
  "commaSep [] = []"
| "commaSep [x] = x"
| "commaSep (x # y # ys) = x @ CHR '','' # commaSep (y # ys)"

fun jsonPrint :: "json \<Rightarrow> string" where
  "jsonPrint JNull = ''null''"
| "jsonPrint (JBool b) = (if b then ''true'' else ''false'')"
| "jsonPrint (JNum l) = l"
| "jsonPrint (JStr s) = quote s"
| "jsonPrint (JArr vs) = CHR ''['' # commaSep (map jsonPrint vs) @ [CHR '']'']"
| "jsonPrint (JObj ms) =
     CHR ''{'' # commaSep (map (\<lambda>(k, v). quote k @ CHR '':'' # jsonPrint v) ms) @ [CHR ''}'']"

text \<open>
  Trees whose strings are valid UTF-8 and whose numbers are natural numerals: every tree the
  encoders of the program build from admitted documents.
\<close>

fun plainJson :: "json \<Rightarrow> bool" where
  "plainJson JNull = True"
| "plainJson (JBool b) = True"
| "plainJson (JNum l) = canonicalNumeral l"
| "plainJson (JStr s) = utf8Valid s"
| "plainJson (JArr vs) = (\<forall>v\<in>set vs. plainJson v)"
| "plainJson (JObj ms) = (\<forall>(k, v)\<in>set ms. utf8Valid k \<and> plainJson v)"

subsection \<open>Reading back what was written\<close>

lemma prepend_prepend [simp]: "prepend p (prepend q r) = prepend (p @ q) r" "prepend [] r = r"
  by (cases r; auto simp: prepend_def)+

lemma hexVal_hexNibble: "n < 16 \<Longrightarrow> hexVal (hexNibble n) = Some n"
  by (auto simp: hexVal_def hexNibble_def isDigit_def less_eq_char_def)

lemma scanString_step:
  "scanString (CHR 0x22 # s) = Some ([], s)"
  "simpleEscape e = Some d \<Longrightarrow> e \<noteq> CHR ''u'' \<Longrightarrow>
     scanString (CHR 0x5C # e # s) = prepend [d] (scanString s)"
  "hex4 s = Some (r, rest) \<Longrightarrow> \<not> isSurrogate r \<Longrightarrow>
     scanString (CHR 0x5C # CHR ''u'' # s) = prepend (encodeRune r) (scanString rest)"
  "c \<noteq> CHR 0x22 \<Longrightarrow> c \<noteq> CHR 0x5C \<Longrightarrow> 32 \<le> byte c \<Longrightarrow>
     scanString (c # s) = prepend [c] (scanString s)"
  by (simp_all add: scanString.simps)

lemma scanString_escapeByte:
  assumes "byte b < 128"
  shows "scanString (escapeByte b @ s) = prepend [b] (scanString s)"
proof -
  have h: "hex4 (CHR ''0'' # CHR ''0'' # hexNibble (byte b div 16) # hexNibble (byte b mod 16) # s) = Some (byte b, s)"
    using assms by (simp add: hex4_def hexVal_hexNibble) (simp add: hexVal_def isDigit_def)
  have "encodeRune (byte b) = [b]" "\<not> isSurrogate (byte b)"
    using assms by (simp_all add: encodeRune_def isSurrogate_def)
  then show ?thesis
    using scanString_step(3) [OF h]
    by (auto simp: escapeByte_def scanString_step simpleEscape_def)
qed

lemma scanString_copy:
  "\<forall>c\<in>set p. 128 \<le> byte c \<Longrightarrow> scanString (p @ s) = prepend p (scanString s)"
proof (induction p)
  case Nil
  then show ?case by simp
next
  case (Cons c p)
  then have "scanString (c # p @ s) = prepend [c] (scanString (p @ s))"
    by (intro scanString_step(4)) auto
  with Cons show ?case by simp
qed

lemma scanString_lineSep:
  "scanString (CHR 0x5C # CHR ''u'' # ''2028'' @ s) = prepend (encodeRune 8232) (scanString s)"
  "scanString (CHR 0x5C # CHR ''u'' # ''2029'' @ s) = prepend (encodeRune 8233) (scanString s)"
  by (rule scanString_step(3); simp add: hex4_def hexVal_def isDigit_def isSurrogate_def)+

lemma scanString_quoteBody:
  "utf8Valid s \<Longrightarrow> scanString (quoteBody s @ CHR 0x22 # rest) = Some (s, rest)"
proof (induction s rule: quoteBody.induct)
  case 1
  then show ?case by (simp add: scanString_step)
next
  case (2 b bs)
  show ?case
  proof (cases "byte b < 128")
    case True
    then have "utf8Valid bs" using 2(3) by (simp split: if_splits)
    with True 2(1) show ?thesis by (simp add: scanString_escapeByte)
  next
    case False
    obtain r w where rw: "decodeRune (b # bs) = (r, w)" by (cases "decodeRune (b # bs)") auto
    with 2(3) have ok: "\<not> (r = runeError \<and> w = 1)" "utf8Valid (drop (w - 1) bs)" by auto
    let ?q = "quoteBody (drop (w - 1) bs) @ CHR 0x22 # rest"
    have IH: "scanString ?q = Some (drop (w - 1) bs, rest)"
      using 2(2) [OF False rw [symmetric]] ok by blast
    have hi: "\<forall>c\<in>set (b # take (w - 1) bs). 128 \<le> byte c"
      using decodeRune_multi(2) [OF _ rw ok(1)] False by simp
    have enc: "b # take (w - 1) bs = encodeRune r"
      using decodeRune_multi(1) [OF _ rw ok(1)] False by simp
    have "scanString (quoteBody (b # bs) @ CHR 0x22 # rest) = prepend (b # take (w - 1) bs) (scanString ?q)"
      using False rw ok(1) scanString_lineSep [of ?q] scanString_copy [OF hi, of ?q] enc
      by (cases "r = 8232"; cases "r = 8233") auto
    then show ?thesis using IH by (simp add: prepend_def)
  qed
qed

definition stopsNumber :: "string \<Rightarrow> bool" where
  "stopsNumber rest =
     (case rest of [] \<Rightarrow> True
      | c # _ \<Rightarrow> \<not> isDigit c \<and> c \<noteq> CHR ''.'' \<and> c \<noteq> CHR ''e'' \<and> c \<noteq> CHR ''E'')"

lemma stopsNumber_simps [simp]:
  "stopsNumber []" "stopsNumber (CHR '','' # s)" "stopsNumber (CHR '']'' # s)" "stopsNumber (CHR ''}'' # s)"
  by (simp_all add: stopsNumber_def isDigit_def)

lemma scanFrac_stop: "stopsNumber rest \<Longrightarrow> scanFrac lit rest = Some (lit, rest)"
  by (auto simp: stopsNumber_def scanFrac_def scanExp_def split: list.splits)

lemma takeWhile_digits:
  "list_all isDigit cs \<Longrightarrow> stopsNumber rest \<Longrightarrow>
     takeWhile isDigit (cs @ rest) = cs \<and> dropWhile isDigit (cs @ rest) = rest"
  by (cases rest) (auto simp: stopsNumber_def list_all_iff)

lemma scanNumber_numeral:
  assumes "canonicalNumeral l" and "stopsNumber rest"
  shows "scanNumber (l @ rest) = Some (l, rest)"
proof (cases l)
  case Nil
  with assms show ?thesis by (simp add: canonicalNumeral_def)
next
  case (Cons c cs)
  with assms have c: "isDigit c" "list_all isDigit cs" "c = CHR ''0'' \<longrightarrow> cs = []"
    by (auto simp: canonicalNumeral_def isDigit_def)
  then have "c \<noteq> CHR ''-''" by (auto simp: isDigit_def)
  with Cons c assms show ?thesis
    using takeWhile_digits [of cs rest] scanFrac_stop [of rest]
    by (auto simp: scanNumber_def)
qed

lemma scanLiteral_numeral:
  assumes "canonicalNumeral l" and "stopsNumber rest"
  shows "scanLiteral (l @ rest) = Some (JNum l, rest)"
proof -
  obtain c cs where l: "l = c # cs" and "isDigit c"
    using assms(1) by (cases l) (auto simp: canonicalNumeral_def isDigit_def)
  then have "c \<noteq> CHR ''n''" "c \<noteq> CHR ''t''" "c \<noteq> CHR ''f''" by (auto simp: isDigit_def)
  then show ?thesis
    using scanNumber_numeral [OF assms] by (simp add: scanLiteral_def hasPrefix_def l)
qed

lemma all_Suc_ge: "(\<forall>n \<ge> Suc N. P n) \<longleftrightarrow> (\<forall>n \<ge> N. P (Suc n))"
  by (metis Suc_le_D Suc_le_mono)

text \<open>
  A text reads as a value when it starts with a significant character and the parser, given enough
  budget and a continuation that ends a number, returns that value and the continuation.
\<close>

definition readsAs :: "string \<Rightarrow> json \<Rightarrow> bool" where
  "readsAs tx v \<longleftrightarrow> (\<exists>c cs. tx = c # cs \<and> \<not> isSpace c \<and> c \<noteq> CHR '']'' \<and> c \<noteq> CHR ''}'') \<and>
     (\<forall>rest. stopsNumber rest \<longrightarrow> (\<exists>N. \<forall>n \<ge> N. parseValue n (tx @ rest) = Some (v, rest)))"

lemma readsAsD:
  "readsAs tx v \<Longrightarrow> stopsNumber rest \<Longrightarrow> \<exists>N. \<forall>n \<ge> N. parseValue n (tx @ rest) = Some (v, rest)"
  by (simp add: readsAs_def)

lemma skipSpace_head: "\<not> isSpace c \<Longrightarrow> skipSpace (c # cs) = c # cs"
  by (simp add: skipSpace_def)

lemma skipSpace_reads: "readsAs tx v \<Longrightarrow> \<exists>d ds. skipSpace (tx @ s) = d # ds \<and> d \<noteq> CHR '']'' \<and> d \<noteq> CHR ''}''"
  by (auto simp: readsAs_def skipSpace_head)

lemma readsAs_leaf:
  assumes "tx = c # cs" and "\<not> isSpace c" "c \<noteq> CHR '']''" "c \<noteq> CHR ''}''"
    and "\<And>n rest. stopsNumber rest \<Longrightarrow> parseValue (Suc n) (tx @ rest) = Some (v, rest)"
  shows "readsAs tx v"
  unfolding readsAs_def using assms by (auto intro!: exI [of _ 1] dest!: Suc_le_D)

lemma punctuation_not_space [simp]:
  "\<not> isSpace CHR '',''" "\<not> isSpace CHR '':''" "\<not> isSpace CHR '']''" "\<not> isSpace CHR ''}''"
  "\<not> isSpace CHR ''[''" "\<not> isSpace CHR ''{''" "\<not> isSpace CHR 0x22"
  by (simp_all add: isSpace_def)

lemma commaSep_Cons: "commaSep (x # xs) = x @ (if xs = [] then [] else CHR '','' # commaSep xs)"
  by (cases xs) auto

lemma parseElems_texts:
  "list_all2 readsAs texts vs \<Longrightarrow> texts \<noteq> [] \<Longrightarrow>
     \<exists>N. \<forall>n \<ge> N. parseElems n (commaSep texts @ CHR '']'' # rest) = Some (vs, rest)"
proof (induction rule: list_all2_induct)
  case Nil
  then show ?case by simp
next
  case (Cons t ts v vs)
  show ?case
  proof (cases ts)
    case Nil
    obtain N where "\<forall>n \<ge> N. parseValue n (t @ CHR '']'' # rest) = Some (v, CHR '']'' # rest)"
      using readsAsD [OF Cons.hyps(1), of "CHR '']'' # rest"] by auto
    then have "\<forall>n \<ge> Suc N. parseElems n (t @ CHR '']'' # rest) = Some ([v], rest)"
      by (simp add: all_Suc_ge parseElems.simps skipSpace_head)
    with Nil Cons.hyps(2) show ?thesis by auto
  next
    case (Cons u us)
    let ?s = "commaSep ts @ CHR '']'' # rest"
    obtain N1 where N1: "\<forall>n \<ge> N1. parseValue n (t @ CHR '','' # ?s) = Some (v, CHR '','' # ?s)"
      using readsAsD [OF \<open>readsAs t v\<close>, of "CHR '','' # ?s"] by auto
    obtain N2 where N2: "\<forall>n \<ge> N2. parseElems n ?s = Some (vs, rest)"
      using Cons.IH Cons by auto
    have "\<forall>n \<ge> Suc (max N1 N2). parseElems n (t @ CHR '','' # ?s) = Some (v # vs, rest)"
      using N1 N2 by (simp add: all_Suc_ge parseElems.simps skipSpace_head)
    then have "\<forall>n \<ge> Suc (max N1 N2). parseElems n (commaSep (t # ts) @ CHR '']'' # rest) = Some (v # vs, rest)"
      using Cons by simp
    then show ?thesis by blast
  qed
qed

lemma readsAs_array:
  assumes "list_all2 readsAs texts vs"
  shows "readsAs (CHR ''['' # commaSep texts @ [CHR '']'']) (JArr vs)"
proof -
  have "\<exists>N. \<forall>n \<ge> N. parseValue n (CHR ''['' # commaSep texts @ CHR '']'' # rest) = Some (JArr vs, rest)" for rest
  proof (cases texts)
    case Nil
    have "\<forall>n \<ge> Suc 0. parseValue n (CHR ''['' # commaSep texts @ CHR '']'' # rest) = Some (JArr vs, rest)"
      using Nil assms by (simp add: all_Suc_ge parseValue.simps skipSpace_head)
    then show ?thesis by blast
  next
    case (Cons t ts)
    then obtain N where N: "\<forall>n \<ge> N. parseElems n (commaSep texts @ CHR '']'' # rest) = Some (vs, rest)"
      using parseElems_texts [OF assms, of rest] by auto
    obtain v vs' where "readsAs t v" using assms Cons by (auto simp: list_all2_Cons1)
    then obtain d ds where "skipSpace (commaSep texts @ CHR '']'' # rest) = d # ds" "d \<noteq> CHR '']''"
      using skipSpace_reads Cons by (fastforce simp: commaSep_Cons)
    with N have "\<forall>n \<ge> Suc N. parseValue n (CHR ''['' # commaSep texts @ CHR '']'' # rest) = Some (JArr vs, rest)"
      by (simp add: all_Suc_ge parseValue.simps skipSpace_head)
    then show ?thesis by blast
  qed
  then show ?thesis by (auto simp: readsAs_def)
qed

text \<open>The text between the quotes of a member name.\<close>

definition namesAs :: "string \<Rightarrow> string \<Rightarrow> bool" where
  "namesAs body k \<longleftrightarrow> (\<exists>t. utf8Coerce t = k \<and> (\<forall>rest. scanString (body @ CHR 0x22 # rest) = Some (t, rest)))"

lemma namesAs_quote: "utf8Valid k \<Longrightarrow> namesAs (quoteBody k) k"
  unfolding namesAs_def by (intro exI [of _ k]) (simp add: scanString_quoteBody utf8Coerce_valid)

definition memberText :: "string \<times> string \<Rightarrow> string" where
  "memberText m = (case m of (body, tx) \<Rightarrow> CHR 0x22 # body @ CHR 0x22 # CHR '':'' # tx)"

definition memberAs :: "string \<times> string \<Rightarrow> string \<times> json \<Rightarrow> bool" where
  "memberAs m kv \<longleftrightarrow> namesAs (fst m) (fst kv) \<and> readsAs (snd m) (snd kv)"

lemma parseMembers_one:
  assumes "namesAs body k"
    and V: "\<forall>n \<ge> N. parseValue n (tx @ e # s) = Some (v, e # s)" and "\<not> isSpace e"
  shows "n \<ge> N \<Longrightarrow> parseMembers (Suc n) (memberText (body, tx) @ e # s) =
     (if e = CHR ''}'' then Some ([(k, v)], s)
      else if e = CHR '','' then map_option (\<lambda>(ms, r). ((k, v) # ms, r)) (parseMembers n s)
      else None)"
proof -
  obtain t where "utf8Coerce t = k" "scanString (body @ CHR 0x22 # CHR '':'' # tx @ e # s) = Some (t, CHR '':'' # tx @ e # s)"
    using assms(1) by (auto simp: namesAs_def)
  then show "n \<ge> N \<Longrightarrow> ?thesis" using assms(2,3) by (simp add: parseMembers.simps memberText_def skipSpace_head)
qed

lemma parseMembers_texts:
  "list_all2 memberAs ms kvs \<Longrightarrow> ms \<noteq> [] \<Longrightarrow>
     \<exists>N. \<forall>n \<ge> N. parseMembers n (commaSep (map memberText ms) @ CHR ''}'' # rest) = Some (kvs, rest)"
proof (induction rule: list_all2_induct)
  case Nil
  then show ?case by simp
next
  case (Cons m ms kv kvs)
  obtain body tx k v where m: "m = (body, tx)" "kv = (k, v)" by (cases m, cases kv)
  with Cons.hyps(1) have kv: "namesAs body k" "readsAs tx v" by (auto simp: memberAs_def)
  show ?case
  proof (cases ms)
    case Nil
    obtain N where "\<forall>n \<ge> N. parseValue n (tx @ CHR ''}'' # rest) = Some (v, CHR ''}'' # rest)"
      using readsAsD [OF kv(2), of "CHR ''}'' # rest"] by auto
    from parseMembers_one [OF kv(1) this]
    have "\<forall>n \<ge> Suc N. parseMembers n (memberText m @ CHR ''}'' # rest) = Some ([kv], rest)"
      by (simp add: all_Suc_ge m)
    with Nil Cons.hyps(2) show ?thesis by auto
  next
    case (Cons u us)
    let ?s = "commaSep (map memberText ms) @ CHR ''}'' # rest"
    obtain N1 where N1: "\<forall>n \<ge> N1. parseValue n (tx @ CHR '','' # ?s) = Some (v, CHR '','' # ?s)"
      using readsAsD [OF kv(2), of "CHR '','' # ?s"] by auto
    obtain N2 where N2: "\<forall>n \<ge> N2. parseMembers n ?s = Some (kvs, rest)"
      using Cons.IH Cons by auto
    have "\<forall>n \<ge> Suc (max N1 N2). parseMembers n (memberText m @ CHR '','' # ?s) = Some (kv # kvs, rest)"
      using parseMembers_one [OF kv(1) N1] N2 by (simp add: all_Suc_ge m)
    then have "\<forall>n \<ge> Suc (max N1 N2). parseMembers n (commaSep (map memberText (m # ms)) @ CHR ''}'' # rest) = Some (kv # kvs, rest)"
      using Cons by simp
    then show ?thesis by blast
  qed
qed

lemma readsAs_object:
  assumes "list_all2 memberAs ms kvs"
  shows "readsAs (CHR ''{'' # commaSep (map memberText ms) @ [CHR ''}'']) (JObj kvs)"
proof -
  have "\<exists>N. \<forall>n \<ge> N. parseValue n (CHR ''{'' # commaSep (map memberText ms) @ CHR ''}'' # rest) = Some (JObj kvs, rest)" for rest
  proof (cases ms)
    case Nil
    have "\<forall>n \<ge> Suc 0. parseValue n (CHR ''{'' # commaSep (map memberText ms) @ CHR ''}'' # rest) = Some (JObj kvs, rest)"
      using Nil assms by (simp add: all_Suc_ge parseValue.simps skipSpace_head)
    then show ?thesis by blast
  next
    case (Cons m ms')
    let ?s = "commaSep (map memberText ms) @ CHR ''}'' # rest"
    from Cons obtain N where N: "\<forall>n \<ge> N. parseMembers n ?s = Some (kvs, rest)"
      using parseMembers_texts [OF assms, of rest] by auto
    obtain ds where "skipSpace ?s = CHR 0x22 # ds"
      using Cons by (cases m) (simp add: commaSep_Cons memberText_def skipSpace_head)
    with N have "\<forall>n \<ge> Suc N. parseValue n (CHR ''{'' # ?s) = Some (JObj kvs, rest)"
      by (simp add: all_Suc_ge parseValue.simps skipSpace_head)
    then show ?thesis by blast
  qed
  then show ?thesis by (auto simp: readsAs_def)
qed

abbreviation memberPrint :: "string \<times> json \<Rightarrow> string" where
  "memberPrint \<equiv> (\<lambda>(k, v). quote k @ CHR '':'' # jsonPrint v)"

lemma memberPrint_text: "memberPrint = memberText \<circ> (\<lambda>(k, v). (quoteBody k, jsonPrint v))"
  by (auto simp: memberText_def quote_def)

lemma readsAs_print: "plainJson v \<Longrightarrow> readsAs (jsonPrint v) v"
proof (induction v)
  case (JArr vs)
  then show ?case by (auto intro!: readsAs_array simp: list_all2_conv_all_nth)
next
  case (JObj ms)
  have "list_all2 memberAs (map (\<lambda>(k, v). (quoteBody k, jsonPrint v)) ms) ms"
    using JObj by (fastforce simp: list.rel_map memberAs_def namesAs_quote snds.simps intro!: list.rel_refl_strong)
  from readsAs_object [OF this] show ?case by (simp add: memberPrint_text)
next
  case (JNum l)
  obtain c cs where l: "l = c # cs" and c: "isDigit c"
    using JNum by (cases l) (auto simp: canonicalNumeral_def isDigit_def)
  have "\<not> isSpace c" "c \<noteq> CHR ''{''" "c \<noteq> CHR ''[''" "c \<noteq> CHR 0x22" "c \<noteq> CHR '']''" "c \<noteq> CHR ''}''"
    using c by (auto simp: isSpace_def isDigit_def)
  moreover from this have "parseValue (Suc n) (l @ rest) = Some (JNum l, rest)" if "stopsNumber rest" for n rest
    using scanLiteral_numeral [of l rest] JNum that by (simp add: parseValue.simps l skipSpace_head)
  ultimately show ?case using l by (auto intro!: readsAs_leaf [of _ c cs])
next
  case (JStr s)
  then have "parseValue (Suc n) (quote s @ rest) = Some (JStr s, rest)" for n rest
    by (simp add: parseValue.simps quote_def skipSpace_head scanString_quoteBody utf8Coerce_valid)
  then show ?case by (intro readsAs_leaf [of _ "CHR 0x22" "quoteBody s @ [CHR 0x22]"]) (auto simp: quote_def)
qed (auto intro!: readsAs_leaf simp: parseValue.simps skipSpace_def isSpace_def scanLiteral_def hasPrefix_def)

lemma jsonParse_reads:
  assumes "readsAs tx v"
  shows "jsonParse tx = Some v"
proof -
  obtain N where N: "\<forall>n \<ge> N. parseValue n tx = Some (v, [])"
    using readsAsD [OF assms, of "[]"] by auto
  have "parseValue (Suc (2 * length tx)) tx = parseValue (N + Suc (2 * length tx)) tx"
    by (rule parse_fuel(1)) simp_all
  also have "\<dots> = Some (v, [])" using N by simp
  finally show ?thesis by (simp add: jsonParse_def skipSpace_def)
qed

lemma jsonParse_jsonPrint: "plainJson v \<Longrightarrow> jsonParse (jsonPrint v) = Some v"
  by (rule jsonParse_reads [OF readsAs_print])

text \<open>What is written is valid UTF-8.\<close>

lemma hexNibble_ascii: "n < 16 \<Longrightarrow> byte (hexNibble n) < 128"
  by (simp add: hexNibble_def)

lemma utf8Valid_escapeByte: "byte b < 128 \<Longrightarrow> utf8Valid (escapeByte b)"
  by (rule utf8Valid_ascii) (auto simp: escapeByte_def hexNibble_ascii)

lemma utf8Valid_quoteBody: "utf8Valid (quoteBody s)"
proof (induction s rule: quoteBody.induct)
  case 1
  then show ?case by simp
next
  case (2 b bs)
  obtain r w where rw: "decodeRune (b # bs) = (r, w)" by (cases "decodeRune (b # bs)") auto
  show ?case
  proof (cases "byte b < 128")
    case True
    then show ?thesis using 2(1) by (simp add: utf8Valid_append utf8Valid_escapeByte)
  next
    case False
    let ?p = "if r = runeError \<and> w = 1 then CHR 0x5C # ''ufffd'' else if r = 8232 then CHR 0x5C # ''u2028''
           else if r = 8233 then CHR 0x5C # ''u2029'' else b # take (w - 1) bs"
    have "utf8Valid (CHR 0x5C # ''ufffd'')" "utf8Valid (CHR 0x5C # ''u2028'')" "utf8Valid (CHR 0x5C # ''u2029'')"
      by (simp_all add: runeError_def)
    then have "utf8Valid ?p" using utf8Valid_rune [OF rw] by (simp only: split: if_split) blast
    moreover have "quoteBody (b # bs) = ?p @ quoteBody (drop (w - 1) bs)"
      using False rw by (simp del: decodeRune.simps)
    ultimately show ?thesis using 2(2) [OF False rw [symmetric]] by (simp only: utf8Valid_append)
  qed
qed

lemma utf8Valid_quote: "utf8Valid (quote s)"
  by (simp add: quote_def utf8Valid_append utf8Valid_quoteBody runeError_def)

lemma utf8Valid_commaSep: "\<forall>x\<in>set xs. utf8Valid x \<Longrightarrow> utf8Valid (commaSep xs)"
  by (induction xs rule: commaSep.induct) (simp_all add: utf8Valid_append runeError_def)

lemma utf8Valid_jsonPrint: "plainJson v \<Longrightarrow> utf8Valid (jsonPrint v)"
proof (induction v rule: jsonPrint.induct)
  case (3 l)
  then have "list_all isDigit l" by (auto simp: canonicalNumeral_def isDigit_def split: list.splits)
  then show ?case by (fastforce intro!: utf8Valid_ascii simp: list_all_iff isDigit_iff)
next
  case (5 vs)
  then have "utf8Valid (commaSep (map jsonPrint vs))" by (intro utf8Valid_commaSep) auto
  then show ?case by (simp add: utf8Valid_append runeError_def)
next
  case (6 ms)
  have "utf8Valid (quote k @ CHR '':'' # jsonPrint v)" if "(k, v) \<in> set ms" for k v
    using 6(1) [OF that refl] 6(2) that by (auto simp: utf8Valid_append utf8Valid_quote runeError_def)
  then have "utf8Valid (commaSep (map (\<lambda>(k, v). quote k @ CHR '':'' # jsonPrint v) ms))"
    by (intro utf8Valid_commaSep) auto
  then show ?case by (simp add: utf8Valid_append runeError_def)
qed (simp_all add: utf8Valid_quote runeError_def)

lemma quote_length: "list_all (\<lambda>c. byte c < 128) s \<Longrightarrow> length (quote s) \<le> 6 * length s + 2"
proof -
  have e: "length (escapeByte b) \<le> 6" for b by (simp add: escapeByte_def)
  have "list_all (\<lambda>c. byte c < 128) s \<Longrightarrow> length (quoteBody s) \<le> 6 * length s" for s
  proof (induction s)
    case (Cons b s)
    then have "quoteBody (b # s) = escapeByte b @ quoteBody s" "length (quoteBody s) \<le> 6 * length s" by simp_all
    then show ?case using add_mono [OF e [of b], of "length (quoteBody s)" "6 * length s"] by (simp only: length_append length_Cons mult_Suc_right)
  qed simp
  then show "list_all (\<lambda>c. byte c < 128) s \<Longrightarrow> length (quote s) \<le> 6 * length s + 2" by (simp add: quote_def)
qed

section \<open>Decoding into Go values\<close>

text \<open>
  \<open>json.Unmarshal\<close> matches an object key to a struct field by name, falling back to Unicode
  case folding: upper case for ASCII letters, and the two runes outside ASCII that fold to an
  ASCII letter (U+017F and U+212A). The field names of a struct differ under folding, so a key
  addresses at most one field; of several keys that address the same field the last one wins.
\<close>

definition foldRune :: "nat \<Rightarrow> nat" where
  "foldRune r =
     (if 97 \<le> r \<and> r \<le> 122 then r - 32 else if r = 383 then 83 else if r = 8490 then 75 else r)"

definition foldName :: "string \<Rightarrow> nat list" where
  "foldName s = map foldRune (runes s)"

definition jsonField :: "string \<Rightarrow> (string \<times> json) list \<Rightarrow> json option" where
  "jsonField name ms =
     map_option snd (List.find (\<lambda>(k, _). foldName k = foldName name) (rev ms))"

text \<open>A JSON \<open>null\<close> leaves a Go value unchanged, so decoding it gives the zero value.\<close>

fun decString :: "json \<Rightarrow> string option" where
  "decString JNull = Some []"
| "decString (JStr s) = Some s"
| "decString _ = None"

fun decBool :: "json \<Rightarrow> bool option" where
  "decBool JNull = Some False"
| "decBool (JBool b) = Some b"
| "decBool _ = None"

text \<open>\<open>strconv.ParseInt(lit, 10, 64)\<close> on a JSON number literal.\<close>

definition parseInt64 :: "string \<Rightarrow> int option" where
  "parseInt64 l =
     (let (neg, ds) = (case l of
                         [] \<Rightarrow> (False, l)
                       | c # cs \<Rightarrow> if c = CHR ''-'' then (True, cs) else (False, l));
          v = (if neg then - int (decVal ds) else int (decVal ds))
      in if ds \<noteq> [] \<and> list_all isDigit ds \<and> - (2 ^ 63) \<le> v \<and> v < 2 ^ 63 then Some v else None)"

fun decInt :: "json \<Rightarrow> int option" where
  "decInt JNull = Some 0"
| "decInt (JNum l) = parseInt64 l"
| "decInt _ = None"

fun decSlice :: "(json \<Rightarrow> 'a option) \<Rightarrow> json \<Rightarrow> 'a list option" where
  "decSlice d JNull = Some []"
| "decSlice d (JArr vs) = those (map d vs)"
| "decSlice d _ = None"

definition decPtr :: "(json \<Rightarrow> 'a option) \<Rightarrow> json \<Rightarrow> 'a option option" where
  "decPtr d v = (case v of JNull \<Rightarrow> Some None | _ \<Rightarrow> map_option Some (d v))"

text \<open>
  The members of an object decoded into a struct with the given field names; with
  \<open>DisallowUnknownFields\<close> (the strict flag) a key that addresses no field is an error.
\<close>

fun decStruct :: "bool \<Rightarrow> string list \<Rightarrow> json \<Rightarrow> (string \<times> json) list option" where
  "decStruct strict names JNull = Some []"
| "decStruct strict names (JObj ms) =
     (if strict \<and> (\<exists>(k, v)\<in>set ms. \<not> (\<exists>name\<in>set names. foldName k = foldName name))
      then None else Some ms)"
| "decStruct strict names _ = None"

definition decField :: "(json \<Rightarrow> 'a option) \<Rightarrow> 'a \<Rightarrow> (string \<times> json) list \<Rightarrow> string \<Rightarrow> 'a option" where
  "decField d zero ms name = (case jsonField name ms of None \<Rightarrow> Some zero | Some v \<Rightarrow> d v)"

text \<open>Decoding an object into \<open>map[string]json.RawMessage\<close>: keys are exact, the last one wins.\<close>

definition objGet :: "(string \<times> json) list \<Rightarrow> string \<Rightarrow> json option" where
  "objGet ms k = map_of (rev ms) k"

section \<open>Encoding Go values\<close>

definition encInt :: "int \<Rightarrow> json" where
  "encInt n = JNum (if n < 0 then CHR ''-'' # decShow (nat (- n)) else decShow (nat n))"

text \<open>A nil slice is \<open>null\<close>; an empty one that was made is \<open>[]\<close>.\<close>

definition encNilSlice :: "('a \<Rightarrow> json) \<Rightarrow> 'a list \<Rightarrow> json" where
  "encNilSlice f xs = (if xs = [] then JNull else JArr (map f xs))"

text \<open>A field tagged \<open>omitempty\<close> of pointer, string and slice type.\<close>

definition omitNil :: "string \<Rightarrow> ('a \<Rightarrow> json) \<Rightarrow> 'a option \<Rightarrow> (string \<times> json) list" where
  "omitNil name f x = (case x of None \<Rightarrow> [] | Some v \<Rightarrow> [(name, f v)])"

definition omitBlank :: "string \<Rightarrow> string \<Rightarrow> (string \<times> json) list" where
  "omitBlank name s = (if s = [] then [] else [(name, JStr s)])"

definition omitNone :: "string \<Rightarrow> ('a \<Rightarrow> json) \<Rightarrow> 'a list \<Rightarrow> (string \<times> json) list" where
  "omitNone name f xs = (if xs = [] then [] else [(name, JArr (map f xs))])"

lemma plainJson_encInt: "0 \<le> n \<Longrightarrow> plainJson (encInt n)"
  by (simp add: encInt_def)

end
