(* ===== verification/GoDigest.thy ===== *)
theory GoDigest
  imports GoText "HOL-Library.Word"
begin

text \<open>
  \<open>crypto/sha256.Sum256\<close> and \<open>encoding/hex.EncodeToString\<close>, which every content digest of the
  program goes through, as executable functions on 32-bit words (FIPS 180-4), with the shape of
  the result: 32 bytes, printed as 64 lower-case hexadecimal digits.
\<close>

unbundle bit_operations_syntax

type_synonym w32 = "32 word"

section \<open>The compression function\<close>

definition rotr :: "nat \<Rightarrow> w32 \<Rightarrow> w32" where
  "rotr n x = drop_bit n x OR push_bit (32 - n) x"

definition sigma0 :: "w32 \<Rightarrow> w32" where
  "sigma0 x = rotr 7 x XOR rotr 18 x XOR drop_bit 3 x"

definition sigma1 :: "w32 \<Rightarrow> w32" where
  "sigma1 x = rotr 17 x XOR rotr 19 x XOR drop_bit 10 x"

definition Sigma0 :: "w32 \<Rightarrow> w32" where
  "Sigma0 x = rotr 2 x XOR rotr 13 x XOR rotr 22 x"

definition Sigma1 :: "w32 \<Rightarrow> w32" where
  "Sigma1 x = rotr 6 x XOR rotr 11 x XOR rotr 25 x"

definition Ch :: "w32 \<Rightarrow> w32 \<Rightarrow> w32 \<Rightarrow> w32" where
  "Ch x y z = (x AND y) XOR (NOT x AND z)"

definition Maj :: "w32 \<Rightarrow> w32 \<Rightarrow> w32 \<Rightarrow> w32" where
  "Maj x y z = (x AND y) XOR (x AND z) XOR (y AND z)"

text \<open>The first 32 bits of the fractional parts of the cube roots of the first 64 primes, in decimal.\<close>

definition roundConstants :: "w32 list" where
  "roundConstants =
    [1116352408, 1899447441, 3049323471, 3921009573, 961987163, 1508970993, 2453635748, 2870763221,
     3624381080, 310598401, 607225278, 1426881987, 1925078388, 2162078206, 2614888103, 3248222580,
     3835390401, 4022224774, 264347078, 604807628, 770255983, 1249150122, 1555081692, 1996064986,
     2554220882, 2821834349, 2952996808, 3210313671, 3336571891, 3584528711, 113926993, 338241895,
     666307205, 773529912, 1294757372, 1396182291, 1695183700, 1986661051, 2177026350, 2456956037,
     2730485921, 2820302411, 3259730800, 3345764771, 3516065817, 3600352804, 4094571909, 275423344,
     430227734, 506948616, 659060556, 883997877, 958139571, 1322822218, 1537002063, 1747873779,
     1955562222, 2024104815, 2227730452, 2361852424, 2428436474, 2756734187, 3204031479, 3329325298]"

record shaState =
  sA :: w32
  sB :: w32
  sC :: w32
  sD :: w32
  sE :: w32
  sF :: w32
  sG :: w32
  sH :: w32

definition shaInit :: shaState where
  "shaInit = \<lparr>sA = 0x6a09e667, sB = 0xbb67ae85, sC = 0x3c6ef372, sD = 0xa54ff53a,
             sE = 0x510e527f, sF = 0x9b05688c, sG = 0x1f83d9ab, sH = 0x5be0cd19\<rparr>"

text \<open>The message schedule, most recent word first: 16 words of the block, then 48 derived ones.\<close>

fun schedule :: "nat \<Rightarrow> w32 list \<Rightarrow> w32 list" where
  "schedule 0 ws = ws"
| "schedule (Suc n) ws =
     schedule n ((sigma1 (ws ! 1) + ws ! 6 + sigma0 (ws ! 14) + ws ! 15) # ws)"

definition shaRound :: "w32 \<times> w32 \<Rightarrow> shaState \<Rightarrow> shaState" where
  "shaRound kw s =
     (let t1 = sH s + Sigma1 (sE s) + Ch (sE s) (sF s) (sG s) + fst kw + snd kw;
          t2 = Sigma0 (sA s) + Maj (sA s) (sB s) (sC s)
      in \<lparr>sA = t1 + t2, sB = sA s, sC = sB s, sD = sC s,
          sE = sD s + t1, sF = sE s, sG = sF s, sH = sG s\<rparr>)"

definition shaBlock :: "shaState \<Rightarrow> w32 list \<Rightarrow> shaState" where
  "shaBlock s block =
     (let r = fold shaRound (zip roundConstants (rev (schedule 48 (rev block)))) s
      in \<lparr>sA = sA s + sA r, sB = sB s + sB r, sC = sC s + sC r, sD = sD s + sD r,
          sE = sE s + sE r, sF = sF s + sF r, sG = sG s + sG r, sH = sH s + sH r\<rparr>)"

section \<open>Padding and blocks\<close>

definition wordOfBytes :: "nat list \<Rightarrow> w32" where
  "wordOfBytes bs = foldl (\<lambda>w b. push_bit 8 w OR of_nat b) 0 bs"

definition bytesOfWord :: "w32 \<Rightarrow> nat list" where
  "bytesOfWord w = map (\<lambda>i. unat (drop_bit i w AND 255)) [24, 16, 8, 0]"

definition lengthBytes :: "nat \<Rightarrow> nat list" where
  "lengthBytes n =
     map (\<lambda>i. unat (drop_bit i (of_nat n :: 64 word) AND 255)) [56, 48, 40, 32, 24, 16, 8, 0]"

definition padMessage :: "nat list \<Rightarrow> nat list" where
  "padMessage bs =
     (let n = length bs in
      bs @ 128 # replicate ((119 - n mod 64) mod 64) 0 @ lengthBytes (8 * n))"

fun groupsOf :: "nat \<Rightarrow> 'a list \<Rightarrow> 'a list list" where
  "groupsOf n [] = []"
| "groupsOf n (x # xs) = take (Suc n) (x # xs) # groupsOf n (drop n xs)"

definition sum256 :: "nat list \<Rightarrow> nat list" where
  "sum256 bs =
     (let s = fold (\<lambda>block s. shaBlock s block)
                (groupsOf 15 (map wordOfBytes (groupsOf 3 (padMessage bs)))) shaInit
      in concat (map bytesOfWord [sA s, sB s, sC s, sD s, sE s, sF s, sG s, sH s]))"

section \<open>Hexadecimal\<close>

definition hexDigit :: "nat \<Rightarrow> char" where
  "hexDigit n = (if n < 10 then char_of (48 + n) else char_of (87 + n))"

definition hexByte :: "nat \<Rightarrow> string" where
  "hexByte b = [hexDigit (b div 16), hexDigit (b mod 16)]"

definition encodeHex :: "nat list \<Rightarrow> string" where
  "encodeHex bs = concat (map hexByte bs)"

text \<open>\<open>hex.EncodeToString(sha256.Sum256(raw))\<close> on the bytes of a Go string.\<close>

definition sha256Hex :: "string \<Rightarrow> string" where
  "sha256Hex raw = encodeHex (sum256 (map byte raw))"

section \<open>Shape of the result\<close>

lemma sum256_length: "length (sum256 bs) = 32"
  by (simp add: sum256_def Let_def bytesOfWord_def)

lemma low_byte_bound: "unat (w AND 255 :: w32) < 256"
proof -
  have "unat (w AND 255) \<le> unat (255 :: w32)"
    using word_and_le1 by (rule word_le_nat_alt [THEN iffD1])
  then show ?thesis by simp
qed

lemma sum256_bytes: "b \<in> set (sum256 bs) \<Longrightarrow> b < 256"
  by (auto simp: sum256_def Let_def bytesOfWord_def intro: low_byte_bound)

lemma hexDigit_lower: "n < 16 \<Longrightarrow> isHexLower (hexDigit n)"
  by (auto simp: hexDigit_def isHexLower_def isDigit_def less_eq_char_def)

lemma encodeHex_length: "length (encodeHex bs) = 2 * length bs"
  by (induction bs) (simp_all add: encodeHex_def hexByte_def)

lemma encodeHex_lower: "(\<And>b. b \<in> set bs \<Longrightarrow> b < 256) \<Longrightarrow> list_all isHexLower (encodeHex bs)"
proof (induction bs)
  case Nil
  then show ?case by (simp add: encodeHex_def)
next
  case (Cons b bs)
  then have "b div 16 < 16" "b mod 16 < 16" by (auto simp: less_mult_imp_div_less)
  with Cons show ?case by (simp add: encodeHex_def hexByte_def hexDigit_lower)
qed

lemma sha256Hex_shape: "length (sha256Hex raw) = 64 \<and> list_all isHexLower (sha256Hex raw)"
  unfolding sha256Hex_def
  by (simp add: encodeHex_length sum256_length encodeHex_lower sum256_bytes)

end
