(* ===== verification/GoTime.thy ===== *)
theory GoTime
  imports GoText
begin

text \<open>
  What the program uses of \<open>time.Time\<close>: an instant as its calendar fields and whether its
  location is UTC, comparison and difference through the seconds since the Unix epoch, and the
  layout \<open>time.RFC3339\<close>. Only instants whose location is UTC are ever read, so the fields are
  those of UTC.
\<close>

record goTime =
  t_year :: int
  t_month :: nat
  t_day :: nat
  t_hour :: nat
  t_minute :: nat
  t_second :: nat
  t_nsec :: nat
  t_utc :: bool

section \<open>Calendar\<close>

definition isLeap :: "int \<Rightarrow> bool" where
  "isLeap y = (y mod 4 = 0 \<and> (y mod 100 \<noteq> 0 \<or> y mod 400 = 0))"

definition daysIn :: "nat \<Rightarrow> int \<Rightarrow> nat" where
  "daysIn m y =
     (if m = 2 then (if isLeap y then 29 else 28)
      else if m = 4 \<or> m = 6 \<or> m = 9 \<or> m = 11 then 30 else 31)"

text \<open>Days since 1970-01-01 of a proleptic Gregorian date.\<close>

definition civilDays :: "int \<Rightarrow> nat \<Rightarrow> nat \<Rightarrow> int" where
  "civilDays y m d =
     (let y' = (if m \<le> 2 then y - 1 else y);
          era = y' div 400;
          yoe = y' - era * 400;
          mp = (if m \<le> 2 then int m + 9 else int m - 3);
          doy = (153 * mp + 2) div 5 + int d - 1;
          doe = yoe * 365 + yoe div 4 - yoe div 100 + doy
      in era * 146097 + doe - 719468)"

definition unixSeconds :: "goTime \<Rightarrow> int" where
  "unixSeconds t =
     civilDays (t_year t) (t_month t) (t_day t) * 86400
     + int (t_hour t) * 3600 + int (t_minute t) * 60 + int (t_second t)"

definition timeBefore :: "goTime \<Rightarrow> goTime \<Rightarrow> bool" where
  "timeBefore a b =
     (unixSeconds a < unixSeconds b \<or> unixSeconds a = unixSeconds b \<and> t_nsec a < t_nsec b)"

text \<open>\<open>t.IsZero()\<close>: January 1 of year 1, 00:00:00 UTC.\<close>

definition timeIsZero :: "goTime \<Rightarrow> bool" where
  "timeIsZero t = (unixSeconds t = -62135596800 \<and> t_nsec t = 0)"

lemma timeBefore_irrefl [simp]: "\<not> timeBefore t t"
  by (simp add: timeBefore_def)

lemma timeBefore_trans: "timeBefore a b \<Longrightarrow> timeBefore b c \<Longrightarrow> timeBefore a c"
  by (auto simp: timeBefore_def)

lemma timeBefore_asym: "timeBefore a b \<Longrightarrow> \<not> timeBefore b a"
  by (auto simp: timeBefore_def)

section \<open>The layout time.RFC3339\<close>

definition pad2 :: "nat \<Rightarrow> string" where
  "pad2 n = [digitChar (n div 10 mod 10), digitChar (n mod 10)]"

definition padYear :: "int \<Rightarrow> string" where
  "padYear y =
     (let ds = decShow (nat \<bar>y\<bar>)
      in (if y < 0 then ''-'' else []) @ replicate (4 - length ds) (CHR ''0'') @ ds)"

text \<open>\<open>t.Format(time.RFC3339)\<close> of an instant in UTC; sub-seconds are not printed.\<close>

definition formatRFC3339 :: "goTime \<Rightarrow> string" where
  "formatRFC3339 t =
     padYear (t_year t) @ ''-'' @ pad2 (t_month t) @ ''-'' @ pad2 (t_day t) @ ''T''
     @ pad2 (t_hour t) @ '':'' @ pad2 (t_minute t) @ '':'' @ pad2 (t_second t) @ ''Z''"

definition num2 :: "char \<Rightarrow> char \<Rightarrow> nat" where
  "num2 a b = 10 * digitVal a + digitVal b"

text \<open>
  \<open>time.Parse(time.RFC3339, s)\<close> on the texts whose zone is \<open>Z\<close> and which have no fraction. The
  other texts \<open>time.Parse\<close> accepts (a numeric zone, a fraction of a second) print differently
  from how they were written, and every caller rejects those.
\<close>

definition parseRFC3339 :: "string \<Rightarrow> goTime option" where
  "parseRFC3339 s =
     (case s of
        [y1, y2, y3, y4, d1, m1, m2, d2, a1, a2, tt, h1, h2, c1, n1, n2, c2, s1, s2, z] \<Rightarrow>
          (let y = int (num2 y1 y2 * 100 + num2 y3 y4);
               m = num2 m1 m2; d = num2 a1 a2; h = num2 h1 h2; n = num2 n1 n2; sec = num2 s1 s2
           in if list_all isDigit [y1, y2, y3, y4, m1, m2, a1, a2, h1, h2, n1, n2, s1, s2]
                 \<and> d1 = CHR ''-'' \<and> d2 = CHR ''-'' \<and> tt = CHR ''T'' \<and> c1 = CHR '':'' \<and> c2 = CHR '':''
                 \<and> z = CHR ''Z''
                 \<and> 1 \<le> m \<and> m \<le> 12 \<and> 1 \<le> d \<and> d \<le> daysIn m y \<and> h < 24 \<and> n < 60 \<and> sec < 60
              then Some \<lparr>t_year = y, t_month = m, t_day = d, t_hour = h, t_minute = n,
                         t_second = sec, t_nsec = 0, t_utc = True\<rparr>
              else None)
      | _ \<Rightarrow> None)"

lemma parseRFC3339_utc: "parseRFC3339 s = Some t \<Longrightarrow> t_utc t \<and> t_nsec t = 0"
  by (auto simp: parseRFC3339_def Let_def split: list.splits if_splits)

end
