(* ===== verification/Versions.thy ===== *)
theory Versions
  imports GoText "HOL-Library.Word"
begin

text \<open>
  Release versions (\<open>contracts.go\<close>: \<open>numericVersion\<close>, \<open>parseVersion\<close>, \<open>validVersion\<close>,
  \<open>compareVersions\<close>). A version is three 32-bit numbers, written without leading zeros and
  separated by dots.

  Shown here: parsing and printing are inverse, so version texts are canonical (string equality
  and numeric equality agree), and \<open>compareVersions\<close> is the sign of the lexicographic order on
  the parsed numbers. Range matching relies on the comparison through the interface
  \<open>compare_by_key\<close>, whose lemmas are proved once for any such comparison.
\<close>

section \<open>Versions as three 32-bit numbers\<close>

datatype numericVersion = NV (v_major: "32 word") (v_minor: "32 word") (v_patch: "32 word")

definition versionKey :: "numericVersion \<Rightarrow> 32 word \<times> 32 word \<times> 32 word" where
  "versionKey v = (v_major v, v_minor v, v_patch v)"

lemma versionKey_eq_iff [simp]: "versionKey v = versionKey w \<longleftrightarrow> v = w"
  by (cases v; cases w) (simp add: versionKey_def)

instantiation numericVersion :: linorder
begin

definition less_eq_numericVersion :: "numericVersion \<Rightarrow> numericVersion \<Rightarrow> bool" where
  "less_eq_numericVersion v w = (versionKey v \<le> versionKey w)"

definition less_numericVersion :: "numericVersion \<Rightarrow> numericVersion \<Rightarrow> bool" where
  "less_numericVersion v w = (versionKey v < versionKey w)"

instance
  by standard (auto simp: less_eq_numericVersion_def less_numericVersion_def less_le_not_le)

end

lemma version_less_iff:
  "NV a b c < NV x y z \<longleftrightarrow> a < x \<or> a = x \<and> (b < y \<or> b = y \<and> c < z)"
  by (auto simp: less_numericVersion_def versionKey_def)

lemma version_le_iff:
  "NV a b c \<le> NV x y z \<longleftrightarrow> a < x \<or> a = x \<and> (b < y \<or> b = y \<and> c \<le> z)"
  by (auto simp: less_eq_numericVersion_def versionKey_def)

section \<open>Parsing and comparing\<close>

text \<open>\<open>versionRE\<close>: \<open>^(0|[1-9][0-9]*)\.(0|[1-9][0-9]*)\.(0|[1-9][0-9]*)$\<close>.\<close>

definition versionRE :: "string \<Rightarrow> bool" where
  "versionRE s =
     (case splitOn (CHR ''.'') s of
        [a, b, c] \<Rightarrow> canonicalNumeral a \<and> canonicalNumeral b \<and> canonicalNumeral c
      | _ \<Rightarrow> False)"

text \<open>\<open>strconv.ParseUint(part, 10, 32)\<close> on a numeral: an error above \<open>2^32 - 1\<close>.\<close>

definition parseUint32 :: "string \<Rightarrow> 32 word option" where
  "parseUint32 part =
     (if part \<noteq> [] \<and> list_all isDigit part \<and> decVal part < 2 ^ 32
      then Some (of_nat (decVal part)) else None)"

definition parseVersion :: "string \<Rightarrow> numericVersion option" where
  "parseVersion s =
     (if \<not> versionRE s then None
      else (case splitOn (CHR ''.'') s of
              [a, b, c] \<Rightarrow>
                (case (parseUint32 a, parseUint32 b, parseUint32 c) of
                   (Some x, Some y, Some z) \<Rightarrow> Some (NV x y z)
                 | _ \<Rightarrow> None)
            | _ \<Rightarrow> None))"

definition validVersion :: "string \<Rightarrow> bool" where
  "validVersion s = (parseVersion s \<noteq> None)"

text \<open>The loop of \<open>compareVersions\<close> over the three indices.\<close>

fun compareLoop :: "(32 word \<times> 32 word) list \<Rightarrow> int" where
  "compareLoop [] = 0"
| "compareLoop ((l, r) # rest) =
     (if l < r then -1 else if r < l then 1 else compareLoop rest)"

definition compareVersions :: "string \<Rightarrow> string \<Rightarrow> int option" where
  "compareVersions left right =
     (case parseVersion left of
        None \<Rightarrow> None
      | Some v \<Rightarrow>
          (case parseVersion right of
             None \<Rightarrow> None
           | Some w \<Rightarrow>
               Some (compareLoop [(v_major v, v_major w), (v_minor v, v_minor w), (v_patch v, v_patch w)])))"

text \<open>The canonical text of a version, used to state the round trip.\<close>

definition showVersion :: "numericVersion \<Rightarrow> string" where
  "showVersion v =
     joinWith (CHR ''.'')
       [decShow (unat (v_major v)), decShow (unat (v_minor v)), decShow (unat (v_patch v))]"

section \<open>Canonical text\<close>

lemma canonicalNumeral_digits: "canonicalNumeral s \<Longrightarrow> s \<noteq> [] \<and> list_all isDigit s"
  by (cases s) (auto simp: canonicalNumeral_def isDigit_def)

lemma parseUint32_decShow: "parseUint32 (decShow (unat w)) = Some w"
proof -
  have "unat w < 2 ^ 32" using unsigned_less [of w] by simp
  then show ?thesis by (simp add: parseUint32_def decShow_digits)
qed

lemma decShow_parseUint32:
  "canonicalNumeral s \<Longrightarrow> parseUint32 s = Some w \<Longrightarrow> decShow (unat w) = s"
  by (auto simp: parseUint32_def unat_of_nat decShow_decVal split: if_splits)

lemma splitOn_three:
  assumes "CHR ''.'' \<notin> set a" "CHR ''.'' \<notin> set b" "CHR ''.'' \<notin> set c"
  shows "splitOn (CHR ''.'') (joinWith (CHR ''.'') [a, b, c]) = [a, b, c]"
  using assms by (simp add: splitOn_append splitOn_plain)

lemma parseVersion_showVersion: "parseVersion (showVersion v) = Some v"
proof -
  have "splitOn (CHR ''.'') (showVersion v) =
      [decShow (unat (v_major v)), decShow (unat (v_minor v)), decShow (unat (v_patch v))]"
    unfolding showVersion_def
    by (intro splitOn_three canonicalNumeral_no_dot) simp_all
  then show ?thesis
    by (simp add: parseVersion_def versionRE_def parseUint32_decShow)
qed

lemma showVersion_parseVersion:
  assumes "parseVersion s = Some v"
  shows "showVersion v = s"
proof -
  obtain a b c where sp: "splitOn (CHR ''.'') s = [a, b, c]"
    and can: "canonicalNumeral a" "canonicalNumeral b" "canonicalNumeral c"
    using assms by (auto simp: parseVersion_def versionRE_def split: if_splits list.splits)
  then obtain x y z where "parseUint32 a = Some x" "parseUint32 b = Some y" "parseUint32 c = Some z"
    "v = NV x y z"
    using assms by (auto simp: parseVersion_def split: if_splits option.splits)
  with can have "showVersion v = joinWith (CHR ''.'') [a, b, c]"
    by (simp add: showVersion_def decShow_parseUint32)
  with sp show ?thesis by (metis joinWith_splitOn)
qed

lemma parseVersion_inject:
  "parseVersion s = Some v \<Longrightarrow> parseVersion t = Some v \<Longrightarrow> s = t"
  using showVersion_parseVersion by metis

section \<open>The order behind the comparison\<close>

lemma compareLoop_three:
  "compareLoop [(a, x), (b, y), (c, z)] =
     (if NV a b c < NV x y z then -1 else if NV x y z < NV a b c then 1 else 0)"
  by (cases a x rule: linorder_cases; cases b y rule: linorder_cases; cases c z rule: linorder_cases)
     (simp_all add: version_less_iff)

lemma compareVersions_Some:
  assumes "parseVersion a = Some v" and "parseVersion b = Some w"
  shows "compareVersions a b = Some (if v < w then -1 else if w < v then 1 else 0)"
  using assms compareLoop_three [of "v_major v" "v_major w" "v_minor v" "v_minor w" "v_patch v" "v_patch w"]
  by (simp add: compareVersions_def)

lemma compareVersions_None:
  "compareVersions a b = None \<longleftrightarrow> \<not> validVersion a \<or> \<not> validVersion b"
  by (auto simp: compareVersions_def validVersion_def split: option.splits)

text \<open>
  The interface range matching relies on: a three-way comparison of texts that is decided by a
  key in a linear order, and undefined exactly where a text has no key.
\<close>

locale compare_by_key =
  fixes key :: "'a \<Rightarrow> ('k::linorder) option" and cmp :: "'a \<Rightarrow> 'a \<Rightarrow> int option"
  assumes cmp_None: "cmp a b = None \<longleftrightarrow> key a = None \<or> key b = None"
    and cmp_neg: "key a = Some x \<Longrightarrow> key b = Some y \<Longrightarrow> cmp a b = Some c \<Longrightarrow> c < 0 \<longleftrightarrow> x < y"
    and cmp_pos: "key a = Some x \<Longrightarrow> key b = Some y \<Longrightarrow> cmp a b = Some c \<Longrightarrow> 0 < c \<longleftrightarrow> y < x"
begin

lemma cmp_SomeE:
  assumes "cmp a b = Some c"
  obtains x y where "key a = Some x" "key b = Some y" "c < 0 \<longleftrightarrow> x < y" "0 < c \<longleftrightarrow> y < x" "c = 0 \<longleftrightarrow> x = y"
proof -
  obtain x y where k: "key a = Some x" "key b = Some y"
    using assms cmp_None [of a b] by auto
  moreover have "c < 0 \<longleftrightarrow> x < y" "0 < c \<longleftrightarrow> y < x"
    using cmp_neg [OF k assms] cmp_pos [OF k assms] by auto
  moreover have "c = 0 \<longleftrightarrow> x = y" using calculation(3,4) by auto
  ultimately show ?thesis by (rule that)
qed

lemma cmp_defined:
  assumes "key a = Some x" and "key b = Some y"
  obtains c where "cmp a b = Some c" "c < 0 \<longleftrightarrow> x < y" "0 < c \<longleftrightarrow> y < x"
proof -
  obtain c where "cmp a b = Some c" using assms cmp_None [of a b] by auto
  with assms cmp_neg cmp_pos that show ?thesis by blast
qed

lemma cmp_less_iff:
  "(\<exists>c. cmp a b = Some c \<and> c < 0) \<longleftrightarrow> (\<exists>x y. key a = Some x \<and> key b = Some y \<and> x < y)"
  by (auto elim!: cmp_SomeE) (erule (1) cmp_defined, auto)

lemma cmp_le_iff:
  "(\<exists>c. cmp a b = Some c \<and> c \<le> 0) \<longleftrightarrow> (\<exists>x y. key a = Some x \<and> key b = Some y \<and> x \<le> y)"
  by (auto elim!: cmp_SomeE simp flip: not_less) (erule (1) cmp_defined, auto simp flip: not_less)

lemma cmp_zero_iff:
  "cmp a b = Some 0 \<longleftrightarrow> (\<exists>x. key a = Some x \<and> key b = Some x)"
  by (auto elim!: cmp_SomeE) (erule (1) cmp_defined, auto)

text \<open>Membership in a half-open interval.\<close>

lemma between_iff:
  "(\<exists>c d. cmp lo v = Some c \<and> cmp v hi = Some d \<and> c \<le> 0 \<and> d < 0) \<longleftrightarrow>
   (\<exists>l x h. key lo = Some l \<and> key v = Some x \<and> key hi = Some h \<and> l \<le> x \<and> x < h)"
  using cmp_le_iff [of lo v] cmp_less_iff [of v hi] by (auto; force)

end

interpretation ver: compare_by_key parseVersion compareVersions
proof
  fix a b
  show "compareVersions a b = None \<longleftrightarrow> parseVersion a = None \<or> parseVersion b = None"
    by (simp add: compareVersions_None validVersion_def)
next
  fix a b x y c
  assume "parseVersion a = Some x" "parseVersion b = Some y" "compareVersions a b = Some c"
  then show "c < 0 \<longleftrightarrow> x < y" using compareVersions_Some [of a x b y] by (auto split: if_splits)
next
  fix a b x y c
  assume "parseVersion a = Some x" "parseVersion b = Some y" "compareVersions a b = Some c"
  then show "0 < c \<longleftrightarrow> y < x" using compareVersions_Some [of a x b y] by (auto split: if_splits)
qed

end
