(* ===== verification/Contracts.thy ===== *)
theory Contracts
  imports GoJson GoDigest GoTime Versions
begin

text \<open>
  The data of the constraint engine (\<open>constraintengine/contracts.go\<close>, and the range types of
  \<open>match.go\<close>): identities and limits, identifier shapes, the documents the parsers produce, the
  report the evaluator produces, the compiled fact registry, and the JSON text and digest of
  each. A field \<open>F\<close> of a Go struct is a record field with the struct's short prefix; a pointer is
  an option; a seal pointer is the boolean "is not nil".

  Shown here: every digest has the shape \<open>sha256:\<close> and 64 hexadecimal digits; the registry
  constructor keeps definitions unique and their enum tokens sorted, and its digest does not
  depend on the order of the definitions; the binary search \<open>contains\<close> is membership.
\<close>

section \<open>Identities and limits\<close>

definition InputSchema :: string where [engine_defs]:
  "InputSchema = ''prufyx.io/operator-declared-constraint-input/v1alpha1''"
definition RulesSchema :: string where [engine_defs]:
  "RulesSchema = ''prufyx.io/deterministic-constraint-rules/v1alpha1''"
definition RulesSchemaRanged :: string where [engine_defs]:
  "RulesSchemaRanged = ''prufyx.io/deterministic-constraint-rules/v1alpha2''"
definition ReportSchema :: string where [engine_defs]:
  "ReportSchema = ''prufyx.io/deterministic-constraint-report/v1alpha1''"
definition InputAuthority :: string where [engine_defs]:
  "InputAuthority = ''OPERATOR_DECLARED_MINIMIZED''"
definition RulesAuthority :: string where [engine_defs]:
  "RulesAuthority = ''DECLARED_RULE_SOURCE_REFERENCES''"
definition EngineVersion :: string where [engine_defs]:
  "EngineVersion = ''deterministic-constraint-engine-v1''"
definition ScopeDeclaration :: string where [engine_defs]:
  "ScopeDeclaration = ''OPERATOR_DECLARED_COMPLETE_COMPONENT_SET''"
definition CorpusAttestation :: string where [engine_defs]:
  "CorpusAttestation = ''COMPLETE_REVIEWED_RULES_FOR_LISTED_COMPONENTS''"
definition ScopeContractVersion :: string where [engine_defs]:
  "ScopeContractVersion = ''scope-completeness-contract-v1''"
definition ScopeContractVersionRanged :: string where [engine_defs]:
  "ScopeContractVersionRanged = ''scope-completeness-contract-v2''"
definition AssessmentUnknown :: string where [engine_defs]:
  "AssessmentUnknown = ''UNKNOWN''"
definition AssessmentBlocked :: string where [engine_defs]:
  "AssessmentBlocked = ''BLOCKED''"
definition AssessmentScopeCompletePass :: string where [engine_defs]:
  "AssessmentScopeCompletePass = ''SCOPE_COMPLETE_PASS''"
definition ApplicabilityApplicable :: string where [engine_defs]:
  "ApplicabilityApplicable = ''APPLICABLE''"
definition ApplicabilityNotApplicable :: string where [engine_defs]:
  "ApplicabilityNotApplicable = ''NOT_APPLICABLE''"
definition ApplicabilityUndetermined :: string where [engine_defs]:
  "ApplicabilityUndetermined = ''UNDETERMINED''"
definition applicabilityOutOfScope :: string where [engine_defs]:
  "applicabilityOutOfScope = ''OUT_OF_SCOPE''"
definition omissionDeclaredInput :: string where [engine_defs]:
  "omissionDeclaredInput = ''OPERATOR_DECLARED_INPUT_NOT_LIVE_OBSERVATION''"
definition omissionWholeUpgradeNotChecked :: string where [engine_defs]:
  "omissionWholeUpgradeNotChecked = ''WHOLE_UPGRADE_COMPATIBILITY_NOT_EVALUATED''"
definition omissionWholeUpgradeScoped :: string where [engine_defs]:
  "omissionWholeUpgradeScoped = ''WHOLE_UPGRADE_COMPATIBILITY_LIMITED_TO_DECLARED_COMPONENT_SCOPE''"
definition unresolvedComponentNotAttested :: string where [engine_defs]:
  "unresolvedComponentNotAttested = ''SCOPE_COMPONENT_NOT_ATTESTED''"
definition unresolvedApplicability :: string where [engine_defs]:
  "unresolvedApplicability = ''APPLICABILITY_UNDETERMINED''"
definition unresolvedNoApplicableRule :: string where [engine_defs]:
  "unresolvedNoApplicableRule = ''NO_APPLICABLE_RULE_FOR_COMPONENT''"
definition unresolvedTransitionNotAnchor :: string where [engine_defs]:
  "unresolvedTransitionNotAnchor = ''TRANSITION_NOT_ANCHOR_REVIEWED''"

definition maxInputBytes :: nat where
  "maxInputBytes = 1048576"
definition maxRulesBytes :: nat where
  "maxRulesBytes = 1048576"
definition maxComponents :: nat where
  "maxComponents = 128"
definition maxFacts :: nat where
  "maxFacts = 64"
definition maxCompiledRegistryFacts :: nat where
  "maxCompiledRegistryFacts = 256"
definition maxRules :: nat where
  "maxRules = 512"
definition maxSources :: nat where
  "maxSources = 8"
definition maxStringBytes :: nat where
  "maxStringBytes = 256"

section \<open>Identifier shapes\<close>

text \<open>\<open>^sha256:[0-9a-f]{64}$\<close>\<close>

definition digestRE :: "string \<Rightarrow> bool" where
  "digestRE s =
     (hasPrefix s ''sha256:'' \<and> length (drop 7 s) = 64 \<and> list_all isHexLower (drop 7 s))"

text \<open>\<open>^pkg:[a-z0-9][a-z0-9+._/-]{2,255}$\<close>\<close>

definition componentRE :: "string \<Rightarrow> bool" where
  "componentRE s =
     (hasPrefix s ''pkg:'' \<and>
      headAndTail (\<lambda>c. isLower c \<or> isDigit c)
        (\<lambda>c. isLower c \<or> isDigit c \<or> c \<in> set ''+._/-'') 2 255 (drop 4 s))"

text \<open>\<open>^[a-z0-9][a-z0-9._-]{0,127}$\<close>\<close>

definition idRE :: "string \<Rightarrow> bool" where
  "idRE s =
     headAndTail (\<lambda>c. isLower c \<or> isDigit c) (\<lambda>c. isLower c \<or> isDigit c \<or> c \<in> set ''._-'') 0 127 s"

text \<open>\<open>^[A-Z][A-Z0-9_]{0,127}$\<close>\<close>

definition reasonRE :: "string \<Rightarrow> bool" where
  "reasonRE s = headAndTail isUpper (\<lambda>c. isUpper c \<or> isDigit c \<or> c = CHR ''_'') 0 127 s"

text \<open>
  \<open>^component\.[a-z0-9][a-z0-9_-]{0,63}\.[a-z0-9][a-z0-9_-]{0,127}$\<close>: the classes exclude the dot,
  so the three parts are those between the dots.
\<close>

definition factIDRE :: "string \<Rightarrow> bool" where
  "factIDRE s =
     (case splitOn (CHR ''.'') s of
        [a, b, c] \<Rightarrow>
          a = ''component''
          \<and> headAndTail (\<lambda>x. isLower x \<or> isDigit x) (\<lambda>x. isLower x \<or> isDigit x \<or> x \<in> set ''_-'') 0 63 b
          \<and> headAndTail (\<lambda>x. isLower x \<or> isDigit x) (\<lambda>x. isLower x \<or> isDigit x \<or> x \<in> set ''_-'') 0 127 c
      | _ \<Rightarrow> False)"

text \<open>\<open>^[0-9a-f]{40}$\<close>\<close>

definition gitRevision :: "string \<Rightarrow> bool" where
  "gitRevision s = (length s = 40 \<and> list_all isHexLower s)"

definition publicText :: "string \<Rightarrow> bool" where
  "publicText value =
     (\<not> (value = [] \<or> maxStringBytes < length value) \<and> list_all (\<lambda>r. \<not> isControl r) (runes value))"

section \<open>Documents\<close>

record FactDefinition =
  fd_ID :: string
  fd_Component :: string
  fd_Type :: string
  fd_EnumTokens :: "string list"

definition FactBool :: string where [engine_defs]:
  "FactBool = ''bool''"
definition FactEnum :: string where [engine_defs]:
  "FactEnum = ''enum''"

text \<open>The definitions map, as its entries; \<open>newRegistry\<close> keeps the keys distinct.\<close>

record Registry =
  reg_definitions :: "(string \<times> FactDefinition) list"
  reg_digest :: string

record inputScope =
  isc_Declaration :: string
  isc_Components :: "string list"

record inputFact =
  if_ID :: string
  if_State :: string
  if_BoolValue :: "bool option"
  if_EnumValue :: string

record inputComponent =
  ic_Component :: string
  ic_Version :: string
  ic_Facts :: "inputFact list"

record inputSide =
  is_Components :: "inputComponent list"

record inputDocument =
  id_Schema :: string
  id_Authority :: string
  id_Current :: inputSide
  id_Proposed :: inputSide
  id_Scope :: "inputScope option"

record Input =
  in_document :: inputDocument
  in_digest :: string
  in_registryDigest :: string
  in_seal :: bool

record VersionBound =
  vb_Gte :: string
  vb_Lt :: string

record RangeBound =
  rb_Bound :: string
  rb_Basis :: string
  rb_SourceID :: string

record VersionRange =
  vr_From :: VersionBound
  vr_To :: VersionBound
  vr_Bounds :: "RangeBound list"

record transition =
  tr_Component :: string
  tr_From :: string
  tr_To :: string

record factCondition =
  fc_Side :: string
  fc_Component :: string
  fc_FactID :: string
  fc_BoolValue :: "bool option"
  fc_EnumValue :: string

record componentCheck =
  cc_Side :: string
  cc_Component :: string
  cc_Comparison :: string
  cc_Version :: string

record SourceEvidence =
  se_ID :: string
  se_URL :: string
  se_Revision :: string
  se_ContentDigest :: string
  se_StartLine :: int
  se_EndLine :: int

record evidence =
  ev_State :: string
  ev_ReviewedAt :: string
  ev_ValidUntil :: string
  ev_Sources :: "SourceEvidence list"

record rule =
  r_ID :: string
  r_Operator :: string
  r_Subject :: transition
  r_Range :: "VersionRange option"
  r_Condition :: "factCondition option"
  r_AppliesWhen :: "factCondition list"
  r_Dependency :: "componentCheck option"
  r_Intermediate :: string
  r_Evidence :: evidence
  r_ReasonCode :: string
  r_NextAction :: string

record ruleCorpus =
  co_Completeness :: string
  co_Components :: "string list"

record ruleDocument =
  rd_Schema :: string
  rd_Revision :: string
  rd_PolicyID :: string
  rd_PolicyDigest :: string
  rd_Rules :: "rule list"
  rd_Corpus :: "ruleCorpus option"

record RuleSet =
  rs_document :: ruleDocument
  rs_digest :: string
  rs_registryDigest :: string
  rs_ranged :: bool
  rs_seal :: bool

section \<open>Reports\<close>

record SubjectMatch =
  sm_Mode :: string
  sm_AnchorFrom :: string
  sm_AnchorTo :: string
  sm_From :: VersionBound
  sm_To :: VersionBound

record RequiredFact =
  rf_Side :: string
  rf_Component :: string
  rf_FactID :: string

record Claim =
  cl_RuleID :: string
  cl_RuleDigest :: string
  cl_Operator :: string
  cl_Status :: string
  cl_ReasonCode :: string
  cl_NextAction :: string
  cl_EvidenceReviewedAt :: string
  cl_EvidenceValidUntil :: string
  cl_EvidenceFreshness :: string
  cl_RequiredFacts :: "RequiredFact list"
  cl_Sources :: "SourceEvidence list"
  cl_SubjectMatch :: "SubjectMatch option"

record NotEvaluatedRule =
  ne_RuleID :: string
  ne_Applicability :: string
  ne_ReasonCode :: string

record ComponentScope =
  cs_Component :: string
  cs_From :: string
  cs_To :: string
  cs_CorpusAttested :: bool
  cs_EvaluatedRuleIDs :: "string list"
  cs_NotEvaluated :: "NotEvaluatedRule list"

record ScopeCompleteness =
  so_Declaration :: string
  so_CorpusAttestation :: string
  so_ContractDigest :: string
  so_RuleSetRevision :: string
  so_Resolved :: bool
  so_UnresolvedReason :: string
  so_OutOfScopeRules :: int
  so_Components :: "ComponentScope list"

record Report =
  rp_Schema :: string
  rp_Assessment :: string
  rp_InputAuthority :: string
  rp_RulesAuthority :: string
  rp_EvaluatedAt :: string
  rp_InputDigest :: string
  rp_RuleSetDigest :: string
  rp_PolicyID :: string
  rp_PolicyDigest :: string
  rp_EngineContractDigest :: string
  rp_RegistryDigest :: string
  rp_Claims :: "Claim list"
  rp_Omissions :: "string list"
  rp_ScopeCompleteness :: "ScopeCompleteness option"
  rp_seal :: bool
  rp_digest :: string

end
