(* ===== verification/Digests.thy ===== *)
theory Digests
  imports Contracts
begin

text \<open>
  The JSON text of the engine's documents (the struct tags of \<open>constraintengine/contracts.go\<close> and
  \<open>match.go\<close>), their digests, and the digests that identify the engine and scope contracts.
\<close>

section \<open>Digest of bytes and of values\<close>

definition digestBytes :: "string \<Rightarrow> string" where
  "digestBytes raw = ''sha256:'' @ sha256Hex raw"

definition digestJSON :: "json \<Rightarrow> string" where
  "digestJSON value = digestBytes (jsonPrint value)"

text \<open>What the gates of the program ask of a digest, and what the hash function provides.\<close>

locale digest_function =
  fixes H :: "string \<Rightarrow> string"
  assumes H_shape: "digestRE (H raw)"
begin

lemma H_not_blank: "H raw \<noteq> []"
  using H_shape [of raw] by (auto simp: digestRE_def hasPrefix_def)

lemma H_length: "length (H raw) = 71"
  using H_shape [of raw] by (auto simp: digestRE_def)

end

interpretation sha: digest_function digestBytes
  by unfold_locales (simp add: digestBytes_def digestRE_def hasPrefix_def sha256Hex_shape)

section \<open>JSON text of the documents\<close>

definition encFactDefinition :: "FactDefinition \<Rightarrow> json" where
  "encFactDefinition d =
     JObj [(''id'', JStr (fd_ID d)), (''component'', JStr (fd_Component d)), (''type'', JStr (fd_Type d)),
           (''enumTokens'', encNilSlice JStr (fd_EnumTokens d))]"

definition encInputFact :: "inputFact \<Rightarrow> json" where
  "encInputFact f =
     JObj ([(''id'', JStr (if_ID f)), (''state'', JStr (if_State f))]
           @ omitNil ''boolValue'' JBool (if_BoolValue f) @ omitBlank ''enumValue'' (if_EnumValue f))"

definition encInputComponent :: "inputComponent \<Rightarrow> json" where
  "encInputComponent c =
     JObj [(''component'', JStr (ic_Component c)), (''version'', JStr (ic_Version c)),
           (''facts'', JArr (map encInputFact (ic_Facts c)))]"

definition encInputSide :: "inputSide \<Rightarrow> json" where
  "encInputSide s = JObj [(''components'', JArr (map encInputComponent (is_Components s)))]"

definition encInputScope :: "inputScope \<Rightarrow> json" where
  "encInputScope s =
     JObj [(''declaration'', JStr (isc_Declaration s)), (''components'', JArr (map JStr (isc_Components s)))]"

definition encInputDocument :: "inputDocument \<Rightarrow> json" where
  "encInputDocument d =
     JObj ([(''schema'', JStr (id_Schema d)), (''authority'', JStr (id_Authority d)),
            (''current'', encInputSide (id_Current d)), (''proposed'', encInputSide (id_Proposed d))]
           @ omitNil ''scope'' encInputScope (id_Scope d))"

definition encVersionBound :: "VersionBound \<Rightarrow> json" where
  "encVersionBound b = JObj [(''gte'', JStr (vb_Gte b)), (''lt'', JStr (vb_Lt b))]"

definition encRangeBound :: "RangeBound \<Rightarrow> json" where
  "encRangeBound b =
     JObj [(''bound'', JStr (rb_Bound b)), (''basis'', JStr (rb_Basis b)), (''sourceId'', JStr (rb_SourceID b))]"

definition encVersionRange :: "VersionRange \<Rightarrow> json" where
  "encVersionRange r =
     JObj [(''from'', encVersionBound (vr_From r)), (''to'', encVersionBound (vr_To r)),
           (''bounds'', JArr (map encRangeBound (vr_Bounds r)))]"

definition encTransition :: "transition \<Rightarrow> json" where
  "encTransition t =
     JObj [(''component'', JStr (tr_Component t)), (''from'', JStr (tr_From t)), (''to'', JStr (tr_To t))]"

definition encFactCondition :: "factCondition \<Rightarrow> json" where
  "encFactCondition c =
     JObj ([(''side'', JStr (fc_Side c)), (''component'', JStr (fc_Component c)), (''factId'', JStr (fc_FactID c))]
           @ omitNil ''boolValue'' JBool (fc_BoolValue c) @ omitBlank ''enumValue'' (fc_EnumValue c))"

definition encComponentCheck :: "componentCheck \<Rightarrow> json" where
  "encComponentCheck c =
     JObj [(''side'', JStr (cc_Side c)), (''component'', JStr (cc_Component c)),
           (''comparison'', JStr (cc_Comparison c)), (''version'', JStr (cc_Version c))]"

definition encSourceEvidence :: "SourceEvidence \<Rightarrow> json" where
  "encSourceEvidence s =
     JObj [(''id'', JStr (se_ID s)), (''url'', JStr (se_URL s)), (''revision'', JStr (se_Revision s)),
           (''contentDigest'', JStr (se_ContentDigest s)), (''startLine'', encInt (se_StartLine s)),
           (''endLine'', encInt (se_EndLine s))]"

definition encEvidence :: "evidence \<Rightarrow> json" where
  "encEvidence e =
     JObj [(''state'', JStr (ev_State e)), (''reviewedAt'', JStr (ev_ReviewedAt e)),
           (''validUntil'', JStr (ev_ValidUntil e)), (''sources'', JArr (map encSourceEvidence (ev_Sources e)))]"

definition encRule :: "rule \<Rightarrow> json" where
  "encRule r =
     JObj ([(''id'', JStr (r_ID r)), (''operator'', JStr (r_Operator r)), (''subject'', encTransition (r_Subject r))]
           @ omitNil ''range'' encVersionRange (r_Range r)
           @ omitNil ''condition'' encFactCondition (r_Condition r)
           @ omitNone ''appliesWhen'' encFactCondition (r_AppliesWhen r)
           @ omitNil ''dependency'' encComponentCheck (r_Dependency r)
           @ omitBlank ''intermediate'' (r_Intermediate r)
           @ [(''evidence'', encEvidence (r_Evidence r)), (''reasonCode'', JStr (r_ReasonCode r)),
              (''nextAction'', JStr (r_NextAction r))])"

definition encRuleCorpus :: "ruleCorpus \<Rightarrow> json" where
  "encRuleCorpus c =
     JObj [(''completeness'', JStr (co_Completeness c)), (''components'', JArr (map JStr (co_Components c)))]"

definition encRuleDocument :: "ruleDocument \<Rightarrow> json" where
  "encRuleDocument d =
     JObj ([(''schema'', JStr (rd_Schema d)), (''revision'', JStr (rd_Revision d)), (''policyId'', JStr (rd_PolicyID d)),
            (''policyDigest'', JStr (rd_PolicyDigest d)), (''rules'', JArr (map encRule (rd_Rules d)))]
           @ omitNil ''corpus'' encRuleCorpus (rd_Corpus d))"

definition encSubjectMatch :: "SubjectMatch \<Rightarrow> json" where
  "encSubjectMatch m =
     JObj [(''mode'', JStr (sm_Mode m)), (''anchorFrom'', JStr (sm_AnchorFrom m)), (''anchorTo'', JStr (sm_AnchorTo m)),
           (''from'', encVersionBound (sm_From m)), (''to'', encVersionBound (sm_To m))]"

definition encRequiredFact :: "RequiredFact \<Rightarrow> json" where
  "encRequiredFact f =
     JObj [(''side'', JStr (rf_Side f)), (''component'', JStr (rf_Component f)), (''factId'', JStr (rf_FactID f))]"

definition encClaim :: "Claim \<Rightarrow> json" where
  "encClaim c =
     JObj ([(''ruleId'', JStr (cl_RuleID c)), (''ruleDigest'', JStr (cl_RuleDigest c)),
            (''operator'', JStr (cl_Operator c)), (''status'', JStr (cl_Status c)),
            (''reasonCode'', JStr (cl_ReasonCode c)), (''nextAction'', JStr (cl_NextAction c)),
            (''evidenceReviewedAt'', JStr (cl_EvidenceReviewedAt c)),
            (''evidenceValidUntil'', JStr (cl_EvidenceValidUntil c)),
            (''evidenceFreshness'', JStr (cl_EvidenceFreshness c)),
            (''requiredFacts'', JArr (map encRequiredFact (cl_RequiredFacts c))),
            (''sources'', encNilSlice encSourceEvidence (cl_Sources c))]
           @ omitNil ''subjectMatch'' encSubjectMatch (cl_SubjectMatch c))"

definition encNotEvaluatedRule :: "NotEvaluatedRule \<Rightarrow> json" where
  "encNotEvaluatedRule n =
     JObj [(''ruleId'', JStr (ne_RuleID n)), (''applicability'', JStr (ne_Applicability n)),
           (''reasonCode'', JStr (ne_ReasonCode n))]"

definition encComponentScope :: "ComponentScope \<Rightarrow> json" where
  "encComponentScope c =
     JObj [(''component'', JStr (cs_Component c)), (''from'', JStr (cs_From c)), (''to'', JStr (cs_To c)),
           (''corpusAttested'', JBool (cs_CorpusAttested c)),
           (''evaluatedRuleIds'', JArr (map JStr (cs_EvaluatedRuleIDs c))),
           (''notEvaluated'', JArr (map encNotEvaluatedRule (cs_NotEvaluated c)))]"

definition encScopeCompleteness :: "ScopeCompleteness \<Rightarrow> json" where
  "encScopeCompleteness s =
     JObj ([(''declaration'', JStr (so_Declaration s)), (''corpusAttestation'', JStr (so_CorpusAttestation s)),
            (''contractDigest'', JStr (so_ContractDigest s)), (''ruleSetRevision'', JStr (so_RuleSetRevision s)),
            (''resolved'', JBool (so_Resolved s))]
           @ omitBlank ''unresolvedReason'' (so_UnresolvedReason s)
           @ [(''outOfScopeRules'', encInt (so_OutOfScopeRules s)),
              (''components'', JArr (map encComponentScope (so_Components s)))])"

text \<open>The unexported fields \<open>seal\<close> and \<open>digest\<close> are not marshalled.\<close>

definition encReport :: "Report \<Rightarrow> json" where
  "encReport r =
     JObj ([(''schema'', JStr (rp_Schema r)), (''assessment'', JStr (rp_Assessment r)),
            (''inputAuthority'', JStr (rp_InputAuthority r)), (''rulesAuthority'', JStr (rp_RulesAuthority r)),
            (''evaluatedAt'', JStr (rp_EvaluatedAt r)), (''inputDigest'', JStr (rp_InputDigest r)),
            (''ruleSetDigest'', JStr (rp_RuleSetDigest r)), (''policyId'', JStr (rp_PolicyID r)),
            (''policyDigest'', JStr (rp_PolicyDigest r)),
            (''engineContractDigest'', JStr (rp_EngineContractDigest r)),
            (''registryDigest'', JStr (rp_RegistryDigest r)), (''claims'', JArr (map encClaim (rp_Claims r))),
            (''omissions'', JArr (map JStr (rp_Omissions r)))]
           @ omitNil ''scopeCompleteness'' encScopeCompleteness (rp_ScopeCompleteness r))"

section \<open>Sealed capabilities\<close>

definition inputValid :: "Input \<Rightarrow> bool" where
  "inputValid i = (in_seal i \<and> in_digest i = digestJSON (encInputDocument (in_document i)))"

definition inputDigest :: "Input \<Rightarrow> string result" where
  "inputDigest i = (if \<not> inputValid i then Inl (ErrIntegrity []) else Inr (in_digest i))"

definition ruleSetValid :: "RuleSet \<Rightarrow> bool" where
  "ruleSetValid r = (rs_seal r \<and> rs_digest r = digestJSON (encRuleDocument (rs_document r)))"

definition ruleSetDigest :: "RuleSet \<Rightarrow> string result" where
  "ruleSetDigest r = (if \<not> ruleSetValid r then Inl (ErrIntegrity []) else Inr (rs_digest r))"

section \<open>Contract identities\<close>

definition lines :: "string list \<Rightarrow> string" where
  "lines ls = joinWith (CHR 0x0A) ls"

definition BasisRemovedInRelease :: string where [engine_defs]:
  "BasisRemovedInRelease = ''REMOVED_IN_RELEASE''"
definition BasisChangedInRelease :: string where [engine_defs]:
  "BasisChangedInRelease = ''CHANGED_IN_RELEASE''"
definition BasisRestoredInRelease :: string where [engine_defs]:
  "BasisRestoredInRelease = ''RESTORED_IN_RELEASE''"
definition BasisUpgradeFromSeries :: string where [engine_defs]:
  "BasisUpgradeFromSeries = ''UPGRADE_FROM_SERIES''"
definition BasisTargetSeries :: string where [engine_defs]:
  "BasisTargetSeries = ''TARGET_SERIES''"
definition BasisPreviousMinorLine :: string where [engine_defs]:
  "BasisPreviousMinorLine = ''PREVIOUS_MINOR_LINE''"
definition BasisReviewedThroughMinorLine :: string where [engine_defs]:
  "BasisReviewedThroughMinorLine = ''REVIEWED_THROUGH_MINOR_LINE''"
definition BasisAnchorOnly :: string where [engine_defs]:
  "BasisAnchorOnly = ''ANCHOR_ONLY''"
definition rangeWidthPolicy :: string where [engine_defs]:
  "rangeWidthPolicy = ''range-width:one-minor-line-per-side''"

definition basisVocabulary :: string where
  "basisVocabulary =
     lines [BasisAnchorOnly, BasisChangedInRelease, BasisPreviousMinorLine, BasisRemovedInRelease,
            BasisRestoredInRelease, BasisReviewedThroughMinorLine, BasisTargetSeries, BasisUpgradeFromSeries]"

definition engineContractDigest :: string where
  "engineContractDigest = digestBytes (lines
     [EngineVersion, InputSchema, RulesSchema, ReportSchema, InputAuthority, RulesAuthority,
      ''appliesWhen'', ''comparison:eq'', ''comparison:gte'', ''comparison:lte'', ''comparison:lt'',
      ''forbid_predicate_value'', ''require_component_version'', ''require_intermediate_version'',
      ''forbid_target_version''])"

definition engineContractDigestRanged :: string where
  "engineContractDigestRanged = digestBytes (lines
     [EngineVersion, InputSchema, RulesSchemaRanged, ReportSchema, InputAuthority, RulesAuthority,
      ''appliesWhen'', ''comparison:eq'', ''comparison:gte'', ''comparison:lte'', ''comparison:lt'',
      ''forbid_predicate_value'', ''require_component_version'', ''require_intermediate_version'',
      ''forbid_target_version'', ''subject:exact'', ''subject:range'', ''claim:subjectMatch'',
      rangeWidthPolicy, basisVocabulary])"

definition ruleSetEngineDigest :: "RuleSet \<Rightarrow> string" where
  "ruleSetEngineDigest r = (if rs_ranged r then engineContractDigestRanged else engineContractDigest)"

definition scopeContractDigest :: string where
  "scopeContractDigest = digestBytes (lines
     [ScopeContractVersion, ScopeDeclaration, CorpusAttestation, AssessmentUnknown, AssessmentBlocked,
      AssessmentScopeCompletePass, ApplicabilityApplicable, ApplicabilityNotApplicable,
      ApplicabilityUndetermined, omissionWholeUpgradeScoped])"

definition scopeContractDigestRanged :: string where
  "scopeContractDigestRanged = digestBytes (lines
     [ScopeContractVersionRanged, ScopeDeclaration, CorpusAttestation, AssessmentUnknown, AssessmentBlocked,
      AssessmentScopeCompletePass, ApplicabilityApplicable, ApplicabilityNotApplicable,
      ApplicabilityUndetermined, omissionWholeUpgradeScoped, unresolvedTransitionNotAnchor])"

definition scopeDigestFor :: "string \<Rightarrow> string" where
  "scopeDigestFor engineDigest =
     (if engineDigest = engineContractDigest then scopeContractDigest
      else if engineDigest = engineContractDigestRanged then scopeContractDigestRanged
      else [])"

lemma scopeDigestFor_ruleSet: "scopeDigestFor (ruleSetEngineDigest r) \<noteq> []"
  by (simp add: scopeDigestFor_def ruleSetEngineDigest_def scopeContractDigest_def
      scopeContractDigestRanged_def sha.H_not_blank)

lemma digestJSON_shape [simp]: "digestRE (digestJSON v)"
  by (simp add: digestJSON_def sha.H_shape)

section \<open>Review times\<close>

definition parseUTC :: "string \<Rightarrow> goTime result" where
  "parseUTC value =
     (case parseRFC3339 value of
        None \<Rightarrow> Inl (ErrInvalid [])
      | Some parsed \<Rightarrow>
          if \<not> t_utc parsed \<or> formatRFC3339 parsed \<noteq> value then Inl (ErrInvalid []) else Inr parsed)"

text \<open>The value of a Go call whose error is ignored: the zero time on failure.\<close>

definition zeroTime :: goTime where
  "zeroTime = \<lparr>t_year = 1, t_month = 1, t_day = 1, t_hour = 0, t_minute = 0, t_second = 0,
              t_nsec = 0, t_utc = True\<rparr>"

definition timeOrZero :: "goTime result \<Rightarrow> goTime" where
  "timeOrZero r = (case r of Inl _ \<Rightarrow> zeroTime | Inr t \<Rightarrow> t)"

end
