(* ===== verification/FactRegistry.thy ===== *)
theory FactRegistry
  imports Digests "HOL-Library.Multiset"
begin

text \<open>
  The compiled fact registry (\<open>contracts.go\<close>: \<open>EmptyRegistry\<close>, \<open>NewRegistry\<close>,
  \<open>NewCompiledRegistry\<close>, \<open>newRegistry\<close>, \<open>definition\<close>, \<open>registryDigest\<close>, \<open>contains\<close>).
\<close>

section \<open>Construction\<close>

definition registryDigest :: "(string \<times> FactDefinition) list \<Rightarrow> string" where
  "registryDigest definitions =
     digestJSON (JObj [(''facts'', JArr (map encFactDefinition (sort_key fd_ID (map snd definitions))))])"

definition EmptyRegistry :: Registry where
  "EmptyRegistry = \<lparr>reg_definitions = [], reg_digest = registryDigest []\<rparr>"

text \<open>The loop body of \<open>newRegistry\<close>: the checked copy of one definition.\<close>

definition checkEnumTokens :: "string list \<Rightarrow> error option" where
  "checkEnumTokens tokens =
     firstErrAdj (\<lambda>p token.
       failIf (\<not> idRE token \<or> maxStringBytes < length token \<or> p = Some token) (ErrInvalid ''enum token''))
       None tokens"

definition admitDefinition :: "(string \<times> FactDefinition) list \<Rightarrow> FactDefinition \<Rightarrow> FactDefinition result" where
  "admitDefinition known d =
     (if \<not> factIDRE (fd_ID d) \<or> \<not> componentRE (fd_Component d) \<or> maxStringBytes < length (fd_ID d)
      then Inl (ErrInvalid ''fact id'')
      else if map_of known (fd_ID d) \<noteq> None then Inl (ErrInvalid ''duplicate fact id'')
      else if fd_Type d = FactBool then
        (if fd_EnumTokens d \<noteq> [] then Inl (ErrInvalid ''boolean enum tokens'') else Inr d)
      else if fd_Type d = FactEnum then
        (if fd_EnumTokens d = [] \<or> maxFacts < length (fd_EnumTokens d)
         then Inl (ErrInvalid ''enum token count'')
         else (let tokens = sort (fd_EnumTokens d) in
               case checkEnumTokens tokens of
                 Some e \<Rightarrow> Inl e
               | None \<Rightarrow> Inr (d\<lparr>fd_EnumTokens := tokens\<rparr>)))
      else Inl (ErrInvalid ''fact type''))"

fun admitAll :: "(string \<times> FactDefinition) list \<Rightarrow> FactDefinition list \<Rightarrow> (string \<times> FactDefinition) list result" where
  "admitAll known [] = Inr known"
| "admitAll known (d # ds) =
     (case admitDefinition known d of
        Inl e \<Rightarrow> Inl e
      | Inr c \<Rightarrow> admitAll ((fd_ID c, c) # known) ds)"

definition newRegistry :: "FactDefinition list \<Rightarrow> nat \<Rightarrow> Registry result" where
  "newRegistry definitions definitionLimit =
     (if definitionLimit < length definitions then Inl (ErrInvalid ''fact registry cardinality'')
      else (case admitAll (reg_definitions EmptyRegistry) definitions of
              Inl e \<Rightarrow> Inl e
            | Inr defs \<Rightarrow> Inr \<lparr>reg_definitions = defs, reg_digest = registryDigest defs\<rparr>))"

definition NewRegistry :: "FactDefinition list \<Rightarrow> Registry result" where
  "NewRegistry definitions = newRegistry definitions maxFacts"

definition NewCompiledRegistry :: "FactDefinition list \<Rightarrow> Registry result" where
  "NewCompiledRegistry definitions = newRegistry definitions maxCompiledRegistryFacts"

section \<open>Lookup\<close>

definition registryDefinition :: "Registry \<Rightarrow> string \<Rightarrow> FactDefinition option" where
  "registryDefinition r fid = map_of (reg_definitions r) fid"

text \<open>\<open>sort.SearchStrings\<close>, then a check of the position found.\<close>

definition searchStrings :: "string list \<Rightarrow> string \<Rightarrow> nat" where
  "searchStrings vals wanted = sortSearch (length vals) (\<lambda>i. wanted \<le> vals ! i)"

definition contains :: "string list \<Rightarrow> string \<Rightarrow> bool" where
  "contains vals wanted =
     (searchStrings vals wanted < length vals \<and> vals ! searchStrings vals wanted = wanted)"

lemma contains_sorted: "sorted vals \<Longrightarrow> contains vals wanted \<longleftrightarrow> wanted \<in> set vals"
  using go_search.search_finds [of id vals wanted] by (simp add: contains_def searchStrings_def)

section \<open>The registry invariant\<close>

definition wfDefinition :: "FactDefinition \<Rightarrow> bool" where
  "wfDefinition d \<longleftrightarrow>
     factIDRE (fd_ID d) \<and> componentRE (fd_Component d) \<and> length (fd_ID d) \<le> maxStringBytes \<and>
     (fd_Type d = FactBool \<and> fd_EnumTokens d = [] \<or>
      fd_Type d = FactEnum \<and> fd_EnumTokens d \<noteq> [] \<and> length (fd_EnumTokens d) \<le> maxFacts \<and>
      sorted_wrt (<) (fd_EnumTokens d) \<and> (\<forall>t\<in>set (fd_EnumTokens d). idRE t))"

definition wfRegistry :: "Registry \<Rightarrow> bool" where
  "wfRegistry r \<longleftrightarrow>
     distinct (map fst (reg_definitions r)) \<and>
     (\<forall>(k, d)\<in>set (reg_definitions r). k = fd_ID d \<and> wfDefinition d) \<and>
     reg_digest r = registryDigest (reg_definitions r)"

lemma noRepeat_strict:
  assumes "allAdj (\<lambda>p t. idRE t \<and> p \<noteq> Some t) q ts" and "sorted ts"
    and "\<And>y t. q = Some y \<Longrightarrow> t \<in> set ts \<Longrightarrow> y \<le> t"
  shows "sorted_wrt (<) ts \<and> (\<forall>t\<in>set ts. idRE t) \<and> (\<forall>y t. q = Some y \<longrightarrow> t \<in> set ts \<longrightarrow> y < t)"
  using assms
proof (induction ts arbitrary: q)
  case Nil
  then show ?case by simp
next
  case (Cons t ts)
  have IH: "sorted_wrt (<) ts \<and> (\<forall>u\<in>set ts. idRE u) \<and> (\<forall>u\<in>set ts. t < u)"
    using Cons.IH [of "Some t"] Cons.prems(1,2) by auto
  moreover have "y < u" if "q = Some y" "u \<in> set (t # ts)" for y u
    using Cons.prems(1) Cons.prems(3) [OF that(1), of t] that IH by (auto simp: order_less_le)
  ultimately show ?case using Cons.prems(1) by simp
qed

lemma checkEnumTokens_None:
  assumes "checkEnumTokens tokens = None" and "sorted tokens"
  shows "sorted_wrt (<) tokens \<and> (\<forall>t\<in>set tokens. idRE t)"
proof -
  have "allAdj (\<lambda>p t. idRE t \<and> p \<noteq> Some t) None tokens"
    by (rule allAdj_mono [OF _ assms(1) [unfolded checkEnumTokens_def firstErrAdj_allAdj]]) simp
  from noRepeat_strict [OF this assms(2)] show ?thesis by simp
qed

text \<open>Whether a definition is admitted depends on the others only through its identifier.\<close>

lemma admitDefinition_known:
  "admitDefinition known d = Inr c \<longleftrightarrow> fd_ID d \<notin> fst ` set known \<and> admitDefinition [] d = Inr c"
  by (auto simp: admitDefinition_def map_of_eq_None_iff Let_def split: if_splits option.splits)

lemma admitDefinition_ok:
  assumes "admitDefinition known d = Inr c"
  shows "fd_ID c = fd_ID d \<and> wfDefinition c"
proof (cases "fd_Type d = FactEnum")
  case True
  then have "fd_Type d \<noteq> FactBool" by (simp add: FactEnum_def FactBool_def)
  with True assms checkEnumTokens_None [of "sort (fd_EnumTokens d)"] show ?thesis
    by (auto simp: admitDefinition_def wfDefinition_def Let_def split: if_splits option.splits)
       (metis length_0_conv length_sort)
next
  case False
  with assms show ?thesis
    by (auto simp: admitDefinition_def wfDefinition_def split: if_splits)
qed

lemma admitAll_iff:
  "admitAll known ds = Inr defs \<longleftrightarrow>
     (\<exists>cs. map (admitDefinition []) ds = map Inr cs \<and> distinct (map fd_ID ds) \<and>
           fd_ID ` set ds \<inter> fst ` set known = {} \<and>
           defs = rev (map (\<lambda>c. (fd_ID c, c)) cs) @ known)"
proof (induction ds arbitrary: known)
  case Nil
  then show ?case by auto
next
  case (Cons d ds)
  show ?case
  proof (cases "admitDefinition known d")
    case (Inl e)
    then have "fd_ID d \<in> fst ` set known \<or> (\<forall>c. admitDefinition [] d \<noteq> Inr c)"
      using admitDefinition_known [of known d] by (metis sum.distinct(1))
    with Inl show ?thesis by (auto simp: map_eq_Cons_conv)
  next
    case (Inr c)
    then have c: "fd_ID d \<notin> fst ` set known" "admitDefinition [] d = Inr c" "fd_ID c = fd_ID d"
      using admitDefinition_known [of known d c] admitDefinition_ok [of known d c] by auto
    show ?thesis
    proof
      assume "admitAll known (d # ds) = Inr defs"
      with Inr Cons.IH [of "(fd_ID c, c) # known"] obtain cs where
        "map (admitDefinition []) ds = map Inr cs" "distinct (map fd_ID ds)"
        "fd_ID ` set ds \<inter> insert (fd_ID c) (fst ` set known) = {}"
        "defs = rev (map (\<lambda>c. (fd_ID c, c)) cs) @ (fd_ID c, c) # known" by auto
      with c show "\<exists>cs. map (admitDefinition []) (d # ds) = map Inr cs \<and> distinct (map fd_ID (d # ds)) \<and>
           fd_ID ` set (d # ds) \<inter> fst ` set known = {} \<and> defs = rev (map (\<lambda>c. (fd_ID c, c)) cs) @ known"
        by (intro exI [of _ "c # cs"]) auto
    next
      assume "\<exists>cs. map (admitDefinition []) (d # ds) = map Inr cs \<and> distinct (map fd_ID (d # ds)) \<and>
           fd_ID ` set (d # ds) \<inter> fst ` set known = {} \<and> defs = rev (map (\<lambda>c. (fd_ID c, c)) cs) @ known"
      then obtain cs where "map (admitDefinition []) ds = map Inr cs" "distinct (map fd_ID (d # ds))"
        "fd_ID ` set (d # ds) \<inter> fst ` set known = {}" "defs = rev (map (\<lambda>c. (fd_ID c, c)) (c # cs)) @ known"
        using c by (auto simp: map_eq_Cons_conv Cons_eq_map_conv)
      with Inr c Cons.IH [of "(fd_ID c, c) # known"] show "admitAll known (d # ds) = Inr defs" by auto
    qed
  qed
qed

lemma newRegistry_Inr:
  assumes "newRegistry ds lim = Inr r"
  obtains cs where "length ds \<le> lim" "map (admitDefinition []) ds = map Inr cs" "distinct (map fd_ID ds)"
    "reg_definitions r = rev (map (\<lambda>c. (fd_ID c, c)) cs)" "reg_digest r = registryDigest (reg_definitions r)"
    "map fd_ID cs = map fd_ID ds" "\<forall>c\<in>set cs. wfDefinition c"
proof -
  obtain defs where defs: "admitAll [] ds = Inr defs" "length ds \<le> lim"
    "r = \<lparr>reg_definitions = defs, reg_digest = registryDigest defs\<rparr>"
    using assms by (auto simp: newRegistry_def EmptyRegistry_def split: if_splits sum.splits)
  then obtain cs where cs: "map (admitDefinition []) ds = map Inr cs" "distinct (map fd_ID ds)"
    "defs = rev (map (\<lambda>c. (fd_ID c, c)) cs)"
    using admitAll_iff [of "[]" ds defs] by auto
  have len: "length cs = length ds" using cs(1) by (metis length_map)
  have each: "admitDefinition [] (ds ! i) = Inr (cs ! i)" if "i < length ds" for i
    using cs(1) that len by (metis nth_map)
  have "fd_ID (cs ! i) = fd_ID (ds ! i)" if "i < length ds" for i
    using admitDefinition_ok [OF each [OF that]] by simp
  then have "map fd_ID cs = map fd_ID ds"
    using len by (simp add: list_eq_iff_nth_eq)
  moreover have "\<forall>c\<in>set cs. wfDefinition c"
    using len each admitDefinition_ok by (metis in_set_conv_nth)
  ultimately show ?thesis using that [of cs] defs cs by simp
qed

lemma newRegistry_wf:
  assumes "newRegistry ds lim = Inr r"
  shows "wfRegistry r"
proof -
  obtain cs where cs: "distinct (map fd_ID ds)" "map fd_ID cs = map fd_ID ds"
    "reg_definitions r = rev (map (\<lambda>c. (fd_ID c, c)) cs)" "reg_digest r = registryDigest (reg_definitions r)"
    "\<forall>c\<in>set cs. wfDefinition c"
    by (rule newRegistry_Inr [OF assms])
  have "map fst (reg_definitions r) = rev (map fd_ID cs)"
    by (simp add: cs(3) rev_map comp_def)
  then have "distinct (map fst (reg_definitions r))" using cs(1,2) by simp
  with cs(3,4,5) show ?thesis by (auto simp: wfRegistry_def)
qed

lemma registryDefinition_wf:
  assumes "wfRegistry r" and "registryDefinition r fid = Some d"
  shows "fd_ID d = fid \<and> wfDefinition d"
  using assms by (auto simp: wfRegistry_def registryDefinition_def dest!: map_of_SomeD)

lemma wfDefinition_enum:
  "wfDefinition d \<Longrightarrow> sorted (fd_EnumTokens d)"
  by (auto simp: wfDefinition_def strict_sorted_imp_sorted)

text \<open>The digest depends on the set of definitions, not on the order they were listed in.\<close>

lemma sort_key_unique:
  assumes "distinct (map key xs)" and "mset xs = mset ys"
  shows "sort_key key xs = sort_key key ys"
  using assms by (intro sort_key_inj_key_eq) (auto simp: distinct_map)

lemma registryDigest_mset:
  assumes "distinct (map fst defs)" and "\<forall>(k, d)\<in>set defs. k = fd_ID d" and "mset defs = mset defs'"
  shows "registryDigest defs = registryDigest defs'"
proof -
  have "map fst defs = map fd_ID (map snd defs)" using assms(2) by auto
  then have "distinct (map fd_ID (map snd defs))" using assms(1) by (simp only:)
  moreover have "mset (map snd defs) = mset (map snd defs')" using assms(3) by (metis mset_map)
  ultimately show ?thesis unfolding registryDigest_def by (simp only: sort_key_unique)
qed

text \<open>Listing the definitions in another order yields the same lookups and the same digest.\<close>

lemma newRegistry_order:
  assumes "newRegistry ds lim = Inr r" and "mset ds' = mset ds"
  shows "\<exists>r'. newRegistry ds' lim = Inr r' \<and> reg_digest r' = reg_digest r \<and>
    (\<forall>fid. registryDefinition r' fid = registryDefinition r fid)"
proof -
  obtain cs where cs: "length ds \<le> lim" "map (admitDefinition []) ds = map Inr cs" "distinct (map fd_ID ds)"
    "reg_definitions r = rev (map (\<lambda>c. (fd_ID c, c)) cs)" "reg_digest r = registryDigest (reg_definitions r)"
    "map fd_ID cs = map fd_ID ds"
    by (rule newRegistry_Inr [OF assms(1)])
  define cs' where "cs' = map (projr \<circ> admitDefinition []) ds'"
  have all: "\<exists>c. admitDefinition [] d = Inr c" if "d \<in> set ds'" for d
  proof -
    have "d \<in> set ds" using that assms(2) by (metis mset_eq_setD)
    then have "admitDefinition [] d \<in> set (map Inr cs)" unfolding cs(2) [symmetric] by simp
    then show ?thesis by auto
  qed
  have cs': "map (admitDefinition []) ds' = map Inr cs'"
    using all by (fastforce simp: cs'_def)
  have dist': "distinct (map fd_ID ds')"
    using cs(3) assms(2) by (metis mset_eq_imp_distinct_iff mset_map)
  define defs' where "defs' = rev (map (\<lambda>c. (fd_ID c, c)) cs')"
  have new: "newRegistry ds' lim = Inr \<lparr>reg_definitions = defs', reg_digest = registryDigest defs'\<rparr>"
    using cs(1) cs' dist' assms(2) admitAll_iff [of "[]" ds' defs']
    by (auto simp: newRegistry_def EmptyRegistry_def defs'_def dest: mset_eq_length)
  have "map Inr cs = map (admitDefinition []) ds" using cs(2) by simp
  then have "cs = map (projr \<circ> admitDefinition []) ds"
    by (metis list.map_comp list.map_id sum.sel(2) comp_apply map_idI)
  then have "mset cs' = mset cs" unfolding cs'_def using assms(2) by (metis mset_map)
  then have ms: "mset (reg_definitions r) = mset defs'"
    unfolding cs(4) defs'_def mset_rev by (metis mset_map)
  have keys: "map fst (reg_definitions r) = rev (map fd_ID ds)"
    unfolding cs(4) cs(6) [symmetric] by (simp add: rev_map comp_def)
  then have d: "distinct (map fst (reg_definitions r))" using cs(3) by simp
  have dig: "registryDigest (reg_definitions r) = registryDigest defs'"
    by (rule registryDigest_mset [OF d _ ms]) (auto simp: cs(4))
  have d': "distinct (map fst defs')" using d ms by (metis mset_eq_imp_distinct_iff mset_map)
  have "map_of (reg_definitions r) = map_of defs'"
    using d d' ms by (intro map_of_inject_set [THEN iffD2]) (auto dest: mset_eq_setD)
  with new dig cs(5) show ?thesis by (simp add: registryDefinition_def)
qed

end
