(* ===== verification/CncfRegistry.thy ===== *)
theory CncfRegistry
  imports FactRegistry
begin

text \<open>
  \<open>cncfcheck/registry.go\<close>: the policy text and the fact definitions compiled into the executable, and
  the registry built from them. The list is the code's list, in its order.

  Shown here: the compiled definitions are admitted, so \<open>compiledRegistry\<close> never fails.
\<close>

definition PolicyDeclaration :: string where
  "PolicyDeclaration =
     ''Prufyx CNCF source-constraint preview v1: exact declared current/proposed endpoints; compiled '' @
     ''minimized facts; scoped PASS/BLOCKED/UNKNOWN; all whole-upgrade assessments UNKNOWN; no runtime, '' @
     ''signature, observed input, or upload authority. Maintainer source reviews expire after 90 days; '' @
     ''this is not an upstream support lifetime.''"

abbreviation boolFact :: "string \<Rightarrow> string \<Rightarrow> FactDefinition" where
  "boolFact i c \<equiv> \<lparr>fd_ID = i, fd_Component = c, fd_Type = FactBool, fd_EnumTokens = []\<rparr>"

abbreviation enumFact :: "string \<Rightarrow> string \<Rightarrow> string list \<Rightarrow> FactDefinition" where
  "enumFact i c tokens \<equiv> \<lparr>fd_ID = i, fd_Component = c, fd_Type = FactEnum, fd_EnumTokens = tokens\<rparr>"

definition compiledDefinitions :: "FactDefinition list" where
  "compiledDefinitions =
    [boolFact ''component.argo_cd.disable_fine_grained_inheritance'' ''pkg:github/argoproj/argo-cd'',
     enumFact ''component.argo_cd.latest_distribution'' ''pkg:github/argoproj/argo-cd'' [''custom_build'', ''official_upstream''],
     enumFact ''component.argo_cd.latest_execution_surface'' ''pkg:github/argoproj/argo-cd'' [''other'', ''repository_secret''],
     boolFact ''component.argo_cd.plain_http_oci_repository_unusable'' ''pkg:github/argoproj/argo-cd'',
     boolFact ''component.argo_cd.repository_settings_complete_and_precedence_resolved'' ''pkg:github/argoproj/argo-cd'',
     boolFact ''component.argo_cd.requires_inherited_application_permissions'' ''pkg:github/argoproj/argo-cd'',
     boolFact ''component.argo_cd.requires_v2_visibility_of_v3_default_excluded_resources'' ''pkg:github/argoproj/argo-cd'',
     boolFact ''component.argo_cd.resource_exclusions_source_default_selected'' ''pkg:github/argoproj/argo-cd'',
     boolFact ''component.argo_cd.selected_repository_uses_plain_http'' ''pkg:github/argoproj/argo-cd'',
     boolFact ''component.buildpacks.lifecycle_supports_selected_platform_api'' ''pkg:oci/buildpacksio/lifecycle'',
     enumFact ''component.buildpacks.selected_platform_api'' ''pkg:oci/buildpacksio/lifecycle'' [''0.11'', ''0.12'', ''0.13''],
     boolFact ''component.cilium.nonempty_requires_fields'' ''pkg:github/cilium/cilium'',
     boolFact ''component.cilium.invalid_effective_cluster_name'' ''pkg:github/cilium/cilium'',
     enumFact ''component.cni_spec.configuration_shape'' ''pkg:generic/cni-configuration-spec'' [''plugin_list'', ''single_plugin''],
     boolFact ''component.cni_spec.configuration_spec_migration_planned'' ''pkg:generic/cni-configuration-spec'',
     enumFact ''component.cni_spec.inspected_spec_version'' ''pkg:generic/cni-configuration-spec'' [''0.4.0'', ''1.0.0''],
     enumFact ''component.containerd.cri_api'' ''pkg:github/containerd/containerd'' [''v1'', ''v1alpha2''],
     boolFact ''component.containerd.official_bundled_runtimes_only'' ''pkg:github/containerd/containerd'',
     boolFact ''component.containerd.official_upstream_distribution'' ''pkg:github/containerd/containerd'',
     boolFact ''component.containerd.selected_runtime_uses_removed_official_shim'' ''pkg:github/containerd/containerd'',
     enumFact ''component.coredns.distribution'' ''pkg:github/coredns/coredns'' [''custom'', ''official''],
     boolFact ''component.coredns.federation_directive_present'' ''pkg:github/coredns/coredns'',
     boolFact ''component.crio.artifact_named_reference_is_short'' ''pkg:github/cri-o/cri-o'',
     boolFact ''component.crio.artifact_named_reference_resolution_planned'' ''pkg:github/cri-o/cri-o'',
     enumFact ''component.distribution.image_manifest_format'' ''pkg:github/distribution/distribution'' [''docker_schema1'', ''docker_schema2'', ''oci_image_manifest''],
     enumFact ''component.cortex.distribution'' ''pkg:github/cortexproject/cortex'' [''custom_build'', ''official_upstream''],
     enumFact ''component.cortex.execution_surface'' ''pkg:github/cortexproject/cortex'' [''cortex'', ''other''],
     boolFact ''component.cortex.removed_at_modifier_flag_present'' ''pkg:github/cortexproject/cortex'',
     boolFact ''component.dragonfly.debug_logging_enabled'' ''pkg:github/dragonflyoss/dragonfly'',
     enumFact ''component.dragonfly.distribution'' ''pkg:github/dragonflyoss/dragonfly'' [''custom_build'', ''official_upstream''],
     enumFact ''component.dragonfly.execution_surface'' ''pkg:github/dragonflyoss/dragonfly'' [''manager_config'', ''other'', ''scheduler_config''],
     boolFact ''component.dragonfly.legacy_verbose_debug_intent'' ''pkg:github/dragonflyoss/dragonfly'',
     boolFact ''component.dragonfly.retain_debug_logging_required'' ''pkg:github/dragonflyoss/dragonfly'',
     enumFact ''component.crossplane.composition_mode'' ''pkg:github/crossplane/crossplane'' [''pipeline'', ''resources''],
     enumFact ''component.crossplane.distribution'' ''pkg:github/crossplane/crossplane'' [''custom_build'', ''official_upstream''],
     boolFact ''component.crossplane.schema_validation_required'' ''pkg:github/crossplane/crossplane'',
     boolFact ''component.cubefs.metanode_upgrade_phase'' ''pkg:github/cubefs/cubefs'',
     boolFact ''component.cubefs.raft_sync_snapshot_format_zero'' ''pkg:github/cubefs/cubefs'',
     boolFact ''component.contour.gateway_v1alpha1_present'' ''pkg:github/projectcontour/contour'',
     boolFact ''component.cloudnativepg.cluster_reference_changed'' ''pkg:github/cloudnative-pg/cloudnative-pg'',
     boolFact ''component.cloud_custodian.iam_access_key_json_diff_present'' ''pkg:github/cloud-custodian/cloud-custodian'',
     boolFact ''component.dapr.scheduler_embedded_etcd_inventory_complete'' ''pkg:github/dapr/dapr'',
     boolFact ''component.dapr.scheduler_persisted_data_present'' ''pkg:github/dapr/dapr'',
     enumFact ''component.envoy.xds_api_major'' ''pkg:github/envoyproxy/envoy'' [''v2'', ''v3''],
     boolFact ''component.etcd.experimental_flags_present'' ''pkg:github/etcd-io/etcd'',
     boolFact ''component.etcd.removed_v2_proxy_flags_present'' ''pkg:github/etcd-io/etcd'',
     boolFact ''component.emissary.removed_metrics_endpoint_present'' ''pkg:github/emissary-ingress/emissary'',
     enumFact ''component.falco.distribution'' ''pkg:github/falcosecurity/falco'' [''custom_build'', ''official_upstream''],
     enumFact ''component.falco.execution_surface'' ''pkg:github/falcosecurity/falco'' [''falco'', ''other''],
     boolFact ''component.falco.removed_040_cli_flags_present'' ''pkg:github/falcosecurity/falco'',
     enumFact ''component.fluentd.distribution'' ''pkg:github/fluent/fluentd'' [''custom_build'', ''official_upstream''],
     boolFact ''component.fluentd.literal_treatment_change_risk'' ''pkg:github/fluent/fluentd'',
     boolFact ''component.fluentd.selected_value_complete'' ''pkg:github/fluent/fluentd'',
     boolFact ''component.fluentd.current_default_used'' ''pkg:github/fluent/fluentd'',
     boolFact ''component.fluentd.preserve_literal_treatment'' ''pkg:github/fluent/fluentd'',
     boolFact ''component.flux.removed_beta_api_present'' ''pkg:github/fluxcd/flux2'',
     boolFact ''component.flux.latest_removed_beta_api_present'' ''pkg:github/fluxcd/flux2'',
     enumFact ''component.harbor.deployment_mode'' ''pkg:github/goharbor/harbor'' [''custom'', ''docker-compose'', ''helm''],
     enumFact ''component.harbor.installer_config_format'' ''pkg:github/goharbor/harbor'' [''cfg'', ''yml''],
     boolFact ''component.harbor.installer_with_chartmuseum_present'' ''pkg:github/goharbor/harbor'',
     enumFact ''component.helm.post_renderer_mode'' ''pkg:github/helm/helm'' [''executable_path'', ''plugin_name'', ''unset''],
     enumFact ''component.istio.compatibility_profile'' ''pkg:github/istio/istio'' [''1.20'', ''other'', ''unset''],
     enumFact ''component.in_toto.in_toto_run_key_argument'' ''pkg:github/in-toto/in-toto'' [''legacy_key'', ''signing_key''],
     boolFact ''component.jaeger.explicit_config_provided'' ''pkg:github/jaegertracing/jaeger'',
     boolFact ''component.jaeger.non_memory_storage_required'' ''pkg:github/jaegertracing/jaeger'',
     boolFact ''component.jaeger.official_jaeger_distribution'' ''pkg:github/jaegertracing/jaeger'',
     boolFact ''component.keycloak.client_allow_oidc_params_in_redirect_uris'' ''pkg:github/keycloak/keycloak'',
     boolFact ''component.keycloak.oidc_response_parameter_in_redirect_fragment'' ''pkg:github/keycloak/keycloak'',
     boolFact ''component.keycloak.server_allow_oidc_params_in_redirect_uris'' ''pkg:github/keycloak/keycloak'',
     enumFact ''component.karmada.distribution'' ''pkg:github/karmada-io/karmada'' [''custom_build'', ''official_upstream''],
     enumFact ''component.karmada.execution_surface'' ''pkg:github/karmada-io/karmada'' [''karmada_policy_application_failover'', ''other''],
     boolFact ''component.karmada.removed_application_purge_mode_present'' ''pkg:github/karmada-io/karmada'',
     boolFact ''component.karmada.target_policy_crd_admission_required'' ''pkg:github/karmada-io/karmada'',
     boolFact ''component.keda.external_scaler_present'' ''pkg:github/kedacore/keda'',
     boolFact ''component.keda.legacy_tls_cert_file_required_for_transport'' ''pkg:github/kedacore/keda'',
     boolFact ''component.kubernetes.in_tree_dockershim_required'' ''pkg:github/kubernetes/kubernetes'',
     boolFact ''component.kubernetes.flowcontrol_v1beta3_removed_gvk_present'' ''pkg:github/kubernetes/kubernetes'',
     boolFact ''component.kubernetes.admissionwebhook_v1beta1_removed_gvk_present'' ''pkg:github/kubernetes/kubernetes'',
     boolFact ''component.kubernetes.apiservice_v1beta1_removed_gvk_present'' ''pkg:github/kubernetes/kubernetes'',
     boolFact ''component.kubernetes.crd_v1beta1_removed_gvk_present'' ''pkg:github/kubernetes/kubernetes'',
     boolFact ''component.kubernetes.csr_v1beta1_removed_gvk_present'' ''pkg:github/kubernetes/kubernetes'',
     boolFact ''component.kubernetes.ingress_extensions_v1beta1_removed_gvk_present'' ''pkg:github/kubernetes/kubernetes'',
     boolFact ''component.kubernetes.ingress_networking_v1beta1_removed_gvk_present'' ''pkg:github/kubernetes/kubernetes'',
     boolFact ''component.kubernetes.ingressclass_v1beta1_removed_gvk_present'' ''pkg:github/kubernetes/kubernetes'',
     boolFact ''component.kubernetes.lease_v1beta1_removed_gvk_present'' ''pkg:github/kubernetes/kubernetes'',
     boolFact ''component.kubernetes.priorityclass_v1beta1_removed_gvk_present'' ''pkg:github/kubernetes/kubernetes'',
     boolFact ''component.kubernetes.rbac_v1beta1_removed_gvk_present'' ''pkg:github/kubernetes/kubernetes'',
     boolFact ''component.kubernetes.storage_v1beta1_removed_gvk_present'' ''pkg:github/kubernetes/kubernetes'',
     boolFact ''component.kubernetes.subjectaccessreview_v1beta1_removed_gvk_present'' ''pkg:github/kubernetes/kubernetes'',
     boolFact ''component.kubernetes.tokenreview_v1beta1_removed_gvk_present'' ''pkg:github/kubernetes/kubernetes'',
     boolFact ''component.kubernetes.cronjob_v1beta1_removed_gvk_present'' ''pkg:github/kubernetes/kubernetes'',
     boolFact ''component.kubernetes.csistoragecapacity_v1beta1_removed_gvk_present'' ''pkg:github/kubernetes/kubernetes'',
     boolFact ''component.kubernetes.endpointslice_v1beta1_removed_gvk_present'' ''pkg:github/kubernetes/kubernetes'',
     boolFact ''component.kubernetes.event_v1beta1_removed_gvk_present'' ''pkg:github/kubernetes/kubernetes'',
     boolFact ''component.kubernetes.flowcontrol_v1beta1_removed_gvk_present'' ''pkg:github/kubernetes/kubernetes'',
     boolFact ''component.kubernetes.flowcontrol_v1beta2_removed_gvk_present'' ''pkg:github/kubernetes/kubernetes'',
     boolFact ''component.kubernetes.hpa_v2beta1_removed_gvk_present'' ''pkg:github/kubernetes/kubernetes'',
     boolFact ''component.kubernetes.hpa_v2beta2_removed_gvk_present'' ''pkg:github/kubernetes/kubernetes'',
     boolFact ''component.kubernetes.pdb_v1beta1_removed_gvk_present'' ''pkg:github/kubernetes/kubernetes'',
     boolFact ''component.kubernetes.psp_v1beta1_removed_gvk_present'' ''pkg:github/kubernetes/kubernetes'',
     boolFact ''component.kubernetes.runtimeclass_v1beta1_removed_gvk_present'' ''pkg:github/kubernetes/kubernetes'',
     enumFact ''component.kubeedge.distribution'' ''pkg:github/kubeedge/kubeedge'' [''custom_build'', ''official_upstream''],
     boolFact ''component.kubeedge.effective_argv_complete'' ''pkg:github/kubeedge/kubeedge'',
     enumFact ''component.kubeedge.execution_surface'' ''pkg:github/kubeedge/kubeedge'' [''keadm_init'', ''other''],
     enumFact ''component.kubeedge.init_version_selection_form'' ''pkg:github/kubeedge/kubeedge'' [''kubeedge_version_flag_only'', ''legacy_profile_version''],
     boolFact ''component.kubevirt.interface_binding_cardinality_invalid'' ''pkg:github/kubevirt/kubevirt'',
     boolFact ''component.knative.serving_startup_http_named_port_mismatch'' ''pkg:github/knative/serving'',
     enumFact ''component.kubeflow.kfp_component_authoring_api'' ''pkg:pypi/kfp'' [''dsl_component'', ''legacy_create_component_from_func''],
     boolFact ''component.kuma.removed_exclude_uid_flags_present'' ''pkg:github/kumahq/kuma'',
     enumFact ''component.kuma.distribution'' ''pkg:github/kumahq/kuma'' [''custom_build'', ''official_upstream''],
     enumFact ''component.kuma.execution_surface'' ''pkg:github/kumahq/kuma'' [''kumactl_install_transparent_proxy'', ''other''],
     enumFact ''component.kyverno.distribution'' ''pkg:github/kyverno/kyverno'' [''custom_build'', ''official_upstream''],
     enumFact ''component.kyverno.execution_surface'' ''pkg:github/kyverno/kyverno'' [''other'', ''reports_controller''],
     boolFact ''component.kyverno.reports_chunk_size_flag_present'' ''pkg:github/kyverno/kyverno'',
     enumFact ''component.linkerd.distribution'' ''pkg:github/linkerd/linkerd2'' [''custom_build'', ''official_upstream''],
     enumFact ''component.linkerd.execution_surface'' ''pkg:github/linkerd/linkerd2'' [''meshtls_authentication_crd'', ''other''],
     boolFact ''component.linkerd.mtls_identity_selector_empty'' ''pkg:github/linkerd/linkerd2'',
     boolFact ''component.linkerd.schema_validation_required'' ''pkg:github/linkerd/linkerd2'',
     boolFact ''component.metallb.legacy_configmap_present'' ''pkg:github/metallb/metallb'',
     boolFact ''component.nats.selected_name_has_ascii_space'' ''pkg:github/nats-io/nats-server'',
     boolFact ''component.longhorn.upgrade_path_check_enabled'' ''pkg:github/longhorn/longhorn'',
     boolFact ''component.opa.modules_use_rego_v1_import'' ''pkg:github/open-policy-agent/opa'',
     boolFact ''component.opa.producer_v0_compatible'' ''pkg:github/open-policy-agent/opa'',
     boolFact ''component.opa.v0_consumers_remain'' ''pkg:github/open-policy-agent/opa'',
     boolFact ''component.opencost.current_cloud_cost_enabled'' ''pkg:github/opencost/opencost'',
     boolFact ''component.opencost.current_provider_derived_source_selected'' ''pkg:github/opencost/opencost'',
     boolFact ''component.opencost.current_source_selection_complete'' ''pkg:github/opencost/opencost'',
     boolFact ''component.opencost.proposed_cloud_cost_enabled'' ''pkg:github/opencost/opencost'',
     boolFact ''component.opencost.proposed_source_selection_complete'' ''pkg:github/opencost/opencost'',
     boolFact ''component.opencost.target_cloud_integration_source_selected_and_declared_present'' ''pkg:github/opencost/opencost'',
     enumFact ''component.opentelemetry.distribution'' ''pkg:github/open-telemetry/opentelemetry-collector'' [''custom'', ''official''],
     boolFact ''component.opentelemetry.logging_exporter_present'' ''pkg:github/open-telemetry/opentelemetry-collector'',
     boolFact ''component.opentelemetry.internal_metrics_override_absent'' ''pkg:github/open-telemetry/opentelemetry-collector'',
     boolFact ''component.opentelemetry.telemetry_use_localhost_default_metrics_address_effective'' ''pkg:github/open-telemetry/opentelemetry-collector'',
     boolFact ''component.opentelemetry.internal_metrics_remote_scrape_required'' ''pkg:github/open-telemetry/opentelemetry-collector'',
     boolFact ''component.opentelemetry.internal_metrics_localhost_remote_conflict'' ''pkg:github/open-telemetry/opentelemetry-collector'',
     boolFact ''component.opentelemetry.config_complete'' ''pkg:github/open-telemetry/opentelemetry-collector'',
     boolFact ''component.opentelemetry.config_precedence_resolved'' ''pkg:github/open-telemetry/opentelemetry-collector'',
     boolFact ''component.openfga.oidc_required_fields_missing'' ''pkg:github/openfga/openfga'',
     enumFact ''component.prometheus.alertmanager_api_version_selection'' ''pkg:github/prometheus/prometheus'' [''omitted_default_v2'', ''v1'', ''v2''],
     enumFact ''component.prometheus.remote_write_enable_http2'' ''pkg:github/prometheus/prometheus'' [''false'', ''omitted'', ''true''],
     boolFact ''component.prometheus.remote_write_http2_requirement_unsatisfied'' ''pkg:github/prometheus/prometheus'',
     enumFact ''component.prometheus.scrape_classic_histograms_key'' ''pkg:github/prometheus/prometheus'' [''always_scrape_classic_histograms'', ''scrape_classic_histograms''],
     enumFact ''component.rook.deployment_mode'' ''pkg:github/rook/rook'' [''custom'', ''helm'', ''manifests''],
     enumFact ''component.spire.distribution'' ''pkg:github/spiffe/spire'' [''custom_build'', ''official_upstream''],
     enumFact ''component.spire.execution_surface'' ''pkg:github/spiffe/spire'' [''other'', ''spire_server_entry_create''],
     boolFact ''component.spire.removed_entry_ttl_flag_present'' ''pkg:github/spiffe/spire'',
     enumFact ''component.strimzi.distribution'' ''pkg:github/strimzi/strimzi-kafka-operator'' [''custom_build'', ''official_upstream''],
     enumFact ''component.strimzi.execution_surface'' ''pkg:github/strimzi/strimzi-kafka-operator'' [''kafka_custom_resource'', ''other''],
     boolFact ''component.strimzi.kafka_v1beta2_api_present'' ''pkg:github/strimzi/strimzi-kafka-operator'',
     boolFact ''component.strimzi.target_kafka_crd_admission_required'' ''pkg:github/strimzi/strimzi-kafka-operator'',
     boolFact ''component.thanos.removed_subcommand_flags_present'' ''pkg:github/thanos-io/thanos'',
     boolFact ''component.tekton.config_observability_identity_bound'' ''pkg:github/tektoncd/pipeline'',
     enumFact ''component.tekton.distribution'' ''pkg:github/tektoncd/pipeline'' [''custom_build'', ''official_upstream''],
     boolFact ''component.tekton.proposed_config_observability_complete_effective'' ''pkg:github/tektoncd/pipeline'',
     boolFact ''component.tekton.proposed_metrics_protocol_prometheus'' ''pkg:github/tektoncd/pipeline'',
     boolFact ''component.tekton.retain_prometheus_metrics_required'' ''pkg:github/tektoncd/pipeline'',
     boolFact ''component.tuf.updater_bootstrap_keyword_present'' ''pkg:github/theupdateframework/python-tuf'',
     boolFact ''component.velero.crd_update_before_server'' ''pkg:github/velero-io/velero'',
     boolFact ''component.vitess.multi_statement_execute_fetch_as_dba'' ''pkg:github/vitessio/vitess'']"

definition compiledRegistry :: "Registry result" where
  "compiledRegistry = NewCompiledRegistry compiledDefinitions"

section \<open>The compiled definitions are admitted\<close>

lemma admitAll_distinct:
  assumes "list_all (\<lambda>d. \<not> isl (admitDefinition [] d)) ds" and "distinct (map fd_ID ds)"
    and "\<forall>d\<in>set ds. fd_ID d \<notin> fst ` set known"
  shows "\<not> isl (admitAll known ds)"
  using assms
proof (induction ds arbitrary: known)
  case (Cons d ds)
  then obtain c where c: "admitDefinition [] d = Inr c" by (cases "admitDefinition [] d") auto
  then have "admitDefinition known d = Inr c" "fd_ID c = fd_ID d"
    using Cons.prems(3) admitDefinition_known [of known d c] admitDefinition_ok [OF c] by auto
  moreover have "\<forall>x\<in>set ds. fd_ID x \<noteq> fd_ID d" using Cons.prems(2) by (metis distinct.simps(2) imageI list.set_map list.simps(9))
  ultimately show ?case using Cons.IH [of "(fd_ID c, c) # known"] Cons.prems by auto
qed simp

text \<open>
  Distinct ids by a numeric key: eight characters of the id, chosen so that the keys differ, in base
  256. Comparing the keys is cheap.
\<close>

fun charAt :: "nat \<Rightarrow> string \<Rightarrow> nat" where
  "charAt n [] = 0"
| "charAt 0 (c # cs) = byte c"
| "charAt (Suc n) (c # cs) = charAt n cs"

lemma charAt_numeral: "charAt (numeral k) (c # cs) = charAt (pred_numeral k) cs"
  by (simp add: numeral_eq_Suc)

definition idKey :: "string \<Rightarrow> nat" where
  "idKey s = foldr (\<lambda>k h. charAt k s + 256 * h) [28, 22, 14, 41, 39, 21, 29, 31] 0"

lemma compiledDefinitions_keys: "distinct (map (idKey \<circ> fd_ID) compiledDefinitions)"
  unfolding compiledDefinitions_def by (simp add: idKey_def charAt_numeral)

lemma compiledDefinitions_distinct: "distinct (map fd_ID compiledDefinitions)"
  using compiledDefinitions_keys unfolding map_map [symmetric] distinct_map by blast

lemma compiledDefinitions_admissible: "list_all (\<lambda>d. \<not> isl (admitDefinition [] d)) compiledDefinitions"
  unfolding compiledDefinitions_def by code_simp

lemma compiledDefinitions_count: "length compiledDefinitions \<le> maxCompiledRegistryFacts"
  by (simp add: compiledDefinitions_def maxCompiledRegistryFacts_def)

lemma compiledRegistry_built: "\<exists>registry. compiledRegistry = Inr registry"
proof -
  have "\<not> isl (admitAll [] compiledDefinitions)"
    using admitAll_distinct compiledDefinitions_admissible compiledDefinitions_distinct by force
  then obtain defs where "admitAll [] compiledDefinitions = Inr defs" by (cases "admitAll [] compiledDefinitions") auto
  then show ?thesis using compiledDefinitions_count
    by (simp add: compiledRegistry_def NewCompiledRegistry_def newRegistry_def EmptyRegistry_def)
qed

end
