(* ===== verification/GoRaw.thy ===== *)
theory GoRaw
  imports GoJson
begin

text \<open>
  \<open>json.RawMessage\<close>: a value kept as its text inside a decoded document and written again when the
  document is marshalled. \<open>json.Marshal\<close> compacts such a text: white space between tokens is dropped,
  the markup characters and the two Unicode line separators inside string literals are escaped, and
  everything else is copied.

  Shown here: a text and its compacted form denote the same tree, in any context the compacted form
  is written into (\<open>rawParse_reads\<close>).
\<close>

section \<open>Escaping markup inside literals\<close>

text \<open>U+2028 and U+2029 are written \<open>E2 80 A8\<close> and \<open>E2 80 A9\<close>; the text after such a rune.\<close>

definition lineSeparator :: "string \<Rightarrow> string option" where
  "lineSeparator s =
     (case s of
        c # d # e # es \<Rightarrow>
          if c = CHR 0xE2 \<and> d = CHR 0x80 \<and> (e = CHR 0xA8 \<or> e = CHR 0xA9) then Some es else None
      | _ \<Rightarrow> None)"

lemma lineSeparator_length [termination_simp]: "lineSeparator s = Some es \<Longrightarrow> length es < length s"
  by (auto simp: lineSeparator_def split: list.splits if_splits)

definition isMarkup :: "char \<Rightarrow> bool" where
  "isMarkup c \<longleftrightarrow> c = CHR ''<'' \<or> c = CHR ''>'' \<or> c = CHR ''&''"

function htmlEscape :: "string \<Rightarrow> string" where
  "htmlEscape [] = []"
| "htmlEscape (c # cs) =
     (if isMarkup c then escapeByte c @ htmlEscape cs
      else case lineSeparator (c # cs) of
        Some es \<Rightarrow> CHR 0x5C # ''u202'' @ hexNibble (byte (cs ! 1) mod 16) # htmlEscape es
      | None \<Rightarrow> c # htmlEscape cs)"
  by pat_completeness auto
termination by (relation "measure length") (auto dest!: lineSeparator_length)

declare htmlEscape.simps [simp del]

lemma htmlEscape_plain: "\<not> isMarkup c \<Longrightarrow> c \<noteq> CHR 0xE2 \<Longrightarrow> htmlEscape (c # cs) = c # htmlEscape cs"
  by (auto simp: htmlEscape.simps lineSeparator_def split: list.splits)

lemma htmlEscape_Nil [simp]: "htmlEscape [] = []"
  by (simp add: htmlEscape.simps)

lemma htmlEscape_hex: "hexVal c = Some n \<Longrightarrow> htmlEscape (c # cs) = c # htmlEscape cs"
  by (rule htmlEscape_plain) (auto simp: isMarkup_def hexVal_def isDigit_def less_eq_char_def split: if_splits)

lemma hexVal_not_quote: "hexVal CHR 0x22 = None" "hexVal CHR 0x5C = None"
  by (simp_all add: hexVal_def isDigit_def less_eq_char_def)

text \<open>The four digits of a \<open>\u\<close> escape are copied by escaping and read the same in any context.\<close>

definition hexText :: "string \<Rightarrow> nat \<Rightarrow> bool" where
  "hexText h r \<longleftrightarrow> (\<forall>c\<in>set h. hexVal c \<noteq> None) \<and> (\<forall>q. hex4 (h @ q) = Some (r, q))"

lemma hex4_text: "hex4 s = Some (r, rest) \<Longrightarrow> \<exists>h. s = h @ rest \<and> hexText h r"
proof -
  assume h: "hex4 s = Some (r, rest)"
  then obtain a b c d where s: "s = [a, b, c, d] @ rest"
    by (auto simp: hex4_def Option.bind_eq_Some_conv split: list.splits)
  with h have "hexText [a, b, c, d] r" by (auto simp: hexText_def hex4_def Option.bind_eq_Some_conv)
  with s show ?thesis by blast
qed

lemma htmlEscape_hexText: "hexText h r \<Longrightarrow> htmlEscape (h @ b) = h @ htmlEscape b"
proof -
  have "\<forall>c\<in>set h. hexVal c \<noteq> None \<Longrightarrow> htmlEscape (h @ b) = h @ htmlEscape b" by (induction h) (auto simp: htmlEscape_hex)
  then show "hexText h r \<Longrightarrow> ?thesis" by (simp add: hexText_def)
qed

lemma hexText_hex4: "hexText h r \<Longrightarrow> hex4 (h @ q) = Some (r, q)"
  by (simp add: hexText_def)

lemma escape_head: "htmlEscape (CHR 0x5C # cs) = CHR 0x5C # htmlEscape cs" "htmlEscape (CHR ''u'' # cs) = CHR ''u'' # htmlEscape cs"
  by (simp_all add: htmlEscape_plain isMarkup_def)

text \<open>
  A body reads as bytes when its escaped text, closed by a quote, is scanned to them.
\<close>

definition readsBody :: "string \<Rightarrow> string \<Rightarrow> bool" where
  "readsBody b t \<longleftrightarrow> (\<forall>q. scanString (htmlEscape b @ CHR 0x22 # q) = Some (t, q))"

lemma scanString_markup: "isMarkup c \<Longrightarrow> scanString (escapeByte c @ s) = prepend [c] (scanString s)"
  by (rule scanString_escapeByte) (auto simp: isMarkup_def)

lemma separatorBytes:
  "char_of (226::nat) = CHR 0xE2" "char_of (128::nat) = CHR 0x80" "char_of (168::nat) = CHR 0xA8" "char_of (169::nat) = CHR 0xA9"
  "char_of (56::nat) = CHR ''8''" "char_of (57::nat) = CHR ''9''"
  by code_simp+

lemma lineSeparator_cases:
  assumes "lineSeparator s = Some es"
  obtains e where "s = CHR 0xE2 # CHR 0x80 # e # es" "e = CHR 0xA8 \<or> e = CHR 0xA9"
  using assms by (auto simp: lineSeparator_def split: list.splits if_splits)

lemma htmlEscape_separator:
  assumes "lineSeparator (c # d # e # b) = Some es"
  shows "htmlEscape (c # d # e # b) = CHR 0x5C # ''u202'' @ hexNibble (byte e mod 16) # htmlEscape es"
proof -
  have "\<not> isMarkup c" using assms by (auto simp: isMarkup_def elim!: lineSeparator_cases)
  with assms show ?thesis by (simp add: htmlEscape.simps(2) [of c])
qed

lemma scanString_separator:
  assumes "lineSeparator (c # cs) = Some es"
  shows "scanString (CHR 0x5C # ''u202'' @ hexNibble (byte (cs ! 1) mod 16) # q) = prepend (take 3 (c # cs)) (scanString q)"
    and "scanString (c # cs) = prepend (take 3 (c # cs)) (scanString es)" and "c # cs = take 3 (c # cs) @ es"
proof -
  obtain d e where cs: "cs = d # e # es" "c = CHR 0xE2" "d = CHR 0x80" "e = CHR 0xA8 \<or> e = CHR 0xA9"
    using assms by (auto simp: lineSeparator_def split: list.splits if_splits)
  show "scanString (CHR 0x5C # ''u202'' @ hexNibble (byte (cs ! 1) mod 16) # q) = prepend (take 3 (c # cs)) (scanString q)"
    using cs scanString_lineSep [of q] by (auto simp: hexNibble_def encodeRune_def separatorBytes)
  have "scanString ([c, d, e] @ es) = prepend [c, d, e] (scanString es)"
    by (rule scanString_copy) (use cs in auto)
  then show "scanString (c # cs) = prepend (take 3 (c # cs)) (scanString es)" "c # cs = take 3 (c # cs) @ es"
    using cs by auto
qed

lemma surrogatePair_escape: "surrogatePair r 60 = None" "surrogatePair r 62 = None" "surrogatePair r 38 = None"
  "surrogatePair r 8232 = None" "surrogatePair r 8233 = None"
  by (simp_all add: surrogatePair_def)

lemma peekU4_markup: "isMarkup c \<Longrightarrow> peekU4 (escapeByte c @ y) = Some (byte c, y)"
  unfolding isMarkup_def
  by (elim disjE) (simp_all add: escapeByte_def peekU4_def hex4_def hexNibble_def hexVal_def isDigit_def less_eq_char_def)

text \<open>An escaped body shows a \<open>\u\<close> escape in front where the body had none only for the escaped runes.\<close>

lemma peekU4_escaped:
  assumes "scanString (b @ CHR 0x22 # s) = Some x" and "peekU4 (b @ CHR 0x22 # s) = None"
    and "peekU4 (htmlEscape b @ CHR 0x22 # q) = Some (r2, rest)"
  shows "surrogatePair r r2 = None"
proof -
  obtain c cs where b: "b = c # cs" using assms(3) by (cases b) (auto simp: peekU4_def split: list.splits)
  consider "isMarkup c" | es where "\<not> isMarkup c" "lineSeparator (c # cs) = Some es" | "\<not> isMarkup c" "lineSeparator (c # cs) = None"
    by blast
  then show ?thesis
  proof cases
    case 1
    then have "r2 = byte c" using assms(3) b peekU4_markup [OF 1] by (simp add: htmlEscape.simps)
    with 1 show ?thesis by (auto simp: isMarkup_def surrogatePair_escape)
  next
    case 2
    obtain e where e: "b = CHR 0xE2 # CHR 0x80 # e # es" "e = CHR 0xA8 \<or> e = CHR 0xA9" using lineSeparator_cases [OF 2(2)] b by blast
    have "htmlEscape b = CHR 0x5C # ''u202'' @ hexNibble (byte e mod 16) # htmlEscape es"
      unfolding e(1) by (rule htmlEscape_separator [OF 2(2) [folded b, unfolded e(1)]])
    moreover have "peekU4 (CHR 0x5C # ''u202'' @ hexNibble (byte e mod 16) # y) = Some (if e = CHR 0xA8 then 8232 else 8233, y)" for y
      using e(2) by (auto simp: peekU4_def hex4_def hexNibble_def hexVal_def isDigit_def less_eq_char_def)
    ultimately have "r2 = 8232 \<or> r2 = 8233" using assms(3) by (auto split: if_splits)
    then show ?thesis by (auto simp: surrogatePair_escape)
  next
    case 3
    then have e: "htmlEscape b = c # htmlEscape cs" using b by (simp add: htmlEscape.simps)
    then obtain y where y: "c = CHR 0x5C" "htmlEscape cs @ CHR 0x22 # q = CHR ''u'' # y"
      using assms(3) by (auto simp: peekU4_def split: list.splits if_splits)
    then obtain ds where "cs = CHR ''u'' # ds"
      by (cases cs) (auto simp: htmlEscape.simps escapeByte_def isMarkup_def split: if_splits option.splits)
    with assms(1,2) y b show ?thesis by (auto simp: scanString.simps peekU4_def split: option.splits)
  qed
qed

lemma peekU4_text: "peekU4 s = Some (r, rest) \<Longrightarrow> \<exists>h. s = CHR 0x5C # CHR ''u'' # h @ rest \<and> hexText h r"
  by (auto simp: peekU4_def split: list.splits if_splits dest!: hex4_text)

lemma peekU4_hexText: "hexText h r \<Longrightarrow> peekU4 (CHR 0x5C # CHR ''u'' # h @ q) = Some (r, q)"
  by (simp add: peekU4_def hexText_def)

lemma prefix_body:
  assumes "CHR 0x22 \<notin> set p" and "p @ rest = b @ CHR 0x22 # s"
  shows "\<exists>b'. b = p @ b'"
proof -
  consider us where "p = b @ us" "us @ rest = CHR 0x22 # s" | us where "p @ us = b"
    using assms(2) by (auto simp: append_eq_append_conv2)
  then show ?thesis
  proof cases
    case 1
    then have "us = []" using assms(1) by (cases us) auto
    with 1 show ?thesis by simp
  qed blast
qed

lemma hexText_no_quote: "hexText h r \<Longrightarrow> CHR 0x22 \<notin> set h"
  using hexVal_not_quote by (auto simp: hexText_def)

text \<open>One step of a body: an escape sequence or a byte, in front of a body that reads.\<close>

lemma readsBody_unicode:
  assumes "hexText h x" and "\<not> isSurrogate x" and "readsBody b t"
  shows "readsBody (CHR 0x5C # CHR ''u'' # h @ b) (encodeRune x @ t)"
  using assms by (simp add: readsBody_def escape_head htmlEscape_hexText scanString.simps hexText_hex4)

lemma readsBody_pair:
  assumes "hexText h x" "isSurrogate x" "hexText g r2" "surrogatePair x r2 = Some p" "readsBody b t"
  shows "readsBody (CHR 0x5C # CHR ''u'' # h @ CHR 0x5C # CHR ''u'' # g @ b) (encodeRune p @ t)"
  using assms
  by (simp add: readsBody_def escape_head htmlEscape_hexText scanString.simps(2) [of "CHR 0x5C"] hexText_hex4 peekU4_hexText)

lemma readsBody_lone:
  assumes "hexText h x" "isSurrogate x" "readsBody b t" "scanString (b @ CHR 0x22 # s) = Some y"
    and "\<And>r2 rest. peekU4 (b @ CHR 0x22 # s) = Some (r2, rest) \<Longrightarrow> surrogatePair x r2 = None"
  shows "readsBody (CHR 0x5C # CHR ''u'' # h @ b) (encodeRune runeError @ t)"
proof -
  have "surrogatePair x r2 = None" if p: "peekU4 (htmlEscape b @ CHR 0x22 # q) = Some (r2, rest)" for q r2 rest
  proof (cases "peekU4 (b @ CHR 0x22 # s)")
    case None
    then show ?thesis using peekU4_escaped assms(4) p by blast
  next
    case (Some a)
    then obtain r3 rest3 g where a: "a = (r3, rest3)" and g: "b @ CHR 0x22 # s = CHR 0x5C # CHR ''u'' # g @ rest3" "hexText g r3"
      by (cases a) (auto dest!: peekU4_text)
    then obtain b' where "b = CHR 0x5C # CHR ''u'' # g @ b'"
      using prefix_body [of "CHR 0x5C # CHR ''u'' # g" rest3 b s] hexText_no_quote [OF g(2)] by auto
    then have "r2 = r3" using p g(2) by (simp add: escape_head htmlEscape_hexText peekU4_hexText)
    then show ?thesis using assms(5) Some a by simp
  qed
  then show ?thesis using assms(1-3)
    by (auto simp: readsBody_def escape_head htmlEscape_hexText scanString.simps(2) [of "CHR 0x5C"] hexText_hex4 split: option.splits)
qed

lemma readsBody_escape:
  assumes "simpleEscape e = Some d" "e \<noteq> CHR ''u''" "readsBody b t"
  shows "readsBody (CHR 0x5C # e # b) (d # t)"
proof -
  have "\<not> isMarkup e" "e \<noteq> CHR 0xE2" using assms(1) by (auto simp: simpleEscape_def isMarkup_def split: if_splits)
  with assms show ?thesis by (simp add: readsBody_def escape_head htmlEscape_plain scanString.simps)
qed

lemma readsBody_separator:
  assumes "lineSeparator (c # d # e # b) = Some b" "readsBody b t"
  shows "readsBody (c # d # e # b) (c # d # e # t)"
  using assms scanString_separator(1) [OF assms(1)] by (simp add: readsBody_def htmlEscape_separator)

lemma readsBody_byte:
  assumes "c \<noteq> CHR 0x22" "c \<noteq> CHR 0x5C" "32 \<le> byte c" "lineSeparator (c # b) = None" "readsBody b t"
  shows "readsBody (c # b) (c # t)"
  using assms by (cases "isMarkup c") (simp_all add: readsBody_def htmlEscape.simps scanString_markup scanString.simps)

lemma scanString_cases:
  assumes "scanString (c # cs) = Some (t, r)"
  obtains (quote) "c = CHR 0x22" "t = []" "r = cs"
  | (unicode) h x rest where "c = CHR 0x5C" "cs = CHR ''u'' # h @ rest" "hexText h x"
  | (escape) e es d t' where "c = CHR 0x5C" "cs = e # es" "e \<noteq> CHR ''u''" "simpleEscape e = Some d" "scanString es = Some (t', r)" "t = d # t'"
  | (byte) t' where "c \<noteq> CHR 0x22" "c \<noteq> CHR 0x5C" "32 \<le> byte c" "scanString cs = Some (t', r)" "t = c # t'"
  using assms by (auto simp: scanString.simps(2) split: if_splits list.splits option.splits prod.splits dest!: hex4_text)

lemma scanString_unicode:
  assumes "scanString (CHR 0x5C # CHR ''u'' # h @ rest) = Some (t, r)" and "hexText h x"
  obtains (rune) t' where "\<not> isSurrogate x" "scanString rest = Some (t', r)" "t = encodeRune x @ t'"
  | (pair) g r2 rest2 p t' where "isSurrogate x" "rest = CHR 0x5C # CHR ''u'' # g @ rest2" "hexText g r2" "surrogatePair x r2 = Some p"
      "scanString rest2 = Some (t', r)" "t = encodeRune p @ t'"
  | (lone) t' where "isSurrogate x" "\<And>r2 rest'. peekU4 rest = Some (r2, rest') \<Longrightarrow> surrogatePair x r2 = None"
      "scanString rest = Some (t', r)" "t = encodeRune runeError @ t'"
  using assms
  by (auto simp: scanString.simps(2) [of "CHR 0x5C"] hexText_hex4 split: if_splits option.splits prod.splits dest!: peekU4_text)

lemma scanString_body:
  "scanString s = Some (t, r) \<Longrightarrow> \<exists>b. s = b @ CHR 0x22 # r \<and> readsBody b t"
proof (induction "length s" arbitrary: s t rule: less_induct)
  case less
  obtain c cs where s: "s = c # cs" using less.prems by (cases s) (auto simp: scanString.simps)
  from less.prems [unfolded s] show ?case
  proof (cases rule: scanString_cases)
    case quote
    then show ?thesis using s by (intro exI [of _ "[]"]) (simp add: readsBody_def scanString.simps)
  next
    case (unicode h x rest)
    from less.prems [unfolded s unicode(1,2)] unicode(3) show ?thesis
    proof (cases rule: scanString_unicode)
      case (rune t')
      then obtain b where "rest = b @ CHR 0x22 # r" "readsBody b t'" using less.hyps [of rest t'] s unicode by auto
      then show ?thesis using readsBody_unicode [OF unicode(3) rune(1)] rune(3) s unicode(1,2)
        by (intro exI [of _ "CHR 0x5C # CHR ''u'' # h @ b"]) simp
    next
      case (pair g r2 rest2 p t')
      then obtain b where "rest2 = b @ CHR 0x22 # r" "readsBody b t'" using less.hyps [of rest2 t'] s unicode by auto
      then show ?thesis using readsBody_pair [OF unicode(3) pair(1,3,4)] pair(2,6) s unicode(1,2)
        by (intro exI [of _ "CHR 0x5C # CHR ''u'' # h @ CHR 0x5C # CHR ''u'' # g @ b"]) simp
    next
      case (lone t')
      then obtain b where "rest = b @ CHR 0x22 # r" "readsBody b t'" using less.hyps [of rest t'] s unicode by auto
      then show ?thesis using readsBody_lone [OF unicode(3) lone(1), of b t' r] lone(2-4) s unicode(1,2)
        by (intro exI [of _ "CHR 0x5C # CHR ''u'' # h @ b"]) auto
    qed
  next
    case (escape e es d t')
    then obtain b where "es = b @ CHR 0x22 # r" "readsBody b t'" using less.hyps [of es t'] s by auto
    then show ?thesis using readsBody_escape [OF escape(4,3)] escape s by (intro exI [of _ "CHR 0x5C # e # b"]) simp
  next
    case (byte t')
    show ?thesis
    proof (cases "lineSeparator (c # cs)")
      case (Some es)
      obtain d e where cs: "cs = d # e # es" using Some by (auto simp: lineSeparator_def split: list.splits if_splits)
      obtain t'' where t: "scanString es = Some (t'', r)" "t = c # d # e # t''"
        using scanString_separator(2) [OF Some] less.prems s cs by auto
      then obtain b where b: "es = b @ CHR 0x22 # r" "readsBody b t''" using less.hyps [of es t''] s cs by auto
      have "lineSeparator (c # d # e # b) = Some b" using Some cs by (auto simp: lineSeparator_def split: if_splits)
      from readsBody_separator [OF this b(2)] show ?thesis using b cs s t by (intro exI [of _ "c # d # e # b"]) simp
    next
      case None
      obtain b where b: "cs = b @ CHR 0x22 # r" "readsBody b t'" using less.hyps [of cs t'] byte(4) s by auto
      have "lineSeparator (c # b) = None" using None b(1) by (auto simp: lineSeparator_def split: list.splits if_splits)
      from readsBody_byte [OF byte(1-3) this b(2)] show ?thesis using b(1) s byte(5) by (intro exI [of _ "c # b"]) simp
    qed
  qed
qed

section \<open>Numbers in any context\<close>

lemma digits_split: "list_all isDigit (takeWhile isDigit s) \<and> s = takeWhile isDigit s @ dropWhile isDigit s"
  by (auto simp: list_all_iff dest: set_takeWhileD)

lemma scanExp_tail:
  assumes "scanExp lit s = Some (l, r)"
  shows "\<exists>x. l = lit @ x \<and> s = x @ r \<and> (x = [] \<or> hd x = CHR ''e'' \<or> hd x = CHR ''E'') \<and>
    (\<forall>lit' q. stopsNumber q \<longrightarrow> scanExp lit' (x @ q) = Some (lit' @ x, q))"
proof (cases "\<exists>c cs. s = c # cs \<and> (c = CHR ''e'' \<or> c = CHR ''E'')")
  case False
  then have "l = lit" "s = r" using assms by (auto simp: scanExp_def split: list.splits)
  then show ?thesis
    by (intro exI [of _ "[]"]) (auto simp: scanExp_def stopsNumber_def split: list.splits)
next
  case True
  then obtain c cs where c: "s = c # cs" "c = CHR ''e'' \<or> c = CHR ''E''" by blast
  obtain sg ds where sg: "(case cs of [] \<Rightarrow> ([], cs) | d # ds \<Rightarrow> if d = CHR ''+'' \<or> d = CHR ''-'' then ([d], ds) else ([], cs)) = (sg, ds)"
    by fastforce
  let ?d = "takeWhile isDigit ds"
  have res: "?d \<noteq> []" "l = lit @ c # sg @ ?d" "r = dropWhile isDigit ds"
    using assms c sg by (auto simp: scanExp_def Let_def split: if_splits)
  have cs: "cs = sg @ ds" "sg = [] \<or> sg = [CHR ''+''] \<or> sg = [CHR ''-'']"
    using sg by (auto split: list.splits if_splits)
  have "scanExp lit' ((c # sg @ ?d) @ q) = Some (lit' @ c # sg @ ?d, q)" if q: "stopsNumber q" for lit' q
  proof -
    obtain e es where e: "?d = e # es" using res(1) by (cases "?d") auto
    then have "isDigit e" by (metis list.set_intros(1) set_takeWhileD)
    then have ne: "e \<noteq> CHR ''+''" "e \<noteq> CHR ''-''" by (auto simp: isDigit_def)
    have "takeWhile isDigit (?d @ q) = ?d" "dropWhile isDigit (?d @ q) = q"
      using takeWhile_digits [of ?d q] digits_split [of ds] q by auto
    then show ?thesis using c(2) cs(2) ne e by (auto simp: scanExp_def)
  qed
  then show ?thesis using res cs c by (intro exI [of _ "c # sg @ ?d"]) simp
qed

lemma scanFrac_tail:
  assumes "scanFrac lit s = Some (l, r)"
  shows "\<exists>x. l = lit @ x \<and> s = x @ r \<and> (\<forall>q. stopsNumber q \<longrightarrow> (case x @ q of [] \<Rightarrow> True | c # _ \<Rightarrow> \<not> isDigit c)) \<and>
    (\<forall>lit' q. stopsNumber q \<longrightarrow> scanFrac lit' (x @ q) = Some (lit' @ x, q))"
proof (cases "\<exists>cs. s = CHR ''.'' # cs")
  case False
  then have "scanExp lit s = Some (l, r)" using assms by (auto simp: scanFrac_def scanExp_def split: list.splits)
  then obtain x where x: "l = lit @ x" "s = x @ r" "x = [] \<or> hd x = CHR ''e'' \<or> hd x = CHR ''E''"
    "\<And>lit' q. stopsNumber q \<Longrightarrow> scanExp lit' (x @ q) = Some (lit' @ x, q)"
    using scanExp_tail by blast
  have "scanFrac lit' (x @ q) = scanExp lit' (x @ q)" "case x @ q of [] \<Rightarrow> True | c # _ \<Rightarrow> \<not> isDigit c" if "stopsNumber q" for lit' q
    using x(3) that by (cases x; auto simp: scanFrac_def scanExp_def stopsNumber_def isDigit_def split: list.splits)+
  then show ?thesis using x by (intro exI [of _ x]) simp
next
  case True
  then obtain cs where s: "s = CHR ''.'' # cs" by blast
  let ?d = "takeWhile isDigit cs"
  have d: "?d \<noteq> []" "scanExp (lit @ CHR ''.'' # ?d) (dropWhile isDigit cs) = Some (l, r)"
    using assms s by (auto simp: scanFrac_def Let_def split: if_splits)
  from d(2) obtain x where x: "l = (lit @ CHR ''.'' # ?d) @ x" "dropWhile isDigit cs = x @ r" "x = [] \<or> hd x = CHR ''e'' \<or> hd x = CHR ''E''"
    "\<And>lit' q. stopsNumber q \<Longrightarrow> scanExp lit' (x @ q) = Some (lit' @ x, q)"
    using scanExp_tail by blast
  have "scanFrac lit' ((CHR ''.'' # ?d @ x) @ q) = Some (lit' @ CHR ''.'' # ?d @ x, q)" if q: "stopsNumber q" for lit' q
  proof -
    have "\<not> (\<exists>c cs'. x @ q = c # cs' \<and> isDigit c)" using x(3) q by (cases x) (auto simp: stopsNumber_def isDigit_def split: list.splits)
    then have "takeWhile isDigit (?d @ x @ q) = ?d" "dropWhile isDigit (?d @ x @ q) = x @ q"
      using digits_split [of cs] by (cases "x @ q"; simp add: list_all_iff)+
    then show ?thesis using d(1) x(4) [OF q] by (simp add: scanFrac_def)
  qed
  moreover have "cs = ?d @ x @ r" using x(2) by (metis takeWhile_dropWhile_id)
  ultimately show ?thesis using x(1) s by (intro exI [of _ "CHR ''.'' # ?d @ x"]) (simp add: isDigit_def)
qed

lemma scanNumber_any:
  assumes "scanNumber s = Some (l, r)"
  shows "s = l @ r \<and> (\<exists>c cs. l = c # cs \<and> (c = CHR ''-'' \<or> isDigit c)) \<and> (\<forall>q. stopsNumber q \<longrightarrow> scanNumber (l @ q) = Some (l, q))"
proof -
  obtain neg s1 where neg: "(case s of [] \<Rightarrow> ([], s) | c # cs \<Rightarrow> if c = CHR ''-'' then ([c], cs) else ([], s)) = (neg, s1)"
    by fastforce
  then have s: "s = neg @ s1" "neg = [] \<or> neg = [CHR ''-'']" "neg = [] \<Longrightarrow> s1 = [] \<or> hd s1 \<noteq> CHR ''-''"
    by (auto split: list.splits if_splits)
  obtain c cs where c: "s1 = c # cs" using assms neg by (cases s1) (auto simp: scanNumber_def)
  let ?d = "if c = CHR ''0'' then [] else takeWhile isDigit cs"
  let ?e = "if c = CHR ''0'' then cs else dropWhile isDigit cs"
  have f: "isDigit c" "scanFrac (neg @ c # ?d) ?e = Some (l, r)" "cs = ?d @ ?e"
    using assms neg c by (auto simp: scanNumber_def isDigit_def split: if_splits)
  obtain x where x: "l = (neg @ c # ?d) @ x" "?e = x @ r"
    "\<And>q. stopsNumber q \<Longrightarrow> (case x @ q of [] \<Rightarrow> True | c # _ \<Rightarrow> \<not> isDigit c)"
    "\<And>lit' q. stopsNumber q \<Longrightarrow> scanFrac lit' (x @ q) = Some (lit' @ x, q)"
    using scanFrac_tail [OF f(2)] by blast
  have num: "scanNumber (neg @ c # t) = (if c = CHR ''0'' then scanFrac (neg @ [c]) t
      else scanFrac (neg @ c # takeWhile isDigit t) (dropWhile isDigit t))" for t
    using s(2,3) c f(1) by (auto simp: scanNumber_def isDigit_def)
  have "scanNumber (l @ q) = Some (l, q)" if q: "stopsNumber q" for q
  proof (cases "c = CHR ''0''")
    case True
    then show ?thesis using num [of "x @ q"] x(1) x(4) [OF q] by simp
  next
    case False
    have "takeWhile isDigit (?d @ x @ q) = ?d" "dropWhile isDigit (?d @ x @ q) = x @ q"
      using False digits_split [of cs] x(3) [OF q] by (cases "x @ q"; simp add: list_all_iff)+
    then show ?thesis using False num [of "?d @ x @ q"] x(1) x(4) [OF q] by simp
  qed
  moreover have "s = l @ r" using s(1) c f(3) x(1,2) by simp
  ultimately show ?thesis using s(2) f(1) x(1) by auto
qed

lemma readsAs_literal:
  assumes "scanLiteral s = Some (v, r)"
  shows "readsAs (jsonPrint v) v"
proof (cases "\<exists>l. v = JNum l")
  case False
  then have "plainJson v" using assms by (auto simp: scanLiteral_def split: if_splits)
  then show ?thesis by (rule readsAs_print)
next
  case True
  then obtain l where v: "v = JNum l" by blast
  with assms have "scanNumber s = Some (l, r)"
    by (cases "scanNumber s") (auto simp: scanLiteral_def split: if_splits)
  note num = scanNumber_any [OF this]
  then obtain c cs where c: "l = c # cs" "c = CHR ''-'' \<or> isDigit c" by blast
  have ne: "\<not> isSpace c" "c \<noteq> CHR ''{''" "c \<noteq> CHR ''[''" "c \<noteq> CHR 0x22" "c \<noteq> CHR '']''" "c \<noteq> CHR ''}''"
    "c \<noteq> CHR ''n''" "c \<noteq> CHR ''t''" "c \<noteq> CHR ''f''"
    using c(2) by (auto simp: isSpace_def isDigit_def)
  then have "scanLiteral (l @ q) = Some (JNum l, q)" if "stopsNumber q" for q
    using c(1) num that by (simp add: scanLiteral_def hasPrefix_def)
  then have "parseValue (Suc n) (l @ q) = Some (JNum l, q)" if "stopsNumber q" for n q
    using c(1) ne that by (simp add: parseValue.simps skipSpace_head)
  from readsAs_leaf [OF c(1) ne(1,5,6) this] show ?thesis using v by simp
qed

section \<open>Raw messages\<close>

text \<open>
  The tree of a text with the bodies of its string literals: enough to write the value again the
  way \<open>json.Marshal\<close> writes a \<open>json.RawMessage\<close>, which drops white space and escapes markup but
  leaves literals as they are.
\<close>

datatype rawJson =
    RStr string string
  | RLit json
  | RArr "rawJson list"
  | RObj "((string \<times> string) \<times> rawJson) list"

fun rawText :: "rawJson \<Rightarrow> string" where
  "rawText (RStr b t) = CHR 0x22 # htmlEscape b @ [CHR 0x22]"
| "rawText (RLit v) = jsonPrint v"
| "rawText (RArr xs) = CHR ''['' # commaSep (map rawText xs) @ [CHR '']'']"
| "rawText (RObj ms) = CHR ''{'' # commaSep (map (\<lambda>(name, x). memberText (htmlEscape (fst name), rawText x)) ms) @ [CHR ''}'']"

fun rawTree :: "rawJson \<Rightarrow> json" where
  "rawTree (RStr b t) = JStr t"
| "rawTree (RLit v) = v"
| "rawTree (RArr xs) = JArr (map rawTree xs)"
| "rawTree (RObj ms) = JObj (map (\<lambda>(name, x). (snd name, rawTree x)) ms)"

definition bodyOf :: "string \<Rightarrow> string \<Rightarrow> string" where
  "bodyOf s r = take (length s - Suc (length r)) s"

fun rawValue :: "nat \<Rightarrow> string \<Rightarrow> (rawJson \<times> string) option"
  and rawMembers :: "nat \<Rightarrow> string \<Rightarrow> (((string \<times> string) \<times> rawJson) list \<times> string) option"
  and rawElems :: "nat \<Rightarrow> string \<Rightarrow> (rawJson list \<times> string) option"
where
  "rawValue 0 s = None"
| "rawValue (Suc n) s =
     (case skipSpace s of
        [] \<Rightarrow> None
      | c # cs \<Rightarrow>
          if c = CHR ''{'' then
            (case skipSpace cs of
               [] \<Rightarrow> None
             | d # ds \<Rightarrow> if d = CHR ''}'' then Some (RObj [], ds)
                        else map_option (\<lambda>(ms, r). (RObj ms, r)) (rawMembers n cs))
          else if c = CHR ''['' then
            (case skipSpace cs of
               [] \<Rightarrow> None
             | d # ds \<Rightarrow> if d = CHR '']'' then Some (RArr [], ds)
                        else map_option (\<lambda>(vs, r). (RArr vs, r)) (rawElems n cs))
          else if c = CHR 0x22 then
            map_option (\<lambda>(t, r). (RStr (bodyOf cs r) (utf8Coerce t), r)) (scanString cs)
          else map_option (\<lambda>(v, r). (RLit v, r)) (scanLiteral (c # cs)))"
| "rawMembers 0 s = None"
| "rawMembers (Suc n) s =
     (case skipSpace s of
        [] \<Rightarrow> None
      | c # cs \<Rightarrow>
          if c \<noteq> CHR 0x22 then None else
          (case scanString cs of
             None \<Rightarrow> None
           | Some (k, r) \<Rightarrow>
               (case skipSpace r of
                  [] \<Rightarrow> None
                | d # ds \<Rightarrow>
                    if d \<noteq> CHR '':'' then None else
                    (case rawValue n ds of
                       None \<Rightarrow> None
                     | Some (v, r2) \<Rightarrow>
                         (case skipSpace r2 of
                            [] \<Rightarrow> None
                          | e # es \<Rightarrow>
                              if e = CHR ''}'' then Some ([((bodyOf cs r, utf8Coerce k), v)], es)
                              else if e = CHR '','' then
                                map_option (\<lambda>(ms, r'). (((bodyOf cs r, utf8Coerce k), v) # ms, r')) (rawMembers n es)
                              else None)))))"
| "rawElems 0 s = None"
| "rawElems (Suc n) s =
     (case rawValue n s of
        None \<Rightarrow> None
      | Some (v, r) \<Rightarrow>
          (case skipSpace r of
             [] \<Rightarrow> None
           | e # es \<Rightarrow>
               if e = CHR '']'' then Some ([v], es)
               else if e = CHR '','' then
                 map_option (\<lambda>(vs, r'). (v # vs, r')) (rawElems n es)
               else None))"

declare rawValue.simps [simp del] rawMembers.simps [simp del] rawElems.simps [simp del]

definition rawParse :: "string \<Rightarrow> rawJson option" where
  "rawParse s =
     (case rawValue (Suc (2 * length s)) s of
        None \<Rightarrow> None
      | Some (v, rest) \<Rightarrow> if skipSpace rest = [] then Some v else None)"

subsection \<open>The raw parser and the parser\<close>

lemma rawTree_parse:
  "parseValue n s = map_option (map_prod rawTree id) (rawValue n s)"
  "parseMembers n s = map_option (map_prod (map (\<lambda>(name, x). (snd name, rawTree x))) id) (rawMembers n s)"
  "parseElems n s = map_option (map_prod (map rawTree) id) (rawElems n s)"
proof (induction n arbitrary: s)
  case 0
  show "parseValue 0 s = map_option (map_prod rawTree id) (rawValue 0 s)" for s by (simp add: parseValue.simps rawValue.simps)
  show "parseMembers 0 s = map_option (map_prod (map (\<lambda>(name, x). (snd name, rawTree x))) id) (rawMembers 0 s)" for s
    by (simp add: parseMembers.simps rawMembers.simps)
  show "parseElems 0 s = map_option (map_prod (map rawTree) id) (rawElems 0 s)" for s by (simp add: parseElems.simps rawElems.simps)
next
  case (Suc n)
  note IH = Suc
  show "parseValue (Suc n) s = map_option (map_prod rawTree id) (rawValue (Suc n) s)" for s
    by (simp add: parseValue.simps rawValue.simps IH option.map_comp comp_def split_def option.map_ident split: list.splits)
  show "parseMembers (Suc n) s = map_option (map_prod (map (\<lambda>(name, x). (snd name, rawTree x))) id) (rawMembers (Suc n) s)" for s
    by (auto simp: parseMembers.simps rawMembers.simps IH option.map_comp comp_def split_def split: list.splits option.splits)
  show "parseElems (Suc n) s = map_option (map_prod (map rawTree) id) (rawElems (Suc n) s)" for s
    by (auto simp: parseElems.simps rawElems.simps IH option.map_comp comp_def split_def split: list.splits option.splits)
qed

lemma jsonParse_raw: "jsonParse s = map_option rawTree (rawParse s)"
  by (auto simp: jsonParse_def rawParse_def rawTree_parse(1) split: option.splits)

subsection \<open>Writing a raw message again\<close>

fun wfRaw :: "rawJson \<Rightarrow> bool" where
  "wfRaw (RStr b t) = namesAs (htmlEscape b) t"
| "wfRaw (RLit v) = readsAs (jsonPrint v) v"
| "wfRaw (RArr xs) = list_all wfRaw xs"
| "wfRaw (RObj ms) = list_all (\<lambda>(name, x). namesAs (htmlEscape (fst name)) (snd name) \<and> wfRaw x) ms"

lemma namesAs_bodyOf: "scanString cs = Some (t, r) \<Longrightarrow> namesAs (htmlEscape (bodyOf cs r)) (utf8Coerce t)"
  by (auto simp: namesAs_def bodyOf_def readsBody_def dest!: scanString_body)

lemma wfRaw_parsed:
  "rawValue n s = Some (x, r) \<Longrightarrow> wfRaw x"
  "rawMembers n s = Some (ms, r) \<Longrightarrow> wfRaw (RObj ms)"
  "rawElems n s = Some (xs, r) \<Longrightarrow> wfRaw (RArr xs)"
proof (induction n arbitrary: s x r ms xs)
  case (Suc n)
  {
    case 1
    with Suc.IH(2,3) show ?case
      by (auto simp: rawValue.simps namesAs_bodyOf readsAs_literal split: list.splits if_splits)
  next
    case 2
    with Suc.IH(1,2) show ?case
      by (fastforce simp: rawMembers.simps namesAs_bodyOf split: list.splits if_splits option.splits)
  next
    case 3
    with Suc.IH(1,3) show ?case
      by (fastforce simp: rawElems.simps split: list.splits if_splits option.splits)
  }
qed (simp_all add: rawValue.simps rawMembers.simps rawElems.simps)

lemma readsAs_raw: "wfRaw x \<Longrightarrow> readsAs (rawText x) (rawTree x)"
proof (induction x)
  case (RStr b t)
  then obtain t' where t: "utf8Coerce t' = t" "\<And>q. scanString (htmlEscape b @ CHR 0x22 # q) = Some (t', q)" by (auto simp: namesAs_def)
  then show ?case by (intro readsAs_leaf [of _ "CHR 0x22" "htmlEscape b @ [CHR 0x22]"]) (simp_all add: parseValue.simps skipSpace_head)
next
  case (RArr xs)
  then show ?case by (auto intro!: readsAs_array simp: list_all2_conv_all_nth list_all_iff)
next
  case (RObj ms)
  have "list_all2 memberAs (map (\<lambda>(name, x). (htmlEscape (fst name), rawText x)) ms) (map (\<lambda>(name, x). (snd name, rawTree x)) ms)"
    using RObj by (fastforce simp: list.rel_map memberAs_def list_all_iff snds.simps intro!: list.rel_refl_strong)
  from readsAs_object [OF this] show ?case by (simp add: comp_def split_def)
qed simp

lemma rawParse_reads: "rawParse s = Some x \<Longrightarrow> readsAs (rawText x) (rawTree x)"
  by (auto simp: rawParse_def split: option.splits if_splits intro!: readsAs_raw wfRaw_parsed(1))

section \<open>Decoding documents that hold raw messages\<close>

text \<open>The member a struct field is decoded from: the last one whose name folds to the field's.\<close>

definition rawMember :: "string \<Rightarrow> rawJson \<Rightarrow> rawJson option" where
  "rawMember field x =
     (case x of
        RObj ms \<Rightarrow> map_option snd (List.find (\<lambda>(name, _). foldName (snd name) = foldName field) (rev ms))
      | _ \<Rightarrow> None)"

text \<open>
  A field of type \<open>json.RawMessage\<close>; absent, it stays nil, the empty text. The program reads such a
  text only by decoding and by marshalling it, so it is kept in its compacted form.
\<close>

definition rawField :: "string \<Rightarrow> rawJson \<Rightarrow> string" where
  "rawField field x = (case rawMember field x of None \<Rightarrow> [] | Some y \<Rightarrow> rawText y)"

text \<open>\<open>json.Marshal\<close> of a raw message: nil is \<open>null\<close>, an invalid text is an error.\<close>

definition rawMarshal :: "string \<Rightarrow> string option" where
  "rawMarshal raw = (if raw = [] then Some ''null'' else map_option rawText (rawParse raw))"

text \<open>Slices that keep the difference between nil (\<^term>\<open>None\<close>) and empty.\<close>

definition decNilSlice :: "(json \<Rightarrow> 'a option) \<Rightarrow> json \<Rightarrow> 'a list option option" where
  "decNilSlice d v =
     (case v of JNull \<Rightarrow> Some None | JArr vs \<Rightarrow> map_option Some (those (map d vs)) | _ \<Rightarrow> None)"

definition rawNilSlice :: "(rawJson \<Rightarrow> 'a option) \<Rightarrow> rawJson option \<Rightarrow> 'a list option option" where
  "rawNilSlice d x =
     (case x of
        None \<Rightarrow> Some None
      | Some (RLit JNull) \<Rightarrow> Some None
      | Some (RArr xs) \<Rightarrow> map_option Some (those (map d xs))
      | Some _ \<Rightarrow> None)"

definition goSlice :: "'a list option \<Rightarrow> 'a list" where
  "goSlice xs = (case xs of None \<Rightarrow> [] | Some ys \<Rightarrow> ys)"

definition encNil :: "('a \<Rightarrow> json) \<Rightarrow> 'a list option \<Rightarrow> json" where
  "encNil f xs = (case xs of None \<Rightarrow> JNull | Some ys \<Rightarrow> JArr (map f ys))"

lemma rawMarshal_reads:
  assumes "rawMarshal raw = Some tx" and "raw \<noteq> []"
  obtains v where "jsonParse raw = Some v" "readsAs tx v"
  using assms rawParse_reads by (auto simp: rawMarshal_def jsonParse_raw)

text \<open>Objects and arrays marshalled from the texts of their members.\<close>

definition objText :: "(string \<times> string) list \<Rightarrow> string" where
  "objText ms = CHR ''{'' # commaSep (map (\<lambda>(k, tx). memberText (quoteBody k, tx)) ms) @ [CHR ''}'']"

definition arrText :: "string list \<Rightarrow> string" where
  "arrText texts = CHR ''['' # commaSep texts @ [CHR '']'']"

lemma objText_reads:
  assumes "list_all2 (\<lambda>(k, tx) (k', v). k = k' \<and> utf8Valid k \<and> readsAs tx v) ms kvs"
  shows "readsAs (objText ms) (JObj kvs)"
proof -
  have "list_all2 memberAs (map (\<lambda>(k, tx). (quoteBody k, tx)) ms) kvs"
    using assms by (auto simp: list.rel_map memberAs_def namesAs_quote split_def elim!: list.rel_mono_strong)
  from readsAs_object [OF this] show ?thesis by (simp add: objText_def comp_def split_def)
qed

lemma arrText_reads: "list_all2 readsAs texts vs \<Longrightarrow> readsAs (arrText texts) (JArr vs)"
  unfolding arrText_def by (rule readsAs_array)

text \<open>A quoted string reads as the string with invalid encodings replaced.\<close>

lemma utf8Valid_coerce: "utf8Valid (utf8Coerce s)"
proof (induction s rule: utf8Coerce.induct)
  case (2 b bs)
  obtain r w where rw: "decodeRune (b # bs) = (r, w)" by (cases "decodeRune (b # bs)") auto
  have bad: "utf8Valid [CHR 0xEF, CHR 0xBF, CHR 0xBD]" by (simp add: leadInfo_def contByte_def runeError_def)
  let ?p = "if r = runeError \<and> w = 1 then [CHR 0xEF, CHR 0xBF, CHR 0xBD] else b # take (w - 1) bs"
  have "utf8Valid ?p" using utf8Valid_rune [OF rw] bad by (simp only: split: if_split) blast
  moreover have "utf8Coerce (b # bs) = ?p @ utf8Coerce (drop (w - 1) bs)" using rw by (simp del: decodeRune.simps)
  ultimately show ?case using 2 [OF rw [symmetric]] by (simp only: utf8Valid_append)
qed simp

lemma replacementBytes: "char_of (239::nat) = CHR 0xEF" "char_of (191::nat) = CHR 0xBF" "char_of (189::nat) = CHR 0xBD"
  by code_simp+

lemma scanString_quote:
  "scanString (quoteBody s @ CHR 0x22 # rest) = Some (utf8Coerce s, rest)"
proof (induction s rule: quoteBody.induct)
  case 1
  then show ?case by (simp add: scanString_step)
next
  case (2 b bs)
  obtain r w where rw: "decodeRune (b # bs) = (r, w)" by (cases "decodeRune (b # bs)") auto
  show ?case
  proof (cases "byte b < 128")
    case True
    then have "decodeRune (b # bs) = (byte b, 1)" by simp
    with True 2(1) show ?thesis by (simp add: scanString_escapeByte runeError_def prepend_def)
  next
    case False
    let ?q = "quoteBody (drop (w - 1) bs) @ CHR 0x22 # rest"
    have IH: "scanString ?q = Some (utf8Coerce (drop (w - 1) bs), rest)" using 2(2) [OF False rw [symmetric]] .
    show ?thesis
    proof (cases "r = runeError \<and> w = 1")
      case True
      have "hex4 (''fffd'' @ ?q) = Some (65533, ?q)" by (simp add: hex4_def hexVal_def isDigit_def less_eq_char_def)
      then have "scanString (CHR 0x5C # CHR ''u'' # ''fffd'' @ ?q) = prepend (encodeRune 65533) (scanString ?q)"
        by (rule scanString_step(3)) (simp add: isSurrogate_def)
      moreover have "encodeRune 65533 = [CHR 0xEF, CHR 0xBF, CHR 0xBD]" by (simp add: encodeRune_def replacementBytes)
      ultimately show ?thesis using False True rw IH by (simp add: prepend_def del: decodeRune.simps)
    next
      case ok: False
      have hi: "\<forall>c\<in>set (b # take (w - 1) bs). 128 \<le> byte c" using decodeRune_multi(2) [OF _ rw ok] False by simp
      have enc: "b # take (w - 1) bs = encodeRune r" using decodeRune_multi(1) [OF _ rw ok] False by simp
      have "scanString (quoteBody (b # bs) @ CHR 0x22 # rest) = prepend (b # take (w - 1) bs) (scanString ?q)"
        using False rw ok scanString_lineSep [of ?q] scanString_copy [OF hi, of ?q] enc
        by (cases "r = 8232"; cases "r = 8233") auto
      moreover have "utf8Coerce (b # bs) = (b # take (w - 1) bs) @ utf8Coerce (drop (w - 1) bs)"
        using rw ok by (auto simp del: decodeRune.simps)
      ultimately show ?thesis using IH by (simp add: prepend_def)
    qed
  qed
qed

lemma readsAs_quote: "readsAs (quote s) (JStr (utf8Coerce s))"
proof -
  have "parseValue (Suc n) (quote s @ rest) = Some (JStr (utf8Coerce s), rest)" for n rest
    by (simp add: parseValue.simps quote_def skipSpace_head scanString_quote utf8Coerce_valid utf8Valid_coerce)
  then show ?thesis by (intro readsAs_leaf [of _ "CHR 0x22" "quoteBody s @ [CHR 0x22]"]) (auto simp: quote_def)
qed

section \<open>Members by name\<close>

lemma jsonParse_Nil [simp]: "jsonParse [] = None"
  by (simp add: jsonParse_def parseValue.simps skipSpace_def)

lemma those_list_all2: "those (map f xs) = Some ys \<longleftrightarrow> list_all2 (\<lambda>x y. f x = Some y) xs ys"
proof (induction xs arbitrary: ys)
  case (Cons x xs)
  then show ?case by (cases "f x"; cases "those (map f xs)"; cases ys) (auto simp: list_all2_Cons1)
qed auto

lemma find_append: "List.find P (xs @ ys) = (case List.find P xs of None \<Rightarrow> List.find P ys | Some x \<Rightarrow> Some x)"
  by (induction xs) auto

lemma jsonField_in:
  assumes "distinct (map (foldName \<circ> fst) ms)" and "(k, v) \<in> set ms"
  shows "jsonField k ms = Some v"
proof -
  obtain as bs where ms: "ms = as @ (k, v) # bs" using assms(2) by (meson split_list)
  have "\<forall>m\<in>set bs. foldName (fst m) \<noteq> foldName k" using assms(1) by (auto simp: ms) (metis fst_conv image_eqI)
  then have "List.find (\<lambda>(k', _). foldName k' = foldName k) (rev bs) = None" by (auto simp: find_None_iff)
  then show ?thesis by (simp add: jsonField_def ms find_append)
qed

lemma jsonField_out: "foldName k \<notin> (foldName \<circ> fst) ` set ms \<Longrightarrow> jsonField k ms = None"
  by (auto simp: jsonField_def find_None_iff image_iff)

section \<open>Compact texts\<close>

text \<open>A text without white space and markup is written again as it is.\<close>

definition compactByte :: "char \<Rightarrow> bool" where
  "compactByte c = (\<not> isSpace c \<and> \<not> isMarkup c \<and> c \<noteq> CHR 0xE2)"

lemma compact_simps:
  "list_all compactByte s \<Longrightarrow> skipSpace s = s" "list_all compactByte s \<Longrightarrow> htmlEscape s = s"
proof -
  show "list_all compactByte s \<Longrightarrow> skipSpace s = s" by (cases s) (auto simp: skipSpace_def compactByte_def)
  show "list_all compactByte s \<Longrightarrow> htmlEscape s = s" by (induction s) (auto simp: compactByte_def htmlEscape_plain)
qed

lemma scanString_split:
  assumes "scanString cs = Some (t, r)"
  shows "cs = bodyOf cs r @ CHR 0x22 # r"
  using scanString_body [OF assms] by (auto simp: bodyOf_def)

lemma scanLiteral_split: "scanLiteral s = Some (v, r) \<Longrightarrow> s = jsonPrint v @ r"
proof -
  assume v: "scanLiteral s = Some (v, r)"
  have "hasPrefix s p \<Longrightarrow> s = p @ drop (length p) s" for p
    by (metis append_take_drop_id hasPrefix_def)
  from this [of "''null''"] this [of "''true''"] this [of "''false''"] v show ?thesis
    by (auto simp: scanLiteral_def eval_nat_numeral split: if_splits dest: scanNumber_any)
qed

lemma rawText_compact:
  "rawValue n s = Some (x, rest) \<Longrightarrow> list_all compactByte s \<Longrightarrow> s = rawText x @ rest"
  "rawMembers n s = Some (ms, rest) \<Longrightarrow> list_all compactByte s \<Longrightarrow>
     ms \<noteq> [] \<and> s = commaSep (map (\<lambda>(name, x). memberText (htmlEscape (fst name), rawText x)) ms) @ CHR ''}'' # rest"
  "rawElems n s = Some (xs, rest) \<Longrightarrow> list_all compactByte s \<Longrightarrow> xs \<noteq> [] \<and> s = commaSep (map rawText xs) @ CHR '']'' # rest"
proof (induction n arbitrary: s x ms xs rest)
  case (Suc n)
  note IH = Suc.IH
  have str: "list_all compactByte (bodyOf cs r) \<and> list_all compactByte r \<and> cs = bodyOf cs r @ CHR 0x22 # r"
    if "scanString cs = Some (t, r)" "list_all compactByte cs" for cs t r
    using scanString_split [OF that(1)] that(2) by (metis list_all_append list.pred_inject(2))
  show "s = rawText x @ rest" if v: "rawValue (Suc n) s = Some (x, rest)" and c: "list_all compactByte s" for s x rest
  proof (cases s)
    case Nil
    with v show ?thesis by (simp add: rawValue.simps skipSpace_def)
  next
    case (Cons d ds)
    then have ds: "list_all compactByte ds" using c by simp
    then show ?thesis using v Cons c IH(2) [OF _ ds] IH(3) [OF _ ds] str [OF _ ds]
      by (auto simp: rawValue.simps compact_simps scanLiteral_split split: list.splits if_splits dest: scanLiteral_split)
  qed
  show "xs \<noteq> [] \<and> s = commaSep (map rawText xs) @ CHR '']'' # rest"
    if v: "rawElems (Suc n) s = Some (xs, rest)" and c: "list_all compactByte s" for s xs rest
  proof -
    obtain y r where y: "rawValue n s = Some (y, r)" using v by (auto simp: rawElems.simps split: option.splits)
    from IH(1) [OF this c] have s: "s = rawText y @ r" and r: "list_all compactByte r" using c by auto
    then show ?thesis using v y IH(3)
      by (auto simp: rawElems.simps compact_simps commaSep_Cons split: list.splits if_splits)
  qed
  show "ms \<noteq> [] \<and> s = commaSep (map (\<lambda>(name, x). memberText (htmlEscape (fst name), rawText x)) ms) @ CHR ''}'' # rest"
    if v: "rawMembers (Suc n) s = Some (ms, rest)" and c: "list_all compactByte s" for s ms rest
  proof -
    obtain cs k r ds y r2 where m: "s = CHR 0x22 # cs" "scanString cs = Some (k, r)" "r = CHR '':'' # ds"
      "rawValue n ds = Some (y, r2)" "list_all compactByte cs"
      using v c str [THEN conjunct2, THEN conjunct1, THEN compact_simps(1)]
      by (auto simp: rawMembers.simps compact_simps(1) split: list.splits if_splits option.splits)
    from str [OF m(2,5)] have b: "cs = bodyOf cs r @ CHR 0x22 # r" "list_all compactByte (bodyOf cs r)" "list_all compactByte ds"
      using m(3) by auto
    from IH(1) [OF m(4) b(3)] have ds: "ds = rawText y @ r2" "list_all compactByte r2" using b(3) by auto
    have sk: "skipSpace (CHR 0x22 # cs) = CHR 0x22 # cs" "skipSpace (CHR '':'' # ds) = CHR '':'' # ds" "skipSpace r2 = r2"
      using ds(2) by (simp_all add: skipSpace_def isSpace_def compact_simps(1) [unfolded skipSpace_def])
    have "s = memberText (htmlEscape (bodyOf cs r), rawText y) @ r2"
      unfolding compact_simps(2) [OF b(2)] using m(1,3) b(1) ds(1) by (simp add: memberText_def)
    moreover have "(case r2 of [] \<Rightarrow> None | e # es \<Rightarrow> if e = CHR ''}'' then Some ([((bodyOf cs r, utf8Coerce k), y)], es)
        else if e = CHR '','' then map_option (\<lambda>(ms, r'). (((bodyOf cs r, utf8Coerce k), y) # ms, r')) (rawMembers n es)
        else None) = Some (ms, rest)" using v m(1,2,4) unfolding m(3) by (simp add: rawMembers.simps sk)
    ultimately show ?thesis using ds(2) IH(2) by (auto simp: commaSep_Cons split: list.splits if_splits)
  qed
qed (simp_all add: rawValue.simps rawMembers.simps rawElems.simps)

lemma rawMarshal_compact:
  assumes "list_all compactByte s" and "jsonParse s = Some v"
  shows "rawMarshal s = Some s"
proof -
  obtain x where x: "rawParse s = Some x" using assms(2) by (auto simp: jsonParse_raw)
  then obtain rest where "rawValue (Suc (2 * length s)) s = Some (x, rest)" "skipSpace rest = []"
    by (auto simp: rawParse_def split: option.splits if_splits)
  moreover from rawText_compact(1) [OF this(1) assms(1)] have "s = rawText x @ rest" .
  moreover from this have "skipSpace rest = rest" using assms(1) by (metis compact_simps(1) list_all_append)
  moreover have "s \<noteq> []" using assms(2) by (auto simp: jsonParse_def parseValue.simps skipSpace_def)
  ultimately show ?thesis using x by (simp add: rawMarshal_def)
qed

text \<open>Printing a tree is marshalling it from the texts of its parts.\<close>

lemma objText_print: "objText (map (\<lambda>(k, v). (k, jsonPrint v)) ms) = jsonPrint (JObj ms)"
  by (simp add: objText_def memberText_def quote_def comp_def split_def)

lemma arrText_print: "arrText (map jsonPrint vs) = jsonPrint (JArr vs)"
  by (simp add: arrText_def)

end
