(* ===== verification/Matching.thy ===== *)
theory Matching
  imports Digests
begin

text \<open>
  Transition matching (\<open>constraintengine/match.go\<close>): how a declared from/to pair matches a rule's
  reviewed subject, the structural guards on a reviewed range, and the pack-level lint against
  overlapping rules.

  Shown here: a range that passes its guards contains its anchor, only admits strict upgrades, and
  stays inside the minor line of its anchor on either side; the overlap test decides exactly
  whether some declared transition matches both subjects.
\<close>

section \<open>Matching a declared transition\<close>

datatype MatchMode = MatchNone | MatchAnchor | MatchRange

record RuleTransition =
  rt_Component :: string
  rt_From :: string
  rt_To :: string
  rt_Range :: "VersionRange option"

definition inBound :: "string \<Rightarrow> VersionBound \<Rightarrow> bool" where
  "inBound version bound =
     (case (compareVersions (vb_Gte bound) version, compareVersions version (vb_Lt bound)) of
        (Some low, Some high) \<Rightarrow> low \<le> 0 \<and> high < 0
      | _ \<Rightarrow> False)"

definition matchTransition :: "RuleTransition \<Rightarrow> string \<Rightarrow> string \<Rightarrow> MatchMode" where
  "matchTransition t from to =
     (if from = rt_From t \<and> to = rt_To t then MatchAnchor
      else (case rt_Range t of
              Some rng \<Rightarrow> if inBound from (vr_From rng) \<and> inBound to (vr_To rng) then MatchRange else MatchNone
            | None \<Rightarrow> MatchNone))"

definition MatchesFrom :: "RuleTransition \<Rightarrow> string \<Rightarrow> bool" where
  "MatchesFrom t from =
     (from = rt_From t \<or> (case rt_Range t of Some rng \<Rightarrow> inBound from (vr_From rng) | None \<Rightarrow> False))"

definition MatchesTo :: "RuleTransition \<Rightarrow> string \<Rightarrow> bool" where
  "MatchesTo t to =
     (to = rt_To t \<or> (case rt_Range t of Some rng \<Rightarrow> inBound to (vr_To rng) | None \<Rightarrow> False))"

definition IsAnchorFrom :: "RuleTransition \<Rightarrow> string \<Rightarrow> bool" where
  "IsAnchorFrom t from = (from = rt_From t)"

definition IsAnchor :: "RuleTransition \<Rightarrow> string \<Rightarrow> string \<Rightarrow> bool" where
  "IsAnchor t from to = (from = rt_From t \<and> to = rt_To t)"

definition boundContains :: "VersionBound \<Rightarrow> string \<Rightarrow> bool" where
  "boundContains b version = inBound version b"

definition SameVersion :: "string \<Rightarrow> string \<Rightarrow> bool" where
  "SameVersion left right = (case compareVersions left right of Some c \<Rightarrow> c = 0 | None \<Rightarrow> False)"

definition VersionLess :: "string \<Rightarrow> string \<Rightarrow> bool" where
  "VersionLess left right = (case compareVersions left right of Some c \<Rightarrow> c < 0 | None \<Rightarrow> False)"

definition ruleTransitionOfRule :: "rule \<Rightarrow> RuleTransition" where
  "ruleTransitionOfRule r =
     \<lparr>rt_Component = tr_Component (r_Subject r), rt_From = tr_From (r_Subject r),
      rt_To = tr_To (r_Subject r), rt_Range = r_Range r\<rparr>"

definition sameVersion :: "string \<Rightarrow> string \<Rightarrow> bool" where
  "sameVersion left right = (left = right)"

section \<open>Reading the subject of a raw rule\<close>

text \<open>
  \<open>json.Unmarshal\<close> into the anonymous structs (the strict flag off): unknown members are ignored, names match
  exactly or under case folding, a missing member leaves the zero value. Of members with the same
  name the last one is read (Go would merge two objects); the callers pass rules of documents whose
  duplicate names were refused before.
\<close>

definition decVersionBound :: "bool \<Rightarrow> json \<Rightarrow> VersionBound option" where
  "decVersionBound strict v =
     Option.bind (decStruct strict [''gte'', ''lt''] v) (\<lambda>ms.
     Option.bind (decField decString [] ms ''gte'') (\<lambda>g.
     Option.bind (decField decString [] ms ''lt'') (\<lambda>l. Some \<lparr>vb_Gte = g, vb_Lt = l\<rparr>)))"

definition decRangeBound :: "bool \<Rightarrow> json \<Rightarrow> RangeBound option" where
  "decRangeBound strict v =
     Option.bind (decStruct strict [''bound'', ''basis'', ''sourceId''] v) (\<lambda>ms.
     Option.bind (decField decString [] ms ''bound'') (\<lambda>b.
     Option.bind (decField decString [] ms ''basis'') (\<lambda>s.
     Option.bind (decField decString [] ms ''sourceId'') (\<lambda>i.
       Some \<lparr>rb_Bound = b, rb_Basis = s, rb_SourceID = i\<rparr>))))"

definition zeroBound :: VersionBound where
  "zeroBound = \<lparr>vb_Gte = [], vb_Lt = []\<rparr>"

definition decVersionRange :: "bool \<Rightarrow> json \<Rightarrow> VersionRange option" where
  "decVersionRange strict v =
     Option.bind (decStruct strict [''from'', ''to'', ''bounds''] v) (\<lambda>ms.
     Option.bind (decField (decVersionBound strict) zeroBound ms ''from'') (\<lambda>f.
     Option.bind (decField (decVersionBound strict) zeroBound ms ''to'') (\<lambda>t.
     Option.bind (decField (decSlice (decRangeBound strict)) [] ms ''bounds'') (\<lambda>b.
       Some \<lparr>vr_From = f, vr_To = t, vr_Bounds = b\<rparr>))))"

definition decTransition :: "bool \<Rightarrow> json \<Rightarrow> transition option" where
  "decTransition strict v =
     Option.bind (decStruct strict [''component'', ''from'', ''to''] v) (\<lambda>ms.
     Option.bind (decField decString [] ms ''component'') (\<lambda>c.
     Option.bind (decField decString [] ms ''from'') (\<lambda>f.
     Option.bind (decField decString [] ms ''to'') (\<lambda>t.
       Some \<lparr>tr_Component = c, tr_From = f, tr_To = t\<rparr>))))"

definition zeroTransition :: transition where
  "zeroTransition = \<lparr>tr_Component = [], tr_From = [], tr_To = []\<rparr>"

definition RuleTransitionOf :: "string \<Rightarrow> RuleTransition result" where
  "RuleTransitionOf raw =
     (case Option.bind (jsonParse raw) (\<lambda>v.
           Option.bind (decStruct False [''subject'', ''range''] v) (\<lambda>ms.
           Option.bind (decField (decTransition False) zeroTransition ms ''subject'') (\<lambda>s.
           Option.bind (decField (decPtr (decVersionRange False)) None ms ''range'') (\<lambda>r.
             Some \<lparr>rt_Component = tr_Component s, rt_From = tr_From s, rt_To = tr_To s, rt_Range = r\<rparr>)))) of
        None \<Rightarrow> Inl (ErrInvalid ''rule subject'')
      | Some t \<Rightarrow> Inr t)"

text \<open>Into a map, names are exact; \<open>null\<close> gives a nil map and is no error.\<close>

fun AnyRanged :: "string list \<Rightarrow> bool result" where
  "AnyRanged [] = Inr False"
| "AnyRanged (raw # raws) =
     (case jsonParse raw of
        Some (JObj ms) \<Rightarrow> if objGet ms ''range'' \<noteq> None then Inr True else AnyRanged raws
      | Some JNull \<Rightarrow> AnyRanged raws
      | _ \<Rightarrow> Inl (ErrInvalid ''rule shape''))"

definition RulesSchemaFor :: "string list \<Rightarrow> string result" where
  "RulesSchemaFor rules =
     (case AnyRanged rules of
        Inl e \<Rightarrow> Inl e
      | Inr ranged \<Rightarrow> Inr (if ranged then RulesSchemaRanged else RulesSchema))"

section \<open>Range guards\<close>

definition boundFromGte :: string where [engine_defs]: "boundFromGte = ''from.gte''"
definition boundFromLt :: string where [engine_defs]: "boundFromLt = ''from.lt''"
definition boundToGte :: string where [engine_defs]: "boundToGte = ''to.gte''"
definition boundToLt :: string where [engine_defs]: "boundToLt = ''to.lt''"
definition subjectMatchModeRange :: string where [engine_defs]: "subjectMatchModeRange = ''range''"

definition boundOrder :: "string list" where [engine_defs]:
  "boundOrder = [boundFromGte, boundFromLt, boundToGte, boundToLt]"

definition basisAllowed :: "(string \<times> string list) list" where [engine_defs]:
  "basisAllowed =
     [(BasisRemovedInRelease, [boundFromLt, boundToGte]),
      (BasisChangedInRelease, [boundFromLt, boundToGte]),
      (BasisRestoredInRelease, [boundToLt]),
      (BasisUpgradeFromSeries, [boundFromGte, boundFromLt]),
      (BasisTargetSeries, [boundToGte, boundToLt]),
      (BasisPreviousMinorLine, [boundFromGte]),
      (BasisReviewedThroughMinorLine, [boundToLt]),
      (BasisAnchorOnly, [boundFromGte, boundFromLt, boundToGte, boundToLt])]"

definition minorStart :: "numericVersion \<Rightarrow> bool" where
  "minorStart version = (v_patch version = 0)"

definition wholeMinorLine :: "numericVersion \<Rightarrow> numericVersion \<Rightarrow> bool" where
  "wholeMinorLine gte lt =
     (minorStart gte \<and> minorStart lt \<and> v_major gte = v_major lt \<and> unat (v_minor gte) + 1 = unat (v_minor lt))"

definition withinOneMinorLine :: "numericVersion \<Rightarrow> numericVersion \<Rightarrow> bool" where
  "withinOneMinorLine gte lt =
     (if v_major lt \<noteq> v_major gte then False
      else (let next = unat (v_minor gte) + 1 in
            unat (v_minor lt) < next \<or> unat (v_minor lt) = next \<and> v_patch lt = 0))"

definition versionLE :: "string \<Rightarrow> string \<Rightarrow> bool" where
  "versionLE a b = (case compareVersions a b of Some c \<Rightarrow> c \<le> 0 | None \<Rightarrow> False)"

text \<open>
  The map \<open>basis\<close> is the function \<open>basis\<close> (an absent key reads as the empty string), the map
  \<open>parsed\<close> is given by its four entries.
\<close>

definition validateBasisStructure ::
  "rule \<Rightarrow> VersionRange \<Rightarrow> (string \<Rightarrow> string) \<Rightarrow>
   numericVersion \<Rightarrow> numericVersion \<Rightarrow> numericVersion \<Rightarrow> numericVersion \<Rightarrow> error option" where
  "validateBasisStructure r rng basis fromGte fromLt toGte toLt =
     (let release = (\<lambda>name. basis name = BasisRemovedInRelease \<or> basis name = BasisChangedInRelease);
          nextPatch = (\<lambda>anchorText bound. case parseVersion anchorText of
              Some anchor \<Rightarrow> v_major bound = v_major anchor \<and> v_minor bound = v_minor anchor \<and>
                unat (v_patch anchor) + 1 = unat (v_patch bound)
            | None \<Rightarrow> v_major bound = 0 \<and> v_minor bound = 0 \<and> 1 = unat (v_patch bound))
      in andThen (failIf ((release boundFromLt \<or> release boundToGte) \<and>
                    (basis boundFromLt \<noteq> basis boundToGte
                     \<or> \<not> sameVersion (vb_Lt (vr_From rng)) (vb_Gte (vr_To rng)) \<or> \<not> minorStart toGte))
                  (ErrInvalid ''range basis release boundary''))
        (andThen (failIf (basis boundFromGte = BasisPreviousMinorLine \<and>
                    (\<not> minorStart fromGte \<or> \<not> minorStart fromLt \<or> v_major fromGte \<noteq> v_major fromLt
                     \<or> unat (v_minor fromGte) + 1 \<noteq> unat (v_minor fromLt)))
                  (ErrInvalid ''range basis previous minor line''))
        (andThen (failIf ((basis boundFromGte = BasisUpgradeFromSeries \<or> basis boundFromLt = BasisUpgradeFromSeries)
                    \<and> \<not> wholeMinorLine fromGte fromLt)
                  (ErrInvalid ''range basis series''))
        (andThen (failIf ((basis boundToGte = BasisTargetSeries \<or> basis boundToLt = BasisTargetSeries)
                    \<and> \<not> wholeMinorLine toGte toLt)
                  (ErrInvalid ''range basis series''))
        (andThen (failIf (basis boundToLt = BasisReviewedThroughMinorLine \<and> \<not> minorStart toLt)
                  (ErrInvalid ''range basis review horizon''))
        (andThen (failIf (basis boundFromGte = BasisAnchorOnly \<and>
                    \<not> sameVersion (vb_Gte (vr_From rng)) (tr_From (r_Subject r)))
                  (ErrInvalid ''range basis anchor only''))
        (andThen (failIf (basis boundFromLt = BasisAnchorOnly \<and> \<not> nextPatch (tr_From (r_Subject r)) fromLt)
                  (ErrInvalid ''range basis anchor only''))
        (andThen (failIf (basis boundToGte = BasisAnchorOnly \<and>
                    \<not> sameVersion (vb_Gte (vr_To rng)) (tr_To (r_Subject r)))
                  (ErrInvalid ''range basis anchor only''))
        (failIf (basis boundToLt = BasisAnchorOnly \<and> \<not> nextPatch (tr_To (r_Subject r)) toLt)
                  (ErrInvalid ''range basis anchor only''))))))))))"

definition validateRangeBounds :: "rule \<Rightarrow> VersionRange \<Rightarrow> error option" where
  "validateRangeBounds r rng =
     (let sources = map se_ID (ev_Sources (r_Evidence r)) in
      firstErr (\<lambda>(bound, expected).
        andThen (failIf (rb_Bound bound \<noteq> expected) (ErrInvalid ''range bound order''))
       (andThen (failIf (case map_of basisAllowed (rb_Basis bound) of
                           None \<Rightarrow> True | Some allowed \<Rightarrow> rb_Bound bound \<notin> set allowed)
                        (ErrInvalid ''range bound basis''))
                (failIf (\<not> idRE (rb_SourceID bound) \<or> rb_SourceID bound \<notin> set sources)
                        (ErrInvalid ''range bound source''))))
        (zip (vr_Bounds rng) boundOrder))"

definition basisOf :: "VersionRange \<Rightarrow> string \<Rightarrow> string" where
  "basisOf rng name =
     (case map_of (rev (map (\<lambda>b. (rb_Bound b, rb_Basis b)) (vr_Bounds rng))) name of Some b \<Rightarrow> b | None \<Rightarrow> [])"

definition validateRange :: "rule \<Rightarrow> error option" where
  "validateRange r =
     (case r_Range r of
        None \<Rightarrow> None
      | Some rng \<Rightarrow>
          (case (parseVersion (vb_Gte (vr_From rng)), parseVersion (vb_Lt (vr_From rng)),
                 parseVersion (vb_Gte (vr_To rng)), parseVersion (vb_Lt (vr_To rng))) of
             (Some fromGte, Some fromLt, Some toGte, Some toLt) \<Rightarrow>
               andThen (failIf (\<not> VersionLess (vb_Gte (vr_From rng)) (vb_Lt (vr_From rng))
                                \<or> \<not> VersionLess (vb_Gte (vr_To rng)) (vb_Lt (vr_To rng)))
                         (ErrInvalid ''range interval empty or inverted''))
              (andThen (failIf (\<not> versionLE (vb_Lt (vr_From rng)) (vb_Gte (vr_To rng)))
                         (ErrInvalid ''range admits a non-upgrade pair''))
              (andThen (failIf (\<not> inBound (tr_From (r_Subject r)) (vr_From rng)
                                \<or> \<not> inBound (tr_To (r_Subject r)) (vr_To rng))
                         (ErrInvalid ''range excludes its anchor''))
              (andThen (failIf (\<not> withinOneMinorLine fromGte fromLt \<or> \<not> withinOneMinorLine toGte toLt)
                         (ErrInvalid ''range wider than one minor line''))
              (andThen (failIf (length (vr_Bounds rng) \<noteq> length boundOrder)
                         (ErrInvalid ''range bound count''))
              (andThen (validateRangeBounds r rng)
                       (validateBasisStructure r rng (basisOf rng) fromGte fromLt toGte toLt))))))
           | _ \<Rightarrow> Some (ErrInvalid ''range bound version'')))"

section \<open>Overlapping rules\<close>

record interval =
  iv_low :: string
  iv_high :: string
  iv_closed :: bool

definition region :: "RuleTransition \<Rightarrow> interval \<times> interval" where
  "region t =
     (case rt_Range t of
        None \<Rightarrow> (\<lparr>iv_low = rt_From t, iv_high = rt_From t, iv_closed = True\<rparr>,
                  \<lparr>iv_low = rt_To t, iv_high = rt_To t, iv_closed = True\<rparr>)
      | Some rng \<Rightarrow> (\<lparr>iv_low = vb_Gte (vr_From rng), iv_high = vb_Lt (vr_From rng), iv_closed = False\<rparr>,
                      \<lparr>iv_low = vb_Gte (vr_To rng), iv_high = vb_Lt (vr_To rng), iv_closed = False\<rparr>))"

definition intervalBelow :: "string \<Rightarrow> interval \<Rightarrow> bool" where
  "intervalBelow low other =
     (case compareVersions low (iv_high other) of
        None \<Rightarrow> True
      | Some c \<Rightarrow> if iv_closed other then c \<le> 0 else c < 0)"

definition intervalsOverlap :: "interval \<Rightarrow> interval \<Rightarrow> bool" where
  "intervalsOverlap a b = (intervalBelow (iv_low a) b \<and> intervalBelow (iv_low b) a)"

definition regionsOverlap :: "RuleTransition \<Rightarrow> RuleTransition \<Rightarrow> bool" where
  "regionsOverlap a b =
     (let (fromA, toA) = region a; (fromB, toB) = region b in
      intervalsOverlap fromA fromB \<and> intervalsOverlap toA toB)"

definition constraintKey :: "rule \<Rightarrow> string" where
  "constraintKey r =
     (let nul = [CHR 0x00] in
      case r_Condition r of
        Some c \<Rightarrow> r_Operator r @ nul @ fc_Side c @ nul @ fc_Component c @ nul @ fc_FactID c
      | None \<Rightarrow> (case r_Dependency r of
            Some d \<Rightarrow> r_Operator r @ nul @ cc_Side d @ nul @ cc_Component d
          | None \<Rightarrow> r_Operator r))"

fun validateRangeOverlaps :: "rule list \<Rightarrow> error option" where
  "validateRangeOverlaps [] = None"
| "validateRangeOverlaps (a # rest) =
     andThen
       (firstErr (\<lambda>b.
          if r_Range a = None \<and> r_Range b = None \<or> tr_Component (r_Subject a) \<noteq> tr_Component (r_Subject b) then None
          else if constraintKey a \<noteq> constraintKey b then None
          else failIf (regionsOverlap (ruleTransitionOfRule a) (ruleTransitionOfRule b))
                 (ErrInvalid ''overlapping rules constrain the same fact'')) rest)
       (validateRangeOverlaps rest)"

section \<open>What matching means\<close>

definition versionIn :: "string \<Rightarrow> string \<Rightarrow> string \<Rightarrow> bool" where
  "versionIn lo v hi \<longleftrightarrow>
     (\<exists>l x h. parseVersion lo = Some l \<and> parseVersion v = Some x \<and> parseVersion hi = Some h \<and> l \<le> x \<and> x < h)"

lemma inBound_iff: "inBound v b \<longleftrightarrow> versionIn (vb_Gte b) v (vb_Lt b)"
  unfolding versionIn_def ver.between_iff [symmetric]
  by (auto simp: inBound_def split: option.splits)

lemma VersionLess_iff:
  "VersionLess a b \<longleftrightarrow> (\<exists>x y. parseVersion a = Some x \<and> parseVersion b = Some y \<and> x < y)"
  unfolding ver.cmp_less_iff [symmetric] by (auto simp: VersionLess_def split: option.splits)

lemma versionLE_iff:
  "versionLE a b \<longleftrightarrow> (\<exists>x y. parseVersion a = Some x \<and> parseVersion b = Some y \<and> x \<le> y)"
  unfolding ver.cmp_le_iff [symmetric] by (auto simp: versionLE_def split: option.splits)

lemma SameVersion_iff: "SameVersion a b \<longleftrightarrow> validVersion a \<and> a = b"
  using ver.cmp_zero_iff [of a b] parseVersion_inject [of a _ b]
  by (auto simp: SameVersion_def validVersion_def split: option.splits)

lemma matchTransition_iff:
  "matchTransition t f u \<noteq> MatchNone \<longleftrightarrow>
     f = rt_From t \<and> u = rt_To t \<or>
     (\<exists>rng. rt_Range t = Some rng \<and> inBound f (vr_From rng) \<and> inBound u (vr_To rng))"
  by (auto simp: matchTransition_def split: option.splits)

lemma matchTransition_sides:
  "matchTransition t f u \<noteq> MatchNone \<Longrightarrow> MatchesFrom t f \<and> MatchesTo t u"
  by (auto simp: matchTransition_def MatchesFrom_def MatchesTo_def split: option.splits if_splits)

text \<open>The guards on a range that matching relies on.\<close>

lemma validateRange_guards:
  assumes "validateRange r = None" and "r_Range r = Some rng"
  obtains fg fl tg tl where
    "parseVersion (vb_Gte (vr_From rng)) = Some fg" "parseVersion (vb_Lt (vr_From rng)) = Some fl"
    "parseVersion (vb_Gte (vr_To rng)) = Some tg" "parseVersion (vb_Lt (vr_To rng)) = Some tl"
    "fg < fl" "tg < tl" "fl \<le> tg"
    "inBound (tr_From (r_Subject r)) (vr_From rng)" "inBound (tr_To (r_Subject r)) (vr_To rng)"
    "withinOneMinorLine fg fl" "withinOneMinorLine tg tl"
  using assms
  by (auto simp: validateRange_def VersionLess_iff versionLE_iff split: option.splits)

lemma version_sel_iff:
  "x < y \<longleftrightarrow> v_major x < v_major y \<or> v_major x = v_major y \<and>
     (v_minor x < v_minor y \<or> v_minor x = v_minor y \<and> v_patch x < v_patch y)"
  "x \<le> y \<longleftrightarrow> v_major x < v_major y \<or> v_major x = v_major y \<and>
     (v_minor x < v_minor y \<or> v_minor x = v_minor y \<and> v_patch x \<le> v_patch y)"
   by (cases x; cases y; simp only: version_less_iff numericVersion.sel)
     (cases x; cases y; simp only: version_le_iff numericVersion.sel)

lemma inBound_minorLine:
  assumes "parseVersion (vb_Gte b) = Some g" and "parseVersion (vb_Lt b) = Some l"
    and "withinOneMinorLine g l" and "inBound v b"
  obtains x where "parseVersion v = Some x" "v_major x = v_major g" "v_minor x = v_minor g"
proof -
  obtain x where x: "parseVersion v = Some x" "g \<le> x" "x < l"
    using assms by (auto simp: inBound_iff versionIn_def)
  have w: "v_major l = v_major g"
      "unat (v_minor l) < unat (v_minor g) + 1 \<or> unat (v_minor l) = unat (v_minor g) + 1 \<and> v_patch l = 0"
    using assms(3) unfolding withinOneMinorLine_def Let_def by (metis, metis)
  have lower: "v_major g < v_major x \<or> v_major g = v_major x \<and> v_minor g \<le> v_minor x"
    using x(2) unfolding version_sel_iff(2) by (metis order_refl order_less_imp_le)
  have upper: "v_major x < v_major l \<or> v_major x = v_major l \<and>
      (v_minor x < v_minor l \<or> v_minor x = v_minor l \<and> v_patch x < v_patch l)"
    using x(3) unfolding version_sel_iff(1) .
  have major: "v_major x = v_major g"
    using lower upper w(1) by (metis order_less_asym)
  have "unat (v_minor g) \<le> unat (v_minor x)"
    using lower major by (metis order_less_irrefl word_le_nat_alt)
  moreover have "unat (v_minor x) < unat (v_minor l) \<or> unat (v_minor x) = unat (v_minor l) \<and> v_patch l \<noteq> 0"
    using upper major w(1) by (metis order_less_irrefl word_less_nat_alt word_not_simps(1))
  ultimately have "unat (v_minor x) = unat (v_minor g)"
    using w(2) by linarith
  then have "v_minor x = v_minor g" by (simp add: word_unat_eq_iff)
  with x(1) major show ?thesis by (rule that)
qed

text \<open>A subject is regular when its anchor versions are valid and its range, if any, passed the guards.\<close>

definition regularSubject :: "rule \<Rightarrow> bool" where
  "regularSubject r \<longleftrightarrow>
     validVersion (tr_From (r_Subject r)) \<and> validVersion (tr_To (r_Subject r)) \<and> validateRange r = None"

lemma ruleTransitionOfRule_sel [simp]:
  "rt_Component (ruleTransitionOfRule r) = tr_Component (r_Subject r)"
  "rt_From (ruleTransitionOfRule r) = tr_From (r_Subject r)"
  "rt_To (ruleTransitionOfRule r) = tr_To (r_Subject r)"
  "rt_Range (ruleTransitionOfRule r) = r_Range r"
  by (simp_all add: ruleTransitionOfRule_def)

section \<open>What overlapping means\<close>

definition intervalHas :: "interval \<Rightarrow> string \<Rightarrow> bool" where
  "intervalHas i v \<longleftrightarrow>
     (\<exists>l x h. parseVersion (iv_low i) = Some l \<and> parseVersion v = Some x \<and> parseVersion (iv_high i) = Some h \<and>
        l \<le> x \<and> (if iv_closed i then x \<le> h else x < h))"

text \<open>Two intervals, each holding its own lower end, overlap exactly when they share a version.\<close>

lemma intervalBelow_iff:
  assumes "parseVersion low = Some l" and "parseVersion (iv_high i) = Some h"
  shows "intervalBelow low i \<longleftrightarrow> (if iv_closed i then l \<le> h else l < h)"
  using ver.cmp_defined [OF assms]
  by (metis (no_types, lifting) intervalBelow_def not_less option.simps(5))

lemma intervalsOverlap_iff:
  assumes "intervalHas a (iv_low a)" and "intervalHas b (iv_low b)"
  shows "intervalsOverlap a b \<longleftrightarrow> (\<exists>v. intervalHas a v \<and> intervalHas b v)"
proof -
  obtain la ha where a: "parseVersion (iv_low a) = Some la" "parseVersion (iv_high a) = Some ha"
    "if iv_closed a then la \<le> ha else la < ha"
    using assms(1) by (auto simp: intervalHas_def)
  obtain lb hb where b: "parseVersion (iv_low b) = Some lb" "parseVersion (iv_high b) = Some hb"
    "if iv_closed b then lb \<le> hb else lb < hb"
    using assms(2) by (auto simp: intervalHas_def)
  have overlap: "intervalsOverlap a b \<longleftrightarrow>
      (if iv_closed b then la \<le> hb else la < hb) \<and> (if iv_closed a then lb \<le> ha else lb < ha)"
    unfolding intervalsOverlap_def intervalBelow_iff [OF a(1) b(2)] intervalBelow_iff [OF b(1) a(2)] ..
  show ?thesis
  proof
    assume "intervalsOverlap a b"
    then have ov: "if iv_closed b then la \<le> hb else la < hb" "if iv_closed a then lb \<le> ha else lb < ha"
      unfolding overlap by auto
    show "\<exists>v. intervalHas a v \<and> intervalHas b v"
    proof (cases "la \<le> lb")
      case True
      then have "intervalHas a (iv_low b) \<and> intervalHas b (iv_low b)"
        using a(1,2) b ov by (simp add: intervalHas_def)
      then show ?thesis ..
    next
      case False
      then have "intervalHas a (iv_low a) \<and> intervalHas b (iv_low a)"
        using a b(1,2) ov by (simp add: intervalHas_def)
      then show ?thesis ..
    qed
  next
    assume "\<exists>v. intervalHas a v \<and> intervalHas b v"
    then obtain x where "la \<le> x" "lb \<le> x" "if iv_closed a then x \<le> ha else x < ha"
      "if iv_closed b then x \<le> hb else x < hb"
      using a(1,2) b(1,2) by (auto simp: intervalHas_def)
    then show "intervalsOverlap a b" unfolding overlap by (auto split: if_splits)
  qed
qed

lemma region_has:
  assumes "regularSubject r"
  shows "matchTransition (ruleTransitionOfRule r) f u \<noteq> MatchNone \<longleftrightarrow>
      intervalHas (fst (region (ruleTransitionOfRule r))) f \<and> intervalHas (snd (region (ruleTransitionOfRule r))) u"
    and "intervalHas (fst (region (ruleTransitionOfRule r))) (iv_low (fst (region (ruleTransitionOfRule r))))"
    and "intervalHas (snd (region (ruleTransitionOfRule r))) (iv_low (snd (region (ruleTransitionOfRule r))))"
proof -
  obtain a b where ab: "parseVersion (tr_From (r_Subject r)) = Some a" "parseVersion (tr_To (r_Subject r)) = Some b"
    using assms by (auto simp: regularSubject_def validVersion_def)
  let ?t = "ruleTransitionOfRule r"
  have "(matchTransition ?t f u \<noteq> MatchNone \<longleftrightarrow> intervalHas (fst (region ?t)) f \<and> intervalHas (snd (region ?t)) u)
      \<and> intervalHas (fst (region ?t)) (iv_low (fst (region ?t))) \<and> intervalHas (snd (region ?t)) (iv_low (snd (region ?t)))"
  proof (cases "r_Range r")
    case None
    have "intervalHas \<lparr>iv_low = w, iv_high = w, iv_closed = True\<rparr> v \<longleftrightarrow> v = w" if "parseVersion w = Some x" for w v x
      using that parseVersion_inject [of w x v] by (auto simp: intervalHas_def dest: order_antisym)
    with ab None show ?thesis by (simp add: region_def matchTransition_def)
  next
    case (Some rng)
    then obtain fg fl tg tl where g:
      "parseVersion (vb_Gte (vr_From rng)) = Some fg" "parseVersion (vb_Lt (vr_From rng)) = Some fl"
      "parseVersion (vb_Gte (vr_To rng)) = Some tg" "parseVersion (vb_Lt (vr_To rng)) = Some tl" "fg < fl" "tg < tl"
      "inBound (tr_From (r_Subject r)) (vr_From rng)" "inBound (tr_To (r_Subject r)) (vr_To rng)"
      using assms validateRange_guards [of r rng] unfolding regularSubject_def by metis
    have has: "intervalHas \<lparr>iv_low = vb_Gte c, iv_high = vb_Lt c, iv_closed = False\<rparr> v \<longleftrightarrow> inBound v c" for c v
      by (auto simp: intervalHas_def inBound_iff versionIn_def)
    have low: "inBound (vb_Gte (vr_From rng)) (vr_From rng)" "inBound (vb_Gte (vr_To rng)) (vr_To rng)"
      using g by (auto simp: inBound_iff versionIn_def)
    show ?thesis
      using Some g(7,8) low by (auto simp: region_def has matchTransition_iff)
  qed
  then show "matchTransition ?t f u \<noteq> MatchNone \<longleftrightarrow> intervalHas (fst (region ?t)) f \<and> intervalHas (snd (region ?t)) u"
    and "intervalHas (fst (region ?t)) (iv_low (fst (region ?t)))"
    and "intervalHas (snd (region ?t)) (iv_low (snd (region ?t)))" by auto
qed

lemma regionsOverlap_split:
  "regionsOverlap a b \<longleftrightarrow> intervalsOverlap (fst (region a)) (fst (region b)) \<and>
     intervalsOverlap (snd (region a)) (snd (region b))"
  by (simp add: regionsOverlap_def split_beta Let_def)

lemma regionsOverlap_exact:
  assumes "regularSubject a" and "regularSubject b"
  shows "regionsOverlap (ruleTransitionOfRule a) (ruleTransitionOfRule b) \<longleftrightarrow>
    (\<exists>f u. matchTransition (ruleTransitionOfRule a) f u \<noteq> MatchNone \<and>
           matchTransition (ruleTransitionOfRule b) f u \<noteq> MatchNone)"
  unfolding regionsOverlap_split
    intervalsOverlap_iff [OF region_has(2) [OF assms(1)] region_has(2) [OF assms(2)]]
    intervalsOverlap_iff [OF region_has(3) [OF assms(1)] region_has(3) [OF assms(2)]]
    region_has(1) [OF assms(1)] region_has(1) [OF assms(2)]
  by blast

lemma validateRangeOverlaps_sound:
  assumes "validateRangeOverlaps rules = None" and "i < j" and "j < length rules"
    and "r_Range (rules ! i) \<noteq> None \<or> r_Range (rules ! j) \<noteq> None"
    and "tr_Component (r_Subject (rules ! i)) = tr_Component (r_Subject (rules ! j))"
    and "constraintKey (rules ! i) = constraintKey (rules ! j)"
  shows "\<not> regionsOverlap (ruleTransitionOfRule (rules ! i)) (ruleTransitionOfRule (rules ! j))"
  using assms
proof (induction rules arbitrary: i j)
  case Nil
  then show ?case by simp
next
  case (Cons a rest)
  obtain k where k: "j = Suc k" "k < length rest" using Cons.prems(2,3) by (cases j) auto
  show ?case
  proof (cases i)
    case 0
    have "rest ! k \<in> set rest" using k(2) by simp
    with 0 k Cons.prems show ?thesis by (fastforce split: if_splits)
  next
    case (Suc i')
    with k Cons.prems Cons.IH [of i' k] show ?thesis by simp
  qed
qed

end
