(* ===== verification/Shapes.thy ===== *)
theory Shapes
  imports FactRegistry Matching
begin

text \<open>
  The first half of \<open>constraintengine/parse.go\<close>: the JSON gate, the exact-shape gates and the strict
  decoders, all of which run before a document is looked at semantically.

  Shown here: the gate admits exactly the bounded, duplicate-free JSON texts of depth at most 32.
\<close>

section \<open>The JSON gate\<close>

text \<open>
  \<open>consumeJSON\<close> walks the token stream of one value. The token stream of a syntactically valid text
  is the traversal of its tree, and every failure is the bare \<open>ErrInvalid\<close>, so the walk is a
  predicate on the tree; \<open>depth\<close> is the depth of the value.
\<close>

fun consumeJSON :: "nat \<Rightarrow> json \<Rightarrow> bool" where
  "consumeJSON depth (JObj ms) =
     (depth \<le> 32 \<and> length ms \<le> 4096 \<and> list_all (\<lambda>(name, _). length name \<le> maxStringBytes) ms \<and>
      distinct (map fst ms) \<and> (\<forall>(name, v)\<in>set ms. consumeJSON (depth + 1) v))"
| "consumeJSON depth (JArr vs) =
     (depth \<le> 32 \<and> length vs \<le> 4096 \<and> (\<forall>v\<in>set vs. consumeJSON (depth + 1) v))"
| "consumeJSON depth (JStr s) = (depth \<le> 32 \<and> length s \<le> maxStringBytes)"
| "consumeJSON depth JNull = (depth \<le> 32)"
| "consumeJSON depth (JBool b) = (depth \<le> 32)"
| "consumeJSON depth (JNum l) = (depth \<le> 32)"

definition gateJSON :: "string \<Rightarrow> nat \<Rightarrow> error option" where
  "gateJSON raw limit =
     (if raw = [] \<or> limit < length raw \<or> \<not> utf8Valid raw then Some (ErrInvalid [])
      else (case jsonParse raw of
              None \<Rightarrow> Some (ErrInvalid [])
            | Some v \<Rightarrow> failIf (\<not> consumeJSON 0 v) (ErrInvalid [])))"

section \<open>Exact shapes\<close>

text \<open>
  The shape gates return only the bare \<open>ErrInvalid\<close>. \<open>exactObject\<close> and \<open>exactArray\<close> return the
  members and elements; the gates over them are predicates, and \<open>shapeGate\<close> is their error.
\<close>

definition exactObject :: "json option \<Rightarrow> string list \<Rightarrow> string list \<Rightarrow> (string \<times> json) list option" where
  "exactObject raw required optional =
     (case raw of
        Some (JObj object) \<Rightarrow>
          if (\<exists>key\<in>set required. case objGet object key of None \<Rightarrow> True | Some v \<Rightarrow> v = JNull) then None
          else if (\<exists>(key, v)\<in>set object. key \<notin> set required \<union> set optional \<or> objGet object key = Some JNull) then None
          else Some object
      | _ \<Rightarrow> None)"

definition exactArray :: "json option \<Rightarrow> json list option" where
  "exactArray raw = (case raw of Some (JArr vs) \<Rightarrow> Some vs | _ \<Rightarrow> None)"

definition has :: "(string \<times> json) list \<Rightarrow> string \<Rightarrow> bool" where
  "has object key = (objGet object key \<noteq> None)"

definition validFactValuePresence :: "(string \<times> json) list \<Rightarrow> bool" where
  "validFactValuePresence fct =
     (case Option.bind (objGet fct ''state'') decString of
        None \<Rightarrow> False
      | Some state \<Rightarrow>
          if state = ''declared'' then has fct ''boolValue'' \<noteq> has fct ''enumValue''
          else \<not> has fct ''boolValue'' \<and> \<not> has fct ''enumValue'')"

definition tokenListShape :: "json \<Rightarrow> string \<Rightarrow> nat \<Rightarrow> bool" where
  "tokenListShape raw tokenField limit =
     (case exactObject (Some raw) [tokenField, ''components''] [] of
        None \<Rightarrow> False
      | Some object \<Rightarrow>
          (case exactArray (objGet object ''components'') of
             None \<Rightarrow> False
           | Some components \<Rightarrow>
               components \<noteq> [] \<and> length components \<le> limit \<and> list_all (\<lambda>v. decString v \<noteq> None) components))"

definition factShape :: "json \<Rightarrow> bool" where
  "factShape raw =
     (case exactObject (Some raw) [''id'', ''state''] [''boolValue'', ''enumValue''] of
        None \<Rightarrow> False
      | Some fct \<Rightarrow> validFactValuePresence fct)"

definition componentShape :: "json \<Rightarrow> bool" where
  "componentShape raw =
     (case exactObject (Some raw) [''component'', ''version'', ''facts''] [] of
        None \<Rightarrow> False
      | Some component \<Rightarrow>
          (case exactArray (objGet component ''facts'') of
             None \<Rightarrow> False
           | Some facts \<Rightarrow> length facts \<le> maxFacts \<and> list_all factShape facts))"

definition sideShape :: "json option \<Rightarrow> bool" where
  "sideShape raw =
     (case exactObject raw [''components''] [] of
        None \<Rightarrow> False
      | Some side \<Rightarrow>
          (case exactArray (objGet side ''components'') of
             None \<Rightarrow> False
           | Some components \<Rightarrow> length components \<le> maxComponents \<and> list_all componentShape components))"

definition shapeGate :: "bool \<Rightarrow> error option" where
  "shapeGate ok = failIf (\<not> ok) (ErrInvalid [])"

lemma shapeGate_None [simp, gate_simps]: "shapeGate ok = None \<longleftrightarrow> ok"
  by (simp add: shapeGate_def)

definition inputShape :: "json option \<Rightarrow> bool" where
  "inputShape raw =
     (case exactObject raw [''schema'', ''authority'', ''current'', ''proposed''] [''scope''] of
        None \<Rightarrow> False
      | Some root \<Rightarrow>
          (case objGet root ''scope'' of
             None \<Rightarrow> True | Some scope \<Rightarrow> tokenListShape scope ''declaration'' maxComponents) \<and>
          sideShape (objGet root ''current'') \<and> sideShape (objGet root ''proposed''))"

definition validateInputShape :: "string \<Rightarrow> error option" where
  "validateInputShape raw = shapeGate (inputShape (jsonParse raw))"

definition conditionShape :: "json \<Rightarrow> bool" where
  "conditionShape raw =
     (case exactObject (Some raw) [''side'', ''component'', ''factId''] [''boolValue'', ''enumValue''] of
        None \<Rightarrow> False
      | Some condition \<Rightarrow> has condition ''boolValue'' \<noteq> has condition ''enumValue'')"

definition stringMembers :: "(string \<times> json) list \<Rightarrow> string list \<Rightarrow> bool" where
  "stringMembers object keys = list_all (\<lambda>key. Option.bind (objGet object key) decString \<noteq> None) keys"

definition boundShape :: "json option \<Rightarrow> bool" where
  "boundShape raw =
     (case exactObject raw [''gte'', ''lt''] [] of
        None \<Rightarrow> False | Some bound \<Rightarrow> stringMembers bound [''gte'', ''lt''])"

definition citationShape :: "json \<Rightarrow> bool" where
  "citationShape raw =
     (case exactObject (Some raw) [''bound'', ''basis'', ''sourceId''] [] of
        None \<Rightarrow> False | Some bound \<Rightarrow> stringMembers bound [''bound'', ''basis'', ''sourceId''])"

definition rangeShape :: "json \<Rightarrow> bool" where
  "rangeShape raw =
     (case exactObject (Some raw) [''from'', ''to'', ''bounds''] [] of
        None \<Rightarrow> False
      | Some object \<Rightarrow>
          boundShape (objGet object ''from'') \<and> boundShape (objGet object ''to'') \<and>
          (case exactArray (objGet object ''bounds'') of
             None \<Rightarrow> False
           | Some bounds \<Rightarrow> length bounds = length boundOrder \<and> list_all citationShape bounds))"

definition sourceShape :: "json \<Rightarrow> bool" where
  "sourceShape raw =
     (exactObject (Some raw) [''id'', ''url'', ''revision'', ''contentDigest'', ''startLine'', ''endLine''] [] \<noteq> None)"

definition evidenceShape :: "json option \<Rightarrow> bool" where
  "evidenceShape raw =
     (case exactObject raw [''state'', ''reviewedAt'', ''validUntil'', ''sources''] [] of
        None \<Rightarrow> False
      | Some evidence \<Rightarrow>
          (case exactArray (objGet evidence ''sources'') of
             None \<Rightarrow> False
           | Some sources \<Rightarrow> length sources \<le> maxSources \<and> list_all sourceShape sources))"

definition optionally :: "(json \<Rightarrow> bool) \<Rightarrow> json option \<Rightarrow> bool" where
  "optionally P v = (case v of None \<Rightarrow> True | Some x \<Rightarrow> P x)"

definition ruleShape :: "json \<Rightarrow> bool" where
  "ruleShape raw =
     (case exactObject (Some raw) [''id'', ''operator'', ''subject'', ''evidence'', ''reasonCode'', ''nextAction'']
             [''condition'', ''appliesWhen'', ''dependency'', ''intermediate'', ''range''] of
        None \<Rightarrow> False
      | Some rule \<Rightarrow>
          exactObject (objGet rule ''subject'') [''component'', ''from'', ''to''] [] \<noteq> None \<and>
          optionally rangeShape (objGet rule ''range'') \<and>
          optionally conditionShape (objGet rule ''condition'') \<and>
          optionally (\<lambda>v. case exactArray (Some v) of
              None \<Rightarrow> False
            | Some conditions \<Rightarrow> length conditions \<le> 8 \<and> list_all conditionShape conditions)
            (objGet rule ''appliesWhen'') \<and>
          optionally (\<lambda>v. exactObject (Some v) [''side'', ''component'', ''comparison'', ''version''] [] \<noteq> None)
            (objGet rule ''dependency'') \<and>
          evidenceShape (objGet rule ''evidence''))"

definition ruleDocumentShape :: "json option \<Rightarrow> bool" where
  "ruleDocumentShape raw =
     (case exactObject raw [''schema'', ''revision'', ''policyId'', ''policyDigest'', ''rules''] [''corpus''] of
        None \<Rightarrow> False
      | Some root \<Rightarrow>
          optionally (\<lambda>corpus. tokenListShape corpus ''completeness'' maxComponents) (objGet root ''corpus'') \<and>
          (case exactArray (objGet root ''rules'') of
             None \<Rightarrow> False
           | Some rules \<Rightarrow> length rules \<le> maxRules \<and> list_all ruleShape rules))"

definition validateRuleShape :: "string \<Rightarrow> error option" where
  "validateRuleShape raw = shapeGate (ruleDocumentShape (jsonParse raw))"

section \<open>Strict decoding\<close>

definition decInputFact :: "json \<Rightarrow> inputFact option" where
  "decInputFact v =
     Option.bind (decStruct True [''id'', ''state'', ''boolValue'', ''enumValue''] v) (\<lambda>ms.
     Option.bind (decField decString [] ms ''id'') (\<lambda>i.
     Option.bind (decField decString [] ms ''state'') (\<lambda>s.
     Option.bind (decField (decPtr decBool) None ms ''boolValue'') (\<lambda>b.
     Option.bind (decField decString [] ms ''enumValue'') (\<lambda>e.
       Some \<lparr>if_ID = i, if_State = s, if_BoolValue = b, if_EnumValue = e\<rparr>)))))"

definition decInputComponent :: "json \<Rightarrow> inputComponent option" where
  "decInputComponent v =
     Option.bind (decStruct True [''component'', ''version'', ''facts''] v) (\<lambda>ms.
     Option.bind (decField decString [] ms ''component'') (\<lambda>c.
     Option.bind (decField decString [] ms ''version'') (\<lambda>n.
     Option.bind (decField (decSlice decInputFact) [] ms ''facts'') (\<lambda>f.
       Some \<lparr>ic_Component = c, ic_Version = n, ic_Facts = f\<rparr>))))"

definition decInputSide :: "json \<Rightarrow> inputSide option" where
  "decInputSide v =
     Option.bind (decStruct True [''components''] v) (\<lambda>ms.
     Option.bind (decField (decSlice decInputComponent) [] ms ''components'') (\<lambda>cs.
       Some \<lparr>is_Components = cs\<rparr>))"

definition decInputScope :: "json \<Rightarrow> inputScope option" where
  "decInputScope v =
     Option.bind (decStruct True [''declaration'', ''components''] v) (\<lambda>ms.
     Option.bind (decField decString [] ms ''declaration'') (\<lambda>d.
     Option.bind (decField (decSlice decString) [] ms ''components'') (\<lambda>cs.
       Some \<lparr>isc_Declaration = d, isc_Components = cs\<rparr>)))"

definition zeroSide :: inputSide where
  "zeroSide = \<lparr>is_Components = []\<rparr>"

definition decInputDocument :: "json \<Rightarrow> inputDocument option" where
  "decInputDocument v =
     Option.bind (decStruct True [''schema'', ''authority'', ''current'', ''proposed'', ''scope''] v) (\<lambda>ms.
     Option.bind (decField decString [] ms ''schema'') (\<lambda>s.
     Option.bind (decField decString [] ms ''authority'') (\<lambda>a.
     Option.bind (decField decInputSide zeroSide ms ''current'') (\<lambda>c.
     Option.bind (decField decInputSide zeroSide ms ''proposed'') (\<lambda>p.
     Option.bind (decField (decPtr decInputScope) None ms ''scope'') (\<lambda>sc.
       Some \<lparr>id_Schema = s, id_Authority = a, id_Current = c, id_Proposed = p, id_Scope = sc\<rparr>))))))"

definition decFactCondition :: "json \<Rightarrow> factCondition option" where
  "decFactCondition v =
     Option.bind (decStruct True [''side'', ''component'', ''factId'', ''boolValue'', ''enumValue''] v) (\<lambda>ms.
     Option.bind (decField decString [] ms ''side'') (\<lambda>s.
     Option.bind (decField decString [] ms ''component'') (\<lambda>c.
     Option.bind (decField decString [] ms ''factId'') (\<lambda>f.
     Option.bind (decField (decPtr decBool) None ms ''boolValue'') (\<lambda>b.
     Option.bind (decField decString [] ms ''enumValue'') (\<lambda>e.
       Some \<lparr>fc_Side = s, fc_Component = c, fc_FactID = f, fc_BoolValue = b, fc_EnumValue = e\<rparr>))))))"

definition decComponentCheck :: "json \<Rightarrow> componentCheck option" where
  "decComponentCheck v =
     Option.bind (decStruct True [''side'', ''component'', ''comparison'', ''version''] v) (\<lambda>ms.
     Option.bind (decField decString [] ms ''side'') (\<lambda>s.
     Option.bind (decField decString [] ms ''component'') (\<lambda>c.
     Option.bind (decField decString [] ms ''comparison'') (\<lambda>k.
     Option.bind (decField decString [] ms ''version'') (\<lambda>n.
       Some \<lparr>cc_Side = s, cc_Component = c, cc_Comparison = k, cc_Version = n\<rparr>)))))"

definition decSourceEvidence :: "json \<Rightarrow> SourceEvidence option" where
  "decSourceEvidence v =
     Option.bind (decStruct True [''id'', ''url'', ''revision'', ''contentDigest'', ''startLine'', ''endLine''] v) (\<lambda>ms.
     Option.bind (decField decString [] ms ''id'') (\<lambda>i.
     Option.bind (decField decString [] ms ''url'') (\<lambda>u.
     Option.bind (decField decString [] ms ''revision'') (\<lambda>r.
     Option.bind (decField decString [] ms ''contentDigest'') (\<lambda>d.
     Option.bind (decField decInt 0 ms ''startLine'') (\<lambda>a.
     Option.bind (decField decInt 0 ms ''endLine'') (\<lambda>b.
       Some \<lparr>se_ID = i, se_URL = u, se_Revision = r, se_ContentDigest = d, se_StartLine = a, se_EndLine = b\<rparr>)))))))"

definition decEvidence :: "json \<Rightarrow> evidence option" where
  "decEvidence v =
     Option.bind (decStruct True [''state'', ''reviewedAt'', ''validUntil'', ''sources''] v) (\<lambda>ms.
     Option.bind (decField decString [] ms ''state'') (\<lambda>s.
     Option.bind (decField decString [] ms ''reviewedAt'') (\<lambda>r.
     Option.bind (decField decString [] ms ''validUntil'') (\<lambda>u.
     Option.bind (decField (decSlice decSourceEvidence) [] ms ''sources'') (\<lambda>srcs.
       Some \<lparr>ev_State = s, ev_ReviewedAt = r, ev_ValidUntil = u, ev_Sources = srcs\<rparr>)))))"

definition zeroEvidence :: evidence where
  "zeroEvidence = \<lparr>ev_State = [], ev_ReviewedAt = [], ev_ValidUntil = [], ev_Sources = []\<rparr>"

definition decRule :: "json \<Rightarrow> rule option" where
  "decRule v =
     Option.bind (decStruct True [''id'', ''operator'', ''subject'', ''range'', ''condition'', ''appliesWhen'',
                                  ''dependency'', ''intermediate'', ''evidence'', ''reasonCode'', ''nextAction''] v) (\<lambda>ms.
     Option.bind (decField decString [] ms ''id'') (\<lambda>i.
     Option.bind (decField decString [] ms ''operator'') (\<lambda>oper.
     Option.bind (decField (decTransition True) zeroTransition ms ''subject'') (\<lambda>s.
     Option.bind (decField (decPtr (decVersionRange True)) None ms ''range'') (\<lambda>r.
     Option.bind (decField (decPtr decFactCondition) None ms ''condition'') (\<lambda>c.
     Option.bind (decField (decSlice decFactCondition) [] ms ''appliesWhen'') (\<lambda>a.
     Option.bind (decField (decPtr decComponentCheck) None ms ''dependency'') (\<lambda>d.
     Option.bind (decField decString [] ms ''intermediate'') (\<lambda>m.
     Option.bind (decField decEvidence zeroEvidence ms ''evidence'') (\<lambda>e.
     Option.bind (decField decString [] ms ''reasonCode'') (\<lambda>rc.
     Option.bind (decField decString [] ms ''nextAction'') (\<lambda>na.
       Some \<lparr>r_ID = i, r_Operator = oper, r_Subject = s, r_Range = r, r_Condition = c, r_AppliesWhen = a,
             r_Dependency = d, r_Intermediate = m, r_Evidence = e, r_ReasonCode = rc, r_NextAction = na\<rparr>))))))))))))"

definition decRuleCorpus :: "json \<Rightarrow> ruleCorpus option" where
  "decRuleCorpus v =
     Option.bind (decStruct True [''completeness'', ''components''] v) (\<lambda>ms.
     Option.bind (decField decString [] ms ''completeness'') (\<lambda>c.
     Option.bind (decField (decSlice decString) [] ms ''components'') (\<lambda>cs.
       Some \<lparr>co_Completeness = c, co_Components = cs\<rparr>)))"

definition decRuleDocument :: "json \<Rightarrow> ruleDocument option" where
  "decRuleDocument v =
     Option.bind (decStruct True [''schema'', ''revision'', ''policyId'', ''policyDigest'', ''rules'', ''corpus''] v) (\<lambda>ms.
     Option.bind (decField decString [] ms ''schema'') (\<lambda>s.
     Option.bind (decField decString [] ms ''revision'') (\<lambda>r.
     Option.bind (decField decString [] ms ''policyId'') (\<lambda>p.
     Option.bind (decField decString [] ms ''policyDigest'') (\<lambda>d.
     Option.bind (decField (decSlice decRule) [] ms ''rules'') (\<lambda>rs.
     Option.bind (decField (decPtr decRuleCorpus) None ms ''corpus'') (\<lambda>c.
       Some \<lparr>rd_Schema = s, rd_Revision = r, rd_PolicyID = p, rd_PolicyDigest = d, rd_Rules = rs, rd_Corpus = c\<rparr>)))))))"

text \<open>The gate has already refused every text that is not exactly one JSON value.\<close>

definition decodeStrict :: "(json \<Rightarrow> 'a option) \<Rightarrow> string \<Rightarrow> 'a result" where
  "decodeStrict decode raw =
     (case Option.bind (jsonParse raw) decode of
        None \<Rightarrow> Inl (ErrInvalid ''JSON fields'')
      | Some document \<Rightarrow> Inr document)"

section \<open>Canonical texts pass\<close>

lemma jsonPrint_not_Nil: "plainJson v \<Longrightarrow> jsonPrint v \<noteq> []"
  by (cases v) (auto simp: quote_def canonicalNumeral_def)

lemma gateJSON_print:
  assumes "plainJson v" and "consumeJSON 0 v" and "length (jsonPrint v) \<le> limit"
  shows "gateJSON (jsonPrint v) limit = None"
  using assms by (simp add: gateJSON_def jsonParse_jsonPrint utf8Valid_jsonPrint jsonPrint_not_Nil)

lemma gateJSON_iff:
  "gateJSON raw limit = None \<longleftrightarrow>
     raw \<noteq> [] \<and> length raw \<le> limit \<and> utf8Valid raw \<and> (\<exists>v. jsonParse raw = Some v \<and> consumeJSON 0 v)"
  by (auto simp: gateJSON_def split: option.splits)

end
