(* ===== verification/Parsing.thy ===== *)
theory Parsing
  imports Shapes
begin

text \<open>
  The second half of \<open>constraintengine/parse.go\<close>: the semantic validators, and \<open>ParseInput\<close> and
  \<open>ParseRuleSet\<close>, the only producers of sealed inputs and rule sets.

  Shown here: what a parser-issued capability is guaranteed to satisfy (canonical order, a declared
  scope equal to the bundle, valid versions, registered facts with values of their type, rules in
  id order whose evidence, range and operator structure are consistent).
\<close>

section \<open>Input validators\<close>

definition validateFact :: "inputFact \<Rightarrow> string \<Rightarrow> Registry \<Rightarrow> error option" where
  "validateFact f component registry =
     (case registryDefinition registry (if_ID f) of
        None \<Rightarrow> Some (ErrInvalid [])
      | Some d \<Rightarrow>
          if fd_Component d \<noteq> component then Some (ErrInvalid [])
          else if if_State f = ''declared'' then
            (if fd_Type d = FactBool then
               failIf (if_BoolValue f = None \<or> if_EnumValue f \<noteq> []) (ErrInvalid [])
             else if fd_Type d = FactEnum then
               failIf (if_BoolValue f \<noteq> None \<or> \<not> contains (fd_EnumTokens d) (if_EnumValue f)) (ErrInvalid [])
             else None)
          else if if_State f \<in> {''missing'', ''unsupported'', ''conflict''} then
            failIf (if_BoolValue f \<noteq> None \<or> if_EnumValue f \<noteq> []) (ErrInvalid [])
          else Some (ErrInvalid []))"

definition validateComponent :: "Registry \<Rightarrow> inputComponent option \<Rightarrow> inputComponent \<Rightarrow> error option" where
  "validateComponent registry previous c =
     andThen (failIf (\<not> componentRE (ic_Component c) \<or> \<not> validVersion (ic_Version c) \<or>
                      outOfOrder ic_Component previous c)
                     (ErrInvalid ''component identity or order''))
    (andThen (failIf (maxFacts < length (ic_Facts c)) (ErrInvalid ''fact count''))
             (firstErrAdj (\<lambda>p f. failIf (outOfOrder if_ID p f \<or> validateFact f (ic_Component c) registry \<noteq> None)
                                        (ErrInvalid ''fact''))
                None (ic_Facts c)))"

definition validateSide :: "inputSide \<Rightarrow> Registry \<Rightarrow> error option" where
  "validateSide side registry =
     andThen (failIf (maxComponents < length (is_Components side)) (ErrInvalid ''component count''))
             (firstErrAdj (validateComponent registry) None (is_Components side))"

definition validateScope :: "inputDocument \<Rightarrow> error option" where
  "validateScope document =
     (case id_Scope document of
        None \<Rightarrow> None
      | Some scope \<Rightarrow>
          (let declared = remdups (isc_Components scope) in
           andThen (failIf (isc_Declaration scope \<noteq> ScopeDeclaration \<or> isc_Components scope = [] \<or>
                            maxComponents < length (isc_Components scope))
                      (ErrInvalid ''scope declaration''))
          (andThen (firstErrAdj (\<lambda>p component. failIf (\<not> componentRE component \<or> outOfOrder id p component)
                      (ErrInvalid ''scope component identity or order'')) None (isc_Components scope))
                   (firstErr (\<lambda>side.
                      andThen (failIf (length (is_Components side) \<noteq> length declared)
                                 (ErrInvalid ''scope cardinality''))
                              (firstErr (\<lambda>c. failIf (ic_Component c \<notin> set declared)
                                 (ErrInvalid ''scope omits a declared bundle component'')) (is_Components side)))
                      [id_Current document, id_Proposed document]))))"

definition ParseInput :: "string \<Rightarrow> Registry \<Rightarrow> Input result" where
  "ParseInput raw registry =
     (case andThen (gateJSON raw maxInputBytes) (validateInputShape raw) of
        Some e \<Rightarrow> Inl e
      | None \<Rightarrow>
          (case decodeStrict decInputDocument raw of
             Inl e \<Rightarrow> Inl e
           | Inr document \<Rightarrow>
               (case andThen (failIf (id_Schema document \<noteq> InputSchema \<or> id_Authority document \<noteq> InputAuthority)
                                (ErrInvalid ''input identity''))
                    (andThen (validateSide (id_Current document) registry)
                    (andThen (validateSide (id_Proposed document) registry) (validateScope document))) of
                  Some e \<Rightarrow> Inl e
                | None \<Rightarrow> Inr \<lparr>in_document = document, in_digest = digestJSON (encInputDocument document),
                               in_registryDigest = reg_digest registry, in_seal = True\<rparr>)))"

section \<open>Rule validators\<close>

definition isAlnum :: "char \<Rightarrow> bool" where
  "isAlnum c = (isLower c \<or> isUpper c \<or> isDigit c)"

text \<open>\<open>^[A-Za-z0-9][A-Za-z0-9._-]*$\<close> and \<open>^(?:[A-Za-z0-9_][A-Za-z0-9._+@=,-]*|\.github)$\<close>\<close>

definition gitPathPartRE :: "string \<Rightarrow> bool" where
  "gitPathPartRE s = (case s of [] \<Rightarrow> False | c # cs \<Rightarrow> isAlnum c \<and> list_all (\<lambda>x. isAlnum x \<or> x \<in> set ''._-'') cs)"

definition publicPathPartRE :: "string \<Rightarrow> bool" where
  "publicPathPartRE s =
     (s = ''.github'' \<or>
      (case s of [] \<Rightarrow> False
       | c # cs \<Rightarrow> (isAlnum c \<or> c = CHR ''_'') \<and> list_all (\<lambda>x. isAlnum x \<or> x \<in> set ''._+@=,-'') cs))"

text \<open>
  \<open>url.Parse\<close> on a text without control runes and without \<open>%\<close>, as far as \<open>immutableGitURL\<close> reads the
  result. The scheme is lower-cased; a single \<open>?\<close> at the very end leaves the query empty; the
  authority is what stands between \<open>//\<close> and the next slash, and it equals one of the two admitted
  host names only when it has neither user nor port. The result is the host and the path.
\<close>

definition lowerASCII :: "string \<Rightarrow> string" where
  "lowerASCII = map (\<lambda>c. if isUpper c then char_of (byte c + 32) else c)"

definition getScheme :: "string \<Rightarrow> string \<times> string" where
  "getScheme s =
     (case s of [] \<Rightarrow> ([], s)
      | c # _ \<Rightarrow>
          (let name = takeWhile (\<lambda>x. isAlnum x \<or> x \<in> set ''+-.'') s; rest = drop (length name) s in
           if \<not> isLower c \<and> \<not> isUpper c then ([], s)
           else case rest of
                  [] \<Rightarrow> ([], s)
                | x # xs \<Rightarrow> if x = CHR '':'' then (name, xs) else ([], s)))"

definition urlHostPath :: "string \<Rightarrow> (string \<times> string) option" where
  "urlHostPath value =
     (let (u, fragment, _) = cutAt (CHR ''#'') value;
          (scheme, rest) = getScheme u;
          rest' = (if rest \<noteq> [] \<and> last rest = CHR ''?'' \<and> CHR ''?'' \<notin> set (butlast rest) then butlast rest else rest)
      in if fragment \<noteq> [] \<or> lowerASCII scheme \<noteq> ''https'' \<or> CHR ''?'' \<in> set rest' \<or> \<not> hasPrefix rest' ''//'' then None
         else (let authority = takeWhile (\<lambda>c. c \<noteq> CHR ''/'') (drop 2 rest') in
               Some (authority, drop (2 + length authority) rest')))"

text \<open>
  \<open>parsed.EscapedPath() == parsed.Path\<close> for a path without \<open>%\<close>: every byte is one that
  \<open>validEncoded\<close> passes in a path.
\<close>

definition pathByte :: "char \<Rightarrow> bool" where
  "pathByte c = (isAlnum c \<or> c \<in> set ''-_.~$&+,/:;=@!()*[]'' \<or> byte c = 39)"

definition immutableGitURL :: "string \<Rightarrow> string \<Rightarrow> bool" where
  "immutableGitURL value revision =
     (if value = [] \<or> 2048 < length value \<or> \<not> gitRevision revision then False
      else if \<not> list_all (\<lambda>r. \<not> isControl r) (runes value) then False
      else if CHR ''%'' \<in> set value then False
      else (case urlHostPath value of
              None \<Rightarrow> False
            | Some (host, path) \<Rightarrow>
                if host \<noteq> ''github.com'' \<and> host \<noteq> ''raw.githubusercontent.com'' then False
                else (let parts = splitOn (CHR ''/'') (trimPrefix path ''/'') in
                      if length parts < 4 \<or> \<not> list_all pathByte path \<or> parts ! 0 = [] \<or> parts ! 1 = [] then False
                      else if \<not> gitPathPartRE (parts ! 0) \<or> \<not> gitPathPartRE (parts ! 1) then False
                      else if host = ''github.com'' \<and> (parts ! 2 \<noteq> ''blob'' \<or> parts ! 3 \<noteq> revision \<or> length parts < 5) then False
                      else if host \<noteq> ''github.com'' \<and> parts ! 2 \<noteq> revision then False
                      else list_all (\<lambda>part. \<not> (part = [] \<or> part = ''.'' \<or> part = ''..'' \<or> \<not> publicPathPartRE part))
                             (drop (if host = ''github.com'' then 4 else 3) parts))))"

definition validateSource :: "SourceEvidence option \<Rightarrow> SourceEvidence \<Rightarrow> error option" where
  "validateSource previous source =
     andThen (failIf (outOfOrder se_ID previous source) (ErrInvalid ''source order''))
    (andThen (failIf (\<not> idRE (se_ID source)) (ErrInvalid ''source id''))
    (andThen (failIf (\<not> gitRevision (se_Revision source)) (ErrInvalid ''source revision''))
    (andThen (failIf (\<not> digestRE (se_ContentDigest source)) (ErrInvalid ''source digest''))
    (andThen (failIf (se_StartLine source < 1 \<or> se_EndLine source < se_StartLine source \<or> 1000000 < se_EndLine source)
                (ErrInvalid ''source span''))
             (failIf (\<not> immutableGitURL (se_URL source) (se_Revision source)) (ErrInvalid ''source URL''))))))"

definition validateEvidence :: "evidence \<Rightarrow> error option" where
  "validateEvidence e =
     andThen (failIf (ev_State e \<noteq> ''active'' \<and> ev_State e \<noteq> ''withdrawn'') (ErrInvalid ''evidence state''))
    (case parseUTC (ev_ReviewedAt e) of
       Inl err \<Rightarrow> Some (wrapErr ''review time'' err)
     | Inr reviewed \<Rightarrow>
         (case parseUTC (ev_ValidUntil e) of
            Inl _ \<Rightarrow> Some (ErrInvalid ''validity time'')
          | Inr validUntil \<Rightarrow>
              andThen (failIf (\<not> timeBefore reviewed validUntil) (ErrInvalid ''validity time''))
             (andThen (failIf (ev_Sources e = [] \<or> maxSources < length (ev_Sources e)) (ErrInvalid ''source count''))
                      (firstErrAdj validateSource None (ev_Sources e)))))"

definition validateDependency :: "componentCheck \<Rightarrow> error option" where
  "validateDependency d =
     failIf (cc_Side d \<noteq> ''current'' \<and> cc_Side d \<noteq> ''proposed'' \<or> \<not> componentRE (cc_Component d) \<or>
             \<not> validVersion (cc_Version d) \<or>
             cc_Comparison d \<noteq> ''eq'' \<and> cc_Comparison d \<noteq> ''gte'' \<and> cc_Comparison d \<noteq> ''lte'' \<and> cc_Comparison d \<noteq> ''lt'')
       (ErrInvalid [])"

definition validateCondition :: "factCondition \<Rightarrow> Registry \<Rightarrow> error option" where
  "validateCondition c registry =
     (if fc_Side c \<noteq> ''current'' \<and> fc_Side c \<noteq> ''proposed'' \<or> \<not> componentRE (fc_Component c) then Some (ErrInvalid [])
      else (case registryDefinition registry (fc_FactID c) of
              None \<Rightarrow> Some (ErrInvalid [])
            | Some d \<Rightarrow>
                if fd_Component d \<noteq> fc_Component c then Some (ErrInvalid [])
                else if fd_Type d = FactBool then
                  failIf (fc_BoolValue c = None \<or> fc_EnumValue c \<noteq> []) (ErrInvalid [])
                else if fd_Type d = FactEnum then
                  failIf (fc_BoolValue c \<noteq> None \<or> \<not> contains (fd_EnumTokens d) (fc_EnumValue c)) (ErrInvalid [])
                else Some (ErrInvalid [])))"

definition conditionKey :: "factCondition \<Rightarrow> string" where
  "conditionKey c = fc_Side c @ [CHR 0x00] @ fc_Component c @ [CHR 0x00] @ fc_FactID c"

fun validateAppliesWhen :: "string list \<Rightarrow> factCondition list \<Rightarrow> Registry \<Rightarrow> error option" where
  "validateAppliesWhen seen [] registry = None"
| "validateAppliesWhen seen (c # cs) registry =
     (case validateCondition c registry of
        Some e \<Rightarrow> Some (wrapErr ''applicability condition'' e)
      | None \<Rightarrow>
          if conditionKey c \<in> set seen then Some (ErrInvalid ''duplicate applicability condition'')
          else validateAppliesWhen (conditionKey c # seen) cs registry)"

definition validateOperator :: "rule \<Rightarrow> Registry \<Rightarrow> error option" where
  "validateOperator r registry =
     (if r_Operator r = ''forbid_predicate_value'' then
        (case r_Condition r of
           Some c \<Rightarrow>
             if r_Dependency r \<noteq> None \<or> r_Intermediate r \<noteq> [] then Some (ErrInvalid ''forbid predicate structure'')
             else validateCondition c registry
         | None \<Rightarrow> Some (ErrInvalid ''forbid predicate structure''))
      else if r_Operator r = ''require_component_version'' then
        (case r_Dependency r of
           Some d \<Rightarrow>
             if r_Condition r \<noteq> None \<or> r_Intermediate r \<noteq> [] then Some (ErrInvalid ''dependency structure'')
             else validateDependency d
         | None \<Rightarrow> Some (ErrInvalid ''dependency structure''))
      else if r_Operator r = ''require_intermediate_version'' then
        (if r_Condition r \<noteq> None \<or> r_Dependency r \<noteq> None \<or> \<not> validVersion (r_Intermediate r) \<or>
            sameVersion (r_Intermediate r) (tr_From (r_Subject r)) \<or> sameVersion (r_Intermediate r) (tr_To (r_Subject r))
         then Some (ErrInvalid ''intermediate structure'')
         else (case r_Range r of
                 None \<Rightarrow> None
               | Some rng \<Rightarrow>
                   (case (compareVersions (vb_Lt (vr_From rng)) (r_Intermediate r),
                          compareVersions (r_Intermediate r) (vb_Gte (vr_To rng))) of
                      (Some low, Some high) \<Rightarrow>
                        failIf (0 < low \<or> 0 \<le> high) (ErrInvalid ''intermediate outside range gap'')
                    | _ \<Rightarrow> Some (ErrInvalid ''intermediate outside range gap''))))
      else if r_Operator r = ''forbid_target_version'' then
        failIf (r_Condition r \<noteq> None \<or> r_Dependency r \<noteq> None \<or> r_Intermediate r \<noteq> []) (ErrInvalid ''target structure'')
      else Some (ErrInvalid ''operator''))"

definition validateRule :: "rule \<Rightarrow> Registry \<Rightarrow> error option" where
  "validateRule r registry =
     andThen (failIf (\<not> idRE (r_ID r) \<or> \<not> reasonRE (r_ReasonCode r) \<or> \<not> publicText (r_NextAction r) \<or>
                      \<not> componentRE (tr_Component (r_Subject r)) \<or> \<not> validVersion (tr_From (r_Subject r)) \<or>
                      \<not> validVersion (tr_To (r_Subject r)) \<or> sameVersion (tr_From (r_Subject r)) (tr_To (r_Subject r)))
                (ErrInvalid ''rule base fields''))
    (andThen (map_option (wrapErr ''rule evidence'') (validateEvidence (r_Evidence r)))
    (andThen (validateRange r)
    (andThen (failIf (8 < length (r_AppliesWhen r)) (ErrInvalid ''applicability count''))
    (andThen (validateAppliesWhen [] (r_AppliesWhen r) registry)
             (validateOperator r registry)))))"

definition validateCorpus :: "ruleDocument \<Rightarrow> error option" where
  "validateCorpus document =
     (case rd_Corpus document of
        None \<Rightarrow> None
      | Some corpus \<Rightarrow>
          andThen (failIf (co_Completeness corpus \<noteq> CorpusAttestation \<or> co_Components corpus = [] \<or>
                           maxComponents < length (co_Components corpus))
                     (ErrInvalid ''corpus attestation''))
                  (firstErrAdj (\<lambda>p component.
                     andThen (failIf (\<not> componentRE component \<or> outOfOrder id p component)
                                (ErrInvalid ''corpus component identity or order''))
                             (failIf (component \<notin> (\<lambda>r. tr_Component (r_Subject r)) ` set (rd_Rules document))
                                (ErrInvalid ''corpus attests a component with no reviewed rule'')))
                     None (co_Components corpus)))"

definition ParseRuleSet :: "string \<Rightarrow> Registry \<Rightarrow> RuleSet result" where
  "ParseRuleSet raw registry =
     (case andThen (gateJSON raw maxRulesBytes) (validateRuleShape raw) of
        Some e \<Rightarrow> Inl e
      | None \<Rightarrow>
          (case decodeStrict decRuleDocument raw of
             Inl e \<Rightarrow> Inl e
           | Inr document \<Rightarrow>
               (let ranged = list_ex (\<lambda>r. r_Range r \<noteq> None) (rd_Rules document) in
                case andThen (failIf (rd_Schema document \<noteq> RulesSchema \<and> rd_Schema document \<noteq> RulesSchemaRanged \<or>
                                      \<not> idRE (rd_Revision document) \<or> \<not> idRE (rd_PolicyID document) \<or>
                                      \<not> digestRE (rd_PolicyDigest document) \<or> maxRules < length (rd_Rules document))
                                (ErrInvalid ''ruleset identity''))
                    (andThen (firstErrAdj (\<lambda>p r.
                                andThen (failIf (outOfOrder r_ID p r) (ErrInvalid ''rule order''))
                                        (map_option (wrapErr ''rule'') (validateRule r registry)))
                                None (rd_Rules document))
                    (andThen (failIf (ranged \<noteq> (rd_Schema document = RulesSchemaRanged))
                                (ErrInvalid ''ruleset schema does not match range use''))
                    (andThen (if ranged then validateRangeOverlaps (rd_Rules document) else None)
                             (validateCorpus document)))) of
                  Some e \<Rightarrow> Inl e
                | None \<Rightarrow> Inr \<lparr>rs_document = document, rs_digest = digestJSON (encRuleDocument document),
                               rs_registryDigest = reg_digest registry, rs_ranged = ranged, rs_seal = True\<rparr>)))"

section \<open>What a parsed input satisfies\<close>

definition wfComponent :: "Registry \<Rightarrow> inputComponent \<Rightarrow> bool" where
  "wfComponent registry c \<longleftrightarrow>
     componentRE (ic_Component c) \<and> validVersion (ic_Version c) \<and> length (ic_Facts c) \<le> maxFacts \<and>
     sorted_wrt (<) (map if_ID (ic_Facts c)) \<and> (\<forall>f\<in>set (ic_Facts c). validateFact f (ic_Component c) registry = None)"

definition wfSide :: "Registry \<Rightarrow> inputSide \<Rightarrow> bool" where
  "wfSide registry side \<longleftrightarrow>
     length (is_Components side) \<le> maxComponents \<and> sorted_wrt (<) (map ic_Component (is_Components side)) \<and>
     (\<forall>c\<in>set (is_Components side). wfComponent registry c)"

lemma validateFacts_iff:
  "firstErrAdj (\<lambda>p f. failIf (outOfOrder if_ID p f \<or> validateFact f component registry \<noteq> None) e) None fs = None \<longleftrightarrow>
     sorted_wrt (<) (map if_ID fs) \<and> (\<forall>f\<in>set fs. validateFact f component registry = None)"
  by (rule firstErrAdj_order) auto

lemma validateComponent_iff:
  "validateComponent registry p c = None \<longleftrightarrow> \<not> outOfOrder ic_Component p c \<and> wfComponent registry c"
  unfolding validateComponent_def wfComponent_def andThen_None failIf_None validateFacts_iff by auto

lemma validateSide_iff: "validateSide side registry = None \<longleftrightarrow> wfSide registry side"
  by (auto simp: validateSide_def wfSide_def firstErrAdj_order [OF validateComponent_iff])

text \<open>A scope that passes the gate lists exactly the components of either side, in the same order.\<close>

definition wfScope :: "inputDocument \<Rightarrow> bool" where
  "wfScope document \<longleftrightarrow>
     (\<forall>scope. id_Scope document = Some scope \<longrightarrow>
        isc_Declaration scope = ScopeDeclaration \<and> isc_Components scope \<noteq> [] \<and>
        length (isc_Components scope) \<le> maxComponents \<and>
        sorted_wrt (<) (isc_Components scope) \<and> (\<forall>c\<in>set (isc_Components scope). componentRE c) \<and>
        map ic_Component (is_Components (id_Current document)) = isc_Components scope \<and>
        map ic_Component (is_Components (id_Proposed document)) = isc_Components scope)"

lemma scopeOrder_iff:
  "firstErrAdj (\<lambda>p component. failIf (\<not> componentRE component \<or> outOfOrder id p component) e) None cs = None \<longleftrightarrow>
     sorted_wrt (<) cs \<and> (\<forall>c\<in>set cs. componentRE c)"
  using firstErrAdj_order [of "\<lambda>p component. failIf (\<not> componentRE component \<or> outOfOrder id p component) e" id componentRE cs]
  by auto

lemma sorted_same_list:
  assumes "sorted_wrt (<) (xs :: 'a::linorder list)" and "sorted_wrt (<) ys" and "set xs \<subseteq> set ys"
    and "length xs = length ys"
  shows "xs = ys"
proof -
  have "card (set xs) = card (set ys)"
    using assms sorted_wrt_less_distinct by (metis distinct_card)
  then have "set xs = set ys" using assms(3) by (metis card_subset_eq finite_set)
  then show ?thesis using assms by (metis sorted_distinct_set_unique strict_sorted_iff)
qed

lemma validateScope_wf:
  assumes "validateScope document = None"
    and "wfSide registry (id_Current document)" and "wfSide registry (id_Proposed document)"
  shows "wfScope document"
  unfolding wfScope_def
proof (intro allI impI)
  fix scope
  assume sc: "id_Scope document = Some scope"
  have v: "isc_Declaration scope = ScopeDeclaration" "isc_Components scope \<noteq> []"
    "length (isc_Components scope) \<le> maxComponents"
    "sorted_wrt (<) (isc_Components scope)" "\<forall>c\<in>set (isc_Components scope). componentRE c"
    "\<forall>side\<in>{id_Current document, id_Proposed document}.
       length (is_Components side) = length (remdups (isc_Components scope)) \<and>
       (\<forall>c\<in>set (is_Components side). ic_Component c \<in> set (isc_Components scope))"
    using assms(1) unfolding validateScope_def sc option.case Let_def andThen_None failIf_None firstErr_None scopeOrder_iff
    by auto
  have len: "length (remdups (isc_Components scope)) = length (isc_Components scope)"
    using sorted_wrt_less_distinct [OF v(4)] by (simp add: distinct_remdups_id)
  have same: "map ic_Component (is_Components side) = isc_Components scope"
    if "side \<in> {id_Current document, id_Proposed document}" for side
    using that v(6) len assms(2,3) by (intro sorted_same_list [OF _ v(4)]) (auto simp: wfSide_def)
  show "isc_Declaration scope = ScopeDeclaration \<and> isc_Components scope \<noteq> [] \<and>
      length (isc_Components scope) \<le> maxComponents \<and>
      sorted_wrt (<) (isc_Components scope) \<and> (\<forall>c\<in>set (isc_Components scope). componentRE c) \<and>
      map ic_Component (is_Components (id_Current document)) = isc_Components scope \<and>
      map ic_Component (is_Components (id_Proposed document)) = isc_Components scope"
    using v(1-5) same by simp
qed

definition wfInput :: "Registry \<Rightarrow> inputDocument \<Rightarrow> bool" where
  "wfInput registry document \<longleftrightarrow>
     id_Schema document = InputSchema \<and> id_Authority document = InputAuthority \<and>
     wfSide registry (id_Current document) \<and> wfSide registry (id_Proposed document) \<and> wfScope document"

lemma ParseInput_issued:
  assumes "ParseInput raw registry = Inr i"
  shows "wfInput registry (in_document i)" and "inputValid i" and "in_registryDigest i = reg_digest registry"
  using assms validateScope_wf [of "in_document i" registry]
  by (auto simp: ParseInput_def wfInput_def inputValid_def validateSide_iff split: option.splits sum.splits)

text \<open>A parsed text decodes to the document of the issued capability.\<close>

lemma ParseInput_decodes:
  assumes "ParseInput raw registry = Inr i"
  shows "\<exists>v. jsonParse raw = Some v \<and> consumeJSON 0 v \<and> decInputDocument v = Some (in_document i)"
  using assms
  by (auto simp: ParseInput_def gateJSON_def decodeStrict_def bind_eq_Some_conv
      split: option.splits sum.splits if_splits)

section \<open>What a parsed rule set satisfies\<close>

lemma validateSource_iff:
  "validateSource p s = None \<longleftrightarrow> \<not> outOfOrder se_ID p s \<and>
     idRE (se_ID s) \<and> gitRevision (se_Revision s) \<and> digestRE (se_ContentDigest s) \<and>
     1 \<le> se_StartLine s \<and> se_StartLine s \<le> se_EndLine s \<and> se_EndLine s \<le> 1000000 \<and>
     immutableGitURL (se_URL s) (se_Revision s)"
  by (auto simp: validateSource_def)

lemma validateEvidence_iff:
  "validateEvidence e = None \<longleftrightarrow>
     (ev_State e = ''active'' \<or> ev_State e = ''withdrawn'') \<and>
     (\<exists>a b. parseUTC (ev_ReviewedAt e) = Inr a \<and> parseUTC (ev_ValidUntil e) = Inr b \<and> timeBefore a b) \<and>
     ev_Sources e \<noteq> [] \<and> length (ev_Sources e) \<le> maxSources \<and>
     sorted_wrt (<) (map se_ID (ev_Sources e)) \<and> (\<forall>s\<in>set (ev_Sources e). validateSource None s = None)"
proof -
  have "firstErrAdj validateSource None (ev_Sources e) = None \<longleftrightarrow>
      sorted_wrt (<) (map se_ID (ev_Sources e)) \<and> (\<forall>s\<in>set (ev_Sources e). validateSource None s = None)"
    by (rule firstErrAdj_order) (simp add: validateSource_iff)
  then show ?thesis
    by (auto simp: validateEvidence_def split: sum.splits)
qed

lemma validateAppliesWhen_iff:
  "validateAppliesWhen seen cs registry = None \<longleftrightarrow>
     (\<forall>c\<in>set cs. validateCondition c registry = None) \<and> distinct (map conditionKey cs) \<and>
     conditionKey ` set cs \<inter> set seen = {}"
  by (induction cs arbitrary: seen) (auto split: option.splits)

lemma validateCondition_fact:
  assumes "validateCondition c registry = None" and "wfRegistry registry"
  shows "(fc_Side c = ''current'' \<or> fc_Side c = ''proposed'') \<and> componentRE (fc_Component c) \<and> factIDRE (fc_FactID c)"
  using assms registryDefinition_wf [of registry "fc_FactID c"]
  by (auto simp: validateCondition_def wfDefinition_def split: if_splits option.splits)

definition wfRules :: "Registry \<Rightarrow> ruleDocument \<Rightarrow> bool" where
  "wfRules registry document \<longleftrightarrow>
     (rd_Schema document = RulesSchema \<or> rd_Schema document = RulesSchemaRanged) \<and>
     idRE (rd_Revision document) \<and> idRE (rd_PolicyID document) \<and> digestRE (rd_PolicyDigest document) \<and>
     length (rd_Rules document) \<le> maxRules \<and> sorted_wrt (<) (map r_ID (rd_Rules document)) \<and>
     (\<forall>r\<in>set (rd_Rules document). validateRule r registry = None) \<and>
     (rd_Schema document = RulesSchemaRanged \<longleftrightarrow> (\<exists>r\<in>set (rd_Rules document). r_Range r \<noteq> None)) \<and>
     ((\<exists>r\<in>set (rd_Rules document). r_Range r \<noteq> None) \<longrightarrow> validateRangeOverlaps (rd_Rules document) = None) \<and>
     validateCorpus document = None"

lemma rulesLoop_iff:
  "firstErrAdj (\<lambda>p r. andThen (failIf (outOfOrder r_ID p r) e)
       (map_option (wrapErr w) (validateRule r registry))) None rs = None \<longleftrightarrow>
     sorted_wrt (<) (map r_ID rs) \<and> (\<forall>r\<in>set rs. validateRule r registry = None)"
  by (rule firstErrAdj_order) auto

lemma ParseRuleSet_issued:
  assumes "ParseRuleSet raw registry = Inr r"
  shows "wfRules registry (rs_document r)" and "ruleSetValid r" and "rs_registryDigest r = reg_digest registry"
    and "rs_ranged r \<longleftrightarrow> (\<exists>x\<in>set (rd_Rules (rs_document r)). r_Range x \<noteq> None)"
  using assms
  by (auto simp: ParseRuleSet_def wfRules_def ruleSetValid_def rulesLoop_iff list_ex_iff Let_def
      split: option.splits sum.splits if_splits)

lemma validateRule_facts:
  assumes "validateRule r registry = None"
  shows "idRE (r_ID r)" and "reasonRE (r_ReasonCode r)" and "publicText (r_NextAction r)"
    and "componentRE (tr_Component (r_Subject r))" and "regularSubject r"
    and "tr_From (r_Subject r) \<noteq> tr_To (r_Subject r)"
    and "validateEvidence (r_Evidence r) = None" and "length (r_AppliesWhen r) \<le> 8"
    and "\<forall>c\<in>set (r_AppliesWhen r). validateCondition c registry = None"
    and "validateOperator r registry = None"
  using assms by (auto simp: validateRule_def regularSubject_def validateAppliesWhen_iff sameVersion_def)

lemma validateOperator_cases:
  assumes "validateOperator r registry = None"
  obtains
    (predicate) c where "r_Operator r = ''forbid_predicate_value''" "r_Condition r = Some c" "r_Dependency r = None"
      "validateCondition c registry = None"
  | (dependency) d where "r_Operator r = ''require_component_version''" "r_Condition r = None" "r_Dependency r = Some d"
      "validateDependency d = None"
  | (intermediate) "r_Operator r = ''require_intermediate_version''" "r_Condition r = None" "r_Dependency r = None"
      "validVersion (r_Intermediate r)"
      "\<forall>rng. r_Range r = Some rng \<longrightarrow>
        versionLE (vb_Lt (vr_From rng)) (r_Intermediate r) \<and> VersionLess (r_Intermediate r) (vb_Gte (vr_To rng))"
  | (target) "r_Operator r = ''forbid_target_version''" "r_Condition r = None" "r_Dependency r = None"
proof -
  consider "r_Operator r = ''forbid_predicate_value''" | "r_Operator r = ''require_component_version''"
    | "r_Operator r = ''require_intermediate_version''" | "r_Operator r = ''forbid_target_version''"
    using assms by (auto simp: validateOperator_def split: if_splits)
  then show ?thesis
  proof cases
    case 1
    with assms predicate show ?thesis by (auto simp: validateOperator_def split: option.splits if_splits)
  next
    case 2
    with assms dependency show ?thesis by (auto simp: validateOperator_def split: option.splits if_splits)
  next
    case 3
    with assms intermediate show ?thesis
      by (auto simp: validateOperator_def versionLE_def VersionLess_def split: option.splits if_splits)
  next
    case 4
    with assms target show ?thesis by (auto simp: validateOperator_def)
  qed
qed

lemma validateCorpus_attested:
  assumes "validateCorpus document = None" and "rd_Corpus document = Some corpus" and "c \<in> set (co_Components corpus)"
  shows "\<exists>r\<in>set (rd_Rules document). tr_Component (r_Subject r) = c"
proof -
  let ?subjects = "(\<lambda>r. tr_Component (r_Subject r)) ` set (rd_Rules document)"
  have loop: "firstErrAdj (\<lambda>p component.
      andThen (failIf (\<not> componentRE component \<or> outOfOrder id p component) e) (failIf (component \<notin> ?subjects) e'))
      None cs = None \<longleftrightarrow> sorted_wrt (<) (map id cs) \<and> (\<forall>c\<in>set cs. componentRE c \<and> c \<in> ?subjects)" for e e' cs
    by (rule firstErrAdj_order) (unfold andThen_None failIf_None, blast)
  have "\<forall>c\<in>set (co_Components corpus). componentRE c \<and> c \<in> ?subjects"
    using assms(1) unfolding validateCorpus_def assms(2) option.case andThen_None loop by blast
  with assms(3) show ?thesis by auto
qed

text \<open>Conversely, a text that passes the gates and decodes to a document in good form is accepted.\<close>

lemma ParseInput_accepts:
  assumes "gateJSON raw maxInputBytes = None" and "validateInputShape raw = None"
    and "decodeStrict decInputDocument raw = Inr document"
    and "id_Schema document = InputSchema" and "id_Authority document = InputAuthority"
    and "validateSide (id_Current document) registry = None" and "validateSide (id_Proposed document) registry = None"
    and "validateScope document = None"
  shows "ParseInput raw registry =
    Inr \<lparr>in_document = document, in_digest = digestJSON (encInputDocument document),
         in_registryDigest = reg_digest registry, in_seal = True\<rparr>"
  using assms by (simp add: ParseInput_def failIf_def)

lemma ParseRuleSet_accepts:
  assumes "gateJSON raw maxRulesBytes = None" and "validateRuleShape raw = None"
    and "decodeStrict decRuleDocument raw = Inr document" and "wfRules registry document"
  shows "ParseRuleSet raw registry =
    Inr \<lparr>rs_document = document, rs_digest = digestJSON (encRuleDocument document),
         rs_registryDigest = reg_digest registry, rs_ranged = list_ex (\<lambda>r. r_Range r \<noteq> None) (rd_Rules document),
         rs_seal = True\<rparr>"
proof -
  let ?ranged = "list_ex (\<lambda>r. r_Range r \<noteq> None) (rd_Rules document)"
  have "andThen (failIf (rd_Schema document \<noteq> RulesSchema \<and> rd_Schema document \<noteq> RulesSchemaRanged \<or>
          \<not> idRE (rd_Revision document) \<or> \<not> idRE (rd_PolicyID document) \<or>
          \<not> digestRE (rd_PolicyDigest document) \<or> maxRules < length (rd_Rules document)) (ErrInvalid ''ruleset identity''))
      (andThen (firstErrAdj (\<lambda>p r. andThen (failIf (outOfOrder r_ID p r) (ErrInvalid ''rule order''))
                  (map_option (wrapErr ''rule'') (validateRule r registry))) None (rd_Rules document))
      (andThen (failIf (?ranged \<noteq> (rd_Schema document = RulesSchemaRanged))
                  (ErrInvalid ''ruleset schema does not match range use''))
      (andThen (if ?ranged then validateRangeOverlaps (rd_Rules document) else None) (validateCorpus document)))) = None"
    using assms(4) unfolding andThen_None failIf_None rulesLoop_iff by (auto simp: wfRules_def list_ex_iff)
  then show ?thesis using assms(1-3) by (simp only: ParseRuleSet_def andThen_left_None option.case sum.case Let_def)
qed

end
