(* ===== verification/CncfPack.thy ===== *)
theory CncfPack
  imports CncfRegistry GoRaw Parsing
begin

text \<open>
  \<open>cncfcheck/pack.go\<close> and the lookup of \<open>cncfcheck/catalog.go\<close>: the packaged documents, the
  integrity checks that turn them into a \<open>bundle\<close>, and the functions that assemble a rule document
  from entries of the pack and hand it to the engine's parser.

  The embedded files are an argument (\<open>packagedFiles\<close>), \<^term>\<open>None\<close> where the read fails. A nil slice
  that is marshalled again is kept apart from an empty one.

  Shown here: the rule document that is assembled denotes exactly the selected raw rules
  (\<open>ruleDocumentBytes_tree\<close>), so that what the engine parses is what was selected
  (\<open>parseRulesCorpus_rules\<close>), and the partial reads of a raw rule agree with the engine's decoding
  (\<open>ruleOf_reads\<close>); the project lookup is membership (\<open>hasProject_iff\<close>); a loaded bundle satisfies
  \<open>wfBundle\<close> (\<open>load_wf\<close>), under which a rule identifier has one owner (\<open>ownsRuleID_iff\<close>).
\<close>

section \<open>Errors\<close>

text \<open>
  The package has its own sentinels; an error of the engine is passed through only by
  \<open>parseRulesCorpus\<close>. A panic of the engine is not an error value: \<open>failAs\<close> lets it through.
\<close>

datatype cncfError = CncfInvalid | CncfIntegrity | EngineError error

type_synonym 'a cncfResult = "cncfError + 'a"

fun failAs :: "cncfError \<Rightarrow> cncfError \<Rightarrow> cncfError" where
  "failAs own (EngineError (GoPanic c)) = EngineError (GoPanic c)"
| "failAs own e = own"

definition orFail :: "cncfError \<Rightarrow> 'a cncfResult \<Rightarrow> 'a cncfResult" where
  "orFail own r = (case r of Inl e \<Rightarrow> Inl (failAs own e) | Inr x \<Rightarrow> Inr x)"

definition engineCall :: "'a result \<Rightarrow> 'a cncfResult" where
  "engineCall r = (case r of Inl e \<Rightarrow> Inl (EngineError e) | Inr x \<Rightarrow> Inr x)"

definition thenDo :: "'a cncfResult \<Rightarrow> ('a \<Rightarrow> 'b cncfResult) \<Rightarrow> 'b cncfResult" where
  "thenDo r f = (case r of Inl e \<Rightarrow> Inl e | Inr x \<Rightarrow> f x)"

definition refuseIf :: "bool \<Rightarrow> cncfError \<Rightarrow> 'a cncfResult \<Rightarrow> 'a cncfResult" where
  "refuseIf c e r = (if c then Inl e else r)"

lemma orFail_Inr [simp, gate_simps]: "orFail own r = Inr x \<longleftrightarrow> r = Inr x"
  by (simp add: orFail_def split: sum.splits)

lemma engineCall_Inr [simp, gate_simps]: "engineCall r = Inr x \<longleftrightarrow> r = Inr x"
  by (simp add: engineCall_def split: sum.splits)

lemma thenDo_Inr [simp, gate_simps]: "thenDo r f = Inr y \<longleftrightarrow> (\<exists>x. r = Inr x \<and> f x = Inr y)"
  by (simp add: thenDo_def split: sum.splits)

lemma refuseIf_Inr [simp, gate_simps]: "refuseIf c e r = Inr x \<longleftrightarrow> \<not> c \<and> r = Inr x"
  by (simp add: refuseIf_def)

lemma thenDo_simps [simp]: "thenDo (Inl e) f = Inl e" "thenDo (Inr x) f = f x"
  by (simp_all add: thenDo_def)

section \<open>Packaged documents\<close>

record projectIdentity =
  pi_Slug :: string
  pi_Name :: string
  pi_RepositoryURL :: string
  pi_CNCFStage :: string

record landscapeDocument =
  ld_Schema :: string
  ld_Revision :: string
  ld_SourceURL :: string
  ld_LandscapeFileDigest :: string
  ld_Projects :: "projectIdentity list"

record priorityDocument =
  pd_Schema :: string
  pd_LandscapeFileDigest :: string
  pd_Priority :: "string list"

record Fact =
  fa_Side :: string
  fa_ID :: string
  fa_Component :: string
  fa_Type :: string
  fa_EnumTokens :: "string list option"
  fa_Description :: string

record Entry =
  en_Project :: string
  en_Description :: string
  en_RequiredFacts :: "Fact list option"
  en_Rule :: string

record rulePack =
  pk_Schema :: string
  pk_Revision :: string
  pk_PolicyID :: string
  pk_PolicyDigest :: string
  pk_LandscapeFileDigest :: string
  pk_RegistryDigest :: string
  pk_Entries :: "Entry list option"

record cncfBundle =
  bu_landscape :: landscapeDocument
  bu_priority :: priorityDocument
  bu_pack :: rulePack
  bu_registry :: Registry
  bu_packDigest :: string
  bu_catalogueDigest :: string

record packagedFiles =
  pf_landscape :: "string option"
  pf_priority :: "string option"
  pf_rules :: "string option"
  pf_attestation :: "string option"

abbreviation packEntries :: "cncfBundle \<Rightarrow> Entry list" where
  "packEntries b \<equiv> goSlice (pk_Entries (bu_pack b))"

subsection \<open>Decoding\<close>

text \<open>\<open>strict\<close> is \<open>DisallowUnknownFields\<close>; without it the decoders are \<open>json.Unmarshal\<close>.\<close>

definition decProjectIdentity :: "bool \<Rightarrow> json \<Rightarrow> projectIdentity option" where
  "decProjectIdentity strict v =
     Option.bind (decStruct strict [''slug'', ''name'', ''repositoryURL'', ''cncfStage''] v) (\<lambda>ms.
     Option.bind (decField decString [] ms ''slug'') (\<lambda>s.
     Option.bind (decField decString [] ms ''name'') (\<lambda>n.
     Option.bind (decField decString [] ms ''repositoryURL'') (\<lambda>r.
     Option.bind (decField decString [] ms ''cncfStage'') (\<lambda>c.
       Some \<lparr>pi_Slug = s, pi_Name = n, pi_RepositoryURL = r, pi_CNCFStage = c\<rparr>)))))"

definition decLandscape :: "bool \<Rightarrow> json \<Rightarrow> landscapeDocument option" where
  "decLandscape strict v =
     Option.bind (decStruct strict [''schema'', ''revision'', ''sourceURL'', ''landscapeFileDigest'', ''projects''] v) (\<lambda>ms.
     Option.bind (decField decString [] ms ''schema'') (\<lambda>s.
     Option.bind (decField decString [] ms ''revision'') (\<lambda>r.
     Option.bind (decField decString [] ms ''sourceURL'') (\<lambda>u.
     Option.bind (decField decString [] ms ''landscapeFileDigest'') (\<lambda>d.
     Option.bind (decField (decSlice (decProjectIdentity strict)) [] ms ''projects'') (\<lambda>p.
       Some \<lparr>ld_Schema = s, ld_Revision = r, ld_SourceURL = u, ld_LandscapeFileDigest = d, ld_Projects = p\<rparr>))))))"

definition decPriority :: "bool \<Rightarrow> json \<Rightarrow> priorityDocument option" where
  "decPriority strict v =
     Option.bind (decStruct strict [''schema'', ''landscapeFileDigest'', ''priority''] v) (\<lambda>ms.
     Option.bind (decField decString [] ms ''schema'') (\<lambda>s.
     Option.bind (decField decString [] ms ''landscapeFileDigest'') (\<lambda>d.
     Option.bind (decField (decSlice decString) [] ms ''priority'') (\<lambda>p.
       Some \<lparr>pd_Schema = s, pd_LandscapeFileDigest = d, pd_Priority = p\<rparr>))))"

definition decFact :: "bool \<Rightarrow> json \<Rightarrow> Fact option" where
  "decFact strict v =
     Option.bind (decStruct strict [''side'', ''id'', ''component'', ''type'', ''enumTokens'', ''description''] v) (\<lambda>ms.
     Option.bind (decField decString [] ms ''side'') (\<lambda>s.
     Option.bind (decField decString [] ms ''id'') (\<lambda>i.
     Option.bind (decField decString [] ms ''component'') (\<lambda>c.
     Option.bind (decField decString [] ms ''type'') (\<lambda>t.
     Option.bind (decField (decNilSlice decString) None ms ''enumTokens'') (\<lambda>e.
     Option.bind (decField decString [] ms ''description'') (\<lambda>d.
       Some \<lparr>fa_Side = s, fa_ID = i, fa_Component = c, fa_Type = t, fa_EnumTokens = e, fa_Description = d\<rparr>)))))))"

definition decEntry :: "bool \<Rightarrow> rawJson \<Rightarrow> Entry option" where
  "decEntry strict x =
     Option.bind (decStruct strict [''project'', ''description'', ''requiredFacts'', ''rule''] (rawTree x)) (\<lambda>ms.
     Option.bind (decField decString [] ms ''project'') (\<lambda>p.
     Option.bind (decField decString [] ms ''description'') (\<lambda>d.
     Option.bind (decField (decNilSlice (decFact strict)) None ms ''requiredFacts'') (\<lambda>f.
       Some \<lparr>en_Project = p, en_Description = d, en_RequiredFacts = f, en_Rule = rawField ''rule'' x\<rparr>))))"

definition decRulePack :: "bool \<Rightarrow> rawJson \<Rightarrow> rulePack option" where
  "decRulePack strict x =
     Option.bind (decStruct strict [''schema'', ''revision'', ''policyId'', ''policyDigest'', ''landscapeFileDigest'',
                                    ''registryDigest'', ''entries''] (rawTree x)) (\<lambda>ms.
     Option.bind (decField decString [] ms ''schema'') (\<lambda>s.
     Option.bind (decField decString [] ms ''revision'') (\<lambda>r.
     Option.bind (decField decString [] ms ''policyId'') (\<lambda>i.
     Option.bind (decField decString [] ms ''policyDigest'') (\<lambda>p.
     Option.bind (decField decString [] ms ''landscapeFileDigest'') (\<lambda>l.
     Option.bind (decField decString [] ms ''registryDigest'') (\<lambda>g.
     Option.bind (rawNilSlice (decEntry strict) (rawMember ''entries'' x)) (\<lambda>e.
       Some \<lparr>pk_Schema = s, pk_Revision = r, pk_PolicyID = i, pk_PolicyDigest = p, pk_LandscapeFileDigest = l,
             pk_RegistryDigest = g, pk_Entries = e\<rparr>))))))))"

text \<open>One value, strictly decoded, and nothing after it.\<close>

definition strictJSON :: "(rawJson \<Rightarrow> 'a option) \<Rightarrow> string \<Rightarrow> 'a option" where
  "strictJSON decode raw = Option.bind (rawParse raw) decode"

section \<open>Helpers\<close>

definition cncfDigest :: "string \<Rightarrow> string" where
  "cncfDigest raw = ''sha256:'' @ sha256Hex raw"

definition sameStrings :: "string list \<Rightarrow> string list \<Rightarrow> bool" where
  "sameStrings a b =
     (if length a \<noteq> length b then False
      else list_all (\<lambda>i. sort a ! i = sort b ! i) [0..<length a])"

definition subjectComponent :: "string \<Rightarrow> string \<Rightarrow> string" where
  "subjectComponent project repository =
     (if project = ''opentelemetry'' then ''pkg:github/open-telemetry/opentelemetry-collector''
      else if project = ''buildpacks'' then ''pkg:oci/buildpacksio/lifecycle''
      else if project = ''cubefs'' then ''pkg:github/cubefs/cubefs''
      else if project = ''kubeflow'' then ''pkg:pypi/kfp''
      else if project = ''container-network-interface-cni'' then ''pkg:generic/cni-configuration-spec''
      else (let prefix = ''https://github.com/'' in
            if length repository \<le> length prefix \<or> take (length prefix) repository \<noteq> prefix then []
            else ''pkg:github/'' @ drop (length prefix) repository))"

definition slugPattern :: "string \<Rightarrow> bool" where
  "slugPattern s = list_all (\<lambda>part. part \<noteq> [] \<and> list_all (\<lambda>c. isLower c \<or> isDigit c) part) (splitOn (CHR ''-'') s)"

definition digestPattern :: "string \<Rightarrow> bool" where
  "digestPattern s = (take 7 s = ''sha256:'' \<and> length s = 71 \<and> list_all isHexLower (drop 7 s))"

definition parseCNCFUTC :: "string \<Rightarrow> goTime cncfResult" where
  "parseCNCFUTC text =
     (case parseRFC3339 text of
        None \<Rightarrow> Inl CncfInvalid
      | Some t \<Rightarrow>
          if text = [] \<or> last text \<noteq> CHR ''Z'' \<or> \<not> t_utc t \<or> formatRFC3339 t \<noteq> text then Inl CncfInvalid else Inr t)"

text \<open>
  \<open>url.Parse\<close> as far as \<open>load\<close> reads it: no error, scheme \<open>https\<close>, a host, no user. The fragment is cut
  first, then the query; the authority stands between \<open>//\<close> and the next slash. A host has at most one
  colon, followed by digits; a percent sign introduces two hexadecimal digits, in a host only for
  bytes from 0x80 on or for the percent sign itself. Hosts in brackets (IP literals) are refused.
\<close>

fun percentOK :: "string \<Rightarrow> bool" where
  "percentOK [] = True"
| "percentOK (c # cs) =
     (if c = CHR ''%'' then (case cs of a # b # rest \<Rightarrow> hexVal a \<noteq> None \<and> hexVal b \<noteq> None | _ \<Rightarrow> False) \<and> percentOK cs
      else percentOK cs)"

fun hostOK :: "string \<Rightarrow> bool" where
  "hostOK [] = True"
| "hostOK (c # cs) =
     (if c = CHR ''%'' then
        (case cs of
           a # b # rest \<Rightarrow> hexVal a \<noteq> None \<and> hexVal b \<noteq> None \<and> (8 \<le> the (hexVal a) \<or> [a, b] = ''25'')
         | _ \<Rightarrow> False) \<and> hostOK cs
      else (128 \<le> byte c \<or> isAlnum c \<or> c \<in> set ''-_.~!$&()*+,;=:]<>'' \<or> byte c = 39 \<or> byte c = 34) \<and> hostOK cs)"

definition httpsRepository :: "string \<Rightarrow> bool" where
  "httpsRepository url =
     (let (u, fragment, _) = cutAt (CHR ''#'') url;
          (scheme, rest) = getScheme u;
          (rest', _, _) = cutAt (CHR ''?'') rest;
          authority = takeWhile (\<lambda>c. c \<noteq> CHR ''/'') (drop 2 rest');
          (_, port, colon) = cutAt (CHR '':'') authority
      in list_all (\<lambda>c. 32 \<le> byte c \<and> byte c \<noteq> 127) u \<and> lowerASCII scheme = ''https'' \<and> hasPrefix rest' ''//'' \<and>
         authority \<noteq> [] \<and> CHR ''@'' \<notin> set authority \<and> (colon \<longrightarrow> list_all isDigit port) \<and> hostOK authority \<and>
         percentOK (drop (2 + length authority) rest') \<and> percentOK fragment)"

section \<open>What the package reads of a raw rule\<close>

record packCondition =
  pc_Side :: string
  pc_Component :: string
  pc_FactID :: string

record packRule =
  pr_Subject :: transition
  pr_Condition :: "packCondition option"
  pr_AppliesWhen :: "packCondition list"

definition decPackCondition :: "json \<Rightarrow> packCondition option" where
  "decPackCondition v =
     Option.bind (decStruct False [''side'', ''component'', ''factId''] v) (\<lambda>ms.
     Option.bind (decField decString [] ms ''side'') (\<lambda>s.
     Option.bind (decField decString [] ms ''component'') (\<lambda>c.
     Option.bind (decField decString [] ms ''factId'') (\<lambda>f.
       Some \<lparr>pc_Side = s, pc_Component = c, pc_FactID = f\<rparr>))))"

definition decPackRule :: "json \<Rightarrow> packRule option" where
  "decPackRule v =
     Option.bind (decStruct False [''subject'', ''condition'', ''appliesWhen''] v) (\<lambda>ms.
     Option.bind (decField (decTransition False) zeroTransition ms ''subject'') (\<lambda>s.
     Option.bind (decField (decPtr decPackCondition) None ms ''condition'') (\<lambda>c.
     Option.bind (decField (decSlice decPackCondition) [] ms ''appliesWhen'') (\<lambda>a.
       Some \<lparr>pr_Subject = s, pr_Condition = c, pr_AppliesWhen = a\<rparr>))))"

definition unmarshal :: "(json \<Rightarrow> 'a option) \<Rightarrow> string \<Rightarrow> 'a option" where
  "unmarshal decode raw = Option.bind (jsonParse raw) decode"

definition decRuleID :: "json \<Rightarrow> string option" where
  "decRuleID v = Option.bind (decStruct False [''id''] v) (\<lambda>ms. decField decString [] ms ''id'')"

definition decReviewWindow :: "json \<Rightarrow> (string \<times> string) option" where
  "decReviewWindow v =
     Option.bind (decStruct False [''evidence''] v) (\<lambda>ms.
     decField (\<lambda>e. Option.bind (decStruct False [''reviewedAt'', ''validUntil''] e) (\<lambda>es.
                   Option.bind (decField decString [] es ''reviewedAt'') (\<lambda>r.
                   Option.bind (decField decString [] es ''validUntil'') (\<lambda>u. Some (r, u)))))
       ([], []) ms ''evidence'')"

definition conditionKeyOf :: "packCondition \<Rightarrow> string" where
  "conditionKeyOf c = pc_Side c @ ''/'' @ pc_Component c @ ''/'' @ pc_FactID c"

definition factKeyOf :: "Fact \<Rightarrow> string" where
  "factKeyOf f = fa_Side f @ ''/'' @ fa_Component f @ ''/'' @ fa_ID f"

section \<open>Rule documents\<close>

definition packSchema :: string where
  "packSchema = ''prufyx.io/cncf-source-rule-pack/v1alpha1''"
definition packSchemaRanged :: string where
  "packSchemaRanged = ''prufyx.io/cncf-source-rule-pack/v1alpha2''"

definition validPackSchema :: "rulePack \<Rightarrow> bool" where
  "validPackSchema pack =
     (case AnyRanged (map en_Rule (goSlice (pk_Entries pack))) of
        Inl _ \<Rightarrow> False
      | Inr ranged \<Rightarrow> if ranged then pk_Schema pack = packSchemaRanged else pk_Schema pack = packSchema)"

definition corpusMember :: "string list \<Rightarrow> (string \<times> string) list" where
  "corpusMember corpus =
     (if corpus \<noteq> [] then [(''corpus'', objText [(''completeness'', quote CorpusAttestation),
                                          (''components'', arrText (map quote corpus))])] else [])"

definition ruleDocumentBytes :: "cncfBundle \<Rightarrow> string list \<Rightarrow> string list \<Rightarrow> string cncfResult" where
  "ruleDocumentBytes b rules corpus =
     (case RulesSchemaFor rules of
        Inl _ \<Rightarrow> Inl CncfIntegrity
      | Inr schema \<Rightarrow>
          (case those (map rawMarshal rules) of
             None \<Rightarrow> Inl CncfIntegrity
           | Some texts \<Rightarrow> Inr (objText
               ([(''schema'', quote schema), (''revision'', quote (pk_Revision (bu_pack b))),
                 (''policyId'', quote (pk_PolicyID (bu_pack b))), (''policyDigest'', quote (pk_PolicyDigest (bu_pack b))),
                 (''rules'', arrText texts)] @ corpusMember corpus))))"

definition maxCNCFReviewWindow :: int where
  "maxCNCFReviewWindow = 90 * 24 * 3600"

definition validReviewWindow :: "string \<Rightarrow> bool" where
  "validReviewWindow raw =
     (case unmarshal decReviewWindow raw of
        None \<Rightarrow> False
      | Some (reviewedAt, validUntil) \<Rightarrow>
          (case parseCNCFUTC reviewedAt of
             Inl _ \<Rightarrow> False
           | Inr reviewed \<Rightarrow>
               (case parseCNCFUTC validUntil of
                  Inl _ \<Rightarrow> False
                | Inr until \<Rightarrow>
                    timeBefore reviewed until \<and> unixSeconds until - unixSeconds reviewed \<le> maxCNCFReviewWindow)))"

definition validateCNCFReviewWindows :: "string list \<Rightarrow> cncfError option" where
  "validateCNCFReviewWindows rules = (if list_all validReviewWindow rules then None else Some CncfInvalid)"

definition parseRulesCorpus :: "cncfBundle \<Rightarrow> string list \<Rightarrow> string list \<Rightarrow> RuleSet cncfResult" where
  "parseRulesCorpus b rules corpus =
     (case validateCNCFReviewWindows rules of
        Some e \<Rightarrow> Inl e
      | None \<Rightarrow> thenDo (ruleDocumentBytes b rules corpus) (\<lambda>raw. engineCall (ParseRuleSet raw (bu_registry b))))"

definition parseRules :: "cncfBundle \<Rightarrow> string list \<Rightarrow> RuleSet cncfResult" where
  "parseRules b rules = parseRulesCorpus b rules []"

definition packRuleSet :: "cncfBundle \<Rightarrow> string \<Rightarrow> RuleSet cncfResult" where
  "packRuleSet b project =
     parseRules b (map en_Rule (filter (\<lambda>e. project = [] \<or> en_Project e = project) (packEntries b)))"

fun ownsRule :: "Entry list \<Rightarrow> string \<Rightarrow> string \<Rightarrow> bool cncfResult" where
  "ownsRule [] project ruleID = Inr False"
| "ownsRule (e # es) project ruleID =
     (case unmarshal decRuleID (en_Rule e) of
        None \<Rightarrow> Inl CncfIntegrity
      | Some i \<Rightarrow> if i = ruleID then Inr (en_Project e = project) else ownsRule es project ruleID)"

definition ownsRuleID :: "cncfBundle \<Rightarrow> string \<Rightarrow> string \<Rightarrow> bool cncfResult" where
  "ownsRuleID b project ruleID = ownsRule (packEntries b) project ruleID"

fun selectRules :: "(Entry \<Rightarrow> bool cncfResult) \<Rightarrow> Entry list \<Rightarrow> string list cncfResult" where
  "selectRules wanted [] = Inr []"
| "selectRules wanted (e # es) =
     thenDo (wanted e) (\<lambda>w. thenDo (selectRules wanted es) (\<lambda>rs. Inr (if w then en_Rule e # rs else rs)))"

definition wantsRule :: "string \<Rightarrow> string \<Rightarrow> Entry \<Rightarrow> bool cncfResult" where
  "wantsRule project ruleID e =
     (if en_Project e \<noteq> project then Inr False
      else case unmarshal decRuleID (en_Rule e) of None \<Rightarrow> Inl CncfIntegrity | Some i \<Rightarrow> Inr (i = ruleID))"

definition selectedRuleSet :: "cncfBundle \<Rightarrow> string \<Rightarrow> string \<Rightarrow> RuleSet cncfResult" where
  "selectedRuleSet b project ruleID = thenDo (selectRules (wantsRule project ruleID) (packEntries b)) (parseRules b)"

definition decSideVersions :: "json \<Rightarrow> (string \<times> string) list option" where
  "decSideVersions v =
     Option.bind (decStruct False [''components''] v) (\<lambda>ms.
     decField (decSlice (\<lambda>c. Option.bind (decStruct False [''component'', ''version''] c) (\<lambda>cs.
                             Option.bind (decField decString [] cs ''component'') (\<lambda>i.
                             Option.bind (decField decString [] cs ''version'') (\<lambda>n. Some (i, n)))))) [] ms ''components'')"

definition decInputVersions :: "json \<Rightarrow> ((string \<times> string) list \<times> (string \<times> string) list) option" where
  "decInputVersions v =
     Option.bind (decStruct False [''current'', ''proposed''] v) (\<lambda>ms.
     Option.bind (decField decSideVersions [] ms ''current'') (\<lambda>c.
     Option.bind (decField decSideVersions [] ms ''proposed'') (\<lambda>p. Some (c, p))))"

text \<open>A map filled in order and read with the zero value for an absent key.\<close>

definition mapGet :: "(string \<times> string) list \<Rightarrow> string \<Rightarrow> string" where
  "mapGet entries key = (case map_of (rev entries) key of None \<Rightarrow> [] | Some v \<Rightarrow> v)"

definition matchesInput :: "string \<Rightarrow> (string \<times> string) list \<Rightarrow> (string \<times> string) list \<Rightarrow> Entry \<Rightarrow> bool cncfResult" where
  "matchesInput project current proposed e =
     (if en_Project e \<noteq> project then Inr False
      else case RuleTransitionOf (en_Rule e) of
             Inl _ \<Rightarrow> Inl CncfIntegrity
           | Inr subject \<Rightarrow> Inr (matchTransition subject (mapGet current (rt_Component subject))
                                   (mapGet proposed (rt_Component subject)) \<noteq> MatchNone))"

definition rulesForAdmittedInput :: "cncfBundle \<Rightarrow> string \<Rightarrow> string \<Rightarrow> RuleSet cncfResult" where
  "rulesForAdmittedInput b project raw =
     (case unmarshal decInputVersions raw of
        None \<Rightarrow> Inl CncfIntegrity
      | Some (current, proposed) \<Rightarrow>
          thenDo (selectRules (matchesInput project current proposed) (packEntries b)) (\<lambda>matched.
            if matched = [] then packRuleSet b project else parseRules b matched))"

section \<open>Loading the packaged files\<close>

definition identities :: "landscapeDocument \<Rightarrow> string \<Rightarrow> projectIdentity option" where
  "identities landscape slug = map_of (rev (map (\<lambda>p. (pi_Slug p, p)) (ld_Projects landscape))) slug"

definition compiledDefinition :: "string \<Rightarrow> FactDefinition option" where
  "compiledDefinition i = map_of (rev (map (\<lambda>d. (fd_ID d, d)) compiledDefinitions)) i"

definition validIdentity :: "projectIdentity option \<Rightarrow> projectIdentity \<Rightarrow> bool" where
  "validIdentity previous project =
     (let missingArchivedRepository = (pi_RepositoryURL project = [] \<and> pi_CNCFStage project = ''archived'')
      in slugPattern (pi_Slug project) \<and> pi_Name project \<noteq> [] \<and>
         (missingArchivedRepository \<or> httpsRepository (pi_RepositoryURL project)) \<and>
         \<not> outOfOrder pi_Slug previous project)"

definition validRequiredFact :: "string list \<Rightarrow> Fact \<Rightarrow> bool" where
  "validRequiredFact seen f =
     (factKeyOf f \<notin> set seen \<and> (fa_Side f = ''current'' \<or> fa_Side f = ''proposed'') \<and>
      (case compiledDefinition (fa_ID f) of
         None \<Rightarrow> False
       | Some d \<Rightarrow> fd_Component d = fa_Component f \<and> fd_Type d = fa_Type f \<and> fa_Description f \<noteq> [] \<and>
                  length (fa_Description f) \<le> 2048 \<and> sameStrings (fd_EnumTokens d) (goSlice (fa_EnumTokens f))))"

fun seenFacts :: "string list \<Rightarrow> Fact list \<Rightarrow> string list option" where
  "seenFacts seen [] = Some seen"
| "seenFacts seen (f # fs) = (if validRequiredFact seen f then seenFacts (factKeyOf f # seen) fs else None)"

text \<open>
  The checks of one entry, shared with the external bundle: \<open>invalid\<close> is the error for an entry that is
  not well formed, which \<open>load\<close> reports as an integrity failure too.
\<close>

definition checkEntry :: "cncfError \<Rightarrow> landscapeDocument \<Rightarrow> Entry \<Rightarrow> cncfError option" where
  "checkEntry invalid landscape entry =
     (case identities landscape (en_Project entry) of
        None \<Rightarrow> Some invalid
      | Some identity \<Rightarrow>
          if en_Description entry = [] \<or> 2048 < length (en_Description entry) then Some invalid
          else (case seenFacts [] (goSlice (en_RequiredFacts entry)) of
                  None \<Rightarrow> Some invalid
                | Some seen \<Rightarrow>
                    (case unmarshal decPackRule (en_Rule entry) of
                       None \<Rightarrow> Some CncfIntegrity
                     | Some shape \<Rightarrow>
                         if tr_Component (pr_Subject shape) \<noteq> subjectComponent (en_Project entry) (pi_RepositoryURL identity)
                         then Some CncfIntegrity
                         else (let required = remdups (map conditionKeyOf (pr_AppliesWhen shape @
                                   (case pr_Condition shape of None \<Rightarrow> [] | Some c \<Rightarrow> [c])))
                               in if length required \<noteq> length seen \<or> \<not> list_all (\<lambda>key. key \<in> set seen) required
                                  then Some invalid else None))))"

definition validHeaders :: "cncfBundle \<Rightarrow> bool" where
  "validHeaders b =
     (ld_Schema (bu_landscape b) = ''prufyx.io/cncf-landscape/v1'' \<and> length (ld_Projects (bu_landscape b)) = 255 \<and>
      digestPattern (ld_LandscapeFileDigest (bu_landscape b)) \<and> pd_Schema (bu_priority b) = ''prufyx.io/cncf-priority/v1'' \<and>
      length (pd_Priority (bu_priority b)) = 30 \<and>
      pd_LandscapeFileDigest (bu_priority b) = ld_LandscapeFileDigest (bu_landscape b) \<and> validPackSchema (bu_pack b) \<and>
      pk_LandscapeFileDigest (bu_pack b) = ld_LandscapeFileDigest (bu_landscape b) \<and>
      pk_RegistryDigest (bu_pack b) = reg_digest (bu_registry b))"

definition validPriority :: "landscapeDocument \<Rightarrow> string option \<Rightarrow> string \<Rightarrow> bool" where
  "validPriority landscape previous slug = (identities landscape slug \<noteq> None \<and> \<not> outOfOrder id previous slug)"

definition validPolicy :: "rulePack \<Rightarrow> bool" where
  "validPolicy pack = (pk_PolicyID pack = ''cncf-source-preview-v1'' \<and> pk_PolicyDigest pack = cncfDigest PolicyDeclaration)"

definition decodePackaged :: "packagedFiles \<Rightarrow> (landscapeDocument \<times> priorityDocument \<times> rulePack) option" where
  "decodePackaged files =
     Option.bind (Option.bind (pf_landscape files) (strictJSON (decLandscape True \<circ> rawTree))) (\<lambda>landscape.
     Option.bind (Option.bind (pf_priority files) (strictJSON (decPriority True \<circ> rawTree))) (\<lambda>priority.
     Option.bind (Option.bind (pf_rules files) (strictJSON (decRulePack True))) (\<lambda>pack. Some (landscape, priority, pack))))"

definition load :: "packagedFiles \<Rightarrow> cncfBundle cncfResult" where
  "load files =
     (case decodePackaged files of
        None \<Rightarrow> Inl CncfIntegrity
      | Some (landscape, priority, pack) \<Rightarrow>
          thenDo (orFail CncfIntegrity (engineCall compiledRegistry)) (\<lambda>registry.
          (let b = \<lparr>bu_landscape = landscape, bu_priority = priority, bu_pack = pack, bu_registry = registry,
                    bu_packDigest = cncfDigest (the (pf_rules files)), bu_catalogueDigest = cncfDigest (the (pf_landscape files))\<rparr>
           in refuseIf (\<not> validHeaders b) CncfIntegrity
             (refuseIf (\<not> allAdj validIdentity None (ld_Projects landscape)) CncfIntegrity
             (refuseIf (\<not> allAdj (validPriority landscape) None (pd_Priority priority)) CncfIntegrity
             (refuseIf (\<not> validPolicy pack) CncfIntegrity
             (refuseIf (\<exists>entry\<in>set (goSlice (pk_Entries pack)). checkEntry CncfIntegrity landscape entry \<noteq> None) CncfIntegrity
             (thenDo (orFail CncfIntegrity (packRuleSet b [])) (\<lambda>_. Inr b)))))))))"

section \<open>Project lookup\<close>

definition hasProject :: "cncfBundle \<Rightarrow> string \<Rightarrow> bool" where
  "hasProject b slug =
     (let projects = ld_Projects (bu_landscape b);
          index = sortSearch (length projects) (\<lambda>i. slug \<le> pi_Slug (projects ! i))
      in index < length projects \<and> pi_Slug (projects ! index) = slug)"

section \<open>What the engine is handed\<close>

definition documentNames :: "string list" where
  "documentNames = [''schema'', ''revision'', ''policyId'', ''policyDigest'', ''rules'', ''corpus'']"

lemma documentNames_fold: "distinct (map foldName documentNames)" by code_simp


definition corpusTree :: "string list \<Rightarrow> (string \<times> json) list" where
  "corpusTree corpus =
     (if corpus \<noteq> [] then [(''corpus'', JObj [(''completeness'', JStr (utf8Coerce CorpusAttestation)),
                                        (''components'', JArr (map (JStr \<circ> utf8Coerce) corpus))])] else [])"

definition documentMembers :: "cncfBundle \<Rightarrow> string \<Rightarrow> json list \<Rightarrow> (string \<times> json) list" where
  "documentMembers b schema vs =
     [(''schema'', JStr (utf8Coerce schema)), (''revision'', JStr (utf8Coerce (pk_Revision (bu_pack b)))),
      (''policyId'', JStr (utf8Coerce (pk_PolicyID (bu_pack b)))),
      (''policyDigest'', JStr (utf8Coerce (pk_PolicyDigest (bu_pack b)))), (''rules'', JArr vs)]"

lemma corpusMember_reads:
  "list_all2 (\<lambda>(k, tx) (k', v). k = k' \<and> utf8Valid k \<and> readsAs tx v) (corpusMember corpus) (corpusTree corpus)"
proof -
  have "readsAs (arrText (map quote corpus)) (JArr (map (JStr \<circ> utf8Coerce) corpus))"
    by (intro arrText_reads) (simp add: list.rel_map readsAs_quote list.rel_refl)
  then show ?thesis
    by (auto simp: corpusMember_def corpusTree_def runeError_def readsAs_quote intro!: objText_reads)
qed

lemma rawMarshal_all:
  "those (map rawMarshal rules) = Some texts \<Longrightarrow> [] \<notin> set rules \<Longrightarrow>
     \<exists>vs. list_all2 (\<lambda>r v. jsonParse r = Some v) rules vs \<and> list_all2 readsAs texts vs"
proof (induction rules arbitrary: texts)
  case (Cons r rs)
  then obtain tx ts where t: "rawMarshal r = Some tx" "those (map rawMarshal rs) = Some ts" "texts = tx # ts"
    by (auto split: option.splits)
  moreover obtain v where "jsonParse r = Some v" "readsAs tx v" using rawMarshal_reads [OF t(1)] Cons.prems by auto
  moreover obtain vs where "list_all2 (\<lambda>r v. jsonParse r = Some v) rs vs" "list_all2 readsAs ts vs"
    using Cons.IH [OF t(2)] Cons.prems by auto
  ultimately show ?case by (intro exI [of _ "v # vs"]) simp
qed simp

lemma ruleDocumentBytes_tree:
  assumes "ruleDocumentBytes b rules corpus = Inr raw" and "[] \<notin> set rules"
  obtains schema vs where "RulesSchemaFor rules = Inr schema" "list_all2 (\<lambda>r v. jsonParse r = Some v) rules vs"
    "jsonParse raw = Some (JObj (documentMembers b schema vs @ corpusTree corpus))"
proof -
  obtain schema texts where t: "RulesSchemaFor rules = Inr schema" "those (map rawMarshal rules) = Some texts"
    and raw: "raw = objText ([(''schema'', quote schema), (''revision'', quote (pk_Revision (bu_pack b))),
                 (''policyId'', quote (pk_PolicyID (bu_pack b))), (''policyDigest'', quote (pk_PolicyDigest (bu_pack b))),
                 (''rules'', arrText texts)] @ corpusMember corpus)"
    using assms(1) by (auto simp: ruleDocumentBytes_def split: sum.splits option.splits)
  obtain vs where vs: "list_all2 (\<lambda>r v. jsonParse r = Some v) rules vs" "list_all2 readsAs texts vs"
    using rawMarshal_all [OF t(2) assms(2)] by blast
  have "readsAs raw (JObj (documentMembers b schema vs @ corpusTree corpus))"
    unfolding raw documentMembers_def
    by (intro objText_reads list_all2_appendI corpusMember_reads) (simp add: runeError_def readsAs_quote arrText_reads vs)
  then show ?thesis using that t(1) vs(1) jsonParse_reads by blast
qed

lemma corpusTree_decodes:
  "decField (decPtr decRuleCorpus) None (corpusTree corpus) ''corpus'' =
     Some (if corpus = [] then None else Some \<lparr>co_Completeness = CorpusAttestation, co_Components = map utf8Coerce corpus\<rparr>)"
proof -
  have d: "foldName ''completeness'' \<noteq> foldName ''components''" by code_simp
  have "those (map (decString \<circ> (JStr \<circ> utf8Coerce)) cs) = Some (map utf8Coerce cs)" for cs by (induction cs) auto
  moreover have "utf8Coerce CorpusAttestation = CorpusAttestation" by (rule utf8Coerce_valid) (simp add: CorpusAttestation_def runeError_def)
  ultimately show ?thesis using d
    by (auto simp: corpusTree_def decField_def jsonField_def decPtr_def decRuleCorpus_def)
qed

lemma documentNames_distinct:
  "distinct (map (foldName \<circ> fst) (documentMembers b schema vs @ corpusTree corpus))"
  using documentNames_fold by (auto simp: documentMembers_def corpusTree_def documentNames_def)

lemma documentNames_corpus: "foldName ''corpus'' \<notin> (foldName \<circ> fst) ` set (documentMembers b schema vs)"
  using documentNames_fold by (auto simp: documentMembers_def documentNames_def)

lemma decField_document:
  assumes "(k, v) \<in> set (documentMembers b schema vs)"
  shows "decField d z (documentMembers b schema vs @ corpusTree corpus) k = d v"
  using jsonField_in [OF documentNames_distinct, of k v b schema vs corpus] assms by (simp add: decField_def)

lemma decField_corpus:
  "decField d z (documentMembers b schema vs @ corpusTree corpus) ''corpus'' = decField d z (corpusTree corpus) ''corpus''"
  using jsonField_out [OF documentNames_corpus, of b schema vs]
  by (auto simp: decField_def jsonField_def find_append split: option.splits)

lemma decRuleDocument_tree:
  assumes "decRuleDocument (JObj (documentMembers b schema vs @ corpusTree corpus)) = Some document"
  shows "rd_Revision document = utf8Coerce (pk_Revision (bu_pack b))"
    and "rd_PolicyID document = utf8Coerce (pk_PolicyID (bu_pack b))"
    and "rd_PolicyDigest document = utf8Coerce (pk_PolicyDigest (bu_pack b))"
    and "rd_Schema document = utf8Coerce schema"
    and "list_all2 (\<lambda>v r. decRule v = Some r) vs (rd_Rules document)"
    and "rd_Corpus document = (if corpus = [] then None
      else Some \<lparr>co_Completeness = CorpusAttestation, co_Components = map utf8Coerce corpus\<rparr>)"
proof -
  let ?ms = "documentMembers b schema vs @ corpusTree corpus"
  note f = decField_document [where b = b and schema = schema and vs = vs and corpus = corpus]
  have mem: "(''schema'', JStr (utf8Coerce schema)) \<in> set (documentMembers b schema vs)"
    "(''revision'', JStr (utf8Coerce (pk_Revision (bu_pack b)))) \<in> set (documentMembers b schema vs)"
    "(''policyId'', JStr (utf8Coerce (pk_PolicyID (bu_pack b)))) \<in> set (documentMembers b schema vs)"
    "(''policyDigest'', JStr (utf8Coerce (pk_PolicyDigest (bu_pack b)))) \<in> set (documentMembers b schema vs)"
    "(''rules'', JArr vs) \<in> set (documentMembers b schema vs)"
    by (simp_all add: documentMembers_def)
  have m: "decField decString [] ?ms ''schema'' = Some (utf8Coerce schema)"
    "decField decString [] ?ms ''revision'' = Some (utf8Coerce (pk_Revision (bu_pack b)))"
    "decField decString [] ?ms ''policyId'' = Some (utf8Coerce (pk_PolicyID (bu_pack b)))"
    "decField decString [] ?ms ''policyDigest'' = Some (utf8Coerce (pk_PolicyDigest (bu_pack b)))"
    "decField (decSlice decRule) [] ?ms ''rules'' = those (map decRule vs)"
    by (simp_all only: mem [THEN f] decString.simps decSlice.simps)
  obtain rs where r: "those (map decRule vs) = Some rs" and
    "document = \<lparr>rd_Schema = utf8Coerce schema, rd_Revision = utf8Coerce (pk_Revision (bu_pack b)),
       rd_PolicyID = utf8Coerce (pk_PolicyID (bu_pack b)), rd_PolicyDigest = utf8Coerce (pk_PolicyDigest (bu_pack b)),
       rd_Rules = rs, rd_Corpus = (if corpus = [] then None
      else Some \<lparr>co_Completeness = CorpusAttestation, co_Components = map utf8Coerce corpus\<rparr>)\<rparr>"
    using assms unfolding decRuleDocument_def
    by (auto simp: bind_eq_Some_conv m decField_corpus corpusTree_decodes split: if_splits)
  then show "rd_Revision document = utf8Coerce (pk_Revision (bu_pack b))"
    and "rd_PolicyID document = utf8Coerce (pk_PolicyID (bu_pack b))"
    and "rd_PolicyDigest document = utf8Coerce (pk_PolicyDigest (bu_pack b))"
    and "rd_Schema document = utf8Coerce schema"
    and "list_all2 (\<lambda>v r. decRule v = Some r) vs (rd_Rules document)"
    and "rd_Corpus document = (if corpus = [] then None
      else Some \<lparr>co_Completeness = CorpusAttestation, co_Components = map utf8Coerce corpus\<rparr>)"
    using r unfolding those_list_all2 by simp_all
qed

lemma ParseRuleSet_decodes:
  assumes "ParseRuleSet raw registry = Inr rules"
  shows "\<exists>v. jsonParse raw = Some v \<and> consumeJSON 0 v \<and> decRuleDocument v = Some (rs_document rules)"
  using assms
  by (auto simp: ParseRuleSet_def gateJSON_def decodeStrict_def bind_eq_Some_conv
      Let_def split: option.splits sum.splits if_splits)

section \<open>The lenient reads of a raw rule agree with the engine's\<close>

text \<open>Whatever \<open>d\<close> decodes, \<open>d'\<close> decodes to its image.\<close>

definition readsOf :: "('a \<Rightarrow> 'b) \<Rightarrow> (json \<Rightarrow> 'a option) \<Rightarrow> (json \<Rightarrow> 'b option) \<Rightarrow> bool" where
  "readsOf g d d' \<longleftrightarrow> (\<forall>v x. d v = Some x \<longrightarrow> d' v = Some (g x))"

lemma decStruct_lenient: "decStruct True names v = Some ms \<Longrightarrow> decStruct False names' v = Some ms"
  by (cases v) (auto split: if_splits)

lemma readsOf_field: "readsOf g d d' \<Longrightarrow> decField d z ms k = Some x \<Longrightarrow> decField d' (g z) ms k = Some (g x)"
  by (auto simp: decField_def readsOf_def split: option.splits)

lemma readsOf_slice:
  assumes "readsOf g d d'"
  shows "readsOf (map g) (decSlice d) (decSlice d')"
  unfolding readsOf_def
proof (intro allI impI)
  fix v xs assume "decSlice d v = Some xs"
  with assms show "decSlice d' v = Some (map g xs)"
    by (cases v) (auto simp: those_list_all2 readsOf_def list.rel_map elim!: list.rel_mono_strong)
qed

lemma readsOf_ptr: "readsOf g d d' \<Longrightarrow> readsOf (map_option g) (decPtr d) (decPtr d')"
  by (auto simp: readsOf_def decPtr_def split: json.splits)

lemmas readsOf_fieldI = readsOf_field [where g = id, simplified]
  readsOf_field [OF readsOf_slice, where ?g1 = id, simplified] readsOf_field [OF readsOf_ptr, where ?g1 = id, simplified option.map_id, simplified]

lemma decTransition_lenient: "readsOf id (decTransition True) (decTransition False)"
  by (auto simp: readsOf_def decTransition_def bind_eq_Some_conv dest!: decStruct_lenient)

lemma decVersionRange_lenient: "readsOf id (decVersionRange True) (decVersionRange False)"
proof -
  have "readsOf id (decVersionBound True) (decVersionBound False)" "readsOf id (decRangeBound True) (decRangeBound False)"
    by (auto simp: readsOf_def decVersionBound_def decRangeBound_def bind_eq_Some_conv dest!: decStruct_lenient)
  note f = this [THEN readsOf_fieldI(1)] this [THEN readsOf_fieldI(2)]
  show ?thesis unfolding readsOf_def
    by (auto simp: decVersionRange_def bind_eq_Some_conv dest!: decStruct_lenient f)
qed

definition shapeOfCondition :: "factCondition \<Rightarrow> packCondition" where
  "shapeOfCondition c = \<lparr>pc_Side = fc_Side c, pc_Component = fc_Component c, pc_FactID = fc_FactID c\<rparr>"

definition shapeOfRule :: "rule \<Rightarrow> packRule" where
  "shapeOfRule r = \<lparr>pr_Subject = r_Subject r, pr_Condition = map_option shapeOfCondition (r_Condition r),
                  pr_AppliesWhen = map shapeOfCondition (r_AppliesWhen r)\<rparr>"

lemma decPackCondition_reads: "readsOf shapeOfCondition decFactCondition decPackCondition"
  by (auto simp: readsOf_def decFactCondition_def decPackCondition_def shapeOfCondition_def bind_eq_Some_conv dest!: decStruct_lenient)

lemma decRule_window:
  "decRule v = Some r \<Longrightarrow> decReviewWindow v = Some (ev_ReviewedAt (r_Evidence r), ev_ValidUntil (r_Evidence r))"
proof -
  let ?g = "\<lambda>e. (ev_ReviewedAt e, ev_ValidUntil e)"
  have "readsOf ?g decEvidence (\<lambda>e. Option.bind (decStruct False [''reviewedAt'', ''validUntil''] e) (\<lambda>es.
                   Option.bind (decField decString [] es ''reviewedAt'') (\<lambda>r.
                   Option.bind (decField decString [] es ''validUntil'') (\<lambda>u. Some (r, u)))))"
    by (auto simp: readsOf_def decEvidence_def bind_eq_Some_conv dest!: decStruct_lenient)
  note f = readsOf_field [OF this, of zeroEvidence, unfolded zeroEvidence_def, simplified]
  assume "decRule v = Some r"
  then show ?thesis
    by (auto simp: decRule_def decReviewWindow_def bind_eq_Some_conv zeroEvidence_def dest!: decStruct_lenient f)
qed

lemma decRule_reads:
  assumes "decRule v = Some r"
  shows "decRuleID v = Some (r_ID r)" and "decPackRule v = Some (shapeOfRule r)"
  using assms readsOf_fieldI(1) [OF decTransition_lenient] readsOf_field [OF readsOf_ptr [OF decPackCondition_reads], of None]
    readsOf_field [OF readsOf_slice [OF decPackCondition_reads], of "[]"]
  by (auto simp: decRule_def decRuleID_def decPackRule_def shapeOfRule_def bind_eq_Some_conv dest!: decStruct_lenient)

lemma RuleTransitionOf_rule:
  assumes "jsonParse raw = Some v" and "decRule v = Some r"
  shows "RuleTransitionOf raw = Inr (ruleTransitionOfRule r)"
  using assms
  by (auto simp: decRule_def RuleTransitionOf_def ruleTransitionOfRule_def bind_eq_Some_conv
      dest!: decStruct_lenient [where names' = "[''subject'', ''range'']"] readsOf_fieldI(1) [OF decTransition_lenient]
        readsOf_fieldI(3) [OF decVersionRange_lenient])

text \<open>A rule document that the engine parsed holds the rules it was assembled from, in order.\<close>

lemma validReviewWindow_Nil [simp]: "\<not> validReviewWindow []"
  by (simp add: validReviewWindow_def unmarshal_def)

lemma ruleDocument_parsed:
  assumes "ruleDocumentBytes b rules corpus = Inr raw" and "ParseRuleSet raw registry = Inr rs" and "[] \<notin> set rules"
  shows "list_all2 (\<lambda>raw r. \<exists>v. jsonParse raw = Some v \<and> decRule v = Some r) rules (rd_Rules (rs_document rs))"
    and "rd_Revision (rs_document rs) = utf8Coerce (pk_Revision (bu_pack b))"
    and "rd_Corpus (rs_document rs) = (if corpus = [] then None
      else Some \<lparr>co_Completeness = CorpusAttestation, co_Components = map utf8Coerce corpus\<rparr>)"
proof -
  obtain schema vs where vs: "list_all2 (\<lambda>r v. jsonParse r = Some v) rules vs"
    "jsonParse raw = Some (JObj (documentMembers b schema vs @ corpusTree corpus))"
    using ruleDocumentBytes_tree [OF assms(1,3)] by blast
  then have d: "decRuleDocument (JObj (documentMembers b schema vs @ corpusTree corpus)) = Some (rs_document rs)"
    using ParseRuleSet_decodes [OF assms(2)] by auto
  note tree = decRuleDocument_tree [OF d]
  show "list_all2 (\<lambda>raw r. \<exists>v. jsonParse raw = Some v \<and> decRule v = Some r) rules (rd_Rules (rs_document rs))"
    using list_all2_trans [OF _ vs(1) tree(5), of "\<lambda>raw r. \<exists>v. jsonParse raw = Some v \<and> decRule v = Some r"] by blast
  show "rd_Revision (rs_document rs) = utf8Coerce (pk_Revision (bu_pack b))"
    "rd_Corpus (rs_document rs) = (if corpus = [] then None
      else Some \<lparr>co_Completeness = CorpusAttestation, co_Components = map utf8Coerce corpus\<rparr>)"
    by (fact tree)+
qed

lemma parseRulesCorpus_parsed:
  assumes "parseRulesCorpus b rules corpus = Inr rs"
  shows "\<exists>raw. ParseRuleSet raw (bu_registry b) = Inr rs" and "list_all validReviewWindow rules"
    and "list_all2 (\<lambda>raw r. \<exists>v. jsonParse raw = Some v \<and> decRule v = Some r) rules (rd_Rules (rs_document rs))"
    and "rd_Revision (rs_document rs) = utf8Coerce (pk_Revision (bu_pack b))"
    and "rd_Corpus (rs_document rs) = (if corpus = [] then None
      else Some \<lparr>co_Completeness = CorpusAttestation, co_Components = map utf8Coerce corpus\<rparr>)"
proof -
  obtain raw where raw: "list_all validReviewWindow rules" "ruleDocumentBytes b rules corpus = Inr raw"
    "ParseRuleSet raw (bu_registry b) = Inr rs"
    using assms by (auto simp: parseRulesCorpus_def validateCNCFReviewWindows_def split: if_splits)
  then have "[] \<notin> set rules" by (auto simp: list_all_iff)
  note parsed = ruleDocument_parsed [OF raw(2,3) this]
  show "\<exists>raw. ParseRuleSet raw (bu_registry b) = Inr rs" "list_all validReviewWindow rules" using raw by blast+
  show "list_all2 (\<lambda>raw r. \<exists>v. jsonParse raw = Some v \<and> decRule v = Some r) rules (rd_Rules (rs_document rs))"
    "rd_Revision (rs_document rs) = utf8Coerce (pk_Revision (bu_pack b))"
    "rd_Corpus (rs_document rs) = (if corpus = [] then None
      else Some \<lparr>co_Completeness = CorpusAttestation, co_Components = map utf8Coerce corpus\<rparr>)"
    by (fact parsed)+
qed

text \<open>The rule an entry carries, as the engine decodes it.\<close>

definition ruleOf :: "string \<Rightarrow> rule option" where
  "ruleOf raw = Option.bind (jsonParse raw) decRule"

lemma ruleOf_iff: "ruleOf raw = Some r \<longleftrightarrow> (\<exists>v. jsonParse raw = Some v \<and> decRule v = Some r)"
  by (auto simp: ruleOf_def bind_eq_Some_conv)

lemma ruleOf_reads:
  assumes "ruleOf raw = Some r"
  shows "unmarshal decRuleID raw = Some (r_ID r)" and "unmarshal decPackRule raw = Some (shapeOfRule r)"
    and "RuleTransitionOf raw = Inr (ruleTransitionOfRule r)"
    and "unmarshal decReviewWindow raw = Some (ev_ReviewedAt (r_Evidence r), ev_ValidUntil (r_Evidence r))"
  using assms decRule_reads decRule_window RuleTransitionOf_rule
  by (auto simp: ruleOf_def unmarshal_def bind_eq_Some_conv)

lemma parseRulesCorpus_rules:
  "parseRulesCorpus b rules corpus = Inr rs \<Longrightarrow> map ruleOf rules = map Some (rd_Rules (rs_document rs))"
  using parseRulesCorpus_parsed(3) [of b rules corpus rs]
  by (simp add: ruleOf_iff [symmetric] list_all2_conv_all_nth list_eq_iff_nth_eq)

section \<open>Selection\<close>

lemma selectRules_spec:
  "selectRules wanted es = Inr rs \<longleftrightarrow>
     (\<forall>e\<in>set es. \<exists>w. wanted e = Inr w) \<and> rs = map en_Rule (filter (\<lambda>e. wanted e = Inr True) es)"
proof (induction es arbitrary: rs)
  case (Cons e es)
  then show ?case by (cases "wanted e") auto
qed auto

lemma ownsRule_spec:
  assumes "map (ruleOf \<circ> en_Rule) es = map Some rules" and "distinct (map r_ID rules)"
  shows "ownsRule es project ruleID = Inr (\<exists>e\<in>set es. en_Project e = project \<and> map_option r_ID (ruleOf (en_Rule e)) = Some ruleID)"
  using assms
proof (induction es arbitrary: rules)
  case (Cons e es)
  then obtain r rs where r: "rules = r # rs" "ruleOf (en_Rule e) = Some r" "map (ruleOf \<circ> en_Rule) es = map Some rs"
    by (cases rules) (auto simp: comp_def)
  have "\<forall>e'\<in>set es. \<exists>r'\<in>set rs. ruleOf (en_Rule e') = Some r'"
    using r(3) by (metis (no_types, lifting) comp_apply image_eqI image_iff list.set_map)
  moreover have "\<forall>r'\<in>set rs. r_ID r' \<noteq> r_ID r" using Cons.prems(2) r(1) by (metis distinct.simps(2) imageI list.set_map list.simps(9))
  ultimately have "\<forall>e'\<in>set es. map_option r_ID (ruleOf (en_Rule e')) \<noteq> Some (r_ID r)" by auto
  then show ?case using Cons.IH [OF r(3)] Cons.prems(2) r ruleOf_reads(1) [OF r(2)] by auto
qed simp

section \<open>Project lookup\<close>

lemma hasProject_iff:
  assumes "sorted_wrt (<) (map pi_Slug (ld_Projects (bu_landscape b)))"
  shows "hasProject b slug \<longleftrightarrow> slug \<in> pi_Slug ` set (ld_Projects (bu_landscape b))"
  using go_search.search_finds [of pi_Slug "ld_Projects (bu_landscape b)" slug] assms
  by (simp add: hasProject_def Let_def strict_sorted_iff)

lemma slugPattern_Nil [simp]: "\<not> slugPattern []"
  by code_simp

section \<open>The invariant of a bundle\<close>

definition entryBelongs :: "landscapeDocument \<Rightarrow> Entry \<Rightarrow> bool" where
  "entryBelongs landscape e \<longleftrightarrow>
     (\<exists>p\<in>set (ld_Projects landscape). pi_Slug p = en_Project e \<and>
        (\<forall>r. ruleOf (en_Rule e) = Some r \<longrightarrow> tr_Component (r_Subject r) = subjectComponent (pi_Slug p) (pi_RepositoryURL p)))"

lemma checkEntry_belongs:
  assumes "checkEntry invalid landscape e = None"
  shows "entryBelongs landscape e"
proof -
  obtain p shape where p: "identities landscape (en_Project e) = Some p" "unmarshal decPackRule (en_Rule e) = Some shape"
    "tr_Component (pr_Subject shape) = subjectComponent (en_Project e) (pi_RepositoryURL p)"
    using assms by (auto simp: checkEntry_def Let_def split: option.splits if_splits)
  from p(1) have "p \<in> set (ld_Projects landscape)" "pi_Slug p = en_Project e"
    by (auto simp: identities_def dest!: map_of_SomeD)
  moreover have "\<forall>r. ruleOf (en_Rule e) = Some r \<longrightarrow> tr_Component (r_Subject r) = subjectComponent (en_Project e) (pi_RepositoryURL p)"
    using p(2,3) ruleOf_reads(2) [of "en_Rule e"] by (auto simp: shapeOfRule_def)
  ultimately show ?thesis unfolding entryBelongs_def by (metis (no_types))
qed

definition wfBundle :: "cncfBundle \<Rightarrow> bool" where
  "wfBundle b \<longleftrightarrow>
     sorted_wrt (<) (map pi_Slug (ld_Projects (bu_landscape b))) \<and>
     (\<forall>p\<in>set (ld_Projects (bu_landscape b)). slugPattern (pi_Slug p)) \<and> sorted_wrt (<) (pd_Priority (bu_priority b)) \<and>
     wfRegistry (bu_registry b) \<and> (\<exists>rs. packRuleSet b [] = Inr rs) \<and>
     (\<forall>e\<in>set (packEntries b). entryBelongs (bu_landscape b) e)"

lemma load_wf:
  assumes "load files = Inr b"
  shows "wfBundle b" and "validHeaders b" and "validPolicy (bu_pack b)" and "compiledRegistry = Inr (bu_registry b)"
proof -
  obtain landscape priority pack where dec: "decodePackaged files = Some (landscape, priority, pack)"
    using assms by (auto simp: load_def split: option.splits prod.splits)
  let ?b = "\<lambda>registry. \<lparr>bu_landscape = landscape, bu_priority = priority, bu_pack = pack, bu_registry = registry,
                    bu_packDigest = cncfDigest (the (pf_rules files)), bu_catalogueDigest = cncfDigest (the (pf_landscape files))\<rparr>"
  obtain registry rs where b: "b = ?b registry" and reg: "compiledRegistry = Inr registry"
    and g: "validHeaders b" "allAdj validIdentity None (ld_Projects landscape)"
      "allAdj (validPriority landscape) None (pd_Priority priority)" "validPolicy pack"
      "\<forall>e\<in>set (goSlice (pk_Entries pack)). checkEntry CncfIntegrity landscape e = None" "packRuleSet b [] = Inr rs"
    using assms by (auto simp: load_def dec Let_def)
  have "sorted_wrt (<) (map pi_Slug (ld_Projects landscape))" "\<forall>p\<in>set (ld_Projects landscape). slugPattern (pi_Slug p)"
    using allAdj_mono [OF _ g(2), of "\<lambda>p x. \<not> outOfOrder pi_Slug p x \<and> slugPattern (pi_Slug x)"]
      allAdj_order [of pi_Slug "\<lambda>x. slugPattern (pi_Slug x)" "ld_Projects landscape"]
    by (simp_all add: validIdentity_def Let_def)
  moreover have "sorted_wrt (<) (pd_Priority priority)"
    using allAdj_mono [OF _ g(3), of "\<lambda>p x. \<not> outOfOrder id p x"] allAdj_order [of id "\<lambda>_. True" "pd_Priority priority"]
    by (simp add: validPriority_def)
  moreover have "wfRegistry registry"
    using reg newRegistry_wf [of compiledDefinitions _ registry] by (auto simp: compiledRegistry_def NewCompiledRegistry_def)
  ultimately show "wfBundle b" "validHeaders b" "validPolicy (bu_pack b)" "compiledRegistry = Inr (bu_registry b)"
    using g reg checkEntry_belongs [of CncfIntegrity] unfolding wfBundle_def by (auto simp: b)
qed

lemma wfBundle_rules:
  assumes "wfBundle b"
  obtains rules where "map (ruleOf \<circ> en_Rule) (packEntries b) = map Some rules" "sorted_wrt (<) (map r_ID rules)"
    "\<forall>r\<in>set rules. validateRule r (bu_registry b) = None" "list_all validReviewWindow (map en_Rule (packEntries b))"
proof -
  obtain rs where rs: "parseRulesCorpus b (map en_Rule (packEntries b)) [] = Inr rs"
    using assms by (auto simp: wfBundle_def packRuleSet_def parseRules_def)
  then obtain raw where "ParseRuleSet raw (bu_registry b) = Inr rs" using parseRulesCorpus_parsed(1) by blast
  then have "wfRules (bu_registry b) (rs_document rs)" by (rule ParseRuleSet_issued)
  then show ?thesis using that [of "rd_Rules (rs_document rs)"] parseRulesCorpus_rules [OF rs] parseRulesCorpus_parsed(2) [OF rs]
    by (simp add: wfRules_def comp_def)
qed

lemma wfBundle_entry:
  assumes "wfBundle b" and "e \<in> set (packEntries b)"
  obtains r where "ruleOf (en_Rule e) = Some r" "validateRule r (bu_registry b) = None"
proof -
  obtain rules where r: "map (ruleOf \<circ> en_Rule) (packEntries b) = map Some rules" "\<forall>r\<in>set rules. validateRule r (bu_registry b) = None"
    using wfBundle_rules [OF assms(1)] by metis
  have "ruleOf (en_Rule e) \<in> set (map Some rules)" using assms(2) unfolding r(1) [symmetric] by simp
  then show ?thesis using that r(2) by auto
qed

text \<open>The identifiers of a bundle's entries are distinct, so an identifier names one rule.\<close>

lemma wfBundle_unique:
  assumes "wfBundle b" and "e \<in> set (packEntries b)" and "e' \<in> set (packEntries b)"
    and "map_option r_ID (ruleOf (en_Rule e)) = map_option r_ID (ruleOf (en_Rule e'))"
  shows "e = e'"
proof -
  obtain rules where r: "map (ruleOf \<circ> en_Rule) (packEntries b) = map Some rules" "sorted_wrt (<) (map r_ID rules)"
    using wfBundle_rules [OF assms(1)] by metis
  have "map (\<lambda>e. map_option r_ID (ruleOf (en_Rule e))) (packEntries b) = map (map_option r_ID) (map Some rules)"
    unfolding r(1) [symmetric] by simp
  also have "distinct \<dots>" using sorted_wrt_less_distinct [OF r(2)] by (simp add: comp_def distinct_map inj_on_def)
  finally show ?thesis using assms(2-4) by (simp add: distinct_map inj_on_def)
qed

lemma ownsRuleID_iff:
  assumes "wfBundle b"
  shows "ownsRuleID b project ruleID =
    Inr (\<exists>e\<in>set (packEntries b). en_Project e = project \<and> map_option r_ID (ruleOf (en_Rule e)) = Some ruleID)"
proof -
  obtain rules where "map (ruleOf \<circ> en_Rule) (packEntries b) = map Some rules" "sorted_wrt (<) (map r_ID rules)"
    using wfBundle_rules [OF assms] by metis
  then show ?thesis unfolding ownsRuleID_def by (intro ownsRule_spec sorted_wrt_less_distinct)
qed

end
