(* ===== verification/RuleEvaluation.thy ===== *)
theory RuleEvaluation
  imports Parsing
begin

text \<open>
  The decision of one rule (\<open>constraintengine/evaluate.go\<close>: \<open>evaluateRule\<close>, \<open>evaluateMatchedRule\<close>,
  \<open>subjectAvailability\<close>, the action texts, \<open>requiredFacts\<close>, the lookups). A nil dereference of the
  source is the error \<^const>\<open>GoPanic\<close>.

  Shown here: a validated rule never panics; its claim passes every check the report gate makes on
  a claim; without current evidence it is UNKNOWN; when it is decided, it is BLOCKED exactly when
  the constraint is violated by the declared facts.
\<close>

section \<open>Lookups\<close>

definition sideOf :: "inputDocument \<Rightarrow> string \<Rightarrow> inputComponent list" where
  "sideOf input side =
     (if side = ''proposed'' then is_Components (id_Proposed input) else is_Components (id_Current input))"

definition findComponent :: "inputDocument \<Rightarrow> string \<Rightarrow> string \<Rightarrow> inputComponent option" where
  "findComponent input side componentID = List.find (\<lambda>c. ic_Component c = componentID) (sideOf input side)"

definition findFact :: "inputDocument \<Rightarrow> string \<Rightarrow> string \<Rightarrow> string \<Rightarrow> inputFact option" where
  "findFact input side componentID factID =
     (case findComponent input side componentID of
        None \<Rightarrow> None
      | Some c \<Rightarrow> List.find (\<lambda>f. if_ID f = factID) (ic_Facts c))"

definition matchesCondition :: "inputFact \<Rightarrow> factCondition \<Rightarrow> bool" where
  "matchesCondition f c =
     (case fc_BoolValue c of
        Some b \<Rightarrow> if_BoolValue f = Some b
      | None \<Rightarrow> if_EnumValue f = fc_EnumValue c)"

definition subjectAvailability :: "inputDocument \<Rightarrow> RuleTransition \<Rightarrow> MatchMode \<times> string" where
  "subjectAvailability input subject =
     (case (findComponent input ''current'' (rt_Component subject),
            findComponent input ''proposed'' (rt_Component subject)) of
        (Some current, Some proposed) \<Rightarrow>
          (let mode = matchTransition subject (ic_Version current) (ic_Version proposed) in
           if mode = MatchNone then (MatchNone, ''RULE_TRANSITION_NOT_REVIEWED'') else (mode, []))
      | _ \<Rightarrow> (MatchNone, ''RULE_SUBJECT_COMPONENT_MISSING''))"

section \<open>Action texts\<close>

definition boundedAction :: "string \<Rightarrow> string \<Rightarrow> string" where
  "boundedAction action fallback = (if publicText action then action else fallback)"

definition rangeSubjectAction :: "RuleTransition \<Rightarrow> VersionRange \<Rightarrow> string" where
  "rangeSubjectAction subject rng =
     boundedAction
       (''no rule for declared pair; reviewed range '' @ rt_Component subject @ '' from ['' @ vb_Gte (vr_From rng) @ '',''
        @ vb_Lt (vr_From rng) @ '') to ['' @ vb_Gte (vr_To rng) @ '','' @ vb_Lt (vr_To rng)
        @ ''); retain actual versions and request coverage'')
       ''no rule for declared transition; retain actual versions and request reviewed coverage''"

definition subjectAction :: "transition \<Rightarrow> string" where
  "subjectAction subject =
     boundedAction
       (''no rule for declared pair; reviewed scope '' @ tr_Component subject @ '' '' @ tr_From subject @ '' -> ''
        @ tr_To subject @ ''; retain actual versions and request coverage'')
       ''no rule for declared transition; retain actual versions and request reviewed coverage''"

definition factAction :: "factCondition \<Rightarrow> string" where
  "factAction c =
     boundedAction
       (''inspect local '' @ fc_Side c @ ''/'' @ fc_Component c @ '' and declare actual '' @ fc_FactID c @ '' or mark missing'')
       ''inspect local rule fact and declare its actual value or mark missing''"

definition dependencyAction :: "componentCheck \<Rightarrow> string" where
  "dependencyAction d =
     boundedAction
       (''inspect local '' @ cc_Side d @ ''/'' @ cc_Component d
        @ '' and declare actual version or mark missing; reviewed requirement '' @ cc_Comparison d @ '' '' @ cc_Version d)
       ''inspect local rule dependency and declare its actual version or mark missing''"

definition disclosedAction :: "Claim \<Rightarrow> rule \<Rightarrow> string" where
  "disclosedAction claim r =
     (let full = boundedAction (cl_NextAction claim @ ''; matched by reviewed range; anchor pair ''
                   @ tr_From (r_Subject r) @ '' -> '' @ tr_To (r_Subject r)) []
      in if full = [] then boundedAction (cl_NextAction claim @ ''; matched by reviewed range'') (cl_NextAction claim)
         else full)"

definition discloseRangeMatch :: "Claim \<Rightarrow> rule \<Rightarrow> Claim result" where
  "discloseRangeMatch claim r =
     (case r_Range r of
        None \<Rightarrow> Inl (GoPanic ''nil range'')
      | Some rng \<Rightarrow>
          Inr (claim\<lparr>cl_SubjectMatch := Some \<lparr>sm_Mode = subjectMatchModeRange, sm_AnchorFrom = tr_From (r_Subject r),
                        sm_AnchorTo = tr_To (r_Subject r), sm_From = vr_From rng, sm_To = vr_To rng\<rparr>,
                      cl_NextAction := disclosedAction claim r\<rparr>))"

section \<open>Required facts\<close>

definition requiredFactKey :: "RequiredFact \<Rightarrow> string" where
  "requiredFactKey f = rf_Side f @ [CHR 0x00] @ rf_Component f @ [CHR 0x00] @ rf_FactID f"

definition requiredFactOf :: "factCondition \<Rightarrow> RequiredFact" where
  "requiredFactOf c = \<lparr>rf_Side = fc_Side c, rf_Component = fc_Component c, rf_FactID = fc_FactID c\<rparr>"

fun dedupeFacts :: "string list \<Rightarrow> factCondition list \<Rightarrow> RequiredFact list" where
  "dedupeFacts seen [] = []"
| "dedupeFacts seen (c # cs) =
     (let f = requiredFactOf c; key = requiredFactKey f in
      if key \<in> set seen then dedupeFacts seen cs else f # dedupeFacts (key # seen) cs)"

definition factTriple :: "RequiredFact \<Rightarrow> string \<times> string \<times> string" where
  "factTriple f = (rf_Side f, rf_Component f, rf_FactID f)"

definition requiredFacts :: "rule \<Rightarrow> RequiredFact list" where
  "requiredFacts r =
     sort_key factTriple
       (dedupeFacts [] (r_AppliesWhen r @ (case r_Condition r of None \<Rightarrow> [] | Some c \<Rightarrow> [c])))"

section \<open>Evaluating a rule\<close>

definition unknown :: "Claim \<Rightarrow> string \<Rightarrow> string \<Rightarrow> Claim" where
  "unknown claim reason action =
     claim\<lparr>cl_Status := ''UNKNOWN'', cl_ReasonCode := reason, cl_NextAction := action\<rparr>"

text \<open>The loop over \<open>rule.AppliesWhen\<close>: the claim it returns early, if any.\<close>

fun applicabilityLoop :: "inputDocument \<Rightarrow> Claim \<Rightarrow> factCondition list \<Rightarrow> Claim option" where
  "applicabilityLoop input claim [] = None"
| "applicabilityLoop input claim (a # as) =
     (case findFact input (fc_Side a) (fc_Component a) (fc_FactID a) of
        None \<Rightarrow> Some (unknown claim ''RULE_APPLICABILITY_FACT_UNAVAILABLE'' (factAction a))
      | Some f \<Rightarrow>
          if if_State f \<noteq> ''declared'' then Some (unknown claim ''RULE_APPLICABILITY_FACT_UNAVAILABLE'' (factAction a))
          else if \<not> matchesCondition f a then Some (unknown claim ''RULE_APPLICABILITY_NOT_MATCHED'' (factAction a))
          else applicabilityLoop input claim as)"

definition dependencyHolds :: "componentCheck \<Rightarrow> string \<Rightarrow> bool" where
  "dependencyHolds d version =
     (case compareVersions version (cc_Version d) of
        None \<Rightarrow> False
      | Some comparison \<Rightarrow>
          cc_Comparison d = ''eq'' \<and> comparison = 0 \<or> cc_Comparison d = ''gte'' \<and> 0 \<le> comparison \<or>
          cc_Comparison d = ''lte'' \<and> comparison \<le> 0 \<or> cc_Comparison d = ''lt'' \<and> comparison < 0)"

definition evaluateOperator :: "inputDocument \<Rightarrow> rule \<Rightarrow> Claim \<Rightarrow> Claim result" where
  "evaluateOperator input r claim =
     (if r_Operator r = ''forbid_predicate_value'' then
        (case r_Condition r of
           None \<Rightarrow> Inl (GoPanic ''nil condition'')
         | Some c \<Rightarrow>
             (case findFact input (fc_Side c) (fc_Component c) (fc_FactID c) of
                None \<Rightarrow> Inr (unknown claim ''RULE_FACT_UNAVAILABLE'' (factAction c))
              | Some f \<Rightarrow>
                  if if_State f \<noteq> ''declared'' then Inr (unknown claim ''RULE_FACT_UNAVAILABLE'' (factAction c))
                  else if matchesCondition f c then Inr (claim\<lparr>cl_Status := ''BLOCKED''\<rparr>)
                  else Inr (claim\<lparr>cl_Status := ''PASS''\<rparr>)))
      else if r_Operator r = ''require_component_version'' then
        (case r_Dependency r of
           None \<Rightarrow> Inl (GoPanic ''nil dependency'')
         | Some d \<Rightarrow>
             (case findComponent input (cc_Side d) (cc_Component d) of
                None \<Rightarrow> Inr (unknown claim ''RULE_DEPENDENCY_COMPONENT_MISSING'' (dependencyAction d))
              | Some component \<Rightarrow>
                  if \<not> dependencyHolds d (ic_Version component) then Inr (claim\<lparr>cl_Status := ''BLOCKED''\<rparr>)
                  else Inr (claim\<lparr>cl_Status := ''PASS''\<rparr>)))
      else if r_Operator r = ''require_intermediate_version'' then Inr (claim\<lparr>cl_Status := ''BLOCKED''\<rparr>)
      else if r_Operator r = ''forbid_target_version'' then Inr (claim\<lparr>cl_Status := ''BLOCKED''\<rparr>)
      else Inr (claim\<lparr>cl_Status := ''UNKNOWN'', cl_ReasonCode := ''RULE_OPERATOR_UNSUPPORTED''\<rparr>))"

definition evaluateMatchedRule :: "inputDocument \<Rightarrow> rule \<Rightarrow> Claim \<Rightarrow> Claim result" where
  "evaluateMatchedRule input r claim =
     (case applicabilityLoop input claim (r_AppliesWhen r) of
        Some c \<Rightarrow> Inr c
      | None \<Rightarrow> evaluateOperator input r claim)"

definition initialClaim :: "rule \<Rightarrow> Claim" where
  "initialClaim r =
     \<lparr>cl_RuleID = r_ID r, cl_RuleDigest = digestJSON (encRule r), cl_Operator = r_Operator r, cl_Status = [],
      cl_ReasonCode = r_ReasonCode r, cl_NextAction = r_NextAction r,
      cl_EvidenceReviewedAt = ev_ReviewedAt (r_Evidence r), cl_EvidenceValidUntil = ev_ValidUntil (r_Evidence r),
      cl_EvidenceFreshness = [], cl_RequiredFacts = requiredFacts r, cl_Sources = ev_Sources (r_Evidence r),
      cl_SubjectMatch = None\<rparr>"

definition evaluateRule :: "inputDocument \<Rightarrow> rule \<Rightarrow> goTime \<Rightarrow> Claim result" where
  "evaluateRule input r now =
     (let claim = initialClaim r in
      if ev_State (r_Evidence r) = ''withdrawn'' then
        Inr (unknown (claim\<lparr>cl_EvidenceFreshness := ''withdrawn''\<rparr>) ''RULE_EVIDENCE_WITHDRAWN''
               ''select later declared rule source references with active evidence'')
      else if timeBefore now (timeOrZero (parseUTC (ev_ReviewedAt (r_Evidence r)))) then
        Inr (unknown (claim\<lparr>cl_EvidenceFreshness := ''clock_before_review''\<rparr>) ''RULE_EVIDENCE_CLOCK_BEFORE_REVIEW''
               ''correct the explicit UTC evaluation time and reassess'')
      else if \<not> timeBefore now (timeOrZero (parseUTC (ev_ValidUntil (r_Evidence r)))) then
        Inr (unknown (claim\<lparr>cl_EvidenceFreshness := ''stale''\<rparr>) ''RULE_EVIDENCE_STALE''
               ''select later declared rule source references with current evidence'')
      else
        (let claim = claim\<lparr>cl_EvidenceFreshness := ''current''\<rparr>;
             (mode, reason) = subjectAvailability input (ruleTransitionOfRule r) in
         if reason \<noteq> [] then
           Inr (unknown claim reason
                  (case r_Range r of
                     None \<Rightarrow> subjectAction (r_Subject r)
                   | Some rng \<Rightarrow> rangeSubjectAction (ruleTransitionOfRule r) rng))
         else if mode = MatchRange then
           (case evaluateMatchedRule input r claim of
              Inl e \<Rightarrow> Inl e
            | Inr c \<Rightarrow> discloseRangeMatch c r)
         else evaluateMatchedRule input r claim))"

section \<open>The checks of the report gate on a claim\<close>

definition validRequiredFacts :: "RequiredFact list \<Rightarrow> bool" where
  "validRequiredFacts facts =
     (length facts \<le> 9 \<and>
      allAdj (\<lambda>p f. \<not> (outOfOrder requiredFactKey p f \<or> rf_Side f \<noteq> ''current'' \<and> rf_Side f \<noteq> ''proposed'' \<or>
                      \<not> componentRE (rf_Component f) \<or> \<not> factIDRE (rf_FactID f))) None facts)"

definition validClaim :: "Claim \<Rightarrow> bool" where
  "validClaim claim =
     (case (parseUTC (cl_EvidenceReviewedAt claim), parseUTC (cl_EvidenceValidUntil claim)) of
        (Inr reviewed, Inr validUntil) \<Rightarrow>
          \<not> (\<not> idRE (cl_RuleID claim) \<or> \<not> digestRE (cl_RuleDigest claim) \<or>
             cl_Status claim \<noteq> ''PASS'' \<and> cl_Status claim \<noteq> ''BLOCKED'' \<and> cl_Status claim \<noteq> ''UNKNOWN'' \<or>
             \<not> reasonRE (cl_ReasonCode claim) \<or> \<not> publicText (cl_NextAction claim) \<or>
             \<not> validRequiredFacts (cl_RequiredFacts claim) \<or> \<not> timeBefore reviewed validUntil \<or>
             cl_EvidenceFreshness claim \<noteq> ''current'' \<and> cl_EvidenceFreshness claim \<noteq> ''stale'' \<and>
             cl_EvidenceFreshness claim \<noteq> ''withdrawn'' \<and> cl_EvidenceFreshness claim \<noteq> ''clock_before_review'')
      | _ \<Rightarrow> False)"

section \<open>Required facts are canonical\<close>

text \<open>
  The sort compares (side, component, fact id); the gate compares the NUL-separated key. The two
  orders agree because neither side nor component contains a NUL.
\<close>

lemma nul_least: "c \<noteq> CHR 0x00 \<Longrightarrow> CHR 0x00 < c"
proof -
  assume "c \<noteq> CHR 0x00"
  then have "byte c \<noteq> byte (CHR 0x00)" unfolding of_char_eq_iff .
  then show ?thesis unfolding less_char_def by simp
qed

definition regularFact :: "RequiredFact \<Rightarrow> bool" where
  "regularFact f \<longleftrightarrow> (rf_Side f = ''current'' \<or> rf_Side f = ''proposed'') \<and> componentRE (rf_Component f) \<and> factIDRE (rf_FactID f)"

lemma componentRE_no_nul: 
  assumes c: "componentRE s"
  shows "CHR 0x00 \<notin> set s"
proof -
  have "take 4 s = ''pkg:''" using c unfolding componentRE_def hasPrefix_def by (simp add: eval_nat_numeral)
  then have "s = ''pkg:'' @ drop 4 s" by (metis append_take_drop_id)
  moreover have "CHR 0x00 \<notin> set (drop 4 s)"
    using c by (auto simp: componentRE_def headAndTail_def list_all_iff isLower_def isDigit_def split: list.splits)
  moreover have "CHR 0x00 \<notin> set ''pkg:''" by simp
  ultimately show ?thesis by (metis Un_iff set_append)
qed

lemma regularFact_order:
  assumes "regularFact f" and "regularFact g"
  shows "requiredFactKey f < requiredFactKey g \<longleftrightarrow> factTriple f < factTriple g"
    and "requiredFactKey f = requiredFactKey g \<longleftrightarrow> factTriple f = factTriple g"
proof -
  have n: "CHR 0x00 \<notin> set (rf_Side h) \<and> CHR 0x00 \<notin> set (rf_Component h)" if "regularFact h" for h
    using that componentRE_no_nul by (auto simp: regularFact_def)
  have least: "\<forall>x\<in>set w. CHR 0x00 < x" if "CHR 0x00 \<notin> set w" for w
    using that nul_least by (metis (full_types))
  show "requiredFactKey f < requiredFactKey g \<longleftrightarrow> factTriple f < factTriple g"
  proof -
    have l: "\<forall>x\<in>set (rf_Side f). CHR 0x00 < x" "\<forall>x\<in>set (rf_Side g). CHR 0x00 < x"
      "\<forall>x\<in>set (rf_Component f). CHR 0x00 < x" "\<forall>x\<in>set (rf_Component g). CHR 0x00 < x"
      using n assms least by blast+
    show ?thesis
      unfolding requiredFactKey_def factTriple_def append_Cons append_Nil sep_key_less [OF l(1,2)]
        sep_key_less [OF l(3,4)] less_prod_simp by (auto simp: order_le_less)
  qed
  show "requiredFactKey f = requiredFactKey g \<longleftrightarrow> factTriple f = factTriple g"
    using n assms by (simp add: requiredFactKey_def factTriple_def sep_key_eq)
qed

lemma dedupeFacts_props:
  "set (dedupeFacts seen cs) \<subseteq> requiredFactOf ` set cs \<and> length (dedupeFacts seen cs) \<le> length cs \<and>
   distinct (map requiredFactKey (dedupeFacts seen cs)) \<and>
   requiredFactKey ` set (dedupeFacts seen cs) \<inter> set seen = {} \<and>
   requiredFactKey ` requiredFactOf ` set cs \<subseteq> requiredFactKey ` set (dedupeFacts seen cs) \<union> set seen"
proof (induction cs arbitrary: seen)
  case Nil
  then show ?case by simp
next
  case (Cons c cs)
  show ?case
    using Cons.IH [of seen] Cons.IH [of "requiredFactKey (requiredFactOf c) # seen"]
    by (auto simp: Let_def)
qed

definition ruleConditions :: "rule \<Rightarrow> factCondition list" where
  "ruleConditions r = r_AppliesWhen r @ (case r_Condition r of None \<Rightarrow> [] | Some c \<Rightarrow> [c])"

lemma requiredFacts_sorted:
  assumes "\<forall>c\<in>set (ruleConditions r). regularFact (requiredFactOf c)"
  shows "sorted_wrt (<) (map requiredFactKey (requiredFacts r))"
    and "set (requiredFacts r) = requiredFactOf ` set (ruleConditions r)"
    and "length (requiredFacts r) \<le> length (ruleConditions r)"
proof -
  let ?d = "dedupeFacts [] (ruleConditions r)"
  have rf: "requiredFacts r = sort_key factTriple ?d"
    by (simp add: requiredFacts_def ruleConditions_def)
  note d = dedupeFacts_props [of "[]" "ruleConditions r"]
  have reg: "\<forall>f\<in>set (requiredFacts r). regularFact f" using assms d unfolding rf by auto
  have "inj_on factTriple (set ?d)"
    using d reg unfolding rf by (auto simp: distinct_map inj_on_def regularFact_order(2) [symmetric])
  then have "distinct (map factTriple (requiredFacts r))"
    using d unfolding rf by (simp add: distinct_map)
  then have "sorted_wrt (<) (map factTriple (requiredFacts r))"
    unfolding rf by (simp add: strict_sorted_iff)
  then show "sorted_wrt (<) (map requiredFactKey (requiredFacts r))"
    using reg unfolding sorted_wrt_map
    by (elim sorted_wrt_mono_rel [rotated]) (simp add: regularFact_order(1))
  show "length (requiredFacts r) \<le> length (ruleConditions r)" using d unfolding rf by simp
  have "f \<in> set ?d" if "f \<in> requiredFactOf ` set (ruleConditions r)" for f
  proof -
    have "requiredFactKey f \<in> requiredFactKey ` set ?d" using d that by auto
    then obtain g where g: "g \<in> set ?d" "requiredFactKey g = requiredFactKey f" by auto
    have "regularFact f" "regularFact g" using assms that reg g(1) unfolding rf by auto
    then have "factTriple g = factTriple f" using g(2) regularFact_order(2) by blast
    then have "g = f" by (cases f; cases g) (simp add: factTriple_def)
    with g show ?thesis by simp
  qed
  then show "set (requiredFacts r) = requiredFactOf ` set (ruleConditions r)" using d unfolding rf by auto
qed

lemma requiredFacts_valid:
  assumes "validateRule r registry = None" and "wfRegistry registry"
  shows "validRequiredFacts (requiredFacts r)"
proof -
  note v = validateRule_facts [OF assms(1)]
  have cond: "\<forall>c\<in>set (ruleConditions r). validateCondition c registry = None"
    using v(9) by (auto simp: ruleConditions_def split: option.splits intro: validateOperator_cases [OF v(10)])
  have reg: "\<forall>c\<in>set (ruleConditions r). regularFact (requiredFactOf c)"
    using cond validateCondition_fact [OF _ assms(2)] by (auto simp: regularFact_def requiredFactOf_def)
  note f = requiredFacts_sorted [OF reg]
  have all: "\<forall>f\<in>set (requiredFacts r). regularFact f" using f(2) reg by auto
  have len: "length (requiredFacts r) \<le> 9"
    using f(3) v(8) by (simp add: ruleConditions_def split: option.splits)
  have "allAdj (\<lambda>p f. \<not> outOfOrder requiredFactKey p f \<and> regularFact f) None (requiredFacts r)"
    using f(1) all by (simp add: allAdj_order)
  then have "allAdj (\<lambda>p f. \<not> (outOfOrder requiredFactKey p f \<or> rf_Side f \<noteq> ''current'' \<and> rf_Side f \<noteq> ''proposed'' \<or>
      \<not> componentRE (rf_Component f) \<or> \<not> factIDRE (rf_FactID f))) None (requiredFacts r)"
    by (rule allAdj_mono [rotated]) (auto simp: regularFact_def)
  with len show ?thesis by (simp add: validRequiredFacts_def)
qed

section \<open>What a claim means\<close>

definition evidenceCurrent :: "rule \<Rightarrow> goTime \<Rightarrow> bool" where
  "evidenceCurrent r now \<longleftrightarrow>
     ev_State (r_Evidence r) \<noteq> ''withdrawn'' \<and>
     \<not> timeBefore now (timeOrZero (parseUTC (ev_ReviewedAt (r_Evidence r)))) \<and>
     timeBefore now (timeOrZero (parseUTC (ev_ValidUntil (r_Evidence r))))"

definition declaredFact :: "inputDocument \<Rightarrow> factCondition \<Rightarrow> inputFact option" where
  "declaredFact input c =
     (case findFact input (fc_Side c) (fc_Component c) (fc_FactID c) of
        Some f \<Rightarrow> if if_State f = ''declared'' then Some f else None
      | None \<Rightarrow> None)"

text \<open>Every applicability condition is declared and matches.\<close>

definition conditionsHold :: "inputDocument \<Rightarrow> rule \<Rightarrow> bool" where
  "conditionsHold input r \<longleftrightarrow>
     (\<forall>a\<in>set (r_AppliesWhen r). \<exists>f. declaredFact input a = Some f \<and> matchesCondition f a)"

definition subjectMatches :: "inputDocument \<Rightarrow> rule \<Rightarrow> bool" where
  "subjectMatches input r \<longleftrightarrow>
     (\<exists>current proposed.
        findComponent input ''current'' (tr_Component (r_Subject r)) = Some current \<and>
        findComponent input ''proposed'' (tr_Component (r_Subject r)) = Some proposed \<and>
        matchTransition (ruleTransitionOfRule r) (ic_Version current) (ic_Version proposed) \<noteq> MatchNone)"

text \<open>The constraint the operator states is decided by the declared input, and how.\<close>

definition constraintViolated :: "inputDocument \<Rightarrow> rule \<Rightarrow> bool option" where
  "constraintViolated input r =
     (case r_Condition r of
        Some c \<Rightarrow> map_option (\<lambda>f. matchesCondition f c) (declaredFact input c)
      | None \<Rightarrow> (case r_Dependency r of
            Some d \<Rightarrow> map_option (\<lambda>c. \<not> dependencyHolds d (ic_Version c)) (findComponent input (cc_Side d) (cc_Component d))
          | None \<Rightarrow> Some True))"

lemma applicabilityLoop_None:
  "applicabilityLoop input claim as = None \<longleftrightarrow>
     (\<forall>a\<in>set as. \<exists>f. declaredFact input a = Some f \<and> matchesCondition f a)"
  by (induction as) (auto simp: declaredFact_def split: option.splits)

lemma applicabilityLoop_Some:
  "applicabilityLoop input claim as = Some c \<Longrightarrow>
     \<exists>a reason. c = unknown claim reason (factAction a) \<and>
       reason \<in> {''RULE_APPLICABILITY_FACT_UNAVAILABLE'', ''RULE_APPLICABILITY_NOT_MATCHED''}"
  by (induction as) (auto split: option.splits if_splits)

lemma conditionsHold_code [code]:
  "conditionsHold input r =
     list_all (\<lambda>a. case declaredFact input a of Some f \<Rightarrow> matchesCondition f a | None \<Rightarrow> False) (r_AppliesWhen r)"
  by (auto simp: conditionsHold_def list_all_iff split: option.splits)

lemma subjectAvailability_iff: "snd (subjectAvailability input (ruleTransitionOfRule r)) = [] \<longleftrightarrow> subjectMatches input r"
  by (auto simp: subjectAvailability_def subjectMatches_def Let_def split: option.splits if_splits)

lemma subjectMatches_code [code]:
  "subjectMatches input r = (snd (subjectAvailability input (ruleTransitionOfRule r)) = [])"
  by (rule subjectAvailability_iff [symmetric])

lemma subjectAvailability_reason:
  "snd (subjectAvailability input s) \<in> {[], ''RULE_TRANSITION_NOT_REVIEWED'', ''RULE_SUBJECT_COMPONENT_MISSING''}"
  by (auto simp: subjectAvailability_def Let_def split: option.splits)

definition rangeMatched :: "inputDocument \<Rightarrow> rule \<Rightarrow> bool" where
  "rangeMatched input r \<longleftrightarrow> fst (subjectAvailability input (ruleTransitionOfRule r)) = MatchRange"

lemma rangeMatched_range: "rangeMatched input r \<Longrightarrow> \<exists>rng. r_Range r = Some rng"
  by (auto simp: rangeMatched_def subjectAvailability_def matchTransition_def Let_def
      split: option.splits if_splits)

text \<open>The engine's own reason codes for an applicable rule it cannot decide.\<close>

definition undecidedReasons :: "string list" where
  "undecidedReasons =
     [''RULE_EVIDENCE_WITHDRAWN'', ''RULE_EVIDENCE_CLOCK_BEFORE_REVIEW'', ''RULE_EVIDENCE_STALE'',
      ''RULE_FACT_UNAVAILABLE'', ''RULE_DEPENDENCY_COMPONENT_MISSING'']"

definition excludedReasons :: "string list" where
  "excludedReasons =
     [''RULE_TRANSITION_NOT_REVIEWED'', ''RULE_SUBJECT_COMPONENT_MISSING'',
      ''RULE_APPLICABILITY_FACT_UNAVAILABLE'', ''RULE_APPLICABILITY_NOT_MATCHED'']"

lemma engineReasons_valid: "\<forall>s\<in>set (undecidedReasons @ excludedReasons). reasonRE s"
  by code_simp

lemma evaluateOperator_validated:
  assumes "validateOperator r registry = None"
  shows "evaluateOperator input r claim =
    Inr (case constraintViolated input r of
           Some True \<Rightarrow> claim\<lparr>cl_Status := ''BLOCKED''\<rparr>
         | Some False \<Rightarrow> claim\<lparr>cl_Status := ''PASS''\<rparr>
         | None \<Rightarrow> (case r_Condition r of
               Some c \<Rightarrow> unknown claim ''RULE_FACT_UNAVAILABLE'' (factAction c)
             | None \<Rightarrow> unknown claim ''RULE_DEPENDENCY_COMPONENT_MISSING'' (dependencyAction (the (r_Dependency r)))))"
  using assms
  by (cases rule: validateOperator_cases)
     (auto simp: evaluateOperator_def constraintViolated_def declaredFact_def split: option.splits)

lemma factAction_public: "publicText (factAction c)"
proof -
  have "publicText ''inspect local rule fact and declare its actual value or mark missing''" by code_simp
  then show ?thesis by (simp add: factAction_def boundedAction_def)
qed

lemma dependencyAction_public: "publicText (dependencyAction d)"
proof -
  have "publicText ''inspect local rule dependency and declare its actual version or mark missing''" by code_simp
  then show ?thesis by (simp add: dependencyAction_def boundedAction_def)
qed

lemma subjectActions_public: "publicText (subjectAction t)" "publicText (rangeSubjectAction s rng)"
proof -
  have "publicText ''no rule for declared transition; retain actual versions and request reviewed coverage''" by code_simp
  then show "publicText (subjectAction t)" "publicText (rangeSubjectAction s rng)"
    by (simp_all add: subjectAction_def rangeSubjectAction_def boundedAction_def)
qed

lemma evidenceActions_public:
  "publicText ''select later declared rule source references with active evidence''"
  "publicText ''correct the explicit UTC evaluation time and reassess''"
  "publicText ''select later declared rule source references with current evidence''"
  by code_simp+

lemma disclosedAction_public: "publicText (cl_NextAction c) \<Longrightarrow> publicText (disclosedAction c r)"
  unfolding disclosedAction_def Let_def boundedAction_def by (simp del: append.simps split: if_split)

definition rangeDisclosure :: "rule \<Rightarrow> SubjectMatch option" where
  "rangeDisclosure r =
     map_option (\<lambda>rng. \<lparr>sm_Mode = subjectMatchModeRange, sm_AnchorFrom = tr_From (r_Subject r),
       sm_AnchorTo = tr_To (r_Subject r), sm_From = vr_From rng, sm_To = vr_To rng\<rparr>) (r_Range r)"

text \<open>The verdict of a matched rule: its status, reason code and action.\<close>

definition verdictOK :: "inputDocument \<Rightarrow> rule \<Rightarrow> string \<Rightarrow> string \<Rightarrow> string \<Rightarrow> bool" where
  "verdictOK input r status reason action \<longleftrightarrow>
     reasonRE reason \<and> publicText action \<and>
     (if conditionsHold input r
      then (case constraintViolated input r of
              Some True \<Rightarrow> status = ''BLOCKED''
            | Some False \<Rightarrow> status = ''PASS''
            | None \<Rightarrow> status = ''UNKNOWN'' \<and> reason \<in> set undecidedReasons)
      else status = ''UNKNOWN'' \<and> reason \<noteq> ''RULE_TRANSITION_NOT_REVIEWED'')"

lemma evaluateMatchedRule_ok:
  assumes "validateOperator r registry = None" and "reasonRE (cl_ReasonCode claim)" and "publicText (cl_NextAction claim)"
  shows "\<exists>status reason action. verdictOK input r status reason action \<and>
    evaluateMatchedRule input r claim =
      Inr (claim\<lparr>cl_Status := status, cl_ReasonCode := reason, cl_NextAction := action\<rparr>)"
proof (cases "applicabilityLoop input claim (r_AppliesWhen r)")
  case (Some c)
  then obtain a reason where c: "c = unknown claim reason (factAction a)"
    "reason \<in> {''RULE_APPLICABILITY_FACT_UNAVAILABLE'', ''RULE_APPLICABILITY_NOT_MATCHED''}"
    using applicabilityLoop_Some by blast
  have "\<not> conditionsHold input r"
    using Some applicabilityLoop_None [of input claim "r_AppliesWhen r"] by (auto simp: conditionsHold_def)
  moreover have "reasonRE reason" using c(2) engineReasons_valid by (auto simp: excludedReasons_def)
  ultimately have "verdictOK input r ''UNKNOWN'' reason (factAction a)"
    using c(2) by (auto simp: verdictOK_def factAction_public)
  with Some c(1) show ?thesis unfolding evaluateMatchedRule_def unknown_def by auto
next
  case None
  then have hold: "conditionsHold input r" by (simp add: conditionsHold_def applicabilityLoop_None)
  have re: "reasonRE ''RULE_FACT_UNAVAILABLE''" "reasonRE ''RULE_DEPENDENCY_COMPONENT_MISSING''"
    using engineReasons_valid by (auto simp: undecidedReasons_def)
  show ?thesis
  proof (cases "constraintViolated input r")
    case (Some v)
    with hold assms(2,3) have "verdictOK input r (if v then ''BLOCKED'' else ''PASS'') (cl_ReasonCode claim) (cl_NextAction claim)"
      by (cases v) (simp_all add: verdictOK_def)
    with Some None show ?thesis
      unfolding evaluateMatchedRule_def evaluateOperator_validated [OF assms(1)]
      by (intro exI conjI) (assumption, cases v, auto)
  next
    case undecided: None
    let ?reason = "if r_Condition r \<noteq> None then ''RULE_FACT_UNAVAILABLE'' else ''RULE_DEPENDENCY_COMPONENT_MISSING''"
    let ?action = "case r_Condition r of Some c \<Rightarrow> factAction c | None \<Rightarrow> dependencyAction (the (r_Dependency r))"
    have "verdictOK input r ''UNKNOWN'' ?reason ?action"
      using undecided hold re
      by (auto simp: verdictOK_def undecidedReasons_def factAction_public dependencyAction_public split: option.split)
    with undecided None show ?thesis
      unfolding evaluateMatchedRule_def evaluateOperator_validated [OF assms(1)] unknown_def
      by (intro exI conjI) (assumption, auto split: option.split)
  qed
qed

text \<open>
  The same for the whole rule: no current evidence, or no match of the subject, is UNKNOWN under an
  engine reason; otherwise the verdict of the matched rule, disclosed when a range matched.
\<close>

definition freshnessOK :: "string \<Rightarrow> bool" where
  "freshnessOK freshness \<longleftrightarrow>
     freshness = ''current'' \<or> freshness = ''stale'' \<or> freshness = ''withdrawn'' \<or> freshness = ''clock_before_review''"

definition claimOK :: "inputDocument \<Rightarrow> rule \<Rightarrow> goTime \<Rightarrow> Claim \<Rightarrow> bool" where
  "claimOK input r now c \<longleftrightarrow>
     (\<exists>status reason action freshness.
        c = (initialClaim r)\<lparr>cl_Status := status, cl_ReasonCode := reason, cl_NextAction := action,
              cl_EvidenceFreshness := freshness,
              cl_SubjectMatch := (if evidenceCurrent r now \<and> rangeMatched input r then rangeDisclosure r else None)\<rparr> \<and>
        freshnessOK freshness \<and>
        (freshness = ''current'' \<longleftrightarrow> evidenceCurrent r now) \<and>
        (if evidenceCurrent r now \<and> subjectMatches input r then verdictOK input r status reason action
         else status = ''UNKNOWN'' \<and> reasonRE reason \<and> publicText action \<and>
              (if evidenceCurrent r now then reason \<in> set excludedReasons else reason \<in> set undecidedReasons)))"

lemma staleClaim_ok:
  assumes "\<not> evidenceCurrent r now" and "reason \<in> set undecidedReasons" and "publicText action"
    and "freshnessOK freshness" and "freshness \<noteq> ''current''"
  shows "claimOK input r now (unknown ((initialClaim r)\<lparr>cl_EvidenceFreshness := freshness\<rparr>) reason action)"
  unfolding claimOK_def
  using assms engineReasons_valid
  by (intro exI [of _ "''UNKNOWN''"] exI [of _ reason] exI [of _ action] exI [of _ freshness])
     (simp add: unknown_def initialClaim_def)

lemma rangeMatched_subject: "rangeMatched input r \<Longrightarrow> subjectMatches input r"
  by (auto simp: rangeMatched_def subjectAvailability_def subjectMatches_def Let_def split: option.splits if_splits)

lemma evaluateRule_unmatched:
  assumes "evidenceCurrent r now" and "\<not> subjectMatches input r"
  shows "\<exists>c. evaluateRule input r now = Inr c \<and> claimOK input r now c"
proof -
  obtain mode reason where sa: "subjectAvailability input (ruleTransitionOfRule r) = (mode, reason)" by fastforce
  then have ne: "reason \<noteq> []" using subjectAvailability_iff [of input r] assms(2) by simp
  then have reason: "reason \<in> set excludedReasons"
    using subjectAvailability_reason [of input "ruleTransitionOfRule r"] sa by (auto simp: excludedReasons_def)
  let ?action = "case r_Range r of None \<Rightarrow> subjectAction (r_Subject r) | Some rng \<Rightarrow> rangeSubjectAction (ruleTransitionOfRule r) rng"
  have ev: "evaluateRule input r now = Inr (unknown ((initialClaim r)\<lparr>cl_EvidenceFreshness := ''current''\<rparr>) reason ?action)"
    using assms(1) ne unfolding evaluateRule_def evidenceCurrent_def sa by (simp add: Let_def)
  have nr: "\<not> rangeMatched input r" using rangeMatched_subject assms(2) by blast
  have pub: "publicText ?action" by (simp add: subjectActions_public split: option.split)
  have "claimOK input r now (unknown ((initialClaim r)\<lparr>cl_EvidenceFreshness := ''current''\<rparr>) reason ?action)"
    unfolding claimOK_def
    using assms nr pub reason engineReasons_valid
    by (intro exI [of _ "''UNKNOWN''"] exI [of _ reason] exI [of _ ?action] exI [of _ "''current''"])
       (simp add: unknown_def initialClaim_def freshnessOK_def)
  with ev show ?thesis by blast
qed

lemma evaluateRule_matched:
  assumes "validateRule r registry = None" and "evidenceCurrent r now" and "subjectMatches input r"
  shows "\<exists>c. evaluateRule input r now = Inr c \<and> claimOK input r now c"
proof -
  let ?claim = "(initialClaim r)\<lparr>cl_EvidenceFreshness := ''current''\<rparr>"
  note v = validateRule_facts [OF assms(1)]
  obtain status reason action where m: "verdictOK input r status reason action"
    "evaluateMatchedRule input r ?claim = Inr (?claim\<lparr>cl_Status := status, cl_ReasonCode := reason, cl_NextAction := action\<rparr>)"
    using evaluateMatchedRule_ok [OF v(10), of ?claim input] v(2,3) by (auto simp: initialClaim_def)
  obtain mode where sa: "subjectAvailability input (ruleTransitionOfRule r) = (mode, [])"
    using subjectAvailability_iff [of input r] assms(3) by (metis prod.collapse)
  let ?c = "?claim\<lparr>cl_Status := status, cl_ReasonCode := reason, cl_NextAction := action\<rparr>"
  have ev: "evaluateRule input r now = (if mode = MatchRange then discloseRangeMatch ?c r else Inr ?c)"
    using assms(2) m(2) unfolding evaluateRule_def evidenceCurrent_def sa by (simp add: Let_def)
  show ?thesis
  proof (cases "mode = MatchRange")
    case False
    then have "\<not> rangeMatched input r" by (simp add: rangeMatched_def sa)
    with assms(2,3) m(1) have "claimOK input r now ?c"
      unfolding claimOK_def
      by (intro exI [of _ status] exI [of _ reason] exI [of _ action] exI [of _ "''current''"])
         (simp add: initialClaim_def freshnessOK_def)
    with ev False show ?thesis by simp
  next
    case True
    then have rm: "rangeMatched input r" by (simp add: rangeMatched_def sa)
    then obtain rng where rng: "r_Range r = Some rng" using rangeMatched_range by blast
    let ?d = "?c\<lparr>cl_SubjectMatch := rangeDisclosure r, cl_NextAction := disclosedAction ?c r\<rparr>"
    have dm: "discloseRangeMatch ?c r = Inr ?d" by (simp add: discloseRangeMatch_def rangeDisclosure_def rng)
    have "publicText (cl_NextAction ?c)" using m(1) by (simp add: verdictOK_def)
    then have "verdictOK input r status reason (disclosedAction ?c r)"
      using m(1) disclosedAction_public [of ?c r] by (simp add: verdictOK_def)
    with assms(2,3) rm have "claimOK input r now ?d"
      unfolding claimOK_def
      by (intro exI [of _ status] exI [of _ reason] exI [of _ "disclosedAction ?c r"] exI [of _ "''current''"])
         (simp add: initialClaim_def freshnessOK_def)
    with ev dm True show ?thesis by simp
  qed
qed

lemma evaluateRule_ok:
  assumes "validateRule r registry = None"
  shows "\<exists>c. evaluateRule input r now = Inr c \<and> claimOK input r now c"
proof (cases "evidenceCurrent r now")
  case True
  then show ?thesis using evaluateRule_unmatched evaluateRule_matched [OF assms] by blast
next
  case False
  have mem: "''RULE_EVIDENCE_WITHDRAWN'' \<in> set undecidedReasons" "''RULE_EVIDENCE_CLOCK_BEFORE_REVIEW'' \<in> set undecidedReasons"
    "''RULE_EVIDENCE_STALE'' \<in> set undecidedReasons" by (simp_all add: undecidedReasons_def)
  from False consider "ev_State (r_Evidence r) = ''withdrawn''"
    | "ev_State (r_Evidence r) \<noteq> ''withdrawn''" "timeBefore now (timeOrZero (parseUTC (ev_ReviewedAt (r_Evidence r))))"
    | "ev_State (r_Evidence r) \<noteq> ''withdrawn''" "\<not> timeBefore now (timeOrZero (parseUTC (ev_ReviewedAt (r_Evidence r))))"
      "\<not> timeBefore now (timeOrZero (parseUTC (ev_ValidUntil (r_Evidence r))))"
    by (auto simp: evidenceCurrent_def)
  then show ?thesis
  proof cases
    case 1
    then show ?thesis
      using staleClaim_ok [OF False mem(1) evidenceActions_public(1), of "''withdrawn''"] by (simp add: evaluateRule_def Let_def freshnessOK_def)
  next
    case 2
    then show ?thesis
      using staleClaim_ok [OF False mem(2) evidenceActions_public(2), of "''clock_before_review''"]
      by (simp add: evaluateRule_def Let_def freshnessOK_def)
  next
    case 3
    then show ?thesis
      using staleClaim_ok [OF False mem(3) evidenceActions_public(3), of "''stale''"] by (simp add: evaluateRule_def Let_def freshnessOK_def)
  qed
qed

section \<open>The interface to scope completeness\<close>

text \<open>
  What the aggregation relies on of the evaluation of single rules: a validated rule has a claim,
  under its own id; a decided claim is about a rule that structurally applies; a rule that applies
  and is undecided carries one of the engine's own reason codes.
\<close>

locale rule_evaluator =
  fixes eval :: "inputDocument \<Rightarrow> rule \<Rightarrow> goTime \<Rightarrow> Claim result"
  assumes eval_total: "validateRule r registry = None \<Longrightarrow> \<exists>c. eval input r now = Inr c"
    and eval_id: "validateRule r registry = None \<Longrightarrow> eval input r now = Inr c \<Longrightarrow> cl_RuleID c = r_ID r"
    and eval_decided: "validateRule r registry = None \<Longrightarrow> eval input r now = Inr c \<Longrightarrow>
      cl_Status c = ''PASS'' \<or> cl_Status c = ''BLOCKED'' \<Longrightarrow> subjectMatches input r \<and> conditionsHold input r"
    and eval_undecided: "validateRule r registry = None \<Longrightarrow> eval input r now = Inr c \<Longrightarrow>
      \<not> (cl_Status c = ''PASS'' \<or> cl_Status c = ''BLOCKED'') \<Longrightarrow> subjectMatches input r \<Longrightarrow> conditionsHold input r \<Longrightarrow>
      cl_ReasonCode c \<in> set undecidedReasons"
begin

lemma eval_claims:
  assumes "\<forall>r\<in>set rs. validateRule r registry = None"
  obtains cs where "map (\<lambda>r. eval input r now) rs = map Inr cs" "length cs = length rs" "map cl_RuleID cs = map r_ID rs"
proof -
  define cs where "cs = map (\<lambda>r. projr (eval input r now)) rs"
  have each: "eval input r now = Inr (projr (eval input r now))" if "r \<in> set rs" for r
    using eval_total [of r registry input now] assms that by force
  then have 1: "map (\<lambda>r. eval input r now) rs = map Inr cs" by (simp add: cs_def)
  have "cl_RuleID (projr (eval input r now)) = r_ID r" if "r \<in> set rs" for r
    using eval_id [OF _ each] assms that by blast
  then have 2: "map cl_RuleID cs = map r_ID rs" by (simp add: cs_def)
  show ?thesis using that [OF 1 _ 2] by (simp add: cs_def)
qed

end

text \<open>The status of a claim, as a function of the declarations, the rule and the clock.\<close>

definition expectedStatus :: "inputDocument \<Rightarrow> rule \<Rightarrow> goTime \<Rightarrow> string" where
  "expectedStatus input r now =
     (if evidenceCurrent r now \<and> subjectMatches input r \<and> conditionsHold input r
      then (case constraintViolated input r of None \<Rightarrow> ''UNKNOWN'' | Some v \<Rightarrow> if v then ''BLOCKED'' else ''PASS'')
      else ''UNKNOWN'')"

lemma verdictOK_status:
  assumes "verdictOK input r status reason action" and "evidenceCurrent r now" and "subjectMatches input r"
  shows "status = expectedStatus input r now"
    and "conditionsHold input r \<Longrightarrow> status = ''UNKNOWN'' \<Longrightarrow> reason \<in> set undecidedReasons"
    and "status = ''UNKNOWN'' \<Longrightarrow> reason \<noteq> ''RULE_TRANSITION_NOT_REVIEWED''"
proof -
  have u: "x \<in> set undecidedReasons \<Longrightarrow> x \<noteq> ''RULE_TRANSITION_NOT_REVIEWED''" for x
    by (auto simp: undecidedReasons_def)
  consider "conditionsHold input r" "constraintViolated input r = None"
    | v where "conditionsHold input r" "constraintViolated input r = Some v" | "\<not> conditionsHold input r" by blast
  then have "status = expectedStatus input r now \<and>
      (conditionsHold input r \<longrightarrow> status = ''UNKNOWN'' \<longrightarrow> reason \<in> set undecidedReasons) \<and>
      (status = ''UNKNOWN'' \<longrightarrow> reason \<noteq> ''RULE_TRANSITION_NOT_REVIEWED'')"
  proof cases
    case 1
    then show ?thesis using assms u by (simp add: verdictOK_def expectedStatus_def)
  next
    case (2 v)
    then show ?thesis using assms by (cases v) (simp_all add: verdictOK_def expectedStatus_def)
  next
    case 3
    then show ?thesis using assms by (simp add: verdictOK_def expectedStatus_def)
  qed
  then show "status = expectedStatus input r now"
    and "conditionsHold input r \<Longrightarrow> status = ''UNKNOWN'' \<Longrightarrow> reason \<in> set undecidedReasons"
    and "status = ''UNKNOWN'' \<Longrightarrow> reason \<noteq> ''RULE_TRANSITION_NOT_REVIEWED''" by auto
qed

lemma claimOKE:
  assumes "claimOK input r now c"
  obtains reason action freshness where
    "c = (initialClaim r)\<lparr>cl_Status := expectedStatus input r now, cl_ReasonCode := reason, cl_NextAction := action,
       cl_EvidenceFreshness := freshness,
       cl_SubjectMatch := (if evidenceCurrent r now \<and> rangeMatched input r then rangeDisclosure r else None)\<rparr>"
    "reasonRE reason" "publicText action"
    "freshnessOK freshness"
    "freshness = ''current'' \<longleftrightarrow> evidenceCurrent r now"
    "subjectMatches input r \<Longrightarrow> conditionsHold input r \<Longrightarrow> expectedStatus input r now = ''UNKNOWN'' \<Longrightarrow>
       reason \<in> set undecidedReasons"
    "subjectMatches input r \<Longrightarrow> expectedStatus input r now = ''UNKNOWN'' \<Longrightarrow> reason \<noteq> ''RULE_TRANSITION_NOT_REVIEWED''"
proof -
  have u: "x \<in> set undecidedReasons \<Longrightarrow> x \<noteq> ''RULE_TRANSITION_NOT_REVIEWED''" for x
    by (auto simp: undecidedReasons_def)
  obtain status reason action freshness where c:
    "c = (initialClaim r)\<lparr>cl_Status := status, cl_ReasonCode := reason, cl_NextAction := action,
       cl_EvidenceFreshness := freshness,
       cl_SubjectMatch := (if evidenceCurrent r now \<and> rangeMatched input r then rangeDisclosure r else None)\<rparr>"
    "freshnessOK freshness"
    "freshness = ''current'' \<longleftrightarrow> evidenceCurrent r now"
    "if evidenceCurrent r now \<and> subjectMatches input r then verdictOK input r status reason action
     else status = ''UNKNOWN'' \<and> reasonRE reason \<and> publicText action \<and>
          (if evidenceCurrent r now then reason \<in> set excludedReasons else reason \<in> set undecidedReasons)"
    using assms unfolding claimOK_def by (elim exE conjE)
  show ?thesis
  proof (cases "evidenceCurrent r now \<and> subjectMatches input r")
    case True
    then have v: "verdictOK input r status reason action" using c(4) by simp
    note vs = verdictOK_status [OF v conjunct1 [OF True] conjunct2 [OF True]]
    have "reasonRE reason" "publicText action" using v by (simp_all add: verdictOK_def)
    then show ?thesis
      using that [OF c(1) [unfolded vs(1)] _ _ c(2,3)] vs(2,3) unfolding vs(1) by blast
  next
    case False
    then have st: "status = expectedStatus input r now" and ok: "reasonRE reason" "publicText action"
      using c(4) by (auto simp: expectedStatus_def)
    have "reason \<in> set undecidedReasons" if "subjectMatches input r"
      using c(4) False that by (simp split: if_splits)
    then show ?thesis using that [OF c(1) [unfolded st] ok c(2,3)] u by blast
  qed
qed

lemma claimOK_sel:
  assumes "claimOK input r now c"
  shows "cl_RuleID c = r_ID r" and "cl_Status c = expectedStatus input r now"
    and "cl_SubjectMatch c = (if evidenceCurrent r now \<and> rangeMatched input r then rangeDisclosure r else None)"
    and "cl_EvidenceFreshness c = ''current'' \<longleftrightarrow> evidenceCurrent r now"
  by (rule claimOKE [OF assms]; simp add: initialClaim_def)+

lemma expectedStatus_iff:
  "expectedStatus input r now = ''BLOCKED'' \<longleftrightarrow> evidenceCurrent r now \<and> subjectMatches input r \<and> conditionsHold input r \<and>
     constraintViolated input r = Some True"
  "expectedStatus input r now = ''PASS'' \<longleftrightarrow> evidenceCurrent r now \<and> subjectMatches input r \<and> conditionsHold input r \<and>
     constraintViolated input r = Some False"
  "expectedStatus input r now \<in> {''PASS'', ''BLOCKED'', ''UNKNOWN''}"
  by (auto simp: expectedStatus_def split: option.splits if_splits)

lemma claimOK_undecided:
  assumes "claimOK input r now c" and "cl_Status c \<noteq> ''PASS''" and "cl_Status c \<noteq> ''BLOCKED''"
    and "subjectMatches input r" and "conditionsHold input r"
  shows "cl_ReasonCode c \<in> set undecidedReasons"
proof -
  have "expectedStatus input r now = ''UNKNOWN''"
    using assms(2,3) expectedStatus_iff(3) [of input r now] unfolding claimOK_sel(2) [OF assms(1)] by blast
  then show ?thesis using assms(4,5) by (rule_tac claimOKE [OF assms(1)]) (simp add: initialClaim_def)
qed

interpretation rule_eval: rule_evaluator evaluateRule
proof
  fix r registry input now
  assume "validateRule r registry = None"
  then show "\<exists>c. evaluateRule input r now = Inr c" using evaluateRule_ok by blast
next
  fix r registry input now c
  assume "validateRule r registry = None" "evaluateRule input r now = Inr c"
  then have ok: "claimOK input r now c" using evaluateRule_ok [of r registry input now] by auto
  show "cl_RuleID c = r_ID r" by (rule claimOK_sel(1) [OF ok])
  show "subjectMatches input r \<and> conditionsHold input r" if "cl_Status c = ''PASS'' \<or> cl_Status c = ''BLOCKED''"
    using that unfolding claimOK_sel(2) [OF ok] expectedStatus_iff by blast
  show "cl_ReasonCode c \<in> set undecidedReasons"
    if "\<not> (cl_Status c = ''PASS'' \<or> cl_Status c = ''BLOCKED'')" "subjectMatches input r" "conditionsHold input r"
    using that claimOK_undecided [OF ok] by blast
qed

lemma claimOK_valid:
  assumes "claimOK input r now c" and "validateRule r registry = None" and "wfRegistry registry"
  shows "validClaim c"
proof -
  note v = validateRule_facts [OF assms(2)]
  obtain a b where ab: "parseUTC (ev_ReviewedAt (r_Evidence r)) = Inr a" "parseUTC (ev_ValidUntil (r_Evidence r)) = Inr b"
    "timeBefore a b" using v(7) by (auto simp: validateEvidence_iff)
  obtain reason action freshness m where c:
    "c = (initialClaim r)\<lparr>cl_Status := expectedStatus input r now, cl_ReasonCode := reason, cl_NextAction := action,
      cl_EvidenceFreshness := freshness, cl_SubjectMatch := m\<rparr>"
    "reasonRE reason" "publicText action" "freshnessOK freshness"
    by (rule claimOKE [OF assms(1)])
  show ?thesis
    using c(2-4) expectedStatus_iff(3) [of input r now] ab v(1) requiredFacts_valid [OF assms(2,3)]
    unfolding c(1) validClaim_def freshnessOK_def by (auto simp: initialClaim_def)
qed

end
