(* ===== verification/Decision.thy ===== *)
theory Decision
  imports Prelude
begin

text \<open>
  The normative precedence of \<open>validation.ReduceDecision\<close> (\<open>validation/contracts.go\<close>): a verified
  applicable blocker wins, then unknown or incomplete evidence, then test requirements.

  Shown here: the exact condition under which each of the three decisions is reached.
\<close>

record TestRecord =
  tst_Outcome :: string
  tst_Verified :: bool
  tst_Scoped :: bool

record VerifiedBlocker =
  vbl_Verified :: bool
  vbl_Applicable :: bool

record DecisionInput =
  di_RequiredEvidence :: int
  di_VerifiedEvidence :: int
  di_ApplicableEvidence :: int
  di_UnknownEvidence :: bool
  di_Blockers :: "VerifiedBlocker list"
  di_TestsRequired :: bool
  di_TestRecords :: "TestRecord list"

datatype Decision = DecisionSafe | DecisionBlocked | DecisionUnknown

definition ReduceDecision :: "DecisionInput \<Rightarrow> Decision result" where
  "ReduceDecision input =
     (if di_RequiredEvidence input < 0 \<or> di_VerifiedEvidence input < 0 \<or> di_ApplicableEvidence input < 0 \<or>
         di_RequiredEvidence input < di_VerifiedEvidence input \<or>
         di_VerifiedEvidence input < di_ApplicableEvidence input
      then Inl (ErrInvalid ''validate decision evidence counts'')
      else if list_ex (\<lambda>b. vbl_Verified b \<and> vbl_Applicable b) (di_Blockers input) then Inr DecisionBlocked
      else if di_UnknownEvidence input \<or> di_VerifiedEvidence input < di_RequiredEvidence input then Inr DecisionUnknown
      else if di_RequiredEvidence input = 0 \<or> di_VerifiedEvidence input = 0 \<or>
              di_ApplicableEvidence input < di_RequiredEvidence input then Inr DecisionUnknown
      else if di_TestRecords input \<noteq> [] \<and> \<not> di_TestsRequired input then Inr DecisionUnknown
      else if di_TestsRequired input then
        (if di_TestRecords input = [] then Inr DecisionUnknown
         else if list_ex (\<lambda>r. tst_Outcome r \<noteq> ''PASS'' \<or> \<not> tst_Verified r \<or> \<not> tst_Scoped r) (di_TestRecords input)
         then Inr DecisionUnknown
         else Inr DecisionSafe)
      else Inr DecisionSafe)"

definition countsConsistent :: "DecisionInput \<Rightarrow> bool" where
  "countsConsistent i \<longleftrightarrow>
     0 \<le> di_ApplicableEvidence i \<and> di_ApplicableEvidence i \<le> di_VerifiedEvidence i \<and>
     di_VerifiedEvidence i \<le> di_RequiredEvidence i"

lemma ReduceDecision_error: "ReduceDecision i = Inl e \<Longrightarrow> \<not> countsConsistent i"
  by (auto simp: ReduceDecision_def countsConsistent_def split: if_splits)

lemma ReduceDecision_total: "countsConsistent i \<Longrightarrow> \<exists>d. ReduceDecision i = Inr d"
  by (auto simp: ReduceDecision_def countsConsistent_def)

lemma ReduceDecision_blocked:
  "ReduceDecision i = Inr DecisionBlocked \<longleftrightarrow>
     countsConsistent i \<and> (\<exists>b\<in>set (di_Blockers i). vbl_Verified b \<and> vbl_Applicable b)"
  by (auto simp: ReduceDecision_def countsConsistent_def list_ex_iff)

lemma ReduceDecision_safe:
  "ReduceDecision i = Inr DecisionSafe \<longleftrightarrow>
     (\<forall>b\<in>set (di_Blockers i). \<not> (vbl_Verified b \<and> vbl_Applicable b)) \<and> \<not> di_UnknownEvidence i \<and>
     0 < di_RequiredEvidence i \<and> di_VerifiedEvidence i = di_RequiredEvidence i \<and>
     di_ApplicableEvidence i = di_RequiredEvidence i \<and>
     (di_TestsRequired i \<longleftrightarrow> di_TestRecords i \<noteq> []) \<and>
     (\<forall>r\<in>set (di_TestRecords i). tst_Outcome r = ''PASS'' \<and> tst_Verified r \<and> tst_Scoped r)"
  by (auto simp: ReduceDecision_def list_ex_iff)

end
