(* ===== verification/ScopeGate.thy ===== *)
theory ScopeGate
  imports Scoping
begin

text \<open>
  Correctness of scope completeness: the partition loop against its specification, the reduction
  and the structural gate on arbitrary blocks, and the agreement of evaluator and gate.
\<close>

section \<open>The partition loop\<close>

abbreviation subjectOf :: "rule \<Rightarrow> string" where
  "subjectOf r \<equiv> tr_Component (r_Subject r)"

definition decided :: "Claim \<Rightarrow> bool" where
  "decided c \<longleftrightarrow> cl_Status c = ''PASS'' \<or> cl_Status c = ''BLOCKED''"

definition applicableIn :: "inputDocument \<Rightarrow> string list \<Rightarrow> rule \<Rightarrow> bool" where
  "applicableIn input scope r \<longleftrightarrow> fst (ruleApplicability input scope r) = ApplicabilityApplicable"

definition evaluatedHere :: "inputDocument \<Rightarrow> string list \<Rightarrow> string \<Rightarrow> rule \<times> Claim \<Rightarrow> bool" where
  "evaluatedHere input scope component p \<longleftrightarrow>
     subjectOf (fst p) = component \<and> applicableIn input scope (fst p) \<and> decided (snd p)"

definition skippedHere :: "inputDocument \<Rightarrow> string list \<Rightarrow> string \<Rightarrow> rule \<times> Claim \<Rightarrow> bool" where
  "skippedHere input scope component p \<longleftrightarrow>
     subjectOf (fst p) = component \<and> \<not> (applicableIn input scope (fst p) \<and> decided (snd p))"

definition skippedEntry :: "inputDocument \<Rightarrow> string list \<Rightarrow> rule \<times> Claim \<Rightarrow> NotEvaluatedRule" where
  "skippedEntry input scope p =
     (if applicableIn input scope (fst p)
      then \<lparr>ne_RuleID = r_ID (fst p), ne_Applicability = ApplicabilityUndetermined, ne_ReasonCode = cl_ReasonCode (snd p)\<rparr>
      else \<lparr>ne_RuleID = r_ID (fst p), ne_Applicability = fst (ruleApplicability input scope (fst p)),
            ne_ReasonCode = snd (ruleApplicability input scope (fst p))\<rparr>)"

text \<open>The specification: each entry extended by the rules of its component, in document order.\<close>

definition extendEntry :: "inputDocument \<Rightarrow> string list \<Rightarrow> (rule \<times> Claim) list \<Rightarrow> ComponentScope \<Rightarrow> ComponentScope" where
  "extendEntry input scope ps e =
     e\<lparr>cs_EvaluatedRuleIDs := cs_EvaluatedRuleIDs e @
          map (r_ID \<circ> fst) (filter (evaluatedHere input scope (cs_Component e)) ps),
       cs_NotEvaluated := cs_NotEvaluated e @
          map (skippedEntry input scope) (filter (skippedHere input scope (cs_Component e)) ps)\<rparr>"

definition outOfScopeCount :: "string list \<Rightarrow> (rule \<times> Claim) list \<Rightarrow> int" where
  "outOfScopeCount scope ps = int (length (filter (\<lambda>p. subjectOf (fst p) \<notin> set scope) ps))"

lemma list_update_by_key:
  assumes "distinct (map key xs)" and "i < length xs"
  shows "xs[i := f (xs ! i)] = map (\<lambda>x. if key x = key (xs ! i) then f x else x) xs"
proof (rule nth_equalityI)
  fix j
  assume j: "j < length (xs[i := f (xs ! i)])"
  then have "key (xs ! j) = key (xs ! i) \<longleftrightarrow> j = i"
    using assms nth_eq_iff_index_eq [of "map key xs" j i] by simp
  then show "xs[i := f (xs ! i)] ! j = map (\<lambda>x. if key x = key (xs ! i) then f x else x) xs ! j"
    using j by (auto simp: nth_list_update)
qed simp

lemma scopeIndex_nth:
  assumes "distinct scope" and "component \<in> set scope"
  shows "scopeIndex scope component < length scope \<and> scope ! scopeIndex scope component = component"
proof -
  obtain i where i: "i < length scope" "scope ! i = component" using assms(2) by (auto simp: in_set_conv_nth)
  have "map fst (rev (zip scope [0..<length scope])) = rev scope" by (simp flip: rev_map)
  then have "distinct (map fst (rev (zip scope [0..<length scope])))" using assms(1) by simp
  then have "map_of (rev (zip scope [0..<length scope])) component = Some i"
    using i by (intro map_of_is_SomeI) (auto simp: in_set_zip)
  with i show ?thesis by (simp add: scopeIndex_def)
qed

lemma ruleApplicability_out:
  "fst (ruleApplicability input scope r) = applicabilityOutOfScope \<longleftrightarrow> subjectOf r \<notin> set scope"
proof -
  have "fst (applicabilityOf input as) \<noteq> applicabilityOutOfScope" for as
    by (induction as) (auto simp: engine_defs split: option.splits)
  then show ?thesis by (auto simp: ruleApplicability_def Let_def engine_defs)
qed

lemma extendEntry_one:
  "extendEntry input scope [p] e =
     (if subjectOf (fst p) = cs_Component e then
        (if applicableIn input scope (fst p) \<and> decided (snd p)
         then e\<lparr>cs_EvaluatedRuleIDs := cs_EvaluatedRuleIDs e @ [r_ID (fst p)]\<rparr>
         else e\<lparr>cs_NotEvaluated := cs_NotEvaluated e @ [skippedEntry input scope p]\<rparr>)
      else e)"
  by (simp add: extendEntry_def evaluatedHere_def skippedHere_def)

lemma recordRule_step:
  assumes "map cs_Component es = scope" and "distinct scope"
  shows "recordRule input scope p (es, n) = (map (extendEntry input scope [p]) es, n + outOfScopeCount scope [p])"
proof (cases "subjectOf (fst p) \<in> set scope")
  case False
  then have "map (extendEntry input scope [p]) es = es"
    using assms(1) by (intro map_idI) (auto simp: extendEntry_one)
  with False show ?thesis
    using ruleApplicability_out [of input scope "fst p"]
    by (auto simp: recordRule_def outOfScopeCount_def Let_def split_beta)
next
  case True
  let ?i = "scopeIndex scope (subjectOf (fst p))"
  have i: "?i < length es" "cs_Component (es ! ?i) = subjectOf (fst p)"
    using scopeIndex_nth [OF assms(2) True] assms(1) by (auto simp: nth_map [symmetric] simp del: nth_map)
  have dist: "distinct (map cs_Component es)" using assms by simp
  have out: "fst (ruleApplicability input scope (fst p)) \<noteq> applicabilityOutOfScope"
    using True ruleApplicability_out by blast
  let ?f = "\<lambda>e. if applicableIn input scope (fst p) \<and> decided (snd p)
      then e\<lparr>cs_EvaluatedRuleIDs := cs_EvaluatedRuleIDs e @ [r_ID (fst p)]\<rparr>
      else e\<lparr>cs_NotEvaluated := cs_NotEvaluated e @ [skippedEntry input scope p]\<rparr>"
  have "recordRule input scope p (es, n) = (es[?i := ?f (es ! ?i)], n)"
    using out
    by (cases "applicableIn input scope (fst p)"; cases "decided (snd p)")
       (simp_all add: recordRule_def Let_def split_beta skippedEntry_def applicableIn_def decided_def)
  also have "es[?i := ?f (es ! ?i)] = map (\<lambda>e. if cs_Component e = subjectOf (fst p) then ?f e else e) es"
    using list_update_by_key [OF dist i(1), of ?f] unfolding i(2) .
  also have "\<dots> = map (extendEntry input scope [p]) es"
    by (rule map_cong) (auto simp: extendEntry_one)
  finally show ?thesis using True by (simp add: outOfScopeCount_def)
qed

lemma extendEntry_Nil: "extendEntry input scope [] e = e"
  by (simp add: extendEntry_def)

lemma extendEntry_Cons:
  "extendEntry input scope ps (extendEntry input scope [p] e) = extendEntry input scope (p # ps) e"
  by (simp add: extendEntry_def)

lemma recordRule_fold:
  assumes "map cs_Component es = scope" and "distinct scope"
  shows "fold (recordRule input scope) ps (es, n) = (map (extendEntry input scope ps) es, n + outOfScopeCount scope ps)"
  using assms
proof (induction ps arbitrary: es n)
  case Nil
  then show ?case by (simp add: extendEntry_Nil outOfScopeCount_def)
next
  case (Cons p ps)
  have "map cs_Component (map (extendEntry input scope [p]) es) = scope"
    using Cons.prems(1) by (simp add: extendEntry_def comp_def)
  from Cons.IH [OF this Cons.prems(2)]
  show ?case
    by (simp add: recordRule_step [OF Cons.prems] comp_def extendEntry_Cons outOfScopeCount_def)
qed

section \<open>The structural gate on an arbitrary block\<close>

definition componentIDs :: "ComponentScope \<Rightarrow> string list" where
  "componentIDs c = cs_EvaluatedRuleIDs c @ map ne_RuleID (cs_NotEvaluated c)"

definition blockIDs :: "ComponentScope list \<Rightarrow> string list" where
  "blockIDs cs = concat (map componentIDs cs)"

definition skippedOK :: "NotEvaluatedRule \<Rightarrow> bool" where
  "skippedOK n \<longleftrightarrow>
     (ne_Applicability n = ApplicabilityNotApplicable \<or> ne_Applicability n = ApplicabilityUndetermined) \<and>
     reasonRE (ne_ReasonCode n) \<and>
     (ne_ReasonCode n \<in> set exclusionReasons \<longleftrightarrow> ne_Applicability n = ApplicabilityNotApplicable)"

definition entryOK :: "ComponentScope \<Rightarrow> bool" where
  "entryOK c \<longleftrightarrow>
     componentRE (cs_Component c) \<and> validVersion (cs_From c) \<and> validVersion (cs_To c) \<and>
     sorted_wrt (<) (cs_EvaluatedRuleIDs c) \<and> sorted_wrt (<) (map ne_RuleID (cs_NotEvaluated c)) \<and>
     (\<forall>n\<in>set (cs_NotEvaluated c). skippedOK n)"

definition fresh :: "string list \<Rightarrow> string list \<Rightarrow> string list \<Rightarrow> bool" where
  "fresh known referenced ids \<longleftrightarrow> set ids \<subseteq> set known \<and> distinct ids \<and> set ids \<inter> set referenced = {}"

lemma fresh_simps:
  "fresh known referenced []"
  "fresh known referenced (x # xs) \<longleftrightarrow>
     x \<in> set known \<and> x \<notin> set referenced \<and> fresh known (x # referenced) xs"
  "fresh known referenced (xs @ ys) \<longleftrightarrow> fresh known referenced xs \<and> fresh known (rev xs @ referenced) ys"
  by (auto simp: fresh_def)

lemma claimReference_iff:
  "claimReference known referenced x = Some rs \<longleftrightarrow> x \<in> set known \<and> x \<notin> set referenced \<and> rs = x # referenced"
  by (auto simp: claimReference_def)

lemma referenceEvaluated_iff:
  "referenceEvaluated known p ids referenced = Some rs \<longleftrightarrow>
     allAdj (\<lambda>p x. \<not> outOfOrder id p x) p ids \<and> fresh known referenced ids \<and> rs = rev ids @ referenced"
  by (induction ids arbitrary: p referenced)
     (auto simp: bind_eq_Some_conv claimReference_iff fresh_simps)

lemma referenceSkipped_iff:
  "referenceSkipped known p ns referenced = Some rs \<longleftrightarrow>
     allAdj (\<lambda>p x. \<not> outOfOrder ne_RuleID p x \<and> skippedOK x) p ns \<and>
     fresh known referenced (map ne_RuleID ns) \<and> rs = rev (map ne_RuleID ns) @ referenced"
  by (induction ns arbitrary: p referenced)
     (auto simp: bind_eq_Some_conv claimReference_iff fresh_simps skippedOK_def)

lemma allAdj_id: "allAdj (\<lambda>p x. \<not> outOfOrder id p x) None ids \<longleftrightarrow> sorted_wrt (<) ids"
  using allAdj_order [of id "\<lambda>_. True" ids] by simp

lemma referenceComponents_iff:
  "referenceComponents known p cs referenced = Some rs \<longleftrightarrow>
     allAdj (\<lambda>p c. \<not> outOfOrder cs_Component p c \<and> entryOK c) p cs \<and>
     fresh known referenced (blockIDs cs) \<and> rs = rev (blockIDs cs) @ referenced"
proof (induction cs arbitrary: p referenced)
  case Nil
  then show ?case by (auto simp: blockIDs_def fresh_simps)
next
  case (Cons c cs)
  have "blockIDs (c # cs) = cs_EvaluatedRuleIDs c @ map ne_RuleID (cs_NotEvaluated c) @ blockIDs cs"
    by (simp add: blockIDs_def componentIDs_def)
  then show ?case
    by (auto simp: bind_eq_Some_conv referenceEvaluated_iff referenceSkipped_iff Cons.IH fresh_simps
        allAdj_id allAdj_order entryOK_def)
qed

lemma validScopeBlock_iff:
  "validScopeBlock scope claims engineDigest \<longleftrightarrow>
     so_Declaration scope = ScopeDeclaration \<and> so_CorpusAttestation scope = CorpusAttestation \<and>
     so_ContractDigest scope \<noteq> [] \<and> so_ContractDigest scope = scopeDigestFor engineDigest \<and>
     idRE (so_RuleSetRevision scope) \<and>
     (so_Resolved scope \<longleftrightarrow> so_UnresolvedReason scope = []) \<and>
     (so_UnresolvedReason scope \<noteq> [] \<longrightarrow> reasonRE (so_UnresolvedReason scope)) \<and>
     0 \<le> so_OutOfScopeRules scope \<and> so_Components scope \<noteq> [] \<and> length (so_Components scope) \<le> maxComponents \<and>
     sorted_wrt (<) (map cs_Component (so_Components scope)) \<and> (\<forall>c\<in>set (so_Components scope). entryOK c) \<and>
     set (blockIDs (so_Components scope)) \<subseteq> set (map cl_RuleID claims) \<and> distinct (blockIDs (so_Components scope)) \<and>
     int (length (blockIDs (so_Components scope))) + so_OutOfScopeRules scope = int (length claims)"
proof -
  let ?ids = "blockIDs (so_Components scope)"
  have "(case referenceComponents (map cl_RuleID claims) None (so_Components scope) [] of
          None \<Rightarrow> False
        | Some referenced \<Rightarrow> int (length referenced) + so_OutOfScopeRules scope = int (length claims)) \<longleftrightarrow>
      (\<exists>rs. referenceComponents (map cl_RuleID claims) None (so_Components scope) [] = Some rs \<and>
         int (length rs) + so_OutOfScopeRules scope = int (length claims))"
    by (simp split: option.split)
  also have "\<dots> \<longleftrightarrow> (sorted_wrt (<) (map cs_Component (so_Components scope)) \<and> (\<forall>c\<in>set (so_Components scope). entryOK c)) \<and>
      fresh (map cl_RuleID claims) [] ?ids \<and> int (length ?ids) + so_OutOfScopeRules scope = int (length claims)"
    unfolding referenceComponents_iff allAdj_order by auto
  finally show ?thesis
    unfolding validScopeBlock_def fresh_def by (auto simp: not_less)
qed

section \<open>The reduction of an arbitrary block\<close>

definition evaluatedIDs :: "ComponentScope list \<Rightarrow> string list" where
  "evaluatedIDs cs = concat (map cs_EvaluatedRuleIDs cs)"

definition skippedIn :: "ComponentScope list \<Rightarrow> NotEvaluatedRule list" where
  "skippedIn cs = concat (map cs_NotEvaluated cs)"

text \<open>Every reference of the block resolves to a claim, and the evaluated ones to a decided claim.\<close>

definition referencesResolve :: "Claim list \<Rightarrow> ComponentScope list \<Rightarrow> bool" where
  "referencesResolve claims cs \<longleftrightarrow>
     (\<forall>i\<in>set (evaluatedIDs cs). claimStatuses claims i = Some ''PASS'' \<or> claimStatuses claims i = Some ''BLOCKED'') \<and>
     (\<forall>n\<in>set (skippedIn cs). claimStatuses claims (ne_RuleID n) \<noteq> None)"

definition anchorReviewed :: "Claim list \<Rightarrow> ComponentScope \<Rightarrow> bool" where
  "anchorReviewed claims c \<longleftrightarrow> (\<exists>i\<in>set (cs_EvaluatedRuleIDs c). \<not> claimRangeMatched claims i)"

abbreviation isUndetermined :: "NotEvaluatedRule \<Rightarrow> bool" where
  "isUndetermined n \<equiv> ne_Applicability n = ApplicabilityUndetermined"

definition blocker :: VerifiedBlocker where
  "blocker = \<lparr>vbl_Verified = True, vbl_Applicable = True\<rparr>"

definition blockersOf :: "Claim list \<Rightarrow> string list \<Rightarrow> VerifiedBlocker list" where
  "blockersOf claims ids = map (\<lambda>_. blocker) (filter (\<lambda>i. claimStatuses claims i = Some ''BLOCKED'') ids)"

definition blockTally :: "Claim list \<Rightarrow> ComponentScope list \<Rightarrow> scopeTally \<Rightarrow> scopeTally" where
  "blockTally claims cs t =
     t\<lparr>ta_required := ta_required t + int (length (evaluatedIDs cs)) + int (length (filter isUndetermined (skippedIn cs))),
       ta_verified := ta_verified t + int (length (evaluatedIDs cs)),
       ta_blockers := ta_blockers t @ blockersOf claims (evaluatedIDs cs),
       ta_unattested := ta_unattested t \<or> (\<exists>c\<in>set cs. \<not> cs_CorpusAttested c),
       ta_undetermined := ta_undetermined t \<or> (\<exists>n\<in>set (skippedIn cs). isUndetermined n),
       ta_emptyComponent := ta_emptyComponent t \<or> (\<exists>c\<in>set cs. cs_EvaluatedRuleIDs c = []),
       ta_notAnchorReviewed := ta_notAnchorReviewed t \<or>
          (\<exists>c\<in>set cs. cs_EvaluatedRuleIDs c \<noteq> [] \<and> \<not> anchorReviewed claims c)\<rparr>"

lemma tallyEvaluated_ok:
  assumes "\<forall>i\<in>set ids. claimStatuses claims i = Some ''PASS'' \<or> claimStatuses claims i = Some ''BLOCKED''"
  shows "tallyEvaluated (claimStatuses claims) ids t =
    Inr (t\<lparr>ta_required := ta_required t + int (length ids), ta_verified := ta_verified t + int (length ids),
           ta_blockers := ta_blockers t @ blockersOf claims ids\<rparr>)"
  using assms
proof (induction ids arbitrary: t)
  case Nil
  then show ?case by (simp add: blockersOf_def)
next
  case (Cons i ids)
  from Cons.prems consider "claimStatuses claims i = Some ''PASS''" | "claimStatuses claims i = Some ''BLOCKED''" by auto
  then show ?case
    by cases (use Cons in \<open>simp_all add: blockersOf_def blocker_def\<close>)
qed

lemma tallyEvaluated_resolves:
  "tallyEvaluated statuses ids t = Inr t' \<Longrightarrow> \<forall>i\<in>set ids. statuses i = Some ''PASS'' \<or> statuses i = Some ''BLOCKED''"
  by (induction ids arbitrary: t) (auto split: option.splits if_splits)

lemma tallySkipped_ok:
  assumes "\<forall>n\<in>set ns. statuses (ne_RuleID n) \<noteq> None"
  shows "tallySkipped statuses ns t =
    Inr (t\<lparr>ta_required := ta_required t + int (length (filter isUndetermined ns)),
           ta_undetermined := ta_undetermined t \<or> (\<exists>n\<in>set ns. isUndetermined n)\<rparr>)"
  using assms by (induction ns arbitrary: t) (simp_all split: if_split)

lemma tallySkipped_resolves:
  "tallySkipped statuses ns t = Inr t' \<Longrightarrow> \<forall>n\<in>set ns. statuses (ne_RuleID n) \<noteq> None"
  by (induction ns arbitrary: t) (auto split: if_splits)

lemma referencesResolve_Cons:
  "referencesResolve claims (c # cs) \<longleftrightarrow>
     (\<forall>i\<in>set (cs_EvaluatedRuleIDs c). claimStatuses claims i = Some ''PASS'' \<or> claimStatuses claims i = Some ''BLOCKED'') \<and>
     (\<forall>n\<in>set (cs_NotEvaluated c). claimStatuses claims (ne_RuleID n) \<noteq> None) \<and> referencesResolve claims cs"
  unfolding referencesResolve_def evaluatedIDs_def skippedIn_def list.map concat.simps set_append ball_Un
  by (simp only: conj_ac)

lemma tallyComponents_resolves:
  "tallyComponents claims cs t = Inr t' \<Longrightarrow> referencesResolve claims cs"
proof (induction cs arbitrary: t)
  case Nil
  then show ?case by (simp add: referencesResolve_def evaluatedIDs_def skippedIn_def)
next
  case (Cons c cs)
  then obtain t1 t2 where t: "tallyEvaluated (claimStatuses claims) (cs_EvaluatedRuleIDs c) (tallyFlags claims c t) = Inr t1"
    "tallySkipped (claimStatuses claims) (cs_NotEvaluated c) t1 = Inr t2" "tallyComponents claims cs t2 = Inr t'"
    by (auto split: sum.splits)
  from Cons.IH [OF t(3)] tallyEvaluated_resolves [OF t(1)] tallySkipped_resolves [OF t(2)]
  show ?case unfolding referencesResolve_Cons by (intro conjI)
qed

lemma tallyComponents_ok:
  assumes "referencesResolve claims cs"
  shows "tallyComponents claims cs t = Inr (blockTally claims cs t)"
  using assms
proof (induction cs arbitrary: t)
  case Nil
  then show ?case by (simp add: blockTally_def evaluatedIDs_def skippedIn_def blockersOf_def)
next
  case (Cons c cs)
  have res: "\<forall>i\<in>set (cs_EvaluatedRuleIDs c). claimStatuses claims i = Some ''PASS'' \<or> claimStatuses claims i = Some ''BLOCKED''"
    "\<forall>n\<in>set (cs_NotEvaluated c). claimStatuses claims (ne_RuleID n) \<noteq> None" "referencesResolve claims cs"
    using Cons.prems unfolding referencesResolve_Cons by blast+
  show ?case
    using Cons.IH [OF res(3)]
    by (cases t) (simp add: tallyEvaluated_ok [OF res(1)] tallySkipped_ok [OF res(2)] tallyFlags_def Let_def
        blockTally_def evaluatedIDs_def skippedIn_def blockersOf_def anchorReviewed_def list_ex_iff bex_Un)
qed

definition scopeUnresolved :: "Claim list \<Rightarrow> ComponentScope list \<Rightarrow> string" where
  "scopeUnresolved claims cs = unresolvedOf (blockTally claims cs emptyTally)"

lemma scopeUnresolved_Nil:
  "scopeUnresolved claims cs = [] \<longleftrightarrow>
     (\<forall>c\<in>set cs. cs_CorpusAttested c \<and> anchorReviewed claims c) \<and> (\<forall>n\<in>set (skippedIn cs). \<not> isUndetermined n)"
proof -
  have "cs_EvaluatedRuleIDs c \<noteq> []" if "anchorReviewed claims c" for c
    using that by (auto simp: anchorReviewed_def)
  then show ?thesis
    by (auto simp: scopeUnresolved_def unresolvedOf_def blockTally_def emptyTally_def engine_defs)
qed

lemma scopeUnresolved_reason: "scopeUnresolved claims cs \<noteq> [] \<Longrightarrow> reasonRE (scopeUnresolved claims cs)"
proof -
  have "reasonRE unresolvedComponentNotAttested" "reasonRE unresolvedApplicability" "reasonRE unresolvedNoApplicableRule"
    "reasonRE unresolvedTransitionNotAnchor" by code_simp+
  moreover assume "scopeUnresolved claims cs \<noteq> []"
  ultimately show ?thesis by (simp add: scopeUnresolved_def unresolvedOf_def split: if_splits)
qed

definition anyBlocked :: "Claim list \<Rightarrow> ComponentScope list \<Rightarrow> bool" where
  "anyBlocked claims cs \<longleftrightarrow> (\<exists>i\<in>set (evaluatedIDs cs). claimStatuses claims i = Some ''BLOCKED'')"

text \<open>The reduction, as a case distinction on the block alone.\<close>

definition blockAssessment :: "Claim list \<Rightarrow> ComponentScope list \<Rightarrow> string" where
  "blockAssessment claims cs =
     (if anyBlocked claims cs then AssessmentBlocked
      else if scopeUnresolved claims cs = [] \<and> evaluatedIDs cs \<noteq> [] then AssessmentScopeCompletePass
      else AssessmentUnknown)"

lemma deriveAssessment_ok:
  assumes "referencesResolve claims (so_Components scope)"
  shows "deriveAssessment scope claims =
    Inr (blockAssessment claims (so_Components scope), scopeUnresolved claims (so_Components scope))"
proof -
  let ?cs = "so_Components scope"
  let ?t = "blockTally claims ?cs emptyTally"
  let ?u = "filter isUndetermined (skippedIn ?cs)"
  have t: "ta_required ?t = int (length (evaluatedIDs ?cs)) + int (length ?u)"
    "ta_verified ?t = int (length (evaluatedIDs ?cs))" "ta_blockers ?t = blockersOf claims (evaluatedIDs ?cs)"
    by (simp_all add: blockTally_def emptyTally_def)
  have b: "list_ex (\<lambda>b. vbl_Verified b \<and> vbl_Applicable b) (blockersOf claims (evaluatedIDs ?cs)) \<longleftrightarrow> anyBlocked claims ?cs"
    by (auto simp: list_ex_iff blockersOf_def blocker_def anyBlocked_def)
  have u: "?u = []" if "scopeUnresolved claims ?cs = []"
    using that by (auto simp: scopeUnresolved_Nil filter_empty_conv)
  have "ReduceDecision
      \<lparr>di_RequiredEvidence = ta_required ?t, di_VerifiedEvidence = ta_verified ?t,
       di_ApplicableEvidence = ta_verified ?t, di_UnknownEvidence = (unresolvedOf ?t \<noteq> []),
       di_Blockers = ta_blockers ?t, di_TestsRequired = False, di_TestRecords = []\<rparr> =
    Inr (if anyBlocked claims ?cs then DecisionBlocked
         else if scopeUnresolved claims ?cs = [] \<and> evaluatedIDs ?cs \<noteq> [] then DecisionSafe else DecisionUnknown)"
    unfolding t using u by (auto simp: ReduceDecision_def b scopeUnresolved_def)
  then show ?thesis
    by (simp add: deriveAssessment_def tallyComponents_ok [OF assms] blockAssessment_def scopeUnresolved_def)
qed

lemma deriveAssessment_iff:
  "deriveAssessment scope claims = Inr (a, u) \<longleftrightarrow>
     referencesResolve claims (so_Components scope) \<and>
     a = blockAssessment claims (so_Components scope) \<and> u = scopeUnresolved claims (so_Components scope)"
proof -
  have "referencesResolve claims (so_Components scope)" if "deriveAssessment scope claims = Inr (a, u)"
    using that tallyComponents_resolves by (auto simp: deriveAssessment_def split: sum.splits)
  then show ?thesis using deriveAssessment_ok by auto
qed

lemma blockAssessment_pass:
  "blockAssessment claims cs = AssessmentScopeCompletePass \<longleftrightarrow>
     \<not> anyBlocked claims cs \<and> scopeUnresolved claims cs = [] \<and> evaluatedIDs cs \<noteq> []"
  by (simp add: blockAssessment_def engine_defs)

lemma blockAssessment_blocked: "blockAssessment claims cs = AssessmentBlocked \<longleftrightarrow> anyBlocked claims cs"
  by (simp add: blockAssessment_def engine_defs)

section \<open>The block the evaluator builds\<close>

lemma applicabilityOf_cases:
  "applicabilityOf input as = (ApplicabilityApplicable, []) \<and>
     (\<forall>a\<in>set as. \<exists>f. declaredFact input a = Some f \<and> matchesCondition f a) \<or>
   applicabilityOf input as = (ApplicabilityUndetermined, ''RULE_APPLICABILITY_FACT_UNAVAILABLE'') \<or>
   applicabilityOf input as = (ApplicabilityNotApplicable, ''RULE_APPLICABILITY_NOT_MATCHED'')"
  by (induction as) (auto simp: declaredFact_def split: option.splits)

lemma ruleApplicability_cases:
  assumes "subjectOf r \<in> set scope"
  obtains (applicable) "ruleApplicability input scope r = (ApplicabilityApplicable, [])" "subjectMatches input r" "conditionsHold input r"
  | (undetermined) "ruleApplicability input scope r = (ApplicabilityUndetermined, ''RULE_APPLICABILITY_FACT_UNAVAILABLE'')"
  | (excluded) reason where "ruleApplicability input scope r = (ApplicabilityNotApplicable, reason)" "reason \<in> set exclusionReasons"
proof (cases "subjectMatches input r")
  case True
  then have "ruleApplicability input scope r = applicabilityOf input (r_AppliesWhen r)"
    using assms subjectAvailability_iff [of input r] by (simp add: ruleApplicability_def Let_def)
  with True applicabilityOf_cases [of input "r_AppliesWhen r"] that show ?thesis
    by (auto simp: conditionsHold_def exclusionReasons_def)
next
  case False
  let ?reason = "snd (subjectAvailability input (ruleTransitionOfRule r))"
  have ne: "?reason \<noteq> []" using False subjectAvailability_iff [of input r] by simp
  then have "?reason \<in> set exclusionReasons"
    using subjectAvailability_reason [of input "ruleTransitionOfRule r"] by (auto simp: exclusionReasons_def)
  moreover have "ruleApplicability input scope r = (ApplicabilityNotApplicable, ?reason)"
    using assms ne by (simp add: ruleApplicability_def Let_def)
  ultimately show ?thesis by (rule excluded [rotated])
qed

lemma applicableIn_iff:
  "applicableIn input scope r \<longleftrightarrow> subjectOf r \<in> set scope \<and> subjectMatches input r \<and> conditionsHold input r"
proof (cases "subjectOf r \<in> set scope")
  case False
  then show ?thesis by (simp add: applicableIn_def ruleApplicability_def engine_defs)
next
  case True
  show ?thesis
  proof
    assume "applicableIn input scope r"
    with True show "subjectOf r \<in> set scope \<and> subjectMatches input r \<and> conditionsHold input r"
      by (cases rule: ruleApplicability_cases [OF True, of input]) (auto simp: applicableIn_def engine_defs)
  next
    assume a: "subjectOf r \<in> set scope \<and> subjectMatches input r \<and> conditionsHold input r"
    then have "snd (subjectAvailability input (ruleTransitionOfRule r)) = []" using subjectAvailability_iff by blast
    moreover have "applicabilityOf input as = (ApplicabilityApplicable, [])"
      if "\<forall>a\<in>set as. \<exists>f. declaredFact input a = Some f \<and> matchesCondition f a" for as
      using that by (induction as) (auto simp: declaredFact_def split: option.splits if_splits)
    ultimately show "applicableIn input scope r"
      using a by (simp add: applicableIn_def ruleApplicability_def conditionsHold_def)
  qed
qed

lemma exclusion_reasons_disjoint:
  "reason \<in> set undecidedReasons \<Longrightarrow> reason \<notin> set exclusionReasons"
  "''RULE_APPLICABILITY_FACT_UNAVAILABLE'' \<notin> set exclusionReasons"
  by (auto simp: undecidedReasons_def exclusionReasons_def)

lemma exclusion_reasons_valid:
  "reason \<in> set exclusionReasons \<Longrightarrow> reasonRE reason" "reason \<in> set undecidedReasons \<Longrightarrow> reasonRE reason"
  "reasonRE ''RULE_APPLICABILITY_FACT_UNAVAILABLE''"
  using engineReasons_valid by (auto simp: exclusionReasons_def excludedReasons_def)

lemma claimStatuses_known:
  assumes "distinct (map cl_RuleID claims)" and "c \<in> set claims"
  shows "claimStatuses claims (cl_RuleID c) = Some (cl_Status c)"
  unfolding claimStatuses_def using assms
  by (intro map_of_is_SomeI) (auto simp: rev_map [symmetric] comp_def)

lemma claimRangeMatched_known:
  assumes "distinct (map cl_RuleID claims)" and "c \<in> set claims"
  shows "claimRangeMatched claims (cl_RuleID c) \<longleftrightarrow> cl_SubjectMatch c \<noteq> None"
proof -
  have "map_of (rev (map (\<lambda>c. (cl_RuleID c, cl_SubjectMatch c \<noteq> None)) claims)) (cl_RuleID c) = Some (cl_SubjectMatch c \<noteq> None)"
    using assms by (intro map_of_is_SomeI) (auto simp: rev_map [symmetric] comp_def)
  then show ?thesis by (simp add: claimRangeMatched_def)
qed

text \<open>One entry per scoped component, with the versions declared on the two sides.\<close>

lemma findComponent_side:
  assumes "wfSide registry (if side = ''proposed'' then id_Proposed input else id_Current input)"
    and "component \<in> ic_Component ` set (sideOf input side)"
  obtains c where "findComponent input side component = Some c" "ic_Component c = component" "validVersion (ic_Version c)"
proof -
  obtain x where "x \<in> set (sideOf input side)" "ic_Component x = component" using assms(2) by auto
  then obtain c where c: "findComponent input side component = Some c"
    using find_Some_exists unfolding findComponent_def by (metis (mono_tags, lifting))
  then have "c \<in> set (sideOf input side)" "ic_Component c = component"
    using find_SomeD unfolding findComponent_def by fast+
  moreover have "validVersion (ic_Version c)"
    using assms(1) calculation(1) by (auto simp: wfSide_def wfComponent_def sideOf_def split: if_splits)
  ultimately show ?thesis using that c by blast
qed

definition freshEntry :: "ComponentScope \<Rightarrow> bool" where
  "freshEntry e \<longleftrightarrow> validVersion (cs_From e) \<and> validVersion (cs_To e) \<and> cs_EvaluatedRuleIDs e = [] \<and> cs_NotEvaluated e = []"

lemma scopeEntries_ok:
  assumes "wfInput registry input"
    and "set comps \<subseteq> ic_Component ` set (is_Components (id_Current input))"
    and "set comps \<subseteq> ic_Component ` set (is_Components (id_Proposed input))"
  shows "\<exists>es. scopeEntries input attested comps = Some es \<and> map cs_Component es = comps \<and>
    (\<forall>e\<in>set es. freshEntry e \<and> cs_CorpusAttested e = (cs_Component e \<in> set attested))"
  using assms(2,3)
proof (induction comps)
  case Nil
  then show ?case by simp
next
  case (Cons c comps)
  obtain a where a: "findComponent input ''current'' c = Some a" "validVersion (ic_Version a)"
    using findComponent_side [of registry "''current''" input c] assms(1) Cons.prems(1)
    by (auto simp: wfInput_def sideOf_def)
  obtain b where b: "findComponent input ''proposed'' c = Some b" "validVersion (ic_Version b)"
    using findComponent_side [of registry "''proposed''" input c] assms(1) Cons.prems(2)
    by (auto simp: wfInput_def sideOf_def)
  from Cons obtain es where "scopeEntries input attested comps = Some es" "map cs_Component es = comps"
    "\<forall>e\<in>set es. freshEntry e \<and> cs_CorpusAttested e = (cs_Component e \<in> set attested)" by auto
  with a b show ?case by (simp add: freshEntry_def)
qed

text \<open>The ids a component accounts for are those of the rules about it.\<close>

lemma componentIDs_extend:
  assumes "freshEntry e"
  shows "mset (componentIDs (extendEntry input scope ps e)) =
    mset (map (r_ID \<circ> fst) (filter (\<lambda>p. subjectOf (fst p) = cs_Component e) ps))"
proof (induction ps)
  case Nil
  then show ?case using assms by (simp add: extendEntry_def componentIDs_def freshEntry_def)
next
  case (Cons p ps)
  then show ?case using assms
    by (auto simp: extendEntry_def componentIDs_def freshEntry_def evaluatedHere_def skippedHere_def skippedEntry_def)
qed

lemma blockIDs_extend:
  assumes "\<forall>e\<in>set es. freshEntry e" and "distinct (map cs_Component es)"
  shows "mset (blockIDs (map (extendEntry input scope ps) es)) =
    mset (map (r_ID \<circ> fst) (filter (\<lambda>p. subjectOf (fst p) \<in> cs_Component ` set es) ps))"
  using assms
proof (induction es)
  case Nil
  then show ?case by (simp add: blockIDs_def)
next
  case (Cons e es)
  have split: "mset (filter (\<lambda>p. subjectOf (fst p) = cs_Component e \<or> P p) ps) =
      mset (filter (\<lambda>p. subjectOf (fst p) = cs_Component e) ps) + mset (filter P ps)"
    if "\<And>p. P p \<Longrightarrow> subjectOf (fst p) \<noteq> cs_Component e" for P
    by (induction ps) (use that in auto)
  have "mset (blockIDs (map (extendEntry input scope ps) (e # es))) =
      mset (componentIDs (extendEntry input scope ps e)) + mset (blockIDs (map (extendEntry input scope ps) es))"
    by (simp add: blockIDs_def)
  also have "\<dots> = image_mset (r_ID \<circ> fst) (mset (filter (\<lambda>p. subjectOf (fst p) = cs_Component e) ps)
      + mset (filter (\<lambda>p. subjectOf (fst p) \<in> cs_Component ` set es) ps))"
    using Cons componentIDs_extend [of e input scope ps] by (simp add: comp_def)
  also have "\<dots> = image_mset (r_ID \<circ> fst) (mset (filter (\<lambda>p. subjectOf (fst p) = cs_Component e \<or>
      subjectOf (fst p) \<in> cs_Component ` set es) ps))"
    using Cons.prems(2) by (subst split) (auto, metis image_eqI)
  finally show ?case by (simp add: comp_def)
qed

lemma sorted_zip_filter:
  assumes "sorted_wrt (<) (map r_ID rs)" and "length cs = length rs"
  shows "sorted_wrt (<) (map (r_ID \<circ> fst) (filter P (zip rs cs)))"
proof -
  have "map (r_ID \<circ> fst) (zip rs cs) = map r_ID rs" using assms(2) by (simp flip: map_map)
  then have "sorted_wrt (<) (map (r_ID \<circ> fst) (zip rs cs))" using assms(1) by simp
  then show ?thesis by (rule sorted_wrt_less_filter)
qed

lemma skippedEntry_id: "ne_RuleID (skippedEntry input scope p) = r_ID (fst p)"
  by (simp add: skippedEntry_def)

text \<open>The setting of the lemmas below: the claims are those of the evaluated rules.\<close>

definition evaluatedClaims ::
  "(inputDocument \<Rightarrow> rule \<Rightarrow> goTime \<Rightarrow> Claim result) \<Rightarrow> inputDocument \<Rightarrow> rule list \<Rightarrow> goTime \<Rightarrow> Claim list \<Rightarrow> bool" where
  "evaluatedClaims eval input rs now cs \<longleftrightarrow> map (\<lambda>r. eval input r now) rs = map Inr cs"

context rule_evaluator
begin

lemma evaluatedClaims_pair:
  assumes "evaluatedClaims eval input rs now cs" and "(r, c) \<in> set (zip rs cs)"
  shows "r \<in> set rs" and "c \<in> set cs" and "eval input r now = Inr c"
proof -
  have len: "length cs = length rs" using assms(1) by (metis evaluatedClaims_def length_map)
  obtain i where i: "i < length rs" "rs ! i = r" "cs ! i = c" using assms(2) by (auto simp: in_set_zip)
  then show "r \<in> set rs" "c \<in> set cs" using len by auto
  have "map (\<lambda>r. eval input r now) rs ! i = map Inr cs ! i" using assms(1) by (simp add: evaluatedClaims_def)
  then show "eval input r now = Inr c" using i len by simp
qed

lemma skippedEntry_ok:
  assumes "evaluatedClaims eval input rs now cs" and "\<forall>r\<in>set rs. validateRule r registry = None"
    and "p \<in> set (zip rs cs)" and "subjectOf (fst p) \<in> set scope" and "\<not> (applicableIn input scope (fst p) \<and> decided (snd p))"
  shows "skippedOK (skippedEntry input scope p)"
proof -
  obtain r c where p: "p = (r, c)" by fastforce
  note rc = evaluatedClaims_pair [OF assms(1) assms(3) [unfolded p]]
  have v: "validateRule r registry = None" using assms(2) rc(1) by blast
  show ?thesis
  proof (cases "applicableIn input scope r")
    case True
    then have "\<not> decided c" using assms(5) by (simp add: p)
    then have "cl_ReasonCode c \<in> set undecidedReasons"
      using eval_undecided [OF v rc(3)] True by (auto simp: decided_def applicableIn_iff)
    then show ?thesis
      using True exclusion_reasons_disjoint(1) exclusion_reasons_valid(2) by (auto simp: p skippedEntry_def skippedOK_def engine_defs)
  next
    case False
    from assms(4) show ?thesis
    proof (cases rule: ruleApplicability_cases [where input = input])
      case applicable
      then show ?thesis using False by (simp add: p applicableIn_def)
    next
      case undetermined
      then show ?thesis
        using False exclusion_reasons_disjoint(2) exclusion_reasons_valid(3)
        by (simp add: p skippedEntry_def skippedOK_def engine_defs)
    next
      case (excluded reason)
      then show ?thesis
        using False exclusion_reasons_valid(1) by (simp add: p skippedEntry_def skippedOK_def engine_defs)
    qed
  qed
qed

lemma evaluatedClaims_ids:
  assumes "evaluatedClaims eval input rs now cs" and "\<forall>r\<in>set rs. validateRule r registry = None"
  shows "length cs = length rs" and "map cl_RuleID cs = map r_ID rs"
    and "\<And>r c. (r, c) \<in> set (zip rs cs) \<Longrightarrow> cl_RuleID c = r_ID r"
proof -
  show len: "length cs = length rs" using assms(1) by (metis evaluatedClaims_def length_map)
  show each: "cl_RuleID c = r_ID r" if "(r, c) \<in> set (zip rs cs)" for r c
    using evaluatedClaims_pair [OF assms(1) that] eval_id assms(2) by blast
  have "cl_RuleID (cs ! i) = r_ID (rs ! i)" if "i < length rs" for i
    using each [of "rs ! i" "cs ! i"] that len by (auto simp: in_set_zip)
  then show "map cl_RuleID cs = map r_ID rs" using len by (simp add: list_eq_iff_nth_eq)
qed

lemma extendEntry_sound:
  assumes ev: "evaluatedClaims eval input rs now cs" and valid: "\<forall>r\<in>set rs. validateRule r registry = None"
    and sorted: "sorted_wrt (<) (map r_ID rs)" and e: "freshEntry e" "componentRE (cs_Component e)" "cs_Component e \<in> set scope"
  defines "e' \<equiv> extendEntry input scope (zip rs cs) e"
  shows "entryOK e'" and "referencesResolve cs [e']"
proof -
  note ids = evaluatedClaims_ids [OF ev valid]
  let ?ps = "zip rs cs"
  have e': "cs_EvaluatedRuleIDs e' = map (r_ID \<circ> fst) (filter (evaluatedHere input scope (cs_Component e)) ?ps)"
    "cs_NotEvaluated e' = map (skippedEntry input scope) (filter (skippedHere input scope (cs_Component e)) ?ps)"
    "cs_Component e' = cs_Component e" "cs_From e' = cs_From e" "cs_To e' = cs_To e"
    using e(1) by (simp_all add: e'_def extendEntry_def freshEntry_def)
  have skip: "map ne_RuleID (cs_NotEvaluated e') = map (r_ID \<circ> fst) (filter (skippedHere input scope (cs_Component e)) ?ps)"
    by (simp add: e'(2) skippedEntry_id comp_def)
  have "skippedOK n" if "n \<in> set (cs_NotEvaluated e')" for n
  proof -
    obtain p where p: "p \<in> set ?ps" "skippedHere input scope (cs_Component e) p" "n = skippedEntry input scope p"
      using \<open>n \<in> set (cs_NotEvaluated e')\<close> by (auto simp: e'(2))
    with e(3) show ?thesis using skippedEntry_ok [OF ev valid p(1)] by (simp add: skippedHere_def)
  qed
  then show "entryOK e'"
    using e(1,2) sorted_zip_filter [OF sorted ids(1)]
    by (simp only: entryOK_def e'(1,3-5) skip) (simp add: freshEntry_def)
  have dist: "distinct (map cl_RuleID cs)" using sorted_wrt_less_distinct [OF sorted] by (simp add: ids(2))
  have status: "claimStatuses cs (r_ID r) = Some (cl_Status c)" if "(r, c) \<in> set ?ps" for r c
    using claimStatuses_known [OF dist evaluatedClaims_pair(2) [OF ev that]] ids(3) [OF that] by simp
  have "\<forall>i\<in>set (cs_EvaluatedRuleIDs e'). claimStatuses cs i = Some ''PASS'' \<or> claimStatuses cs i = Some ''BLOCKED''"
    using status by (auto simp: e'(1) evaluatedHere_def decided_def)
  moreover have "\<forall>n\<in>set (cs_NotEvaluated e'). claimStatuses cs (ne_RuleID n) \<noteq> None"
    using status by (auto simp: e'(2) skippedEntry_id)
  ultimately show "referencesResolve cs [e']"
    by (simp add: referencesResolve_def evaluatedIDs_def skippedIn_def)
qed

lemma built_block:
  assumes inp: "wfInput registry input" and rul: "wfRules registry rules"
    and sc: "id_Scope input = Some scope" and co: "rd_Corpus rules = Some corpus"
    and ev: "evaluatedClaims eval input (rd_Rules rules) now claims" and dg: "scopeDigestFor engineDigest \<noteq> []"
  obtains block where
    "buildScopeCompleteness input rules claims engineDigest = (Some block, blockAssessment claims (so_Components block))"
    "validScopeBlock block claims engineDigest"
    "deriveAssessment block claims = Inr (blockAssessment claims (so_Components block), so_UnresolvedReason block)"
    "map cs_Component (so_Components block) = isc_Components scope"
    "\<forall>e\<in>set (so_Components block).
       (cs_CorpusAttested e \<longleftrightarrow> cs_Component e \<in> set (co_Components corpus)) \<and>
       cs_EvaluatedRuleIDs e = map (r_ID \<circ> fst)
         (filter (evaluatedHere input (isc_Components scope) (cs_Component e)) (zip (rd_Rules rules) claims)) \<and>
       cs_NotEvaluated e = map (skippedEntry input (isc_Components scope))
         (filter (skippedHere input (isc_Components scope) (cs_Component e)) (zip (rd_Rules rules) claims))"
proof -
  let ?S = "isc_Components scope" and ?ps = "zip (rd_Rules rules) claims"
  have valid: "\<forall>r\<in>set (rd_Rules rules). validateRule r registry = None" "sorted_wrt (<) (map r_ID (rd_Rules rules))"
    "idRE (rd_Revision rules)" using rul by (auto simp: wfRules_def)
  have scope: "?S \<noteq> []" "length ?S \<le> maxComponents" "sorted_wrt (<) ?S" "\<forall>c\<in>set ?S. componentRE c"
    "map ic_Component (is_Components (id_Current input)) = ?S" "map ic_Component (is_Components (id_Proposed input)) = ?S"
    using inp sc by (auto simp: wfInput_def wfScope_def)
  have "set ?S \<subseteq> ic_Component ` set (is_Components (id_Current input))" "set ?S \<subseteq> ic_Component ` set (is_Components (id_Proposed input))"
    using arg_cong [OF scope(5), of set] arg_cong [OF scope(6), of set] by simp_all
  from scopeEntries_ok [OF inp this, of "co_Components corpus"] obtain es where es:
    "scopeEntries input (co_Components corpus) ?S = Some es" "map cs_Component es = ?S"
    "\<forall>e\<in>set es. freshEntry e \<and> cs_CorpusAttested e = (cs_Component e \<in> set (co_Components corpus))" by auto
  note ids = evaluatedClaims_ids [OF ev valid(1)]
  have dS: "distinct ?S" using sorted_wrt_less_distinct [OF scope(3)] .
  let ?cs = "map (extendEntry input ?S ?ps) es"
  have fold: "fold (recordRule input ?S) ?ps (es, 0) = (?cs, outOfScopeCount ?S ?ps)"
    using recordRule_fold [OF es(2) dS] by simp
  have sound: "entryOK (extendEntry input ?S ?ps e)" "referencesResolve claims [extendEntry input ?S ?ps e]" if "e \<in> set es" for e
  proof -
    have "cs_Component e \<in> set ?S" using that es(2) by (metis image_eqI set_map)
    then show "entryOK (extendEntry input ?S ?ps e)" "referencesResolve claims [extendEntry input ?S ?ps e]"
      using extendEntry_sound [OF ev valid(1,2), of e ?S] that es(3) scope(4) by auto
  qed
  have res: "referencesResolve claims ?cs"
    using sound(2) by (induction es) (auto simp: referencesResolve_Cons referencesResolve_def evaluatedIDs_def skippedIn_def)
  define block where "block = \<lparr>so_Declaration = ScopeDeclaration, so_CorpusAttestation = CorpusAttestation,
    so_ContractDigest = scopeDigestFor engineDigest, so_RuleSetRevision = rd_Revision rules,
    so_Resolved = (scopeUnresolved claims ?cs = []), so_UnresolvedReason = scopeUnresolved claims ?cs,
    so_OutOfScopeRules = outOfScopeCount ?S ?ps, so_Components = ?cs\<rparr>"
  have build: "buildScopeCompleteness input rules claims engineDigest = (Some block, blockAssessment claims ?cs)"
    using ids(1) res by (simp add: buildScopeCompleteness_def sc co es(1) fold deriveAssessment_ok block_def)
  have "mset (blockIDs ?cs) = mset (map (r_ID \<circ> fst) (filter (\<lambda>p. subjectOf (fst p) \<in> set ?S) ?ps))"
    using blockIDs_extend [of es input ?S ?ps] es(2,3) dS by (metis set_map)
  note accounted = mset_eq_setD [OF this] mset_eq_length [OF this] mset_eq_imp_distinct_iff [OF this]
  have dist: "distinct (blockIDs ?cs)"
    using accounted(3) sorted_wrt_less_distinct [OF sorted_zip_filter [OF valid(2) ids(1)]] by simp
  have subset: "set (blockIDs ?cs) \<subseteq> set (map cl_RuleID claims)"
    unfolding accounted(1) ids(2) by (auto dest: set_zip_leftD)
  have "length (filter (\<lambda>p. subjectOf (fst p) \<in> set ?S) ?ps) + length (filter (\<lambda>p. subjectOf (fst p) \<notin> set ?S) ?ps) = length ?ps"
    using sum_length_filter_compl by blast
  then have count: "int (length (blockIDs ?cs)) + outOfScopeCount ?S ?ps = int (length claims)"
    using ids(1) by (simp add: accounted(2) outOfScopeCount_def)
  have "es \<noteq> []" "length es \<le> maxComponents" using scope(1,2) es(2) by (metis list.map_disc_iff, metis length_map)
  moreover have comps: "map cs_Component ?cs = ?S" using es(2) by (simp add: extendEntry_def comp_def)
  ultimately have "validScopeBlock block claims engineDigest"
    unfolding validScopeBlock_iff
    using dg valid(3) scope(3) sound(1) dist subset count scopeUnresolved_reason
    by (auto simp: block_def outOfScopeCount_def)
  then show ?thesis
    using that [of block] build deriveAssessment_ok [of claims block] res comps es(3)
    by (simp add: block_def extendEntry_def freshEntry_def)
qed

end

end
