(* ===== verification/Reporting.thy ===== *)
theory Reporting
  imports ScopeGate
begin

text \<open>
  The report (\<open>constraintengine/evaluate.go\<close>: \<open>Evaluate\<close>, \<open>issueReport\<close>, \<open>MarshalReport\<close> and its
  checks, \<open>Replay\<close>).

  Shown here: on parser-issued capabilities of one registry and an explicit UTC clock, evaluation
  always returns a report, the publication gate accepts that report, and replaying the published
  bytes succeeds; what each assessment of a published report rests on.
\<close>

section \<open>Evaluation and publication\<close>

fun evaluateAll :: "inputDocument \<Rightarrow> goTime \<Rightarrow> rule list \<Rightarrow> Claim list result" where
  "evaluateAll input now [] = Inr []"
| "evaluateAll input now (r # rs) =
     (case evaluateRule input r now of
        Inl e \<Rightarrow> Inl e
      | Inr c \<Rightarrow> (case evaluateAll input now rs of Inl e \<Rightarrow> Inl e | Inr cs \<Rightarrow> Inr (c # cs)))"

definition issueReport :: "Report \<Rightarrow> Report" where
  "issueReport report = report\<lparr>rp_seal := True, rp_digest := digestBytes (jsonPrint (encReport report))\<rparr>"

definition Evaluate :: "Input \<Rightarrow> RuleSet \<Rightarrow> goTime \<Rightarrow> Report result" where
  "Evaluate input rules now =
     (if \<not> inputValid input \<or> \<not> ruleSetValid rules \<or> in_registryDigest input = [] \<or>
         in_registryDigest input \<noteq> rs_registryDigest rules \<or> timeIsZero now \<or> \<not> t_utc now \<or> t_nsec now \<noteq> 0
      then Inl (ErrIntegrity ''evaluation capability or clock'')
      else (case evaluateAll (in_document input) now (rd_Rules (rs_document rules)) of
              Inl e \<Rightarrow> Inl e
            | Inr claims \<Rightarrow>
                (let (scope, assessment) = buildScopeCompleteness (in_document input) (rs_document rules) claims
                                             (ruleSetEngineDigest rules)
                 in Inr (issueReport
                      \<lparr>rp_Schema = ReportSchema, rp_Assessment = assessment, rp_InputAuthority = InputAuthority,
                       rp_RulesAuthority = RulesAuthority, rp_EvaluatedAt = formatRFC3339 now,
                       rp_InputDigest = in_digest input, rp_RuleSetDigest = rs_digest rules,
                       rp_PolicyID = rd_PolicyID (rs_document rules), rp_PolicyDigest = rd_PolicyDigest (rs_document rules),
                       rp_EngineContractDigest = ruleSetEngineDigest rules, rp_RegistryDigest = in_registryDigest input,
                       rp_Claims = claims, rp_Omissions = requiredOmissions assessment,
                       rp_ScopeCompleteness = scope, rp_seal = False, rp_digest = []\<rparr>))))"

definition validClaims :: "Claim list \<Rightarrow> bool" where
  "validClaims claims = allAdj (\<lambda>p c. \<not> outOfOrder cl_RuleID p c \<and> validClaim c) None claims"

definition validClaimMatch :: "string \<Rightarrow> Claim \<Rightarrow> bool" where
  "validClaimMatch engineDigest claim =
     (case cl_SubjectMatch claim of
        None \<Rightarrow> True
      | Some m \<Rightarrow>
          if engineDigest \<noteq> engineContractDigestRanged \<or> sm_Mode m \<noteq> subjectMatchModeRange \<or>
             cl_Status claim = ''UNKNOWN'' \<and> cl_ReasonCode claim = ''RULE_TRANSITION_NOT_REVIEWED'' then False
          else if \<not> validVersion (sm_AnchorFrom m) \<or> \<not> validVersion (sm_AnchorTo m) \<or>
                  \<not> inBound (sm_AnchorFrom m) (sm_From m) \<or> \<not> inBound (sm_AnchorTo m) (sm_To m) then False
          else (case compareVersions (vb_Lt (sm_From m)) (vb_Gte (sm_To m)) of
                  None \<Rightarrow> False
                | Some c \<Rightarrow> \<not> 0 < c))"

definition validClaimMatches :: "Report \<Rightarrow> bool" where
  "validClaimMatches report = list_all (validClaimMatch (rp_EngineContractDigest report)) (rp_Claims report)"

definition MarshalReport :: "Report \<Rightarrow> string result" where
  "MarshalReport report =
     (if \<not> rp_seal report \<or> rp_Schema report \<noteq> ReportSchema \<or> \<not> legalAssessment report \<or>
         rp_InputAuthority report \<noteq> InputAuthority \<or> rp_RulesAuthority report \<noteq> RulesAuthority \<or>
         scopeDigestFor (rp_EngineContractDigest report) = [] \<or> \<not> validClaimMatches report \<or>
         \<not> digestRE (rp_InputDigest report) \<or> \<not> digestRE (rp_RuleSetDigest report) \<or>
         \<not> digestRE (rp_PolicyDigest report) \<or> \<not> digestRE (rp_RegistryDigest report) \<or>
         \<not> validClaims (rp_Claims report) \<or>
         \<not> sameOmissions (rp_Omissions report) (requiredOmissions (rp_Assessment report))
      then Inl (ErrIntegrity [])
      else (let raw = jsonPrint (encReport report) in
            if digestBytes raw \<noteq> rp_digest report then Inl (ErrIntegrity []) else Inr raw))"

definition Replay :: "Input \<Rightarrow> RuleSet \<Rightarrow> goTime \<Rightarrow> string \<Rightarrow> Report result" where
  "Replay input rules now expected =
     (case Evaluate input rules now of
        Inl e \<Rightarrow> Inl e
      | Inr report \<Rightarrow>
          (case MarshalReport report of
             Inl _ \<Rightarrow> Inl (ErrIntegrity [])
           | Inr raw \<Rightarrow> if raw \<noteq> expected then Inl (ErrIntegrity []) else Inr report))"

section \<open>The claims of a report\<close>

lemma evaluateAll_iff:
  "evaluateAll input now rs = Inr cs \<longleftrightarrow> evaluatedClaims evaluateRule input rs now cs"
proof (induction rs arbitrary: cs)
  case Nil
  then show ?case by (auto simp: evaluatedClaims_def)
next
  case (Cons r rs)
  show ?case
  proof (cases "evaluateRule input r now")
    case (Inl e)
    then show ?thesis by (auto simp: evaluatedClaims_def Cons_eq_map_conv)
  next
    case (Inr c)
    show ?thesis
    proof
      assume "evaluateAll input now (r # rs) = Inr cs"
      with Inr obtain ds where "evaluateAll input now rs = Inr ds" "cs = c # ds" by (auto split: sum.splits)
      with Inr Cons.IH [of ds] show "evaluatedClaims evaluateRule input (r # rs) now cs" by (simp add: evaluatedClaims_def)
    next
      assume "evaluatedClaims evaluateRule input (r # rs) now cs"
      with Inr obtain ds where "cs = c # ds" "evaluatedClaims evaluateRule input rs now ds"
        by (auto simp: evaluatedClaims_def Cons_eq_map_conv)
      with Inr Cons.IH [of ds] show "evaluateAll input now (r # rs) = Inr cs" by simp
    qed
  qed
qed

lemma evaluateAll_total:
  assumes "\<forall>r\<in>set rs. validateRule r registry = None"
  shows "\<exists>cs. evaluateAll input now rs = Inr cs"
proof -
  obtain cs where "map (\<lambda>r. evaluateRule input r now) rs = map Inr cs"
    by (rule rule_eval.eval_claims [OF assms, of input now])
  then show ?thesis by (auto simp: evaluateAll_iff evaluatedClaims_def)
qed

lemma encReport_unsealed: "encReport (report\<lparr>rp_seal := b, rp_digest := d\<rparr>) = encReport report"
  by (simp add: encReport_def)

text \<open>A capability pair as the parsers issue them, of one registry the constructor built.\<close>

definition issuedPair :: "Registry \<Rightarrow> Input \<Rightarrow> RuleSet \<Rightarrow> bool" where
  "issuedPair registry input rules \<longleftrightarrow>
     wfRegistry registry \<and> wfInput registry (in_document input) \<and> inputValid input \<and>
     in_registryDigest input = reg_digest registry \<and>
     wfRules registry (rs_document rules) \<and> ruleSetValid rules \<and> rs_registryDigest rules = reg_digest registry \<and>
     (rs_ranged rules \<longleftrightarrow> (\<exists>r\<in>set (rd_Rules (rs_document rules)). r_Range r \<noteq> None))"

lemma issuedPair_parsed:
  assumes "newRegistry definitions limit = Inr registry"
    and "ParseInput rawInput registry = Inr input" and "ParseRuleSet rawRules registry = Inr rules"
  shows "issuedPair registry input rules"
  unfolding issuedPair_def
  using newRegistry_wf [OF assms(1)] ParseInput_issued [OF assms(2)] ParseRuleSet_issued [OF assms(3)] by simp

definition validClock :: "goTime \<Rightarrow> bool" where
  "validClock now \<longleftrightarrow> \<not> timeIsZero now \<and> t_utc now \<and> t_nsec now = 0"

lemma issuedPair_digest: "issuedPair registry input rules \<Longrightarrow> digestRE (reg_digest registry)"
  by (simp add: issuedPair_def wfRegistry_def registryDigest_def)

lemma Evaluate_form:
  assumes "issuedPair registry input rules" and "validClock now"
  obtains claims report scope assessment where
    "Evaluate input rules now = Inr (issueReport report)"
    "evaluatedClaims evaluateRule (in_document input) (rd_Rules (rs_document rules)) now claims"
    "buildScopeCompleteness (in_document input) (rs_document rules) claims (ruleSetEngineDigest rules) = (scope, assessment)"
    "report = \<lparr>rp_Schema = ReportSchema, rp_Assessment = assessment, rp_InputAuthority = InputAuthority,
       rp_RulesAuthority = RulesAuthority, rp_EvaluatedAt = formatRFC3339 now,
       rp_InputDigest = in_digest input, rp_RuleSetDigest = rs_digest rules,
       rp_PolicyID = rd_PolicyID (rs_document rules), rp_PolicyDigest = rd_PolicyDigest (rs_document rules),
       rp_EngineContractDigest = ruleSetEngineDigest rules, rp_RegistryDigest = in_registryDigest input,
       rp_Claims = claims, rp_Omissions = requiredOmissions assessment,
       rp_ScopeCompleteness = scope, rp_seal = False, rp_digest = []\<rparr>"
proof -
  have "\<forall>r\<in>set (rd_Rules (rs_document rules)). validateRule r registry = None"
    using assms(1) by (simp add: issuedPair_def wfRules_def)
  then obtain claims where claims: "evaluateAll (in_document input) now (rd_Rules (rs_document rules)) = Inr claims"
    using evaluateAll_total by blast
  obtain scope assessment where build:
    "buildScopeCompleteness (in_document input) (rs_document rules) claims (ruleSetEngineDigest rules) = (scope, assessment)"
    by fastforce
  have "reg_digest registry \<noteq> []" using issuedPair_digest [OF assms(1)] by (auto simp: digestRE_def hasPrefix_def)
  then show ?thesis
    using assms claims build that [OF _ claims [unfolded evaluateAll_iff] build refl]
    by (simp add: Evaluate_def issuedPair_def validClock_def)
qed

section \<open>The publication gate accepts what the evaluator issues\<close>

lemma evaluatedClaims_ok:
  assumes "evaluatedClaims evaluateRule input rs now cs" and "\<forall>r\<in>set rs. validateRule r registry = None"
    and "(r, c) \<in> set (zip rs cs)"
  shows "claimOK input r now c" and "validateRule r registry = None"
proof -
  note p = rule_eval.evaluatedClaims_pair [OF assms(1,3)]
  show v: "validateRule r registry = None" using p(1) assms(2) by blast
  show "claimOK input r now c" using evaluateRule_ok [OF v, of input now] p(3) by auto
qed

lemma evaluatedClaims_rule:
  assumes "evaluatedClaims evaluateRule input rs now cs" and "c \<in> set cs"
  obtains r where "(r, c) \<in> set (zip rs cs)"
proof -
  have len: "length cs = length rs" using assms(1) by (metis evaluatedClaims_def length_map)
  obtain i where "i < length cs" "cs ! i = c" using assms(2) by (auto simp: in_set_conv_nth)
  then have "(rs ! i, c) \<in> set (zip rs cs)" using len by (auto simp: in_set_zip)
  then show ?thesis by (rule that)
qed

lemma validClaims_issued:
  assumes "evaluatedClaims evaluateRule input rs now cs" and "\<forall>r\<in>set rs. validateRule r registry = None"
    and "sorted_wrt (<) (map r_ID rs)" and "wfRegistry registry"
  shows "validClaims cs"
proof -
  have "validClaim c" if "c \<in> set cs" for c
    by (rule evaluatedClaims_rule [OF assms(1) that])
       (use evaluatedClaims_ok [OF assms(1,2)] claimOK_valid assms(4) in blast)
  moreover have "map cl_RuleID cs = map r_ID rs" by (rule rule_eval.evaluatedClaims_ids(2) [OF assms(1,2)])
  ultimately show ?thesis using assms(3) by (simp add: validClaims_def allAdj_order)
qed

lemma claimOK_match:
  assumes "claimOK input r now c" and "validateRule r registry = None"
    and "r_Range r \<noteq> None \<Longrightarrow> engineDigest = engineContractDigestRanged"
  shows "validClaimMatch engineDigest c"
proof (cases "cl_SubjectMatch c")
  case None
  then show ?thesis by (simp add: validClaimMatch_def)
next
  case (Some m)
  then have rm: "rangeMatched input r" and m: "rangeDisclosure r = Some m"
    using claimOK_sel(3) [OF assms(1)] by (auto split: if_splits)
  then obtain rng where rng: "r_Range r = Some rng" and mr: "m = \<lparr>sm_Mode = subjectMatchModeRange,
      sm_AnchorFrom = tr_From (r_Subject r), sm_AnchorTo = tr_To (r_Subject r), sm_From = vr_From rng, sm_To = vr_To rng\<rparr>"
    by (auto simp: rangeDisclosure_def)
  have reg: "regularSubject r" using validateRule_facts(5) [OF assms(2)] .
  then obtain fl tg where g: "parseVersion (vb_Lt (vr_From rng)) = Some fl" "parseVersion (vb_Gte (vr_To rng)) = Some tg" "fl \<le> tg"
    "inBound (tr_From (r_Subject r)) (vr_From rng)" "inBound (tr_To (r_Subject r)) (vr_To rng)"
    using validateRange_guards [of r rng] rng unfolding regularSubject_def by metis
  obtain k where k: "compareVersions (vb_Lt (vr_From rng)) (vb_Gte (vr_To rng)) = Some k" "\<not> 0 < k"
    using ver.cmp_defined [OF g(1,2)] g(3) by (metis leD)
  have "\<not> (cl_Status c = ''UNKNOWN'' \<and> cl_ReasonCode c = ''RULE_TRANSITION_NOT_REVIEWED'')"
    using rangeMatched_subject [OF rm] by (rule_tac claimOKE [OF assms(1)]) (auto simp: initialClaim_def)
  then show ?thesis
    using Some mr rng reg g(4,5) k assms(3) by (simp add: validClaimMatch_def regularSubject_def)
qed

lemma legalAssessment_issued:
  assumes "issuedPair registry input rules"
    and "evaluatedClaims evaluateRule (in_document input) (rd_Rules (rs_document rules)) now claims"
    and "buildScopeCompleteness (in_document input) (rs_document rules) claims (ruleSetEngineDigest rules) = (scope, assessment)"
    and "rp_Assessment report = assessment" "rp_ScopeCompleteness report = scope" "rp_Claims report = claims"
    and "rp_EngineContractDigest report = ruleSetEngineDigest rules"
  shows "legalAssessment report"
proof (cases "id_Scope (in_document input) = None \<or> rd_Corpus (rs_document rules) = None")
  case True
  then have "scope = None" "assessment = AssessmentUnknown"
    using assms(3) by (auto simp: buildScopeCompleteness_def split: option.splits)
  then show ?thesis using assms(4,5) by (simp add: legalAssessment_def)
next
  case False
  then obtain sc co where sc: "id_Scope (in_document input) = Some sc" "rd_Corpus (rs_document rules) = Some co" by auto
  have wf: "wfInput registry (in_document input)" "wfRules registry (rs_document rules)"
    using assms(1) by (simp_all add: issuedPair_def)
  obtain block where b:
    "buildScopeCompleteness (in_document input) (rs_document rules) claims (ruleSetEngineDigest rules) =
       (Some block, blockAssessment claims (so_Components block))"
    "validScopeBlock block claims (ruleSetEngineDigest rules)"
    "deriveAssessment block claims = Inr (blockAssessment claims (so_Components block), so_UnresolvedReason block)"
    by (rule rule_eval.built_block [OF wf sc assms(2) scopeDigestFor_ruleSet])
  then show ?thesis using assms(3-7) by (simp add: legalAssessment_def)
qed

lemma sameOmissions_iff: "sameOmissions xs ys \<longleftrightarrow> xs = ys"
proof
  assume "sameOmissions xs ys"
  then have "length xs = length ys" "\<forall>i<length ys. xs ! i = ys ! i"
    by (simp_all add: sameOmissions_def list_all_iff split: if_splits)
  then show "xs = ys" by (metis nth_equalityI)
next
  assume "xs = ys"
  then show "sameOmissions xs ys" by (simp add: sameOmissions_def list_all_iff)
qed

lemma MarshalReport_issued:
  assumes "issuedPair registry input rules" and "validClock now"
  obtains report where "Evaluate input rules now = Inr report" "MarshalReport report = Inr (jsonPrint (encReport report))"
    "evaluatedClaims evaluateRule (in_document input) (rd_Rules (rs_document rules)) now (rp_Claims report)"
    "buildScopeCompleteness (in_document input) (rs_document rules) (rp_Claims report) (ruleSetEngineDigest rules) =
       (rp_ScopeCompleteness report, rp_Assessment report)"
proof -
  obtain claims report scope assessment where ev: "Evaluate input rules now = Inr (issueReport report)"
    and claims: "evaluatedClaims evaluateRule (in_document input) (rd_Rules (rs_document rules)) now claims"
    and build: "buildScopeCompleteness (in_document input) (rs_document rules) claims (ruleSetEngineDigest rules) = (scope, assessment)"
    and report: "report = \<lparr>rp_Schema = ReportSchema, rp_Assessment = assessment, rp_InputAuthority = InputAuthority,
       rp_RulesAuthority = RulesAuthority, rp_EvaluatedAt = formatRFC3339 now,
       rp_InputDigest = in_digest input, rp_RuleSetDigest = rs_digest rules,
       rp_PolicyID = rd_PolicyID (rs_document rules), rp_PolicyDigest = rd_PolicyDigest (rs_document rules),
       rp_EngineContractDigest = ruleSetEngineDigest rules, rp_RegistryDigest = in_registryDigest input,
       rp_Claims = claims, rp_Omissions = requiredOmissions assessment,
       rp_ScopeCompleteness = scope, rp_seal = False, rp_digest = []\<rparr>"
    by (rule Evaluate_form [OF assms])
  have wf: "\<forall>r\<in>set (rd_Rules (rs_document rules)). validateRule r registry = None"
    "sorted_wrt (<) (map r_ID (rd_Rules (rs_document rules)))" "digestRE (rd_PolicyDigest (rs_document rules))" "wfRegistry registry"
    using assms(1) by (auto simp: issuedPair_def wfRules_def)
  have ranged: "ruleSetEngineDigest rules = engineContractDigestRanged"
    if "r \<in> set (rd_Rules (rs_document rules))" "r_Range r \<noteq> None" for r
    using assms(1) that by (auto simp: issuedPair_def ruleSetEngineDigest_def)
  have "validClaimMatch (ruleSetEngineDigest rules) c" if c: "c \<in> set claims" for c
  proof -
    obtain r where r: "(r, c) \<in> set (zip (rd_Rules (rs_document rules)) claims)" by (rule evaluatedClaims_rule [OF claims c])
    then have "r \<in> set (rd_Rules (rs_document rules))" by (rule set_zip_leftD)
    then show ?thesis using claimOK_match [OF evaluatedClaims_ok [OF claims wf(1) r]] ranged by blast
  qed
  then have matches: "validClaimMatches (issueReport report)"
    by (simp add: validClaimMatches_def issueReport_def report list_all_iff)
  have legal: "legalAssessment (issueReport report)"
    by (rule legalAssessment_issued [OF assms(1) claims build]) (simp_all add: issueReport_def report)
  have digests: "digestRE (in_digest input)" "digestRE (rs_digest rules)" "digestRE (in_registryDigest input)"
    using assms(1) issuedPair_digest [OF assms(1)] by (auto simp: issuedPair_def inputValid_def ruleSetValid_def)
  have "MarshalReport (issueReport report) = Inr (jsonPrint (encReport (issueReport report)))"
    using matches legal digests wf(3) validClaims_issued [OF claims wf(1,2,4)] scopeDigestFor_ruleSet [of rules]
    by (simp add: MarshalReport_def Let_def sameOmissions_iff) (simp add: issueReport_def report encReport_def)
  with ev claims build show ?thesis
    using that [of "issueReport report"] by (simp add: issueReport_def report)
qed

section \<open>What the assessment of an issued report means\<close>

lemma Evaluate_block:
  assumes "issuedPair registry input rules" and "validClock now" and "Evaluate input rules now = Inr report"
    and "id_Scope (in_document input) = Some scope" and "rd_Corpus (rs_document rules) = Some corpus"
  obtains block where
    "evaluatedClaims evaluateRule (in_document input) (rd_Rules (rs_document rules)) now (rp_Claims report)"
    "rp_ScopeCompleteness report = Some block"
    "rp_Assessment report = blockAssessment (rp_Claims report) (so_Components block)"
    "map cs_Component (so_Components block) = isc_Components scope"
    "\<forall>e\<in>set (so_Components block).
       (cs_CorpusAttested e \<longleftrightarrow> cs_Component e \<in> set (co_Components corpus)) \<and>
       cs_EvaluatedRuleIDs e = map (r_ID \<circ> fst) (filter (evaluatedHere (in_document input) (isc_Components scope)
         (cs_Component e)) (zip (rd_Rules (rs_document rules)) (rp_Claims report))) \<and>
       cs_NotEvaluated e = map (skippedEntry (in_document input) (isc_Components scope)) (filter (skippedHere
         (in_document input) (isc_Components scope) (cs_Component e)) (zip (rd_Rules (rs_document rules)) (rp_Claims report)))"
proof -
  have wf: "wfInput registry (in_document input)" "wfRules registry (rs_document rules)"
    using assms(1) by (simp_all add: issuedPair_def)
  obtain report' where r: "Evaluate input rules now = Inr report'"
    "evaluatedClaims evaluateRule (in_document input) (rd_Rules (rs_document rules)) now (rp_Claims report')"
    "buildScopeCompleteness (in_document input) (rs_document rules) (rp_Claims report') (ruleSetEngineDigest rules) =
       (rp_ScopeCompleteness report', rp_Assessment report')"
    by (rule MarshalReport_issued [OF assms(1,2)])
  have eq: "report' = report" using r(1) assms(3) by simp
  obtain block where b:
    "buildScopeCompleteness (in_document input) (rs_document rules) (rp_Claims report) (ruleSetEngineDigest rules) =
       (Some block, blockAssessment (rp_Claims report) (so_Components block))"
    "map cs_Component (so_Components block) = isc_Components scope"
    "\<forall>e\<in>set (so_Components block).
       (cs_CorpusAttested e \<longleftrightarrow> cs_Component e \<in> set (co_Components corpus)) \<and>
       cs_EvaluatedRuleIDs e = map (r_ID \<circ> fst) (filter (evaluatedHere (in_document input) (isc_Components scope)
         (cs_Component e)) (zip (rd_Rules (rs_document rules)) (rp_Claims report))) \<and>
       cs_NotEvaluated e = map (skippedEntry (in_document input) (isc_Components scope)) (filter (skippedHere
         (in_document input) (isc_Components scope) (cs_Component e)) (zip (rd_Rules (rs_document rules)) (rp_Claims report)))"
    by (rule rule_eval.built_block [OF wf assms(4,5) r(2) [unfolded eq] scopeDigestFor_ruleSet [of rules]])
  have "rp_ScopeCompleteness report = Some block" "rp_Assessment report = blockAssessment (rp_Claims report) (so_Components block)"
    using r(3) b(1) by (simp_all add: eq)
  then show ?thesis using that [OF r(2) [unfolded eq]] b(2,3) by blast
qed

text \<open>The members of the evaluated and skipped lists, and the status recorded for them.\<close>

lemma Evaluate_members:
  assumes "issuedPair registry input rules"
    and "evaluatedClaims evaluateRule (in_document input) (rd_Rules (rs_document rules)) now claims"
    and "r \<in> set (rd_Rules (rs_document rules))"
  obtains c where "(r, c) \<in> set (zip (rd_Rules (rs_document rules)) claims)" "claimOK (in_document input) r now c"
    "claimStatuses claims (r_ID r) = Some (expectedStatus (in_document input) r now)"
    "claimRangeMatched claims (r_ID r) \<longleftrightarrow> evidenceCurrent r now \<and> rangeMatched (in_document input) r"
proof -
  let ?rs = "rd_Rules (rs_document rules)"
  have wf: "\<forall>r\<in>set ?rs. validateRule r registry = None" "sorted_wrt (<) (map r_ID ?rs)"
    using assms(1) by (auto simp: issuedPair_def wfRules_def)
  note ids = rule_eval.evaluatedClaims_ids [OF assms(2) wf(1)]
  obtain i where i: "i < length ?rs" "?rs ! i = r" using assms(3) by (auto simp: in_set_conv_nth)
  then have m: "(r, claims ! i) \<in> set (zip ?rs claims)" using ids(1) by (auto simp: in_set_zip)
  note ok = evaluatedClaims_ok(1) [OF assms(2) wf(1) m]
  have dist: "distinct (map cl_RuleID claims)" using sorted_wrt_less_distinct [OF wf(2)] ids(2) by simp
  have mem: "claims ! i \<in> set claims" using rule_eval.evaluatedClaims_pair(2) [OF assms(2) m] .
  have "rangeDisclosure r \<noteq> None" if "rangeMatched (in_document input) r"
    using rangeMatched_range [OF that] by (auto simp: rangeDisclosure_def)
  then show ?thesis
    using that [OF m ok] claimStatuses_known [OF dist mem] claimRangeMatched_known [OF dist mem] claimOK_sel [OF ok] by simp
qed

lemma evaluatedIDs_iff:
  assumes "map cs_Component cs = S"
    and "\<forall>e\<in>set cs. cs_EvaluatedRuleIDs e = map (r_ID \<circ> fst) (filter (evaluatedHere input S (cs_Component e)) ps)"
  shows "i \<in> set (evaluatedIDs cs) \<longleftrightarrow>
    (\<exists>r c. (r, c) \<in> set ps \<and> i = r_ID r \<and> subjectOf r \<in> set S \<and> applicableIn input S r \<and> decided c)"
proof
  assume "i \<in> set (evaluatedIDs cs)"
  then obtain e where e: "e \<in> set cs" "i \<in> set (cs_EvaluatedRuleIDs e)" by (auto simp: evaluatedIDs_def)
  then have "cs_Component e \<in> set S" using assms(1) by (metis image_eqI set_map)
  with e assms(2) show "\<exists>r c. (r, c) \<in> set ps \<and> i = r_ID r \<and> subjectOf r \<in> set S \<and> applicableIn input S r \<and> decided c"
    by (fastforce simp: evaluatedHere_def)
next
  assume "\<exists>r c. (r, c) \<in> set ps \<and> i = r_ID r \<and> subjectOf r \<in> set S \<and> applicableIn input S r \<and> decided c"
  then obtain r c where rc: "(r, c) \<in> set ps" "i = r_ID r" "subjectOf r \<in> set S" "applicableIn input S r" "decided c" by auto
  then obtain e where "e \<in> set cs" "cs_Component e = subjectOf r" using assms(1) by (metis (no_types, lifting) imageE set_map)
  moreover have "i \<in> set (map (r_ID \<circ> fst) (filter (evaluatedHere input S (subjectOf r)) ps))"
    using rc by (auto simp: evaluatedHere_def intro!: image_eqI [of _ _ "(r, c)"])
  ultimately have "i \<in> set (cs_EvaluatedRuleIDs e)" using assms(2) by simp
  with \<open>e \<in> set cs\<close> show "i \<in> set (evaluatedIDs cs)" by (auto simp: evaluatedIDs_def)
qed

lemma blocked_issued:
  assumes "issuedPair registry input rules" and "validClock now" and "Evaluate input rules now = Inr report"
    and "id_Scope (in_document input) = Some scope" and "rd_Corpus (rs_document rules) = Some corpus"
  shows "rp_Assessment report = AssessmentBlocked \<longleftrightarrow>
    (\<exists>r\<in>set (rd_Rules (rs_document rules)). subjectOf r \<in> set (isc_Components scope) \<and>
       expectedStatus (in_document input) r now = ''BLOCKED'')"
proof -
  let ?rs = "rd_Rules (rs_document rules)" and ?S = "isc_Components scope" and ?d = "in_document input"
  obtain block where b: "evaluatedClaims evaluateRule ?d ?rs now (rp_Claims report)"
    "rp_ScopeCompleteness report = Some block"
    "rp_Assessment report = blockAssessment (rp_Claims report) (so_Components block)"
    "map cs_Component (so_Components block) = ?S"
    "\<forall>e\<in>set (so_Components block).
       (cs_CorpusAttested e \<longleftrightarrow> cs_Component e \<in> set (co_Components corpus)) \<and>
       cs_EvaluatedRuleIDs e = map (r_ID \<circ> fst) (filter (evaluatedHere ?d ?S
         (cs_Component e)) (zip ?rs (rp_Claims report))) \<and>
       cs_NotEvaluated e = map (skippedEntry ?d ?S) (filter (skippedHere
         ?d ?S (cs_Component e)) (zip ?rs (rp_Claims report)))"
    by (rule Evaluate_block [OF assms])
  have "\<forall>e\<in>set (so_Components block). cs_EvaluatedRuleIDs e =
      map (r_ID \<circ> fst) (filter (evaluatedHere ?d ?S (cs_Component e)) (zip ?rs (rp_Claims report)))"
    using b(5) by blast
  note ev = evaluatedIDs_iff [OF b(4) this]
  have wf: "\<forall>r\<in>set ?rs. validateRule r registry = None" using assms(1) by (simp add: issuedPair_def wfRules_def)
  show ?thesis
    unfolding b(3) blockAssessment_blocked anyBlocked_def
  proof
    assume "\<exists>i\<in>set (evaluatedIDs (so_Components block)). claimStatuses (rp_Claims report) i = Some ''BLOCKED''"
    then obtain i where i: "i \<in> set (evaluatedIDs (so_Components block))" "claimStatuses (rp_Claims report) i = Some ''BLOCKED''" by blast
    then obtain r c where rc: "(r, c) \<in> set (zip ?rs (rp_Claims report))" "subjectOf r \<in> set ?S"
      "claimStatuses (rp_Claims report) (r_ID r) = Some ''BLOCKED''" using ev [of i] by blast
    then have "r \<in> set ?rs" by (auto dest: set_zip_leftD)
    from Evaluate_members [OF assms(1) b(1) this] rc show
      "\<exists>r\<in>set ?rs. subjectOf r \<in> set ?S \<and> expectedStatus ?d r now = ''BLOCKED''"
      using \<open>r \<in> set ?rs\<close> by (metis option.inject)
  next
    assume "\<exists>r\<in>set ?rs. subjectOf r \<in> set ?S \<and> expectedStatus ?d r now = ''BLOCKED''"
    then obtain r where r: "r \<in> set ?rs" "subjectOf r \<in> set ?S" "expectedStatus ?d r now = ''BLOCKED''" by blast
    obtain c where c: "(r, c) \<in> set (zip ?rs (rp_Claims report))" "claimOK ?d r now c"
      "claimStatuses (rp_Claims report) (r_ID r) = Some ''BLOCKED''"
      using Evaluate_members [OF assms(1) b(1) r(1)] r(3) by metis
    have "applicableIn ?d ?S r" using r(2,3) expectedStatus_iff(1) by (simp add: applicableIn_iff)
    moreover have "decided c" using claimOK_sel(2) [OF c(2)] r(3) by (simp add: decided_def)
    ultimately have "r_ID r \<in> set (evaluatedIDs (so_Components block))" using ev [of "r_ID r"] c(1) r(2) by blast
    with c(3) show "\<exists>i\<in>set (evaluatedIDs (so_Components block)). claimStatuses (rp_Claims report) i = Some ''BLOCKED''" by blast
  qed
qed

text \<open>No rule of a component is left undetermined, seen from the block and from the rules.\<close>

lemma undetermined_iff:
  assumes "issuedPair registry input rules"
    and "evaluatedClaims evaluateRule (in_document input) (rd_Rules (rs_document rules)) now claims"
    and "r \<in> set (rd_Rules (rs_document rules))" and "(r, c) \<in> set (zip (rd_Rules (rs_document rules)) claims)"
    and "subjectOf r \<in> set S"
  shows "applicableIn (in_document input) S r \<and> decided c \<or> \<not> isUndetermined (skippedEntry (in_document input) S (r, c)) \<longleftrightarrow>
    expectedStatus (in_document input) r now = ''PASS'' \<or> expectedStatus (in_document input) r now = ''BLOCKED'' \<or>
    fst (ruleApplicability (in_document input) S r) = ApplicabilityNotApplicable"
proof -
  let ?d = "in_document input"
  have "\<forall>r\<in>set (rd_Rules (rs_document rules)). validateRule r registry = None"
    using assms(1) by (simp add: issuedPair_def wfRules_def)
  note ok = evaluatedClaims_ok(1) [OF assms(2) this assms(4)]
  have st: "decided c \<longleftrightarrow> expectedStatus ?d r now = ''PASS'' \<or> expectedStatus ?d r now = ''BLOCKED''"
    by (simp add: decided_def claimOK_sel(2) [OF ok])
  have app: "applicableIn ?d S r" if "decided c"
    using that assms(5) unfolding st expectedStatus_iff applicableIn_iff by blast
  show ?thesis
  proof (cases "applicableIn ?d S r")
    case True
    then have "fst (ruleApplicability ?d S r) \<noteq> ApplicabilityNotApplicable" by (simp add: applicableIn_def engine_defs)
    with True st show ?thesis by (simp add: skippedEntry_def)
  next
    case False
    then have "\<not> decided c" using app by blast
    moreover from assms(5) have "isUndetermined (skippedEntry ?d S (r, c)) \<longleftrightarrow>
        fst (ruleApplicability ?d S r) \<noteq> ApplicabilityNotApplicable"
      by (cases rule: ruleApplicability_cases [where input = ?d]) (use False in \<open>auto simp: skippedEntry_def applicableIn_def engine_defs\<close>)
    ultimately show ?thesis using False st by auto
  qed
qed

lemma skippedIn_iff:
  assumes "map cs_Component cs = S"
    and "\<forall>e\<in>set cs. cs_NotEvaluated e = map (skippedEntry input S) (filter (skippedHere input S (cs_Component e)) ps)"
  shows "(\<forall>n\<in>set (skippedIn cs). \<not> isUndetermined n) \<longleftrightarrow>
    (\<forall>r c. (r, c) \<in> set ps \<longrightarrow> subjectOf r \<in> set S \<longrightarrow>
       applicableIn input S r \<and> decided c \<or> \<not> isUndetermined (skippedEntry input S (r, c)))"
proof -
  have "set (skippedIn cs) = (\<Union>e\<in>set cs. skippedEntry input S ` {p \<in> set ps. skippedHere input S (cs_Component e) p})"
    using assms(2) by (simp add: skippedIn_def)
  also have "\<dots> = skippedEntry input S ` {p \<in> set ps. \<exists>k\<in>cs_Component ` set cs. skippedHere input S k p}" by blast
  also have "cs_Component ` set cs = set S" using assms(1) by (metis set_map)
  finally have set_eq: "set (skippedIn cs) = skippedEntry input S ` {p \<in> set ps. \<exists>k\<in>set S. skippedHere input S k p}" .
  show ?thesis unfolding set_eq skippedHere_def by force
qed

lemma anchorReviewed_iff:
  assumes "issuedPair registry input rules"
    and "evaluatedClaims evaluateRule (in_document input) (rd_Rules (rs_document rules)) now claims"
    and "cs_EvaluatedRuleIDs e = map (r_ID \<circ> fst) (filter (evaluatedHere (in_document input) S (cs_Component e))
           (zip (rd_Rules (rs_document rules)) claims))"
    and "cs_Component e \<in> set S"
  shows "anchorReviewed claims e \<longleftrightarrow>
    (\<exists>r\<in>set (rd_Rules (rs_document rules)). subjectOf r = cs_Component e \<and> \<not> rangeMatched (in_document input) r \<and>
       (expectedStatus (in_document input) r now = ''PASS'' \<or> expectedStatus (in_document input) r now = ''BLOCKED''))"
proof -
  let ?d = "in_document input" and ?rs = "rd_Rules (rs_document rules)"
  have wf: "\<forall>r\<in>set ?rs. validateRule r registry = None" using assms(1) by (simp add: issuedPair_def wfRules_def)
  show ?thesis
  proof
    assume "anchorReviewed claims e"
    then obtain r c where rc: "(r, c) \<in> set (zip ?rs claims)" "subjectOf r = cs_Component e" "decided c"
      "\<not> claimRangeMatched claims (r_ID r)"
      by (auto simp: anchorReviewed_def assms(3) evaluatedHere_def)
    then have r: "r \<in> set ?rs" by (auto dest: set_zip_leftD)
    note ok = evaluatedClaims_ok(1) [OF assms(2) wf rc(1)]
    have st: "expectedStatus ?d r now = ''PASS'' \<or> expectedStatus ?d r now = ''BLOCKED''"
      using rc(3) by (simp add: decided_def claimOK_sel(2) [OF ok])
    then have "evidenceCurrent r now" unfolding expectedStatus_iff by blast
    then have "\<not> rangeMatched ?d r" using rc(4) Evaluate_members [OF assms(1,2) r] by metis
    with st r rc(2) show "\<exists>r\<in>set ?rs. subjectOf r = cs_Component e \<and> \<not> rangeMatched ?d r \<and>
        (expectedStatus ?d r now = ''PASS'' \<or> expectedStatus ?d r now = ''BLOCKED'')" by blast
  next
    assume "\<exists>r\<in>set ?rs. subjectOf r = cs_Component e \<and> \<not> rangeMatched ?d r \<and>
        (expectedStatus ?d r now = ''PASS'' \<or> expectedStatus ?d r now = ''BLOCKED'')"
    then obtain r where r: "r \<in> set ?rs" "subjectOf r = cs_Component e" "\<not> rangeMatched ?d r"
      "expectedStatus ?d r now = ''PASS'' \<or> expectedStatus ?d r now = ''BLOCKED''" by blast
    obtain c where c: "(r, c) \<in> set (zip ?rs claims)" "claimOK ?d r now c" "\<not> claimRangeMatched claims (r_ID r)"
      using Evaluate_members [OF assms(1,2) r(1)] r(3) by metis
    have "applicableIn ?d S r" using r(2,4) assms(4) unfolding expectedStatus_iff applicableIn_iff by auto
    moreover have "decided c" using r(4) by (simp add: decided_def claimOK_sel(2) [OF c(2)])
    ultimately have "(r, c) \<in> set (filter (evaluatedHere ?d S (cs_Component e)) (zip ?rs claims))"
      using c(1) r(2) by (simp add: evaluatedHere_def)
    then have "r_ID r \<in> set (cs_EvaluatedRuleIDs e)" unfolding assms(3) by force
    with c(3) show "anchorReviewed claims e" by (auto simp: anchorReviewed_def)
  qed
qed

lemma settled_iff:
  assumes "A \<longleftrightarrow> \<not> (\<exists>r\<in>R. sub r \<in> S \<and> B r) \<and> C \<and> (\<forall>k\<in>S. \<exists>r\<in>R. sub r = k \<and> \<not> M r \<and> (P r \<or> B r)) \<and>
      (\<forall>r\<in>R. sub r \<in> S \<longrightarrow> P r \<or> B r \<or> N r)"
    and "\<And>r. P r \<Longrightarrow> \<not> B r" and "\<And>r. sub r \<in> S \<Longrightarrow> N r \<Longrightarrow> \<not> B r"
  shows "A \<longleftrightarrow> C \<and> (\<forall>r\<in>R. sub r \<in> S \<longrightarrow> P r \<or> N r) \<and> (\<forall>k\<in>S. \<exists>r\<in>R. sub r = k \<and> \<not> M r \<and> P r)"
  using assms by metis

lemma pass_issued:
  assumes "issuedPair registry input rules" and "validClock now" and "Evaluate input rules now = Inr report"
    and "id_Scope (in_document input) = Some scope" and "rd_Corpus (rs_document rules) = Some corpus"
  shows "rp_Assessment report = AssessmentScopeCompletePass \<longleftrightarrow>
    set (isc_Components scope) \<subseteq> set (co_Components corpus) \<and>
    (\<forall>r\<in>set (rd_Rules (rs_document rules)). subjectOf r \<in> set (isc_Components scope) \<longrightarrow>
       expectedStatus (in_document input) r now = ''PASS'' \<or>
       fst (ruleApplicability (in_document input) (isc_Components scope) r) = ApplicabilityNotApplicable) \<and>
    (\<forall>component\<in>set (isc_Components scope). \<exists>r\<in>set (rd_Rules (rs_document rules)).
       subjectOf r = component \<and> \<not> rangeMatched (in_document input) r \<and>
       expectedStatus (in_document input) r now = ''PASS'')"
proof -
  let ?rs = "rd_Rules (rs_document rules)" and ?S = "isc_Components scope" and ?d = "in_document input"
  let ?cl = "rp_Claims report"
  obtain block where b: "evaluatedClaims evaluateRule ?d ?rs now (rp_Claims report)"
    "rp_ScopeCompleteness report = Some block"
    "rp_Assessment report = blockAssessment (rp_Claims report) (so_Components block)"
    "map cs_Component (so_Components block) = ?S"
    "\<forall>e\<in>set (so_Components block).
       (cs_CorpusAttested e \<longleftrightarrow> cs_Component e \<in> set (co_Components corpus)) \<and>
       cs_EvaluatedRuleIDs e = map (r_ID \<circ> fst) (filter (evaluatedHere ?d ?S
         (cs_Component e)) (zip ?rs (rp_Claims report))) \<and>
       cs_NotEvaluated e = map (skippedEntry ?d ?S) (filter (skippedHere
         ?d ?S (cs_Component e)) (zip ?rs (rp_Claims report)))"
    by (rule Evaluate_block [OF assms])
  let ?cs = "so_Components block"
  have ev: "\<forall>e\<in>set ?cs. cs_EvaluatedRuleIDs e = map (r_ID \<circ> fst) (filter (evaluatedHere ?d ?S (cs_Component e)) (zip ?rs ?cl))"
    and sk: "\<forall>e\<in>set ?cs. cs_NotEvaluated e = map (skippedEntry ?d ?S) (filter (skippedHere ?d ?S (cs_Component e)) (zip ?rs ?cl))"
    using b(5) by blast+
  have comps: "cs_Component ` set ?cs = set ?S" using b(4) by (metis set_map)
  have blocked: "anyBlocked ?cl ?cs \<longleftrightarrow> (\<exists>r\<in>set ?rs. subjectOf r \<in> set ?S \<and> expectedStatus ?d r now = ''BLOCKED'')"
    using blocked_issued [OF assms] unfolding b(3) blockAssessment_blocked .
  have attested: "(\<forall>e\<in>set ?cs. cs_CorpusAttested e) \<longleftrightarrow> set ?S \<subseteq> set (co_Components corpus)"
    using b(5) unfolding comps [symmetric] by auto
  have each: "anchorReviewed ?cl e \<longleftrightarrow> (\<exists>r\<in>set ?rs. subjectOf r = cs_Component e \<and> \<not> rangeMatched ?d r \<and>
      (expectedStatus ?d r now = ''PASS'' \<or> expectedStatus ?d r now = ''BLOCKED''))" if "e \<in> set ?cs" for e
    using that comps by (intro anchorReviewed_iff [OF assms(1) b(1) bspec [OF ev that]]) blast
  have anchor: "(\<forall>e\<in>set ?cs. anchorReviewed ?cl e) \<longleftrightarrow> (\<forall>k\<in>set ?S. \<exists>r\<in>set ?rs. subjectOf r = k \<and> \<not> rangeMatched ?d r \<and>
      (expectedStatus ?d r now = ''PASS'' \<or> expectedStatus ?d r now = ''BLOCKED''))"
    unfolding comps [symmetric] ball_simps(9) using each by simp
  have undet: "(\<forall>n\<in>set (skippedIn ?cs). \<not> isUndetermined n) \<longleftrightarrow> (\<forall>r\<in>set ?rs. subjectOf r \<in> set ?S \<longrightarrow>
      expectedStatus ?d r now = ''PASS'' \<or> expectedStatus ?d r now = ''BLOCKED'' \<or>
      fst (ruleApplicability ?d ?S r) = ApplicabilityNotApplicable)"
    unfolding skippedIn_iff [OF b(4) sk]
    using undetermined_iff [OF assms(1) b(1)] Evaluate_members [OF assms(1) b(1)] by (metis set_zip_leftD)
  have nonempty: "evaluatedIDs ?cs \<noteq> []" if "\<forall>e\<in>set ?cs. anchorReviewed ?cl e"
  proof -
    have "?S \<noteq> []" using assms(1,4) by (auto simp: issuedPair_def wfInput_def wfScope_def)
    then obtain e where "e \<in> set ?cs" using comps by fastforce
    with that have "cs_EvaluatedRuleIDs e \<noteq> []" by (auto simp: anchorReviewed_def)
    with \<open>e \<in> set ?cs\<close> show ?thesis by (auto simp: evaluatedIDs_def)
  qed
  have "rp_Assessment report = AssessmentScopeCompletePass \<longleftrightarrow>
      \<not> anyBlocked ?cl ?cs \<and> (\<forall>e\<in>set ?cs. cs_CorpusAttested e) \<and> (\<forall>e\<in>set ?cs. anchorReviewed ?cl e) \<and>
      (\<forall>n\<in>set (skippedIn ?cs). \<not> isUndetermined n)"
    unfolding b(3) blockAssessment_pass scopeUnresolved_Nil using nonempty by blast
  moreover have "expectedStatus ?d r now = ''PASS'' \<Longrightarrow> expectedStatus ?d r now \<noteq> ''BLOCKED''" for r by simp
  moreover have "expectedStatus ?d r now \<noteq> ''BLOCKED''"
    if "subjectOf r \<in> set ?S" "fst (ruleApplicability ?d ?S r) = ApplicabilityNotApplicable" for r
  proof
    assume "expectedStatus ?d r now = ''BLOCKED''"
    then have "applicableIn ?d ?S r" using that(1) by (simp add: expectedStatus_iff(1) applicableIn_iff)
    with that(2) show False by (simp add: applicableIn_def engine_defs)
  qed
  ultimately show ?thesis unfolding blocked attested anchor undet
    by (rule settled_iff [where P = "\<lambda>r. expectedStatus ?d r now = ''PASS''" and B = "\<lambda>r. expectedStatus ?d r now = ''BLOCKED''"])
qed

end
