(* ===== verification/CncfCheck.thy ===== *)
theory CncfCheck
  imports CncfPack Reporting
begin

text \<open>
  \<open>cncfcheck/check.go\<close>: the check of one project against the rules of a bundle, the publication and
  replay of its report, and the exit code drawn from the claims.

  \<open>cncfCheck\<close> is the method \<open>bundle.check\<close>; the exported functions read the packaged files first. The
  seal of a report is a flag and its digest a text, as for the engine's reports.

  Shown here: what a returned report contains (\<open>cncfCheck_form\<close>), that it is published and replayed
  (\<open>cncfCheck_published\<close>), and which rules its claims are about.
\<close>

section \<open>Reports\<close>

record cncfReport =
  cr_Schema :: string
  cr_Project :: string
  cr_Assessment :: string
  cr_KnowledgeOrigin :: string
  cr_KnowledgeRevision :: string
  cr_KnowledgePackDigest :: string
  cr_CatalogueDigest :: string
  cr_InputFileDigest :: string
  cr_RequestedRuleID :: string
  cr_SelectedRuleID :: string
  cr_SourceAuthority :: string
  cr_RuntimeReproduced :: int
  cr_NetworkUsed :: bool
  cr_NextAction :: string
  cr_Check :: Report
  cr_seal :: bool
  cr_digest :: string

definition encCncfReport :: "cncfReport \<Rightarrow> json" where
  "encCncfReport r =
     JObj ([(''schema'', JStr (cr_Schema r)), (''project'', JStr (cr_Project r)), (''assessment'', JStr (cr_Assessment r)),
            (''knowledgeOrigin'', JStr (cr_KnowledgeOrigin r)), (''knowledgeRevision'', JStr (cr_KnowledgeRevision r)),
            (''knowledgePackDigest'', JStr (cr_KnowledgePackDigest r)), (''catalogueDigest'', JStr (cr_CatalogueDigest r)),
            (''inputFileDigest'', JStr (cr_InputFileDigest r))]
           @ omitBlank ''requestedRuleId'' (cr_RequestedRuleID r) @ omitBlank ''selectedRuleId'' (cr_SelectedRuleID r)
           @ [(''sourceAuthority'', JStr (cr_SourceAuthority r)), (''runtimeReproduced'', encInt (cr_RuntimeReproduced r)),
              (''networkUsed'', JBool (cr_NetworkUsed r)), (''nextAction'', JStr (cr_NextAction r)),
              (''check'', encReport (cr_Check r))])"

definition reportBytes :: "cncfReport \<Rightarrow> string" where
  "reportBytes report = jsonPrint (encCncfReport report)"

section \<open>The check of a bundle\<close>

definition sourceAuthority :: string where
  "sourceAuthority = ''PACKAGED_MAINTAINER_REVIEWED_SOURCE_RULES_NOT_RUNTIME_PROOF''"

definition nextReviewClaims :: string where
  "nextReviewClaims = ''review each scoped claim; whole-upgrade behavior and runtime evidence remain unverified''"
definition nextReviewSelected :: string where
  "nextReviewSelected = ''review the selected native-input claim; other project rules, configuration and whole-upgrade behavior remain unassessed''"
definition nextRuleUnavailable :: string where
  "nextRuleUnavailable = ''the selected reviewed native-input rule is unavailable; retain UNKNOWN and select knowledge that contains that exact rule''"
definition nextNoRules :: string where
  "nextNoRules = ''no generic rules are packaged for this project; inspect its existing named checks in the catalogue or contribute an exact transition with primary source evidence''"

definition soleClaim :: "string \<Rightarrow> Report \<Rightarrow> bool" where
  "soleClaim ruleID result =
     (ruleID \<noteq> [] \<and> length (rp_Claims result) = 1 \<and> cl_RuleID (rp_Claims result ! 0) = ruleID)"

definition nextActionFor :: "string \<Rightarrow> Report \<Rightarrow> string" where
  "nextActionFor ruleID result =
     (if rp_Claims result = [] then (if ruleID \<noteq> [] then nextRuleUnavailable else nextNoRules)
      else if soleClaim ruleID result then nextReviewSelected else nextReviewClaims)"

definition sealReport :: "cncfReport \<Rightarrow> cncfReport" where
  "sealReport report = report\<lparr>cr_seal := True, cr_digest := cncfDigest (reportBytes report)\<rparr>"

definition checkReport :: "cncfBundle \<Rightarrow> string \<Rightarrow> string \<Rightarrow> string \<Rightarrow> Report \<Rightarrow> cncfReport" where
  "checkReport b project ruleID inputRaw result = sealReport
     \<lparr>cr_Schema = ''prufyx.io/cncf-source-check/v1alpha1'', cr_Project = project, cr_Assessment = ''UNKNOWN'',
      cr_KnowledgeOrigin = ''embedded'', cr_KnowledgeRevision = pk_Revision (bu_pack b), cr_KnowledgePackDigest = bu_packDigest b,
      cr_CatalogueDigest = bu_catalogueDigest b, cr_InputFileDigest = cncfDigest inputRaw, cr_RequestedRuleID = ruleID,
      cr_SelectedRuleID = (if soleClaim ruleID result then ruleID else []), cr_SourceAuthority = sourceAuthority,
      cr_RuntimeReproduced = 0, cr_NetworkUsed = False, cr_NextAction = nextActionFor ruleID result, cr_Check = result,
      cr_seal = False, cr_digest = []\<rparr>"

definition rulesFor :: "cncfBundle \<Rightarrow> string \<Rightarrow> string \<Rightarrow> string \<Rightarrow> RuleSet cncfResult" where
  "rulesFor b project ruleID inputRaw =
     (if ruleID \<noteq> [] then
        thenDo (orFail CncfIntegrity (ownsRuleID b project ruleID)) (\<lambda>owned.
          refuseIf (\<not> owned) CncfInvalid (orFail CncfIntegrity (selectedRuleSet b project ruleID)))
      else orFail CncfIntegrity (rulesForAdmittedInput b project inputRaw))"

definition cncfCheck :: "cncfBundle \<Rightarrow> string \<Rightarrow> string \<Rightarrow> string \<Rightarrow> goTime \<Rightarrow> cncfReport cncfResult" where
  "cncfCheck b project ruleID inputRaw now =
     refuseIf (\<not> hasProject b project) CncfInvalid
       (thenDo (orFail CncfInvalid (engineCall (ParseInput inputRaw (bu_registry b)))) (\<lambda>input.
        thenDo (rulesFor b project ruleID inputRaw) (\<lambda>rules.
        thenDo (orFail CncfInvalid (engineCall (Evaluate input rules now))) (\<lambda>result.
        thenDo (orFail CncfIntegrity (engineCall (MarshalReport result))) (\<lambda>_.
          Inr (checkReport b project ruleID inputRaw result))))))"

definition Check :: "packagedFiles \<Rightarrow> string \<Rightarrow> string \<Rightarrow> goTime \<Rightarrow> cncfReport cncfResult" where
  "Check files project inputRaw now = thenDo (load files) (\<lambda>b. cncfCheck b project [] inputRaw now)"

definition CheckRule :: "packagedFiles \<Rightarrow> string \<Rightarrow> string \<Rightarrow> string \<Rightarrow> goTime \<Rightarrow> cncfReport cncfResult" where
  "CheckRule files project ruleID inputRaw now =
     thenDo (load files) (\<lambda>b. refuseIf (ruleID = []) CncfInvalid (cncfCheck b project ruleID inputRaw now))"

definition ValidateCanonicalInput :: "packagedFiles \<Rightarrow> string \<Rightarrow> string \<Rightarrow> unit cncfResult" where
  "ValidateCanonicalInput files project inputRaw =
     thenDo (load files) (\<lambda>b. refuseIf (\<not> hasProject b project) CncfInvalid
       (thenDo (orFail CncfInvalid (engineCall (ParseInput inputRaw (bu_registry b)))) (\<lambda>_. Inr ())))"

section \<open>Publication, replay and the exit code\<close>

definition MarshalCheckReport :: "cncfReport \<Rightarrow> string cncfResult" where
  "MarshalCheckReport report =
     refuseIf (\<not> cr_seal report \<or> cr_Assessment report \<noteq> ''UNKNOWN'' \<or> cr_NetworkUsed report \<or> cr_RuntimeReproduced report \<noteq> 0)
       CncfIntegrity
       (thenDo (orFail CncfIntegrity (engineCall (MarshalReport (cr_Check report)))) (\<lambda>_.
          refuseIf (cncfDigest (reportBytes report) \<noteq> cr_digest report) CncfIntegrity (Inr (reportBytes report))))"

definition maxReplayBytes :: nat where
  "maxReplayBytes = 4 * 2 ^ 20"

definition ReplayCheck :: "packagedFiles \<Rightarrow> string \<Rightarrow> string \<Rightarrow> goTime \<Rightarrow> string \<Rightarrow> cncfReport cncfResult" where
  "ReplayCheck files project inputRaw now expected =
     refuseIf (expected = [] \<or> maxReplayBytes < length expected) CncfInvalid
       (thenDo (Check files project inputRaw now) (\<lambda>report.
        thenDo (orFail CncfIntegrity (MarshalCheckReport report)) (\<lambda>raw.
          refuseIf (raw @ [CHR 0x0A] \<noteq> expected) CncfIntegrity (Inr report))))"

fun claimCode :: "bool \<Rightarrow> Claim list \<Rightarrow> nat" where
  "claimCode open_claim [] = (if open_claim then 11 else 0)"
| "claimCode open_claim (c # cs) =
     (if cl_Status c = ''BLOCKED'' then 10 else claimCode (open_claim \<or> cl_Status c \<noteq> ''PASS'') cs)"

definition ClaimExit :: "cncfReport \<Rightarrow> nat" where
  "ClaimExit report =
     (case MarshalCheckReport report of
        Inl _ \<Rightarrow> 3
      | Inr _ \<Rightarrow> if rp_Claims (cr_Check report) = [] then 11 else claimCode False (rp_Claims (cr_Check report)))"

section \<open>What a check returns\<close>

lemma sealReport_bytes: "reportBytes (sealReport report) = reportBytes report"
  by (simp add: reportBytes_def encCncfReport_def sealReport_def)

lemma cncfCheck_form:
  "cncfCheck b project ruleID inputRaw now = Inr report \<longleftrightarrow>
     hasProject b project \<and> (\<exists>input rules result raw. ParseInput inputRaw (bu_registry b) = Inr input \<and>
       rulesFor b project ruleID inputRaw = Inr rules \<and> Evaluate input rules now = Inr result \<and>
       MarshalReport result = Inr raw \<and> report = checkReport b project ruleID inputRaw result)"
  by (auto simp: cncfCheck_def)

lemma checkReport_published:
  "MarshalReport result = Inr raw \<Longrightarrow>
     MarshalCheckReport (checkReport b project ruleID inputRaw result) = Inr (reportBytes (checkReport b project ruleID inputRaw result))"
  unfolding checkReport_def by (simp add: MarshalCheckReport_def sealReport_bytes) (simp add: sealReport_def)

lemma cncfCheck_published:
  "cncfCheck b project ruleID inputRaw now = Inr report \<Longrightarrow> MarshalCheckReport report = Inr (reportBytes report)"
  unfolding cncfCheck_form using checkReport_published by blast

lemma claimCode_spec:
  "claimCode open_claim cs =
     (if \<exists>c\<in>set cs. cl_Status c = ''BLOCKED'' then 10
      else if open_claim \<or> (\<exists>c\<in>set cs. cl_Status c \<noteq> ''PASS'') then 11 else 0)"
  by (induction cs arbitrary: open_claim) auto

text \<open>Evaluation of a rule set that a bundle parsed never fails, and its report is publishable.\<close>

lemma evaluate_bundle:
  assumes "wfBundle b" and "ParseInput inputRaw (bu_registry b) = Inr input"
    and "parseRulesCorpus b selected corpus = Inr rules" and "validClock now"
  obtains result where "Evaluate input rules now = Inr result" "MarshalReport result = Inr (jsonPrint (encReport result))"
    "issuedPair (bu_registry b) input rules"
proof -
  obtain raw where raw: "ParseRuleSet raw (bu_registry b) = Inr rules" using parseRulesCorpus_parsed(1) [OF assms(3)] by blast
  have "issuedPair (bu_registry b) input rules"
    using assms(1) ParseInput_issued [OF assms(2)] ParseRuleSet_issued [OF raw] by (simp add: issuedPair_def wfBundle_def)
  with that MarshalReport_issued [OF this assms(4)] show ?thesis by blast
qed

section \<open>Which rules a check evaluates\<close>

text \<open>The raw rules handed to the engine are those of the project's entries with one property.\<close>

definition projectRules :: "cncfBundle \<Rightarrow> string \<Rightarrow> (rule \<Rightarrow> bool) \<Rightarrow> rule list" where
  "projectRules b project P =
     filter P (List.map_filter (ruleOf \<circ> en_Rule) (filter (\<lambda>e. en_Project e = project) (packEntries b)))"

lemma projectRules_parsed:
  assumes "wfBundle b" and "parseRules b (map en_Rule (filter Q (packEntries b))) = Inr rules"
    and "\<And>e r. e \<in> set (packEntries b) \<Longrightarrow> ruleOf (en_Rule e) = Some r \<Longrightarrow> Q e \<longleftrightarrow> en_Project e = project \<and> P r"
  shows "rd_Rules (rs_document rules) = projectRules b project P"
proof -
  have "map Some (rd_Rules (rs_document rules)) = map (ruleOf \<circ> en_Rule) (filter Q (packEntries b))"
    using parseRulesCorpus_rules [OF assms(2) [unfolded parseRules_def]] by simp
  moreover have "map (ruleOf \<circ> en_Rule) (filter Q es) = map Some (filter P (List.map_filter (ruleOf \<circ> en_Rule)
      (filter (\<lambda>e. en_Project e = project) es)))" if "set es \<subseteq> set (packEntries b)" for es
    using that
  proof (induction es)
    case (Cons e es)
    then obtain r where "ruleOf (en_Rule e) = Some r" using wfBundle_entry [OF assms(1), of e] by auto
    with Cons assms(3) [of e r] show ?case by (auto simp: List.map_filter_def)
  qed (simp add: List.map_filter_def)
  ultimately have "map Some (rd_Rules (rs_document rules)) = map Some (projectRules b project P)"
    by (simp add: projectRules_def)
  then show ?thesis by (simp add: inj_map_eq_map)
qed

text \<open>The versions read from the raw input are those of the parsed document.\<close>

definition sideVersions :: "inputSide \<Rightarrow> (string \<times> string) list" where
  "sideVersions side = map (\<lambda>c. (ic_Component c, ic_Version c)) (is_Components side)"

lemma decSideVersions_reads: "readsOf sideVersions decInputSide decSideVersions"
proof -
  have "readsOf (\<lambda>c. (ic_Component c, ic_Version c)) decInputComponent
     (\<lambda>c. Option.bind (decStruct False [''component'', ''version''] c) (\<lambda>cs.
          Option.bind (decField decString [] cs ''component'') (\<lambda>i.
          Option.bind (decField decString [] cs ''version'') (\<lambda>n. Some (i, n)))))"
    by (auto simp: readsOf_def decInputComponent_def bind_eq_Some_conv dest!: decStruct_lenient)
  note f = readsOf_field [OF readsOf_slice [OF this], of "[]"]
  show ?thesis unfolding readsOf_def
    by (auto simp: decInputSide_def decSideVersions_def sideVersions_def bind_eq_Some_conv dest!: decStruct_lenient f)
qed

lemma decInputVersions_reads:
  assumes "ParseInput raw registry = Inr input"
  shows "unmarshal decInputVersions raw =
    Some (sideVersions (id_Current (in_document input)), sideVersions (id_Proposed (in_document input)))"
proof -
  have z: "sideVersions zeroSide = []" by (simp add: sideVersions_def zeroSide_def)
  have "decInputDocument v = Some d \<Longrightarrow> decInputVersions v = Some (sideVersions (id_Current d), sideVersions (id_Proposed d))" for v d
    by (auto simp: decInputDocument_def decInputVersions_def bind_eq_Some_conv
        dest!: decStruct_lenient [where names' = "[''current'', ''proposed'']"] readsOf_field [OF decSideVersions_reads, of zeroSide, unfolded z])
  then show ?thesis using ParseInput_decodes [OF assms] by (auto simp: unmarshal_def)
qed

lemma mapGet_side:
  assumes "sorted_wrt (<) (map ic_Component (is_Components side))"
  shows "mapGet (sideVersions side) k =
    (case List.find (\<lambda>c. ic_Component c = k) (is_Components side) of None \<Rightarrow> [] | Some c \<Rightarrow> ic_Version c)"
proof -
  have "distinct (map ic_Component cs) \<Longrightarrow> map_of (rev (map (\<lambda>c. (ic_Component c, ic_Version c)) cs)) k =
      map_option ic_Version (List.find (\<lambda>c. ic_Component c = k) cs)" for cs
  proof (induction cs)
    case (Cons c cs)
    then have "ic_Component c = k \<Longrightarrow> List.find (\<lambda>c. ic_Component c = k) cs = None"
      by (auto simp: find_None_iff) (metis imageI)
    with Cons show ?case by (auto simp: map_add_def split: option.splits)
  qed simp
  from this [OF sorted_wrt_less_distinct [OF assms]] show ?thesis
    by (simp add: mapGet_def sideVersions_def split: option.splits)
qed

lemma parseVersion_Nil: "parseVersion [] = None"
  by code_simp

lemma matchTransition_absent:
  assumes "validateRule r registry = None" and "from = [] \<or> to = []"
  shows "matchTransition (ruleTransitionOfRule r) from to = MatchNone"
  using assms validateRule_facts(5) [OF assms(1)] parseVersion_Nil
  by (auto simp: matchTransition_def regularSubject_def validVersion_def inBound_iff versionIn_def versionLE_iff VersionLess_iff
      split: option.splits)

lemma matchesInput_iff:
  assumes "ParseInput raw registry' = Inr input" and "validateRule r registry = None" and "ruleOf (en_Rule e) = Some r"
  shows "matchesInput project (sideVersions (id_Current (in_document input))) (sideVersions (id_Proposed (in_document input))) e =
    Inr (en_Project e = project \<and> subjectMatches (in_document input) r)"
proof -
  have s: "sorted_wrt (<) (map ic_Component (is_Components (id_Current (in_document input))))"
    "sorted_wrt (<) (map ic_Component (is_Components (id_Proposed (in_document input))))"
    using ParseInput_issued(1) [OF assms(1)] by (simp_all add: wfInput_def wfSide_def)
  show ?thesis using matchTransition_absent [OF assms(2)] ruleOf_reads(3) [OF assms(3)]
    by (auto simp: matchesInput_def mapGet_side [OF s(1)] mapGet_side [OF s(2)] subjectMatches_def findComponent_def sideOf_def
        split: option.splits)
qed

lemma projectRules_iff:
  "r \<in> set (projectRules b project P) \<longleftrightarrow>
     (\<exists>e\<in>set (packEntries b). en_Project e = project \<and> ruleOf (en_Rule e) = Some r) \<and> P r"
  by (auto simp: projectRules_def List.map_filter_def image_iff)

lemma rulesFor_admitted:
  assumes "wfBundle b" and "ParseInput inputRaw (bu_registry b) = Inr input" and "rulesFor b project [] inputRaw = Inr rules"
    and "project \<noteq> []"
  shows "rd_Rules (rs_document rules) =
    (let matching = projectRules b project (subjectMatches (in_document input))
     in if matching = [] then projectRules b project (\<lambda>_. True) else matching)"
proof -
  let ?m = "matchesInput project (sideVersions (id_Current (in_document input))) (sideVersions (id_Proposed (in_document input)))"
  let ?sel = "filter (\<lambda>e. ?m e = Inr True) (packEntries b)"
  have iff: "?m e = Inr True \<longleftrightarrow> en_Project e = project \<and> subjectMatches (in_document input) r"
    if "e \<in> set (packEntries b)" "ruleOf (en_Rule e) = Some r" for e r
  proof -
    have "validateRule r (bu_registry b) = None" using wfBundle_entry [OF assms(1) that(1)] that(2) by auto
    from matchesInput_iff [OF assms(2) this that(2)] show ?thesis by simp
  qed
  have r: "(if ?sel = [] then packRuleSet b project else parseRules b (map en_Rule ?sel)) = Inr rules"
    using assms(3) by (auto simp: rulesFor_def rulesForAdmittedInput_def decInputVersions_reads [OF assms(2)] selectRules_spec split: if_splits)
  have none: "?sel = [] \<longleftrightarrow> projectRules b project (subjectMatches (in_document input)) = []"
  proof -
    have "(\<exists>e\<in>set (packEntries b). ?m e = Inr True) \<longleftrightarrow> (\<exists>r. r \<in> set (projectRules b project (subjectMatches (in_document input))))"
      unfolding projectRules_iff using iff wfBundle_entry [OF assms(1)] by meson
    then show ?thesis unfolding filter_empty_conv by (metis last_in_set list.distinct(1) list.set_cases)
  qed
  show ?thesis
  proof (cases "?sel = []")
    case True
    then have "parseRules b (map en_Rule (filter (\<lambda>e. en_Project e = project) (packEntries b))) = Inr rules"
      using r assms(4) by (simp add: packRuleSet_def)
    from projectRules_parsed [OF assms(1) this, of project "\<lambda>_. True"] True none show ?thesis by (simp add: Let_def)
  next
    case False
    then have "parseRules b (map en_Rule ?sel) = Inr rules" using r by simp
    from projectRules_parsed [OF assms(1) this iff] False none show ?thesis by (simp add: Let_def)
  qed
qed

lemma selectedRuleSet_rules:
  assumes "wfBundle b" and "selectedRuleSet b project ruleID = Inr rules"
  shows "rd_Rules (rs_document rules) = projectRules b project (\<lambda>r. r_ID r = ruleID)"
proof -
  have "parseRules b (map en_Rule (filter (\<lambda>e. wantsRule project ruleID e = Inr True) (packEntries b))) = Inr rules"
    using assms(2) by (auto simp: selectedRuleSet_def selectRules_spec)
  from projectRules_parsed [OF assms(1) this, of project "\<lambda>r. r_ID r = ruleID"] show ?thesis
    by (simp add: wantsRule_def ruleOf_reads(1))
qed

lemma rulesFor_selected:
  assumes "wfBundle b" and "rulesFor b project ruleID inputRaw = Inr rules" and "ruleID \<noteq> []"
  shows "rd_Rules (rs_document rules) = projectRules b project (\<lambda>r. r_ID r = ruleID)"
    and "\<exists>r\<in>set (projectRules b project (\<lambda>r. r_ID r = ruleID)). True"
proof -
  have own: "\<exists>e\<in>set (packEntries b). en_Project e = project \<and> map_option r_ID (ruleOf (en_Rule e)) = Some ruleID"
    and "selectedRuleSet b project ruleID = Inr rules"
    using assms(2,3) by (auto simp: rulesFor_def ownsRuleID_iff [OF assms(1)])
  then show "rd_Rules (rs_document rules) = projectRules b project (\<lambda>r. r_ID r = ruleID)"
    using selectedRuleSet_rules [OF assms(1)] by blast
  show "\<exists>r\<in>set (projectRules b project (\<lambda>r. r_ID r = ruleID)). True"
    using own by (auto simp: projectRules_iff)
qed

end
