(* ===== verification/CncfTotal.thy ===== *)
theory CncfTotal
  imports CncfCheck
begin

text \<open>
  A check on a loaded bundle always returns. \<open>load\<close> parses the whole pack once; \<open>rulesFor\<close> later
  marshals and parses a selection of its rules, which could fail in the size limit, the UTF-8 test, the
  JSON gate, the schema choice, the shape test or the rule checks. \<open>parseRules_selection\<close> shows that none
  of these fails on a selection of an accepted pack, and \<open>cncfCheck_total\<close> that the check therefore
  returns a report for every admitted input.
\<close>

section \<open>Splitting valid UTF-8 at an ASCII byte\<close>

lemma leadInfo_lo: "leadInfo n = Some (len, lo, hi) \<Longrightarrow> 128 \<le> lo"
  by (auto simp: leadInfo_def split: if_splits)

lemma decodeRune_stop:
  assumes "byte c < 128" and "decodeRune (b # bs @ c # t) = (r, w)" and "\<not> (r = runeError \<and> w = 1)"
  shows "w - 1 \<le> length bs \<and> decodeRune (b # bs) = (r, w)"
proof (cases "byte b < 128")
  case False
  then obtain len lo hi where l: "leadInfo (byte b) = Some (len, lo, hi)" using assms(2,3) by (auto split: option.splits)
  have "byte c < lo" using leadInfo_lo [OF l] assms(1) by simp
  moreover have "\<not> contByte c" using assms(1) by (simp add: contByte_def)
  ultimately show ?thesis using assms(2,3) False l
    by (cases bs; cases "tl bs"; cases "tl (tl bs)") (auto split: if_splits)
qed (use assms in simp)

lemma utf8Valid_split: "utf8Valid (s @ c # t) \<Longrightarrow> byte c < 128 \<Longrightarrow> utf8Valid s"
proof (induction "length s" arbitrary: s rule: less_induct)
  case less
  show ?case
  proof (cases s)
    case (Cons b bs)
    obtain r w where rw: "decodeRune (b # bs @ c # t) = (r, w)" by fastforce
    then have ok: "\<not> (r = runeError \<and> w = 1)" and rest: "utf8Valid (drop (w - 1) (bs @ c # t))"
      using less.prems(1) Cons by (auto simp del: decodeRune.simps)
    note stop = decodeRune_stop [OF less.prems(2) rw ok]
    have "drop (w - 1) (bs @ c # t) = drop (w - 1) bs @ c # t" using conjunct1 [OF stop] by simp
    then have "utf8Valid (drop (w - 1) bs @ c # t)" using rest by (simp only:)
    from less.hyps [OF _ this less.prems(2)] have "utf8Valid (drop (w - 1) bs)" using Cons by simp
    then show ?thesis using Cons stop ok by (simp del: decodeRune.simps)
  qed simp
qed

lemma utf8Valid_parts: "utf8Valid (commaSep texts @ c # z) \<Longrightarrow> byte c < 128 \<Longrightarrow> \<forall>x\<in>set texts. utf8Valid x"
proof (induction texts)
  case (Cons x xs)
  show ?case
  proof (cases "xs = []")
    case True
    then show ?thesis using Cons.prems utf8Valid_split [of x c z] by simp
  next
    case False
    then have v: "utf8Valid (x @ CHR '','' # commaSep xs @ c # z)" using Cons.prems(1) by (simp add: commaSep_Cons)
    then have x: "utf8Valid x" by (rule utf8Valid_split) simp
    then have "utf8Valid (commaSep xs @ c # z)" using v by (simp add: utf8Valid_append)
    then show ?thesis using Cons.IH Cons.prems(2) x by simp
  qed
qed simp

lemma commaSep_filter_length: "length (commaSep (map f (filter P xs))) \<le> length (commaSep (map f xs))"
  by (induction xs) (auto simp: commaSep_Cons)

section \<open>Reading the members of a rule by exact name\<close>

lemma jsonField_exact:
  assumes "\<forall>k\<in>fst ` set ms. foldName k = foldName f \<longrightarrow> k = f"
  shows "jsonField f ms = objGet ms f"
proof -
  have look: "\<forall>k\<in>fst ` set ns. P k \<longleftrightarrow> k = f \<Longrightarrow> map_option snd (List.find (\<lambda>(k', _). P k') ns) = map_of ns f"
    for ns :: "(string \<times> json) list" and P
    by (induction ns) auto
  have "\<forall>k\<in>fst ` set (rev ms). foldName k = foldName f \<longleftrightarrow> k = f" unfolding set_rev using assms by blast
  then show ?thesis unfolding jsonField_def objGet_def by (rule look)
qed

definition ruleNames :: "string list" where
  "ruleNames = [''id'', ''operator'', ''subject'', ''evidence'', ''reasonCode'', ''nextAction'', ''condition'', ''appliesWhen'',
     ''dependency'', ''intermediate'', ''range'']"

lemma ruleNames_range: "list_all (\<lambda>k. foldName k = foldName ''range'' \<longrightarrow> k = ''range'') ruleNames"
  by code_simp

lemma ruleShape_range:
  assumes "Shapes.ruleShape v" and "decRule v = Some r"
  obtains ms where "v = JObj ms" "objGet ms ''range'' \<noteq> None \<longleftrightarrow> r_Range r \<noteq> None"
proof -
  obtain ms where ms: "v = JObj ms" "\<forall>(k, x)\<in>set ms. k \<in> set ruleNames \<and> objGet ms k \<noteq> Some JNull"
    using assms(1) by (auto simp: Shapes.ruleShape_def exactObject_def ruleNames_def split: option.splits json.splits if_splits)
  then have "\<forall>k\<in>fst ` set ms. foldName k = foldName ''range'' \<longrightarrow> k = ''range''"
    using ruleNames_range by (auto simp: list_all_iff)
  then have f: "jsonField ''range'' ms = objGet ms ''range''" by (rule jsonField_exact)
  have "objGet ms ''range'' \<noteq> Some JNull"
  proof
    assume "objGet ms ''range'' = Some JNull"
    moreover then have "(''range'', JNull) \<in> set ms" by (auto simp: objGet_def dest!: map_of_SomeD)
    ultimately show False using ms(2) by blast
  qed
  moreover obtain rng where "decField (decPtr (decVersionRange True)) None ms ''range'' = Some rng" "r_Range r = rng"
    using assms(2) ms(1) by (auto simp: decRule_def bind_eq_Some_conv split: if_splits)
  ultimately have "objGet ms ''range'' \<noteq> None \<longleftrightarrow> r_Range r \<noteq> None"
    by (cases rng) (auto simp: decField_def f decPtr_def split: option.splits json.splits dest: sym)
  with ms(1) that show ?thesis by blast
qed

lemma AnyRanged_rules:
  assumes "\<forall>e\<in>set es. \<exists>v. jsonParse (g e) = Some v \<and> Shapes.ruleShape v \<and> decRule v = Some (rule e)"
  shows "AnyRanged (map g es) = Inr (list_ex (\<lambda>e. r_Range (rule e) \<noteq> None) es)"
  using assms
proof (induction es)
  case (Cons e es)
  then obtain v where v: "jsonParse (g e) = Some v" "Shapes.ruleShape v" "decRule v = Some (rule e)" by auto
  obtain ms where "v = JObj ms" "objGet ms ''range'' \<noteq> None \<longleftrightarrow> r_Range (rule e) \<noteq> None"
    by (rule ruleShape_range [OF v(2,3)])
  then show ?case using Cons v(1) by auto
qed simp

lemma validateRangeOverlaps_filter:
  "validateRangeOverlaps (map f es) = None \<Longrightarrow> validateRangeOverlaps (map f (filter Q es)) = None"
  by (induction es) auto

section \<open>The text of a document\<close>

definition memberLine :: "string \<Rightarrow> string \<Rightarrow> string" where
  "memberLine k s = quote k @ CHR '':'' # quote s"

definition docHead :: "cncfBundle \<Rightarrow> string \<Rightarrow> string" where
  "docHead b schema = CHR ''{'' # memberLine ''schema'' schema @ CHR '','' # memberLine ''revision'' (pk_Revision (bu_pack b)) @
     CHR '','' # memberLine ''policyId'' (pk_PolicyID (bu_pack b)) @ CHR '','' # memberLine ''policyDigest'' (pk_PolicyDigest (bu_pack b)) @
     CHR '','' # quote ''rules'' @ CHR '':'' # ''[''"

definition docText :: "cncfBundle \<Rightarrow> string \<Rightarrow> string list \<Rightarrow> string" where
  "docText b schema texts = docHead b schema @ commaSep texts @ '']}''"

lemma ruleDocumentBytes_text:
  "ruleDocumentBytes b rules [] = Inr raw \<longleftrightarrow>
     (\<exists>schema texts. RulesSchemaFor rules = Inr schema \<and> those (map rawMarshal rules) = Some texts \<and> raw = docText b schema texts)"
proof -
  have "objText [(''schema'', quote schema), (''revision'', quote (pk_Revision (bu_pack b))), (''policyId'', quote (pk_PolicyID (bu_pack b))),
      (''policyDigest'', quote (pk_PolicyDigest (bu_pack b))), (''rules'', arrText texts)] = docText b schema texts" for schema texts
    unfolding objText_def docText_def docHead_def memberLine_def by (simp add: memberText_def arrText_def quote_def del: quoteBody.simps)
  then show ?thesis by (auto simp: ruleDocumentBytes_def corpusMember_def split: sum.splits option.splits)
qed

lemma docHead_valid: "utf8Valid (docHead b schema)"
  unfolding docHead_def memberLine_def by (simp add: utf8Valid_append utf8Valid_quote runeError_def)

lemma docText_utf8: "utf8Valid (docText b schema texts) \<longleftrightarrow> (\<forall>x\<in>set texts. utf8Valid x)"
proof
  assume "utf8Valid (docText b schema texts)"
  then have "utf8Valid (commaSep texts @ '']}'')" by (simp add: docText_def utf8Valid_append docHead_valid)
  then show "\<forall>x\<in>set texts. utf8Valid x" by (rule utf8Valid_parts) simp
next
  assume "\<forall>x\<in>set texts. utf8Valid x"
  then show "utf8Valid (docText b schema texts)"
    by (simp add: docText_def utf8Valid_append docHead_valid utf8Valid_commaSep runeError_def)
qed

lemma docText_length:
  assumes "schema \<in> {RulesSchema, RulesSchemaRanged}" and "schema' \<in> {RulesSchema, RulesSchemaRanged}"
  shows "length (docText b schema' (map f (filter Q es))) \<le> length (docText b schema (map f es))"
proof -
  have "length (quote RulesSchema) = length (quote RulesSchemaRanged)" by code_simp
  then have "length (docHead b schema') = length (docHead b schema)" using assms by (auto simp: docHead_def memberLine_def)
  then show ?thesis using commaSep_filter_length [of f Q es] by (simp add: docText_def)
qed

section \<open>Selections of a parsed pack parse\<close>

lemma documentMembers_shape:
  "ruleDocumentShape (Some (JObj (documentMembers b schema vs))) \<longleftrightarrow> length vs \<le> maxRules \<and> list_all Shapes.ruleShape vs"
  by (simp add: ruleDocumentShape_def exactObject_def documentMembers_def objGet_def optionally_def exactArray_def)

lemma documentMembers_gate:
  assumes "consumeJSON 0 (JObj (documentMembers b schema (map f es)))" and "schema' \<in> {RulesSchema, RulesSchemaRanged}"
  shows "consumeJSON 0 (JObj (documentMembers b schema' (map f (filter Q es))))"
proof -
  have "length (utf8Coerce RulesSchema) \<le> maxStringBytes" "length (utf8Coerce RulesSchemaRanged) \<le> maxStringBytes"
    by (simp_all add: utf8Coerce_valid RulesSchema_def RulesSchemaRanged_def runeError_def maxStringBytes_def)
  moreover have "length es \<le> 4096 \<Longrightarrow> length (filter Q es) \<le> 4096" by (rule le_trans [OF length_filter_le])
  ultimately show ?thesis using assms by (auto simp: documentMembers_def)
qed

lemma decRuleDocument_members:
  assumes "those (map decRule vs) = Some rs"
  shows "decRuleDocument (JObj (documentMembers b schema vs)) =
    Some \<lparr>rd_Schema = utf8Coerce schema, rd_Revision = utf8Coerce (pk_Revision (bu_pack b)), rd_PolicyID = utf8Coerce (pk_PolicyID (bu_pack b)),
      rd_PolicyDigest = utf8Coerce (pk_PolicyDigest (bu_pack b)), rd_Rules = rs, rd_Corpus = None\<rparr>"
proof -
  have nil: "corpusTree [] = []" by (simp add: corpusTree_def)
  note f = decField_document [where b = b and schema = schema and vs = vs and corpus = "[]", unfolded nil append_Nil2]
  note c = decField_corpus [where b = b and schema = schema and vs = vs and corpus = "[]", unfolded nil append_Nil2]
  have mem: "(''schema'', JStr (utf8Coerce schema)) \<in> set (documentMembers b schema vs)"
    "(''revision'', JStr (utf8Coerce (pk_Revision (bu_pack b)))) \<in> set (documentMembers b schema vs)"
    "(''policyId'', JStr (utf8Coerce (pk_PolicyID (bu_pack b)))) \<in> set (documentMembers b schema vs)"
    "(''policyDigest'', JStr (utf8Coerce (pk_PolicyDigest (bu_pack b)))) \<in> set (documentMembers b schema vs)"
    "(''rules'', JArr vs) \<in> set (documentMembers b schema vs)"
    by (simp_all add: documentMembers_def)
  have "decStruct True [''schema'', ''revision'', ''policyId'', ''policyDigest'', ''rules'', ''corpus''] (JObj (documentMembers b schema vs)) =
      Some (documentMembers b schema vs)" by (auto simp: documentMembers_def)
  moreover have "decField (decPtr decRuleCorpus) None (documentMembers b schema vs) ''corpus'' = Some None"
    unfolding c by (simp add: decField_def jsonField_def)
  ultimately show ?thesis using assms by (simp add: decRuleDocument_def mem [THEN f])
qed

text \<open>The texts, trees and rules of a list of raw rules.\<close>

definition readRule :: "(string \<times> string \<times> json \<times> rule) \<Rightarrow> bool" where
  "readRule = (\<lambda>(raw, text, tree, r). raw \<noteq> [] \<and> rawMarshal raw = Some text \<and> jsonParse raw = Some tree \<and> decRule tree = Some r)"

abbreviation rawOf :: "(string \<times> string \<times> json \<times> rule) \<Rightarrow> string" where "rawOf \<equiv> fst"
abbreviation textOf :: "(string \<times> string \<times> json \<times> rule) \<Rightarrow> string" where "textOf x \<equiv> fst (snd x)"
abbreviation treeOf :: "(string \<times> string \<times> json \<times> rule) \<Rightarrow> json" where "treeOf x \<equiv> fst (snd (snd x))"
abbreviation parsedOf :: "(string \<times> string \<times> json \<times> rule) \<Rightarrow> rule" where "parsedOf x \<equiv> snd (snd (snd x))"

lemma readRule_simp: "readRule x \<longleftrightarrow> rawOf x \<noteq> [] \<and> rawMarshal (rawOf x) = Some (textOf x) \<and> jsonParse (rawOf x) = Some (treeOf x) \<and> decRule (treeOf x) = Some (parsedOf x)"
  by (cases x) (simp add: readRule_def)

lemma readRule_each:
  assumes "\<forall>x\<in>set xs. readRule x"
  shows "those (map rawMarshal (map rawOf xs)) = Some (map textOf xs)" and "those (map decRule (map treeOf xs)) = Some (map parsedOf xs)"
    and "list_all2 (\<lambda>r v. jsonParse r = Some v) (map rawOf xs) (map treeOf xs)" and "[] \<notin> set (map rawOf xs)"
  using assms by (auto simp: those_list_all2 readRule_simp list.rel_map list_all2_same simp del: map_map)

lemma docText_parses:
  assumes "\<forall>x\<in>set xs. readRule x" and "RulesSchemaFor (map rawOf xs) = Inr schema"
  shows "jsonParse (docText b schema (map textOf xs)) = Some (JObj (documentMembers b schema (map treeOf xs)))"
proof -
  have "ruleDocumentBytes b (map rawOf xs) [] = Inr (docText b schema (map textOf xs))"
    unfolding ruleDocumentBytes_text using readRule_each(1) [OF assms(1)] assms(2) by blast
  from ruleDocumentBytes_tree [OF this readRule_each(4) [OF assms(1)]] obtain vs
    where vs: "list_all2 (\<lambda>r v. jsonParse r = Some v) (map rawOf xs) vs"
      "jsonParse (docText b schema (map textOf xs)) = Some (JObj (documentMembers b schema vs @ corpusTree []))"
    using assms(2) by (metis sum.inject(2))
  have "vs = map treeOf xs"
    using vs(1) readRule_each(3) [OF assms(1)]
    by (auto simp: list_all2_conv_all_nth list_eq_iff_nth_eq)
  then show ?thesis using vs(2) by (simp add: corpusTree_def)
qed

lemma docText_accepted:
  assumes "\<forall>x\<in>set xs. readRule x" and "RulesSchemaFor (map rawOf xs) = Inr schema"
  shows "(\<exists>rs. ParseRuleSet (docText b schema (map textOf xs)) registry = Inr rs) \<longleftrightarrow>
    length (docText b schema (map textOf xs)) \<le> maxRulesBytes \<and> (\<forall>x\<in>set xs. utf8Valid (textOf x)) \<and>
    consumeJSON 0 (JObj (documentMembers b schema (map treeOf xs))) \<and> length xs \<le> maxRules \<and>
    (\<forall>x\<in>set xs. Shapes.ruleShape (treeOf x)) \<and>
    wfRules registry \<lparr>rd_Schema = utf8Coerce schema, rd_Revision = utf8Coerce (pk_Revision (bu_pack b)), rd_PolicyID = utf8Coerce (pk_PolicyID (bu_pack b)),
      rd_PolicyDigest = utf8Coerce (pk_PolicyDigest (bu_pack b)), rd_Rules = map parsedOf xs, rd_Corpus = None\<rparr>" (is "?l \<longleftrightarrow> ?r")
proof -
  let ?t = "docText b schema (map textOf xs)"
  note p = docText_parses [OF assms, of b]
  note d = decRuleDocument_members [OF readRule_each(2) [OF assms(1)], of b schema]
  have gate: "gateJSON ?t maxRulesBytes = None \<longleftrightarrow> length ?t \<le> maxRulesBytes \<and> (\<forall>x\<in>set xs. utf8Valid (textOf x)) \<and>
    consumeJSON 0 (JObj (documentMembers b schema (map treeOf xs)))"
    using p by (auto simp: gateJSON_iff docText_utf8)
  have shape: "validateRuleShape ?t = None \<longleftrightarrow> length xs \<le> maxRules \<and> (\<forall>x\<in>set xs. Shapes.ruleShape (treeOf x))"
    using p documentMembers_shape [of b schema "map treeOf xs"] by (simp add: validateRuleShape_def shapeGate_def list_all_iff)
  show ?thesis
  proof
    assume ?l
    then obtain rs where rs: "ParseRuleSet ?t registry = Inr rs" by blast
    then have "gateJSON ?t maxRulesBytes = None" "validateRuleShape ?t = None"
      by (auto simp: ParseRuleSet_def andThen_def split: option.splits if_splits)
    moreover have "wfRules registry (rs_document rs)" by (rule ParseRuleSet_issued [OF rs])
    moreover have "decRuleDocument (JObj (documentMembers b schema (map treeOf xs))) = Some (rs_document rs)"
      using ParseRuleSet_decodes [OF rs] p by auto
    ultimately show ?r using gate shape d by simp
  next
    assume r: ?r
    have "decodeStrict decRuleDocument ?t = Inr \<lparr>rd_Schema = utf8Coerce schema, rd_Revision = utf8Coerce (pk_Revision (bu_pack b)), rd_PolicyID = utf8Coerce (pk_PolicyID (bu_pack b)),
      rd_PolicyDigest = utf8Coerce (pk_PolicyDigest (bu_pack b)), rd_Rules = map parsedOf xs, rd_Corpus = None\<rparr>"
      using p d by (simp add: decodeStrict_def)
    with r gate shape ParseRuleSet_accepts [of ?t] show ?l by blast
  qed
qed


text \<open>Leaving rules out of an accepted document leaves an accepted document.\<close>

lemma docText_selection:
  fixes f es
  defines "xs \<equiv> map f es" and "ys \<equiv> \<lambda>Q. map f (filter Q es)"
  assumes all: "\<forall>x\<in>set xs. readRule x" and "RulesSchemaFor (map rawOf xs) = Inr schema"
    and "ParseRuleSet (docText b schema (map textOf xs)) registry = Inr rs"
  obtains schema' rs' where "RulesSchemaFor (map rawOf (ys Q)) = Inr schema'"
    "ParseRuleSet (docText b schema' (map textOf (ys Q))) registry = Inr rs'"
proof -
  let ?some = "\<lambda>xs. list_ex (\<lambda>x. r_Range (parsedOf x) \<noteq> None) xs"
  let ?schema = "if ?some (ys Q) then RulesSchemaRanged else RulesSchema"
  have sub: "set (ys Q) \<subseteq> set xs" by (auto simp: xs_def ys_def)
  have maps: "map h xs = map (\<lambda>e. h (f e)) es" "map h (ys Q) = map (\<lambda>e. h (f e)) (filter Q es)" for h :: "_ \<Rightarrow> 'x"
    by (simp_all add: xs_def ys_def)
  have whole: "length (docText b schema (map textOf xs)) \<le> maxRulesBytes" "\<forall>x\<in>set xs. utf8Valid (textOf x)"
    "consumeJSON 0 (JObj (documentMembers b schema (map treeOf xs)))" "length xs \<le> maxRules" "\<forall>x\<in>set xs. Shapes.ruleShape (treeOf x)"
    and wf: "wfRules registry \<lparr>rd_Schema = utf8Coerce schema, rd_Revision = utf8Coerce (pk_Revision (bu_pack b)), rd_PolicyID = utf8Coerce (pk_PolicyID (bu_pack b)),
      rd_PolicyDigest = utf8Coerce (pk_PolicyDigest (bu_pack b)), rd_Rules = map parsedOf xs, rd_Corpus = None\<rparr>"
    using docText_accepted [OF assms(3,4), of b registry] assms(5) by auto
  have ranged: "AnyRanged (map rawOf zs) = Inr (?some zs)" if "set zs \<subseteq> set xs" for zs
  proof (rule AnyRanged_rules, rule ballI)
    fix x assume "x \<in> set zs"
    with that all whole(5) show "\<exists>v. jsonParse (rawOf x) = Some v \<and> Shapes.ruleShape v \<and> decRule v = Some (parsedOf x)"
      unfolding readRule_simp by blast
  qed
  have "schema \<in> {RulesSchema, RulesSchemaRanged}" and s: "RulesSchemaFor (map rawOf (ys Q)) = Inr ?schema"
    using ranged [of xs] ranged [OF sub] assms(4) by (auto simp: RulesSchemaFor_def split: if_splits)
  then have "length (docText b ?schema (map textOf (ys Q))) \<le> length (docText b schema (map textOf xs))"
    unfolding maps by (intro docText_length) auto
  moreover have "consumeJSON 0 (JObj (documentMembers b ?schema (map treeOf (ys Q))))"
    using whole(3) unfolding maps by (rule documentMembers_gate) auto
  moreover have "length (ys Q) \<le> maxRules" using le_trans [OF length_filter_le whole(4) [unfolded xs_def length_map]] by (simp add: ys_def)
  moreover have "wfRules registry \<lparr>rd_Schema = utf8Coerce ?schema, rd_Revision = utf8Coerce (pk_Revision (bu_pack b)), rd_PolicyID = utf8Coerce (pk_PolicyID (bu_pack b)),
      rd_PolicyDigest = utf8Coerce (pk_PolicyDigest (bu_pack b)), rd_Rules = map parsedOf (ys Q), rd_Corpus = None\<rparr>"
  proof -
    have "utf8Coerce ?schema = ?schema" by (rule utf8Coerce_valid) (simp add: RulesSchema_def RulesSchemaRanged_def runeError_def)
    moreover have "RulesSchema \<noteq> RulesSchemaRanged" by (simp add: RulesSchema_def RulesSchemaRanged_def)
    moreover have "validateRangeOverlaps (map parsedOf (ys Q)) = None" if "?some (ys Q)"
    proof -
      have "\<exists>x\<in>set xs. r_Range (parsedOf x) \<noteq> None" using that sub unfolding list_ex_iff by blast
      then have "validateRangeOverlaps (map parsedOf xs) = None" using wf by (auto simp: wfRules_def)
      then show ?thesis unfolding maps by (rule validateRangeOverlaps_filter)
    qed
    moreover have "sorted_wrt (<) (map r_ID (map parsedOf (ys Q)))"
      using wf sorted_wrt_less_filter [where key = "\<lambda>e. r_ID (parsedOf (f e))"] by (simp add: wfRules_def xs_def ys_def comp_def)
    ultimately show ?thesis using wf sub \<open>length (ys Q) \<le> maxRules\<close>
      by (auto simp: wfRules_def validateCorpus_def list_ex_iff)
  qed
  ultimately have "\<exists>rs. ParseRuleSet (docText b ?schema (map textOf (ys Q))) registry = Inr rs"
    using whole all sub by (subst docText_accepted [OF _ s]) auto
  with s that show ?thesis by blast
qed

text \<open>The same for the documents assembled from the raw rules of entries of any kind.\<close>

lemma ruleDocument_selection:
  fixes raw_rule :: "'e \<Rightarrow> string"
  assumes "ruleDocumentBytes b (map raw_rule es) [] = Inr doc" and "ParseRuleSet doc registry = Inr rs"
    and "\<forall>e\<in>set es. ruleOf (raw_rule e) \<noteq> None"
  obtains doc' rs' where "ruleDocumentBytes b (map raw_rule (filter Q es)) [] = Inr doc'" "ParseRuleSet doc' registry = Inr rs'"
proof -
  obtain schema texts where d: "RulesSchemaFor (map raw_rule es) = Inr schema" "those (map rawMarshal (map raw_rule es)) = Some texts"
    "doc = docText b schema texts"
    using assms(1) unfolding ruleDocumentBytes_text by blast
  define f where "f e = (raw_rule e, the (rawMarshal (raw_rule e)), the (jsonParse (raw_rule e)), the (ruleOf (raw_rule e)))" for e
  have read: "\<forall>x\<in>set (map f es). readRule x"
  proof -
    have "\<exists>text. rawMarshal (raw_rule e) = Some text" if "e \<in> set es" for e
      using d(2) that by (auto simp: those_list_all2 list_all2_conv_all_nth in_set_conv_nth)
    moreover have "\<exists>v r. jsonParse (raw_rule e) = Some v \<and> decRule v = Some r" if "e \<in> set es" for e
      using assms(3) that ruleOf_iff [of "raw_rule e"] by fastforce
    ultimately show ?thesis by (fastforce simp: f_def readRule_simp ruleOf_def jsonParse_Nil)
  qed
  have raws: "map rawOf (map f ys) = map raw_rule ys" for ys by (simp add: f_def)
  have texts: "texts = map textOf (map f es)" using readRule_each(1) [OF read] d(2) unfolding raws by simp
  obtain schema' rs' where "RulesSchemaFor (map rawOf (map f (filter Q es))) = Inr schema'"
    "ParseRuleSet (docText b schema' (map textOf (map f (filter Q es)))) registry = Inr rs'"
    by (rule docText_selection [OF read d(1) [folded raws] assms(2) [unfolded d(3) texts]])
  moreover have "those (map rawMarshal (map rawOf (map f (filter Q es)))) = Some (map textOf (map f (filter Q es)))"
    by (rule readRule_each(1)) (use read in auto)
  ultimately have "ruleDocumentBytes b (map raw_rule (filter Q es)) [] = Inr (docText b schema' (map textOf (map f (filter Q es))))"
    unfolding raws ruleDocumentBytes_text by blast
  with \<open>ParseRuleSet _ _ = Inr rs'\<close> that show ?thesis by blast
qed

lemma parseRules_selection:
  assumes "parseRules b (map en_Rule es) = Inr rs"
  obtains rs' where "parseRules b (map en_Rule (filter Q es)) = Inr rs'"
proof -
  obtain doc where d: "ruleDocumentBytes b (map en_Rule es) [] = Inr doc" "ParseRuleSet doc (bu_registry b) = Inr rs"
    "list_all validReviewWindow (map en_Rule es)"
    using assms by (auto simp: parseRules_def parseRulesCorpus_def validateCNCFReviewWindows_def split: if_splits)
  have "\<forall>e\<in>set es. ruleOf (en_Rule e) \<noteq> None"
    using parseRulesCorpus_rules [OF assms [unfolded parseRules_def]]
    by (auto simp: list_eq_iff_nth_eq in_set_conv_nth)
  from ruleDocument_selection [OF d(1,2) this, of Q] obtain doc' rs'
    where "ruleDocumentBytes b (map en_Rule (filter Q es)) [] = Inr doc'" "ParseRuleSet doc' (bu_registry b) = Inr rs'" by blast
  then have "parseRules b (map en_Rule (filter Q es)) = Inr rs'"
    using d(3) by (simp add: parseRules_def parseRulesCorpus_def validateCNCFReviewWindows_def list_all_iff)
  with that show ?thesis by blast
qed

section \<open>A check always returns\<close>

lemma selection_parses:
  assumes "wfBundle b"
  obtains rules where "parseRules b (map en_Rule (filter Q (packEntries b))) = Inr rules"
proof -
  obtain rs where "parseRules b (map en_Rule (packEntries b)) = Inr rs"
    using assms unfolding wfBundle_def packRuleSet_def by auto
  from parseRules_selection [OF this] that show ?thesis by blast
qed

lemma rulesFor_total:
  assumes "wfBundle b" and "ParseInput inputRaw (bu_registry b) = Inr input"
    and "ruleID = [] \<or> (\<exists>e\<in>set (packEntries b). en_Project e = project \<and> map_option r_ID (ruleOf (en_Rule e)) = Some ruleID)"
  obtains rules selected where "rulesFor b project ruleID inputRaw = Inr rules" "parseRules b selected = Inr rules"
proof (cases "ruleID = []")
  case True
  let ?m = "matchesInput project (sideVersions (id_Current (in_document input))) (sideVersions (id_Proposed (in_document input)))"
  let ?sel = "filter (\<lambda>e. ?m e = Inr True) (packEntries b)"
  let ?Q = "if ?sel = [] then (\<lambda>e. project = [] \<or> en_Project e = project) else (\<lambda>e. ?m e = Inr True)"
  have "\<exists>w. ?m e = Inr w" if "e \<in> set (packEntries b)" for e
  proof -
    from that obtain r where "ruleOf (en_Rule e) = Some r" "validateRule r (bu_registry b) = None"
      by (rule wfBundle_entry [OF assms(1)])
    from matchesInput_iff [OF assms(2) this(2,1)] show ?thesis by blast
  qed
  then have "selectRules ?m (packEntries b) = Inr (map en_Rule ?sel)" unfolding selectRules_spec by blast
  then have "rulesFor b project ruleID inputRaw = orFail CncfIntegrity (parseRules b (map en_Rule (filter ?Q (packEntries b))))"
    using True by (simp add: rulesFor_def rulesForAdmittedInput_def decInputVersions_reads [OF assms(2)] packRuleSet_def)
  moreover obtain rules where "parseRules b (map en_Rule (filter ?Q (packEntries b))) = Inr rules"
    by (rule selection_parses [OF assms(1)])
  ultimately show ?thesis using that by simp
next
  case False
  let ?sel = "filter (\<lambda>e. wantsRule project ruleID e = Inr True) (packEntries b)"
  have "\<exists>w. wantsRule project ruleID e = Inr w" if "e \<in> set (packEntries b)" for e
  proof -
    from that obtain r where "ruleOf (en_Rule e) = Some r" by (rule wfBundle_entry [OF assms(1)])
    from ruleOf_reads(1) [OF this] show ?thesis by (auto simp: wantsRule_def)
  qed
  then have "selectRules (wantsRule project ruleID) (packEntries b) = Inr (map en_Rule ?sel)" unfolding selectRules_spec by blast
  then have "rulesFor b project ruleID inputRaw = orFail CncfIntegrity (parseRules b (map en_Rule ?sel))"
    using False assms(3) by (simp add: rulesFor_def ownsRuleID_iff [OF assms(1)] selectedRuleSet_def thenDo_def orFail_def refuseIf_def)
  moreover obtain rules where "parseRules b (map en_Rule ?sel) = Inr rules" by (rule selection_parses [OF assms(1)])
  ultimately show ?thesis using that by simp
qed

lemma cncfCheck_total:
  assumes "wfBundle b" and "hasProject b project" and "ParseInput inputRaw (bu_registry b) = Inr input" and "validClock now"
    and "ruleID = [] \<or> (\<exists>e\<in>set (packEntries b). en_Project e = project \<and> map_option r_ID (ruleOf (en_Rule e)) = Some ruleID)"
  obtains report where "cncfCheck b project ruleID inputRaw now = Inr report"
proof -
  obtain rules selected where r: "rulesFor b project ruleID inputRaw = Inr rules" "parseRules b selected = Inr rules"
    by (rule rulesFor_total [OF assms(1,3,5)])
  obtain result where "Evaluate input rules now = Inr result" "MarshalReport result = Inr (jsonPrint (encReport result))"
    by (rule evaluate_bundle [OF assms(1,3) r(2) [unfolded parseRules_def] assms(4)])
  with r(1) assms(2,3) that show ?thesis unfolding cncfCheck_form by blast
qed

end
