(* ===== verification/CncfCorpus.thy ===== *)
theory CncfCorpus
  imports CncfCheck
begin

text \<open>
  \<open>cncfcheck/corpus.go\<close>: the whole pack as one rule document, the maintainer's attestation over it,
  and the scope-completeness assessment that evaluates a declared scope against the attested corpus.

  A map used as a set is the list of its keys; where the source ranges over it, the result is sorted
  afterwards, so the order of the list does not show. \<open>sort.Slice\<close> is not stable, but two equal keys
  are refused right after, so \<open>sort_key\<close> stands for it.

  Shown here: the unfiltered rules are a permutation of the pack (\<open>unfilteredRules_perm\<close>); the corpus
  components are exactly the subjects of the pack's rules (\<open>corpusComponents_iff\<close>); an attestation that
  binds names only such components (\<open>attestedRuleSet_bound\<close>); a returned assessment is published
  (\<open>assessScopeWith_published\<close>).
\<close>

section \<open>Documents\<close>

definition CorpusAttestationSchema :: string where
  "CorpusAttestationSchema = ''prufyx.io/cncf-corpus-attestation/v1alpha1''"
definition ScopeReportSchema :: string where
  "ScopeReportSchema = ''prufyx.io/cncf-scope-assessment/v1alpha1''"

record Attestation =
  at_Schema :: string
  at_Attestation :: string
  at_Revision :: string
  at_PackDigest :: string
  at_RuleSetDigest :: string
  at_RuleCount :: int
  at_Components :: "string list"
  at_Limitations :: "string list"

definition AttestationLimitations :: "string list" where
  "AttestationLimitations =
     [''this attestation states only that every reviewed rule the maintainer holds for each listed component is present in this pack at this revision; it authors no compatibility claim and changes none'',
      ''it is not a statement that the listed upstream projects have no other incompatibilities, only that this corpus is not silently missing a rule the maintainer already reviewed'',
      ''components absent from this list are outside the attestation; a scope naming one can never reach a completeness verdict'']"

definition ScopeReportLimitations :: "string list" where
  "ScopeReportLimitations =
     [''the aggregate covers only the declared component scope; it is never SAFE and is not a whole-upgrade verdict'',
      ''the declared scope was validated against the caller'' @ CHR 0x27 # ''s own declared bundle and against compiled Landscape identities; it was NOT cross-checked against observed cluster state'',
      ''completeness rests on the maintainer'' @ CHR 0x27 # ''s corpus attestation for the listed components at this pack revision; absence of evidence is reported as UNKNOWN, never as a pass'',
      ''reviewed rules with no native CLI descriptor are evaluated from declared facts like any other; when those facts were not declared the rule is enumerated as not evaluated and the aggregate stays UNKNOWN'']"

definition decAttestation :: "json \<Rightarrow> Attestation option" where
  "decAttestation v =
     Option.bind (decStruct True [''schema'', ''attestation'', ''revision'', ''packDigest'', ''ruleSetDigest'', ''ruleCount'',
                                  ''components'', ''limitations''] v) (\<lambda>ms.
     Option.bind (decField decString [] ms ''schema'') (\<lambda>s.
     Option.bind (decField decString [] ms ''attestation'') (\<lambda>a.
     Option.bind (decField decString [] ms ''revision'') (\<lambda>r.
     Option.bind (decField decString [] ms ''packDigest'') (\<lambda>p.
     Option.bind (decField decString [] ms ''ruleSetDigest'') (\<lambda>d.
     Option.bind (decField decInt 0 ms ''ruleCount'') (\<lambda>n.
     Option.bind (decField (decSlice decString) [] ms ''components'') (\<lambda>cs.
     Option.bind (decField (decSlice decString) [] ms ''limitations'') (\<lambda>ls.
       Some \<lparr>at_Schema = s, at_Attestation = a, at_Revision = r, at_PackDigest = p, at_RuleSetDigest = d, at_RuleCount = n,
             at_Components = cs, at_Limitations = ls\<rparr>)))))))))"

record CorpusInventory =
  inv_Revision :: string
  inv_PackDigest :: string
  inv_RuleSetDigest :: string
  inv_RuleCount :: int
  inv_Components :: "string list"

section \<open>The unfiltered corpus\<close>

definition entryComponent :: "Entry \<Rightarrow> string cncfResult" where
  "entryComponent e =
     (case unmarshal decPackRule (en_Rule e) of
        None \<Rightarrow> Inl CncfIntegrity
      | Some shape \<Rightarrow> if tr_Component (pr_Subject shape) = [] then Inl CncfIntegrity else Inr (tr_Component (pr_Subject shape)))"

fun collect :: "('a \<Rightarrow> 'b cncfResult) \<Rightarrow> 'a list \<Rightarrow> 'b list cncfResult" where
  "collect f [] = Inr []"
| "collect f (x # xs) = thenDo (f x) (\<lambda>y. thenDo (collect f xs) (\<lambda>ys. Inr (y # ys)))"

definition corpusComponents :: "cncfBundle \<Rightarrow> string list cncfResult" where
  "corpusComponents b =
     thenDo (collect entryComponent (packEntries b)) (\<lambda>components.
       refuseIf (components = []) CncfIntegrity (Inr (sort (remdups components))))"

definition componentIdentities :: "cncfBundle \<Rightarrow> string list" where
  "componentIdentities b =
     filter (\<lambda>c. c \<noteq> []) (map (\<lambda>p. subjectComponent (pi_Slug p) (pi_RepositoryURL p)) (ld_Projects (bu_landscape b)))"

definition entryOrdered :: "Entry \<Rightarrow> (string \<times> string) cncfResult" where
  "entryOrdered e =
     (case unmarshal decRuleID (en_Rule e) of
        None \<Rightarrow> Inl CncfIntegrity
      | Some i \<Rightarrow> if i = [] then Inl CncfIntegrity else Inr (i, en_Rule e))"

fun adjacentEqual :: "'a list \<Rightarrow> bool" where
  "adjacentEqual (x # y # ys) = (x = y \<or> adjacentEqual (y # ys))"
| "adjacentEqual _ = False"

definition unfilteredRules :: "cncfBundle \<Rightarrow> string list cncfResult" where
  "unfilteredRules b =
     thenDo (collect entryOrdered (packEntries b)) (\<lambda>items.
       (let ordered = sort_key fst items in
        refuseIf (adjacentEqual (map fst ordered)) CncfIntegrity (Inr (map snd ordered))))"

definition unfilteredRuleDocument :: "cncfBundle \<Rightarrow> string list \<Rightarrow> string cncfResult" where
  "unfilteredRuleDocument b corpus = thenDo (unfilteredRules b) (\<lambda>rules. ruleDocumentBytes b rules corpus)"

definition unfilteredRuleSet :: "cncfBundle \<Rightarrow> string list \<Rightarrow> RuleSet cncfResult" where
  "unfilteredRuleSet b corpus = thenDo (unfilteredRules b) (\<lambda>rules. parseRulesCorpus b rules corpus)"

definition unfilteredRuleSetDigest :: "cncfBundle \<Rightarrow> string cncfResult" where
  "unfilteredRuleSetDigest b =
     thenDo (orFail CncfIntegrity (unfilteredRuleSet b [])) (\<lambda>parsed. orFail CncfIntegrity (engineCall (ruleSetDigest parsed)))"

definition unfilteredCorpus :: "cncfBundle \<Rightarrow> CorpusInventory cncfResult" where
  "unfilteredCorpus b =
     thenDo (corpusComponents b) (\<lambda>components.
     thenDo (unfilteredRuleSetDigest b) (\<lambda>digest.
       Inr \<lparr>inv_Revision = pk_Revision (bu_pack b), inv_PackDigest = bu_packDigest b, inv_RuleSetDigest = digest,
            inv_RuleCount = int (length (packEntries b)), inv_Components = components\<rparr>))"

definition UnfilteredCorpus :: "packagedFiles \<Rightarrow> CorpusInventory cncfResult" where
  "UnfilteredCorpus files = thenDo (load files) unfilteredCorpus"

section \<open>Attestations\<close>

definition validAttestation :: "Attestation \<Rightarrow> bool" where
  "validAttestation a =
     (at_Schema a = CorpusAttestationSchema \<and> at_Attestation a = CorpusAttestation \<and> at_Revision a \<noteq> [] \<and>
      digestPattern (at_PackDigest a) \<and> digestPattern (at_RuleSetDigest a) \<and> 1 \<le> at_RuleCount a \<and>
      at_Components a \<noteq> [] \<and> allAdj (\<lambda>p c. c \<noteq> [] \<and> \<not> outOfOrder id p c) None (at_Components a) \<and>
      length (at_Limitations a) = length AttestationLimitations \<and>
      list_all (\<lambda>i. at_Limitations a ! i = AttestationLimitations ! i) [0..<length AttestationLimitations])"

definition ParseAttestation :: "string \<Rightarrow> Attestation cncfResult" where
  "ParseAttestation raw =
     (case strictJSON (decAttestation \<circ> rawTree) raw of
        None \<Rightarrow> Inl CncfInvalid
      | Some a \<Rightarrow> refuseIf (\<not> validAttestation a) CncfInvalid (Inr a))"

definition attestationOf :: "CorpusInventory \<Rightarrow> Attestation" where
  "attestationOf inventory =
     \<lparr>at_Schema = CorpusAttestationSchema, at_Attestation = CorpusAttestation, at_Revision = inv_Revision inventory,
      at_PackDigest = inv_PackDigest inventory, at_RuleSetDigest = inv_RuleSetDigest inventory,
      at_RuleCount = inv_RuleCount inventory, at_Components = inv_Components inventory, at_Limitations = AttestationLimitations\<rparr>"

definition BuildAttestation :: "packagedFiles \<Rightarrow> Attestation cncfResult" where
  "BuildAttestation files = thenDo (UnfilteredCorpus files) (\<lambda>inventory. Inr (attestationOf inventory))"

definition attestedRuleSet :: "cncfBundle \<Rightarrow> string \<Rightarrow> (RuleSet \<times> Attestation) cncfResult" where
  "attestedRuleSet b attestationRaw =
     thenDo (orFail CncfIntegrity (ParseAttestation attestationRaw)) (\<lambda>a.
     refuseIf (at_Revision a \<noteq> pk_Revision (bu_pack b) \<or> at_PackDigest a \<noteq> bu_packDigest b \<or>
               at_RuleCount a \<noteq> int (length (packEntries b))) CncfIntegrity
     (thenDo (orFail CncfIntegrity (unfilteredRuleSetDigest b)) (\<lambda>digest.
      refuseIf (digest \<noteq> at_RuleSetDigest a) CncfIntegrity
     (thenDo (orFail CncfIntegrity (corpusComponents b)) (\<lambda>present.
      refuseIf (\<not> list_all (\<lambda>c. c \<in> set present) (at_Components a)) CncfIntegrity
     (thenDo (orFail CncfIntegrity (unfilteredRuleSet b (at_Components a))) (\<lambda>parsed. Inr (parsed, a))))))))"

section \<open>Scope reports\<close>

record ScopeReport =
  sr_Schema :: string
  sr_Assessment :: string
  sr_KnowledgeOrigin :: string
  sr_KnowledgeRevision :: string
  sr_KnowledgePackDigest :: string
  sr_CatalogueDigest :: string
  sr_CorpusRuleSetDigest :: string
  sr_CorpusRuleCount :: int
  sr_AttestedComponents :: "string list"
  sr_ScopeComponents :: "string list"
  sr_InputFileDigest :: string
  sr_SourceAuthority :: string
  sr_RuntimeReproduced :: int
  sr_NetworkUsed :: bool
  sr_NextAction :: string
  sr_Limitations :: "string list"
  sr_Check :: Report
  sr_seal :: bool
  sr_digest :: string

definition encScopeReport :: "ScopeReport \<Rightarrow> json" where
  "encScopeReport r =
     JObj [(''schema'', JStr (sr_Schema r)), (''assessment'', JStr (sr_Assessment r)),
           (''knowledgeOrigin'', JStr (sr_KnowledgeOrigin r)), (''knowledgeRevision'', JStr (sr_KnowledgeRevision r)),
           (''knowledgePackDigest'', JStr (sr_KnowledgePackDigest r)), (''catalogueDigest'', JStr (sr_CatalogueDigest r)),
           (''corpusRuleSetDigest'', JStr (sr_CorpusRuleSetDigest r)), (''corpusRuleCount'', encInt (sr_CorpusRuleCount r)),
           (''attestedComponents'', encNilSlice JStr (sr_AttestedComponents r)),
           (''scopeComponents'', encNilSlice JStr (sr_ScopeComponents r)), (''inputFileDigest'', JStr (sr_InputFileDigest r)),
           (''sourceAuthority'', JStr (sr_SourceAuthority r)), (''runtimeReproduced'', encInt (sr_RuntimeReproduced r)),
           (''networkUsed'', JBool (sr_NetworkUsed r)), (''nextAction'', JStr (sr_NextAction r)),
           (''limitations'', encNilSlice JStr (sr_Limitations r)), (''check'', encReport (sr_Check r))]"

definition decDeclaredScope :: "json \<Rightarrow> (string \<times> string list) option option" where
  "decDeclaredScope v =
     Option.bind (decStruct False [''scope''] v) (\<lambda>ms.
     decField (decPtr (\<lambda>s. Option.bind (decStruct False [''declaration'', ''components''] s) (\<lambda>ss.
                           Option.bind (decField decString [] ss ''declaration'') (\<lambda>d.
                           Option.bind (decField (decSlice decString) [] ss ''components'') (\<lambda>cs. Some (d, cs))))))
       None ms ''scope'')"

definition declaredScope :: "string \<Rightarrow> string list option" where
  "declaredScope inputRaw =
     (case unmarshal decDeclaredScope inputRaw of
        Some (Some (declaration, components)) \<Rightarrow> if declaration \<noteq> ScopeDeclaration then None else Some components
      | _ \<Rightarrow> None)"

definition nextEnumerated :: string where
  "nextEnumerated = ''review each enumerated claim and every rule listed as not evaluated; the aggregate covers the declared component scope only''"
definition nextUnresolved :: string where
  "nextUnresolved = ''the declared scope did not resolve; read scopeCompleteness.unresolvedReason and the per-component notEvaluated list, then declare the missing facts or narrow the scope''"

definition scopeReportBytes :: "ScopeReport \<Rightarrow> string" where
  "scopeReportBytes report = jsonPrint (encScopeReport report)"

definition scopeReport :: "cncfBundle \<Rightarrow> Attestation \<Rightarrow> string list \<Rightarrow> string \<Rightarrow> Report \<Rightarrow> ScopeReport" where
  "scopeReport b a declared inputRaw result =
     (let report = \<lparr>sr_Schema = ScopeReportSchema, sr_Assessment = rp_Assessment result, sr_KnowledgeOrigin = ''embedded'',
            sr_KnowledgeRevision = pk_Revision (bu_pack b), sr_KnowledgePackDigest = bu_packDigest b,
            sr_CatalogueDigest = bu_catalogueDigest b, sr_CorpusRuleSetDigest = at_RuleSetDigest a,
            sr_CorpusRuleCount = at_RuleCount a, sr_AttestedComponents = at_Components a, sr_ScopeComponents = declared,
            sr_InputFileDigest = cncfDigest inputRaw, sr_SourceAuthority = sourceAuthority, sr_RuntimeReproduced = 0,
            sr_NetworkUsed = False,
            sr_NextAction = (if rp_Assessment result = AssessmentUnknown then nextUnresolved else nextEnumerated),
            sr_Limitations = ScopeReportLimitations, sr_Check = result, sr_seal = True, sr_digest = []\<rparr>
      in report\<lparr>sr_digest := cncfDigest (scopeReportBytes report)\<rparr>)"

definition assessScopeWith :: "cncfBundle \<Rightarrow> string \<Rightarrow> string \<Rightarrow> goTime \<Rightarrow> ScopeReport cncfResult" where
  "assessScopeWith b attestationRaw inputRaw now =
     thenDo (orFail CncfIntegrity (attestedRuleSet b attestationRaw)) (\<lambda>(rules, a).
       (case declaredScope inputRaw of
          None \<Rightarrow> Inl CncfInvalid
        | Some declared \<Rightarrow>
            refuseIf (declared = [] \<or> \<not> list_all (\<lambda>c. c \<in> set (componentIdentities b)) declared) CncfInvalid
            (thenDo (orFail CncfInvalid (engineCall (ParseInput inputRaw (bu_registry b)))) (\<lambda>input.
             thenDo (orFail CncfInvalid (engineCall (Evaluate input rules now))) (\<lambda>result.
             thenDo (orFail CncfIntegrity (engineCall (MarshalReport result))) (\<lambda>_.
               Inr (scopeReport b a declared inputRaw result)))))))"

definition AssessScope :: "packagedFiles \<Rightarrow> string \<Rightarrow> goTime \<Rightarrow> ScopeReport cncfResult" where
  "AssessScope files inputRaw now =
     thenDo (load files) (\<lambda>b.
       (case pf_attestation files of
          None \<Rightarrow> Inl CncfIntegrity
        | Some attestationRaw \<Rightarrow> assessScopeWith b attestationRaw inputRaw now))"

definition MarshalScopeReport :: "ScopeReport \<Rightarrow> string cncfResult" where
  "MarshalScopeReport report =
     refuseIf (\<not> sr_seal report \<or> sr_Schema report \<noteq> ScopeReportSchema \<or> sr_KnowledgeOrigin report \<noteq> ''embedded'' \<or>
               sr_NetworkUsed report \<or> sr_RuntimeReproduced report \<noteq> 0) CncfIntegrity
     (refuseIf (sr_Assessment report \<notin> set [AssessmentUnknown, AssessmentBlocked, AssessmentScopeCompletePass]) CncfIntegrity
     (refuseIf (sr_Assessment report \<noteq> rp_Assessment (sr_Check report)) CncfIntegrity
     (thenDo (orFail CncfIntegrity (engineCall (MarshalReport (sr_Check report)))) (\<lambda>_.
      refuseIf (cncfDigest (scopeReportBytes report) \<noteq> sr_digest report) CncfIntegrity (Inr (scopeReportBytes report))))))"

section \<open>What the corpus holds\<close>

lemma collect_iff: "collect f xs = Inr ys \<longleftrightarrow> map f xs = map Inr ys"
proof (induction xs arbitrary: ys)
  case (Cons x xs)
  then show ?case by (cases ys) auto
qed auto

lemma adjacentEqual_strict: "sorted_wrt (<) (xs :: 'a::linorder list) \<Longrightarrow> \<not> adjacentEqual xs"
  by (induction xs rule: adjacentEqual.induct) auto

lemma sorted_adjacent: "sorted (xs :: 'a::linorder list) \<Longrightarrow> \<not> adjacentEqual xs \<Longrightarrow> sorted_wrt (<) xs"
proof (induction xs rule: adjacentEqual.induct)
  case (1 x y ys)
  then show ?case by (auto simp: less_le_trans order.not_eq_order_implies_strict)
qed auto

text \<open>The rules of the pack, in the order of its entries.\<close>

definition packRules :: "cncfBundle \<Rightarrow> rule list" where
  "packRules b = List.map_filter (ruleOf \<circ> en_Rule) (packEntries b)"

lemma packRules_wf:
  assumes "wfBundle b"
  shows "map (ruleOf \<circ> en_Rule) (packEntries b) = map Some (packRules b)" and "sorted_wrt (<) (map r_ID (packRules b))"
    and "\<forall>r\<in>set (packRules b). validateRule r (bu_registry b) = None"
proof -
  obtain rules where r: "map (ruleOf \<circ> en_Rule) (packEntries b) = map Some rules" "sorted_wrt (<) (map r_ID rules)"
    "\<forall>r\<in>set rules. validateRule r (bu_registry b) = None" using wfBundle_rules [OF assms] by metis
  have "map (ruleOf \<circ> en_Rule) es = map Some rs \<Longrightarrow> List.map_filter (ruleOf \<circ> en_Rule) es = rs" for es rs
  proof (induction es arbitrary: rs)
    case (Cons e es)
    then show ?case by (cases rs) (auto simp: List.map_filter_def)
  qed (simp add: List.map_filter_def)
  from this [OF r(1)] r show "map (ruleOf \<circ> en_Rule) (packEntries b) = map Some (packRules b)"
    "sorted_wrt (<) (map r_ID (packRules b))" "\<forall>r\<in>set (packRules b). validateRule r (bu_registry b) = None"
    by (simp_all add: packRules_def)
qed

lemma packRules_all2:
  assumes "wfBundle b"
  shows "list_all2 (\<lambda>e r. ruleOf (en_Rule e) = Some r \<and> validateRule r (bu_registry b) = None) (packEntries b) (packRules b)"
proof -
  have "list_all2 (\<lambda>e r. ruleOf (en_Rule e) = Some r) (packEntries b) (packRules b)"
    using packRules_wf(1) [OF assms] by (auto simp: list_all2_conv_all_nth list_eq_iff_nth_eq)
  then show ?thesis using packRules_wf(3) [OF assms] by (auto simp: list_all2_conv_all_nth)
qed

lemma idRE_nonempty: "idRE s \<Longrightarrow> s \<noteq> []"
  by (auto simp: idRE_def headAndTail_def)

lemma componentRE_nonempty: "componentRE s \<Longrightarrow> s \<noteq> []"
  by (auto simp: componentRE_def hasPrefix_def)

lemma unfilteredRules_wf:
  assumes "wfBundle b"
  shows "unfilteredRules b = Inr (map en_Rule (packEntries b))"
proof -
  let ?items = "map (\<lambda>(e, r). (r_ID r, en_Rule e)) (zip (packEntries b) (packRules b))"
  note all2 = packRules_all2 [OF assms]
  have len: "length (packEntries b) = length (packRules b)" by (rule list_all2_lengthD [OF all2])
  have "\<forall>i<length (packRules b). entryOrdered (packEntries b ! i) = Inr (r_ID (packRules b ! i), en_Rule (packEntries b ! i))"
    using all2 idRE_nonempty [OF validateRule_facts(1)]
    by (auto simp: list_all2_conv_all_nth entryOrdered_def ruleOf_reads(1))
  then have "map entryOrdered (packEntries b) = map Inr ?items" using len by (auto simp: list_eq_iff_nth_eq)
  then have c: "collect entryOrdered (packEntries b) = Inr ?items" by (simp add: collect_iff)
  have f: "map fst ?items = map r_ID (packRules b)" "map snd ?items = map en_Rule (packEntries b)"
    using len by (auto simp: list_eq_iff_nth_eq)
  then have "sorted (map fst ?items)" using packRules_wf(2) [OF assms] by (simp add: strict_sorted_iff)
  then have "sort_key fst ?items = ?items" by (rule sort_key_id_if_sorted)
  then show ?thesis using c f adjacentEqual_strict [OF packRules_wf(2) [OF assms]]
    by (simp add: unfilteredRules_def Let_def)
qed

lemma unfilteredRuleSet_wf:
  assumes "wfBundle b"
  shows "unfilteredRuleSet b corpus = parseRulesCorpus b (map en_Rule (packEntries b)) corpus"
  by (simp add: unfilteredRuleSet_def unfilteredRules_wf [OF assms])

lemma unfilteredRuleSet_rules:
  assumes "wfBundle b" and "unfilteredRuleSet b corpus = Inr rs"
  shows "rd_Rules (rs_document rs) = packRules b"
proof -
  have "map Some (rd_Rules (rs_document rs)) = map Some (packRules b)"
    using parseRulesCorpus_rules [OF assms(2) [unfolded unfilteredRuleSet_wf [OF assms(1)]]] packRules_wf(1) [OF assms(1)] by simp
  then show ?thesis by (simp add: inj_map_eq_map)
qed

lemma unfilteredRuleSetDigest_wf:
  assumes "wfBundle b"
  shows "\<exists>rs. packRuleSet b [] = Inr rs \<and> ruleSetValid rs \<and> unfilteredRuleSetDigest b = Inr (rs_digest rs)"
proof -
  obtain rs where rs: "packRuleSet b [] = Inr rs" using assms by (auto simp: wfBundle_def)
  then obtain raw where "ParseRuleSet raw (bu_registry b) = Inr rs"
    using parseRulesCorpus_parsed(1) [of b _ "[]" rs] by (auto simp: packRuleSet_def parseRules_def)
  then have v: "ruleSetValid rs" by (rule ParseRuleSet_issued)
  moreover have "unfilteredRuleSet b [] = Inr rs"
    using rs by (simp add: unfilteredRuleSet_wf [OF assms] packRuleSet_def parseRules_def)
  ultimately show ?thesis using rs by (simp add: unfilteredRuleSetDigest_def ruleSetDigest_def engineCall_def orFail_def)
qed

lemma corpusComponents_wf:
  assumes "wfBundle b" and "packEntries b \<noteq> []"
  shows "corpusComponents b = Inr (sort (remdups (map (tr_Component \<circ> r_Subject) (packRules b))))"
proof -
  have "\<forall>i<length (packRules b). entryComponent (packEntries b ! i) = Inr (tr_Component (r_Subject (packRules b ! i)))"
    using packRules_all2 [OF assms(1)] componentRE_nonempty [OF validateRule_facts(4)]
    by (auto simp: list_all2_conv_all_nth entryComponent_def ruleOf_reads(2) shapeOfRule_def)
  then have "collect entryComponent (packEntries b) = Inr (map (tr_Component \<circ> r_Subject) (packRules b))"
    using list_all2_lengthD [OF packRules_all2 [OF assms(1)]] by (auto simp: collect_iff list_eq_iff_nth_eq)
  moreover have "packRules b \<noteq> []" using assms(2) list_all2_lengthD [OF packRules_all2 [OF assms(1)]] by auto
  ultimately show ?thesis by (simp add: corpusComponents_def)
qed

lemma corpusComponents_Inr:
  assumes "wfBundle b" and "corpusComponents b = Inr components"
  shows "sorted_wrt (<) components" and "set components = (tr_Component \<circ> r_Subject) ` set (packRules b)"
    and "components \<noteq> []" and "[] \<notin> set components"
proof -
  have ne: "packEntries b \<noteq> []" using assms(2) by (auto simp: corpusComponents_def)
  have "sort (remdups (map (tr_Component \<circ> r_Subject) (packRules b))) = components"
    using corpusComponents_wf [OF assms(1) ne] assms(2) by simp
  moreover have "packRules b \<noteq> []" using ne list_all2_lengthD [OF packRules_all2 [OF assms(1)]] by auto
  ultimately show "sorted_wrt (<) components" and st: "set components = (tr_Component \<circ> r_Subject) ` set (packRules b)" and "components \<noteq> []"
    by (auto simp: strict_sorted_iff simp flip: set_empty)
  show "[] \<notin> set components"
    using packRules_wf(3) [OF assms(1)] componentRE_nonempty [OF validateRule_facts(4)] unfolding st by fastforce
qed

section \<open>What an attestation binds\<close>

lemma digestPattern_iff: "digestPattern s \<longleftrightarrow> digestRE s"
  by (auto simp: digestPattern_def digestRE_def hasPrefix_def eval_nat_numeral)

lemma attestedRuleSet_bound:
  assumes "attestedRuleSet b raw = Inr (rules, a)"
  shows "validAttestation a" and "at_Revision a = pk_Revision (bu_pack b)" and "at_PackDigest a = bu_packDigest b"
    and "at_RuleCount a = int (length (packEntries b))" and "unfilteredRuleSetDigest b = Inr (at_RuleSetDigest a)"
    and "unfilteredRuleSet b (at_Components a) = Inr rules"
    and "\<exists>present. corpusComponents b = Inr present \<and> set (at_Components a) \<subseteq> set present"
  using assms by (auto simp: attestedRuleSet_def ParseAttestation_def list_all_iff split: option.splits)

lemma validAttestation_components:
  assumes "validAttestation a"
  shows "at_Components a \<noteq> []" and "sorted_wrt (<) (at_Components a)"
  using assms allAdj_order [of id "\<lambda>c. c \<noteq> []" "at_Components a"]
  by (simp_all add: validAttestation_def conj_commute)

text \<open>The attestation the maintainer command emits for a bundle is one that binds to it.\<close>

lemma attestationOf_valid:
  assumes "wfBundle b" and "unfilteredCorpus b = Inr inventory" and "digestPattern (bu_packDigest b)" and "pk_Revision (bu_pack b) \<noteq> []"
  shows "validAttestation (attestationOf inventory)"
proof -
  obtain components digest where c: "corpusComponents b = Inr components" "unfilteredRuleSetDigest b = Inr digest"
    "inventory = \<lparr>inv_Revision = pk_Revision (bu_pack b), inv_PackDigest = bu_packDigest b, inv_RuleSetDigest = digest,
            inv_RuleCount = int (length (packEntries b)), inv_Components = components\<rparr>"
    using assms(2) by (auto simp: unfilteredCorpus_def)
  note cs = corpusComponents_Inr [OF assms(1) c(1)]
  have "packEntries b \<noteq> []" using c(1) by (auto simp: corpusComponents_def)
  then have "1 \<le> int (length (packEntries b))" by (cases "packEntries b") auto
  moreover have "allAdj (\<lambda>p c. c \<noteq> [] \<and> \<not> outOfOrder id p c) None components"
    using allAdj_order [of id "\<lambda>c. c \<noteq> []" components] cs(1,4) by (auto simp: conj_commute simp del: in_set_conv_nth)
  moreover have "digestPattern digest"
    using unfilteredRuleSetDigest_wf [OF assms(1)] c(2) by (auto simp: ruleSetValid_def digestPattern_iff)
  ultimately show ?thesis using assms(3,4) cs(3) c(3) by (simp add: validAttestation_def attestationOf_def list_all_iff)
qed


lemma attestedRuleSet_built:
  assumes "wfBundle b" and "unfilteredCorpus b = Inr inventory" and "validAttestation (attestationOf inventory)"
    and "strictJSON (decAttestation \<circ> rawTree) raw = Some (attestationOf inventory)"
    and "unfilteredRuleSet b (inv_Components inventory) = Inr rules"
  shows "attestedRuleSet b raw = Inr (rules, attestationOf inventory)"
proof -
  obtain components digest where c: "corpusComponents b = Inr components" "unfilteredRuleSetDigest b = Inr digest"
    "inventory = \<lparr>inv_Revision = pk_Revision (bu_pack b), inv_PackDigest = bu_packDigest b, inv_RuleSetDigest = digest,
            inv_RuleCount = int (length (packEntries b)), inv_Components = components\<rparr>"
    using assms(2) by (auto simp: unfilteredCorpus_def)
  then show ?thesis using assms(3,4,5) by (simp add: attestedRuleSet_def ParseAttestation_def attestationOf_def list_all_iff)
qed

section \<open>What an assessment means\<close>

lemma assessScopeWith_form:
  "assessScopeWith b attestationRaw inputRaw now = Inr report \<longleftrightarrow>
     (\<exists>rules a declared input result raw. attestedRuleSet b attestationRaw = Inr (rules, a) \<and>
        declaredScope inputRaw = Some declared \<and> declared \<noteq> [] \<and> set declared \<subseteq> set (componentIdentities b) \<and>
        ParseInput inputRaw (bu_registry b) = Inr input \<and> Evaluate input rules now = Inr result \<and>
        MarshalReport result = Inr raw \<and> report = scopeReport b a declared inputRaw result)"
  by (auto simp: assessScopeWith_def list_all_iff split: option.splits)

lemma declaredScope_parsed:
  assumes "ParseInput raw registry = Inr input" and "declaredScope raw = Some declared"
  shows "\<exists>scope. id_Scope (in_document input) = Some scope \<and> isc_Components scope = declared"
proof -
  let ?g = "\<lambda>s. (isc_Declaration s, isc_Components s)"
  let ?d = "\<lambda>s. Option.bind (decStruct False [''declaration'', ''components''] s) (\<lambda>ss.
                           Option.bind (decField decString [] ss ''declaration'') (\<lambda>d.
                           Option.bind (decField (decSlice decString) [] ss ''components'') (\<lambda>cs. Some (d, cs))))"
  have "readsOf ?g decInputScope ?d"
    by (auto simp: readsOf_def decInputScope_def bind_eq_Some_conv dest!: decStruct_lenient)
  note f = readsOf_field [OF readsOf_ptr [OF this], of None, simplified]
  have "decInputDocument v = Some d \<Longrightarrow> decDeclaredScope v = Some (map_option ?g (id_Scope d))" for v d
    by (auto simp: decInputDocument_def decDeclaredScope_def bind_eq_Some_conv dest!: decStruct_lenient [where names' = "[''scope'']"] f)
  then have "unmarshal decDeclaredScope raw = Some (map_option ?g (id_Scope (in_document input)))"
    using ParseInput_decodes [OF assms(1)] by (auto simp: unmarshal_def)
  then show ?thesis using assms(2) by (auto simp: declaredScope_def split: option.splits if_splits)
qed

lemma scopeReport_published:
  assumes "MarshalReport result = Inr raw"
  shows "MarshalScopeReport (scopeReport b a declared inputRaw result) =
    Inr (scopeReportBytes (scopeReport b a declared inputRaw result))"
proof -
  have "rp_Assessment result \<in> set [AssessmentUnknown, AssessmentBlocked, AssessmentScopeCompletePass]"
    using assms
    by (auto simp: MarshalReport_def legalAssessment_def deriveAssessment_iff blockAssessment_def Let_def
        split: if_splits option.splits sum.splits)
  then show ?thesis using assms
    by (simp add: MarshalScopeReport_def scopeReport_def Let_def scopeReportBytes_def encScopeReport_def)
qed

lemma assessScopeWith_published:
  "assessScopeWith b attestationRaw inputRaw now = Inr report \<Longrightarrow> MarshalScopeReport report = Inr (scopeReportBytes report)"
  unfolding assessScopeWith_form using scopeReport_published by blast

lemma attested_corpus:
  assumes "attestedRuleSet b raw = Inr (rules, a)"
  shows "rd_Corpus (rs_document rules) = Some \<lparr>co_Completeness = CorpusAttestation, co_Components = map utf8Coerce (at_Components a)\<rparr>"
proof -
  note bound = attestedRuleSet_bound [OF assms]
  obtain raws where "parseRulesCorpus b raws (at_Components a) = Inr rules"
    using bound(6) by (auto simp: unfilteredRuleSet_def)
  from parseRulesCorpus_parsed(5) [OF this] validAttestation_components(1) [OF bound(1)] show ?thesis by simp
qed

text \<open>
  The assessment of a declared scope, spelled out over the whole pack: the clock is one the engine
  accepts, since it evaluated.
\<close>

lemma Evaluate_clock: "Evaluate input rules now = Inr report \<Longrightarrow> validClock now"
  by (auto simp: Evaluate_def validClock_def split: if_splits)

lemma assessScopeWith_evaluated:
  assumes "wfBundle b" and "assessScopeWith b attestationRaw inputRaw now = Inr report"
  obtains rules a input scope where
    "attestedRuleSet b attestationRaw = Inr (rules, a)" "ParseInput inputRaw (bu_registry b) = Inr input"
    "id_Scope (in_document input) = Some scope" "isc_Components scope = sr_ScopeComponents report"
    "Evaluate input rules now = Inr (sr_Check report)" "sr_Assessment report = rp_Assessment (sr_Check report)"
    "rd_Rules (rs_document rules) = packRules b" "issuedPair (bu_registry b) input rules" "validClock now"
    "sr_AttestedComponents report = at_Components a"
proof -
  obtain rules a declared input result raw where r: "attestedRuleSet b attestationRaw = Inr (rules, a)"
    "declaredScope inputRaw = Some declared" "ParseInput inputRaw (bu_registry b) = Inr input"
    "Evaluate input rules now = Inr result" "report = scopeReport b a declared inputRaw result"
    using assms(2) unfolding assessScopeWith_form by blast
  obtain scope where s: "id_Scope (in_document input) = Some scope" "isc_Components scope = declared"
    using declaredScope_parsed [OF r(3,2)] by blast
  have u: "unfilteredRuleSet b (at_Components a) = Inr rules" by (rule attestedRuleSet_bound(6) [OF r(1)])
  then have p: "parseRulesCorpus b (map en_Rule (packEntries b)) (at_Components a) = Inr rules"
    by (simp add: unfilteredRuleSet_wf [OF assms(1)])
  have pair: "issuedPair (bu_registry b) input rules"
    using evaluate_bundle [OF assms(1) r(3) p Evaluate_clock [OF r(4)]] by blast
  show ?thesis
    using that [OF r(1,3) s(1) _ _ _ unfilteredRuleSet_rules [OF assms(1) u] pair Evaluate_clock [OF r(4)]] r(4,5) s(2)
    by (simp add: scopeReport_def Let_def)
qed

end
