(* ===== verification/CncfCatalog.thy ===== *)
theory CncfCatalog
  imports CncfCorpus "HOL-Library.Product_Lexorder"
begin

text \<open>
  \<open>cncfcheck/catalog.go\<close>: the public identities of the embedded rules, the component of a project and
  the catalogue of projects. Each function loads the packaged files and then reads the bundle, so each
  is a definition over the bundle and one over the files.

  Shown here: on a bundle in good form the identities exist and are those of the pack's rules, sorted
  (\<open>ruleIdentities_wf\<close>); each listed project carries exactly its own entries (\<open>catalogue_priority\<close>),
  and the counters of the full listing agree with the pack (\<open>catalogue_counts\<close>).
\<close>

section \<open>Rule identities\<close>

record RuleIdentity =
  ri_Project :: string
  ri_Component :: string
  ri_RuleID :: string
  ri_From :: string
  ri_To :: string
  ri_Range :: "VersionRange option"

definition identityTransition :: "RuleIdentity \<Rightarrow> RuleTransition" where
  "identityTransition r =
     \<lparr>rt_Component = ri_Component r, rt_From = ri_From r, rt_To = ri_To r, rt_Range = ri_Range r\<rparr>"

definition entryIdentity :: "Entry \<Rightarrow> RuleIdentity cncfResult" where
  "entryIdentity e =
     (case RuleTransitionOf (en_Rule e) of
        Inl _ \<Rightarrow> Inl CncfIntegrity
      | Inr subject \<Rightarrow>
          (case unmarshal decRuleID (en_Rule e) of
             None \<Rightarrow> Inl CncfIntegrity
           | Some i \<Rightarrow>
               if i = [] \<or> rt_Component subject = [] \<or> rt_From subject = [] \<or> rt_To subject = [] then Inl CncfIntegrity
               else Inr \<lparr>ri_Project = en_Project e, ri_Component = rt_Component subject, ri_RuleID = i,
                         ri_From = rt_From subject, ri_To = rt_To subject, ri_Range = rt_Range subject\<rparr>))"

definition ruleIdentities :: "cncfBundle \<Rightarrow> RuleIdentity list cncfResult" where
  "ruleIdentities b =
     thenDo (collect entryIdentity (packEntries b)) (\<lambda>result. Inr (sort_key (\<lambda>r. (ri_Project r, ri_RuleID r)) result))"

definition EmbeddedRuleIdentities :: "packagedFiles \<Rightarrow> RuleIdentity list cncfResult" where
  "EmbeddedRuleIdentities files = thenDo (load files) ruleIdentities"

section \<open>The catalogue\<close>

record Project =
  cp_Slug :: string
  cp_Name :: string
  cp_RepositoryURL :: string
  cp_CNCFStage :: string
  cp_Priority :: bool
  cp_GenericCoverage :: string
  cp_SourceRuleCount :: nat
  cp_RuntimeReproduced :: nat
  cp_ExistingChecks :: "string list"
  cp_Checks :: "Entry list"

record Catalogue =
  ca_Schema :: string
  ca_LandscapeRevision :: string
  ca_LandscapeSourceURL :: string
  ca_LandscapeFileDigest :: string
  ca_CatalogueDigest :: string
  ca_KnowledgeRevision :: string
  ca_KnowledgePackDigest :: string
  ca_Catalogued :: nat
  ca_PriorityProjects :: nat
  ca_SourceRuleCovered :: nat
  ca_RuntimeReproduced :: nat
  ca_CoverageScope :: string
  ca_Projects :: "Project list"

definition projectComponent :: "cncfBundle \<Rightarrow> string \<Rightarrow> string cncfResult" where
  "projectComponent b project =
     (case List.find (\<lambda>identity. pi_Slug identity = project) (ld_Projects (bu_landscape b)) of
        None \<Rightarrow> Inl CncfInvalid
      | Some identity \<Rightarrow> Inr (subjectComponent (pi_Slug identity) (pi_RepositoryURL identity)))"

definition Component :: "packagedFiles \<Rightarrow> string \<Rightarrow> string cncfResult" where
  "Component files project = thenDo (load files) (\<lambda>b. projectComponent b project)"

definition existingChecks :: "string \<Rightarrow> string list" where
  "existingChecks slug =
     (if slug = ''cert-manager'' then [''prufyx check cert-manager-values --help'']
      else if slug = ''prometheus'' then [''prufyx check prometheus-mode --help''] else [])"

definition isPriority :: "cncfBundle \<Rightarrow> string \<Rightarrow> bool" where
  "isPriority b slug = contains (pd_Priority (bu_priority b)) slug"

definition catalogueProject :: "cncfBundle \<Rightarrow> projectIdentity \<Rightarrow> Project" where
  "catalogueProject b identity =
     (let checks = filter (\<lambda>e. en_Project e = pi_Slug identity) (packEntries b) in
      \<lparr>cp_Slug = pi_Slug identity, cp_Name = pi_Name identity, cp_RepositoryURL = pi_RepositoryURL identity,
       cp_CNCFStage = pi_CNCFStage identity, cp_Priority = isPriority b (pi_Slug identity),
       cp_GenericCoverage = (if 0 < length checks then ''source_rule_preview'' else ''catalogued_only''),
       cp_SourceRuleCount = length checks, cp_RuntimeReproduced = 0,
       cp_ExistingChecks = existingChecks (pi_Slug identity), cp_Checks = checks\<rparr>)"

definition coverageScope :: string where
  "coverageScope = ''sourceRuleCovered and runtimeReproduced describe only the generic source-constraint preview; existing named checks are listed separately; priority is maintainer selection, not an adoption ranking''"

definition catalogue :: "cncfBundle \<Rightarrow> bool \<Rightarrow> string \<Rightarrow> Catalogue cncfResult" where
  "catalogue b priorityOnly selectedProject =
     refuseIf (selectedProject \<noteq> [] \<and> \<not> hasProject b selectedProject) CncfInvalid
       (Inr \<lparr>ca_Schema = ''prufyx.io/cncf-catalogue/v1alpha1'', ca_LandscapeRevision = ld_Revision (bu_landscape b),
             ca_LandscapeSourceURL = ld_SourceURL (bu_landscape b),
             ca_LandscapeFileDigest = ld_LandscapeFileDigest (bu_landscape b), ca_CatalogueDigest = bu_catalogueDigest b,
             ca_KnowledgeRevision = pk_Revision (bu_pack b), ca_KnowledgePackDigest = bu_packDigest b,
             ca_Catalogued = length (ld_Projects (bu_landscape b)), ca_PriorityProjects = length (pd_Priority (bu_priority b)),
             ca_SourceRuleCovered = length (remdups (map en_Project (packEntries b))), ca_RuntimeReproduced = 0,
             ca_CoverageScope = coverageScope,
             ca_Projects = map (catalogueProject b)
               (filter (\<lambda>identity. \<not> (priorityOnly \<and> \<not> isPriority b (pi_Slug identity) \<or>
                                      selectedProject \<noteq> [] \<and> selectedProject \<noteq> pi_Slug identity))
                  (ld_Projects (bu_landscape b)))\<rparr>)"

definition Catalog :: "packagedFiles \<Rightarrow> bool \<Rightarrow> string \<Rightarrow> Catalogue cncfResult" where
  "Catalog files priorityOnly selectedProject = thenDo (load files) (\<lambda>b. catalogue b priorityOnly selectedProject)"

section \<open>What the catalogue lists\<close>

lemma entryIdentity_rule:
  assumes "ruleOf (en_Rule e) = Some r" and "validateRule r registry = None"
  shows "entryIdentity e = Inr \<lparr>ri_Project = en_Project e, ri_Component = tr_Component (r_Subject r), ri_RuleID = r_ID r,
    ri_From = tr_From (r_Subject r), ri_To = tr_To (r_Subject r), ri_Range = r_Range r\<rparr>"
proof -
  have "validVersion (tr_From (r_Subject r))" "validVersion (tr_To (r_Subject r))"
    using validateRule_facts(5) [OF assms(2)] by (simp_all add: regularSubject_def)
  then have "tr_From (r_Subject r) \<noteq> []" "tr_To (r_Subject r) \<noteq> []"
    using parseVersion_Nil by (auto simp: validVersion_def)
  then show ?thesis
    using ruleOf_reads(1,3) [OF assms(1)] idRE_nonempty [OF validateRule_facts(1) [OF assms(2)]]
      componentRE_nonempty [OF validateRule_facts(4) [OF assms(2)]]
    by (simp add: entryIdentity_def)
qed

lemma ruleIdentities_wf:
  assumes "wfBundle b"
  obtains ids where "ruleIdentities b = Inr ids" "sorted (map (\<lambda>r. (ri_Project r, ri_RuleID r)) ids)"
    "mset (map ri_RuleID ids) = mset (map r_ID (packRules b))"
    "mset (map identityTransition ids) = mset (map ruleTransitionOfRule (packRules b))"
proof -
  let ?id = "\<lambda>(e, r). \<lparr>ri_Project = en_Project e, ri_Component = tr_Component (r_Subject r), ri_RuleID = r_ID r,
    ri_From = tr_From (r_Subject r), ri_To = tr_To (r_Subject r), ri_Range = r_Range r\<rparr>"
  let ?ids = "map ?id (zip (packEntries b) (packRules b))"
  note all2 = packRules_all2 [OF assms]
  have len: "length (packEntries b) = length (packRules b)" by (rule list_all2_lengthD [OF all2])
  have "\<forall>i<length (packRules b). entryIdentity (packEntries b ! i) = Inr (?id (packEntries b ! i, packRules b ! i))"
    using all2 entryIdentity_rule by (auto simp: list_all2_conv_all_nth)
  then have "collect entryIdentity (packEntries b) = Inr ?ids" using len by (auto simp: collect_iff list_eq_iff_nth_eq)
  then have ids: "ruleIdentities b = Inr (sort_key (\<lambda>r. (ri_Project r, ri_RuleID r)) ?ids)" by (simp add: ruleIdentities_def)
  have srt: "mset (map f (sort_key (\<lambda>r. (ri_Project r, ri_RuleID r)) xs)) = mset (map f xs)" for f :: "RuleIdentity \<Rightarrow> 'x" and xs
    by simp
  have m: "map ri_RuleID ?ids = map r_ID (packRules b)" "map identityTransition ?ids = map ruleTransitionOfRule (packRules b)"
    using len by (auto simp: list_eq_iff_nth_eq identityTransition_def ruleTransitionOfRule_def)
  show ?thesis by (rule that [OF ids sorted_sort_key]) (simp_all only: srt m)
qed

text \<open>The full listing partitions the entries of the pack by project.\<close>

lemma sum_by_key:
  assumes "distinct ks" and "\<forall>x\<in>set xs. f x \<in> set ks"
  shows "sum_list (map (\<lambda>k. length (filter (\<lambda>x. f x = k) xs)) ks) = length xs"
  using assms(2)
proof (induction xs)
  case (Cons x xs)
  have "distinct ks \<Longrightarrow> k \<in> set ks \<Longrightarrow> sum_list (map (\<lambda>k'. if k = k' then 1 else 0 :: nat) ks) = 1" for k
  proof (induction ks)
    case (Cons k' ks)
    then show ?case by (cases "k = k'") (auto simp: sum_list_eq_0_iff)
  qed simp
  moreover have "(\<lambda>k. length (filter (\<lambda>x. f x = k) (x # xs))) = (\<lambda>k. (if f x = k then 1 else 0) + length (filter (\<lambda>x. f x = k) xs))"
    by auto
  ultimately show ?case using Cons assms(1) by (simp only: sum_list_addf list.map_comp) simp
qed simp

lemma entry_project:
  assumes "wfBundle b" and "e \<in> set (packEntries b)"
  shows "en_Project e \<in> pi_Slug ` set (ld_Projects (bu_landscape b))"
  using assms by (force simp: wfBundle_def entryBelongs_def)

lemma catalogue_counts:
  assumes "wfBundle b" and "catalogue b False [] = Inr listing"
  shows "sum_list (map cp_SourceRuleCount (ca_Projects listing)) = length (packEntries b)"
    and "ca_SourceRuleCovered listing = length (filter (\<lambda>p. cp_GenericCoverage p = ''source_rule_preview'') (ca_Projects listing))"
    and "map cp_Slug (ca_Projects listing) = map pi_Slug (ld_Projects (bu_landscape b))"
proof -
  let ?slugs = "map pi_Slug (ld_Projects (bu_landscape b))"
  have l: "ca_Projects listing = map (catalogueProject b) (ld_Projects (bu_landscape b))"
    "ca_SourceRuleCovered listing = length (remdups (map en_Project (packEntries b)))"
    using assms(2) by (auto simp: catalogue_def)
  have d: "distinct ?slugs" using assms(1) by (auto simp: wfBundle_def intro: sorted_wrt_less_distinct)
  have mem: "\<forall>e\<in>set (packEntries b). en_Project e \<in> set ?slugs" using entry_project [OF assms(1)] by simp
  show "sum_list (map cp_SourceRuleCount (ca_Projects listing)) = length (packEntries b)"
    using sum_by_key [OF d mem] by (simp add: l catalogueProject_def Let_def comp_def)
  show "map cp_Slug (ca_Projects listing) = ?slugs" by (simp add: l catalogueProject_def Let_def)
  have "length (filter (\<lambda>p. cp_GenericCoverage p = ''source_rule_preview'') (ca_Projects listing)) =
      length (filter (\<lambda>k. \<exists>e\<in>set (packEntries b). en_Project e = k) ?slugs)"
    by (simp add: l catalogueProject_def Let_def filter_map comp_def filter_empty_conv)
  also have "\<dots> = card (set (filter (\<lambda>k. \<exists>e\<in>set (packEntries b). en_Project e = k) ?slugs))"
    using distinct_card [OF distinct_filter [OF d]] by metis
  also have "set (filter (\<lambda>k. \<exists>e\<in>set (packEntries b). en_Project e = k) ?slugs) = set (map en_Project (packEntries b))"
    using mem by (auto simp: image_iff) (metis imageE)+
  finally show "ca_SourceRuleCovered listing = length (filter (\<lambda>p. cp_GenericCoverage p = ''source_rule_preview'') (ca_Projects listing))"
    by (simp add: l(2) length_remdups_card_conv)
qed

lemma catalogue_priority:
  assumes "wfBundle b" and "catalogue b priorityOnly selected = Inr listing" and "p \<in> set (ca_Projects listing)"
  shows "cp_Priority p \<longleftrightarrow> cp_Slug p \<in> set (pd_Priority (bu_priority b))"
    and "cp_Checks p = filter (\<lambda>e. en_Project e = cp_Slug p) (packEntries b)" and "priorityOnly \<Longrightarrow> cp_Priority p"
    and "selected \<noteq> [] \<Longrightarrow> cp_Slug p = selected"
proof -
  have "sorted (pd_Priority (bu_priority b))" using assms(1) by (simp add: wfBundle_def strict_sorted_iff)
  then show "cp_Priority p \<longleftrightarrow> cp_Slug p \<in> set (pd_Priority (bu_priority b))"
    "cp_Checks p = filter (\<lambda>e. en_Project e = cp_Slug p) (packEntries b)" "priorityOnly \<Longrightarrow> cp_Priority p"
    "selected \<noteq> [] \<Longrightarrow> cp_Slug p = selected"
    using assms(2,3) by (auto simp: catalogue_def catalogueProject_def Let_def isPriority_def contains_sorted)
qed

end
