(* ===== verification/CncfExternal.thy ===== *)
theory CncfExternal
  imports CncfCorpus
begin

text \<open>
  \<open>cncfcheck/external.go\<close>: an operator-provided envelope around a rule pack, its admission against the
  compiled registry, policy and landscape, and the evaluation of its rules without a fallback to the
  embedded pack.

  \<open>strings.ToLower\<close>, which needs the Unicode tables, is the argument \<open>lower\<close> of the scanner. A value
  that holds raw messages is marshalled from the texts of its parts, and the empty text stands for a
  marshal error, which \<open>externalDigestJSON\<close> ignores.

  Shown here: an admitted envelope is a valid capability whose pack is in good form
  (\<open>admitPack_wf\<close>), its expiry is the earliest one of its rules (\<open>earliestExternalExpiry_least\<close>),
  and an evaluation is about rules of that pack only (\<open>externalRules_rules\<close>).
\<close>

section \<open>Constants and documents\<close>

definition externalBundleSchema :: string where
  "externalBundleSchema = ''prufyx.io/operator-cncf-knowledge/v1alpha1''"
definition externalSourceAuthority :: string where
  "externalSourceAuthority = ''DECLARED_RULE_SOURCE_REFERENCES''"
definition externalProfileName :: string where
  "externalProfileName = ''cncf''"
definition externalTargetPath :: string where
  "externalTargetPath = ''knowledge/constraints.v1.json''"
definition maxExternalBundleBytes :: nat where
  "maxExternalBundleBytes = 2 ^ 20"
definition maxExternalEntries :: nat where
  "maxExternalEntries = 512"
definition maxExternalFacts :: nat where
  "maxExternalFacts = 64"
definition maxExternalJSONDepth :: nat where
  "maxExternalJSONDepth = 32"
definition maxExternalObjectMembers :: nat where
  "maxExternalObjectMembers = 4096"
definition maxExternalArrayItems :: nat where
  "maxExternalArrayItems = 4096"
definition maxExternalStringBytes :: nat where
  "maxExternalStringBytes = 4096"

record externalBundleDocument =
  ed_Schema :: string
  ed_Revision :: string
  ed_Purpose :: string
  ed_EngineCapabilityDigest :: string
  ed_Pack :: string

record ExternalAdmission =
  ea_Revision :: string
  ea_Purpose :: string
  ea_EngineCapabilityDigest :: string
  ea_HasRule :: bool
  ea_RuleDigest :: string
  ea_EvidenceExpiresAt :: string

record ExternalBundle =
  eb_raw :: string
  eb_document :: externalBundleDocument
  eb_pack :: rulePack
  eb_registry :: Registry
  eb_bundleDigest :: string
  eb_documentDigest :: string
  eb_packDigest :: string
  eb_admission :: ExternalAdmission
  eb_admissionDigest :: string
  eb_seal :: bool

record ProfileRequirements =
  rq_Schema :: string
  rq_PackSchema :: string
  rq_EngineCapabilityDigest :: string
  rq_PolicyID :: string
  rq_PolicyDigest :: string
  rq_RegistryDigest :: string
  rq_LandscapeFileDigest :: string

record ExternalProfileContract =
  xc_Profile :: string
  xc_TargetPath :: string
  xc_Purpose :: string
  xc_Requirements :: ProfileRequirements
  xc_MaxBundleBytes :: nat
  xc_MaxEntries :: nat
  xc_MaxFactsPerEntry :: nat
  xc_ExplicitSelectionOnly :: bool
  xc_RequiresIndependentRoot :: bool

definition decExternalDocument :: "rawJson \<Rightarrow> externalBundleDocument option" where
  "decExternalDocument x =
     Option.bind (decStruct False [''schema'', ''revision'', ''purpose'', ''engineCapabilityDigest'', ''pack''] (rawTree x)) (\<lambda>ms.
     Option.bind (decField decString [] ms ''schema'') (\<lambda>s.
     Option.bind (decField decString [] ms ''revision'') (\<lambda>r.
     Option.bind (decField decString [] ms ''purpose'') (\<lambda>p.
     Option.bind (decField decString [] ms ''engineCapabilityDigest'') (\<lambda>d.
       Some \<lparr>ed_Schema = s, ed_Revision = r, ed_Purpose = p, ed_EngineCapabilityDigest = d, ed_Pack = rawField ''pack'' x\<rparr>)))))"

section \<open>Marshalled texts\<close>

definition documentText :: "externalBundleDocument \<Rightarrow> string option" where
  "documentText d =
     map_option (\<lambda>pack. objText [(''schema'', quote (ed_Schema d)), (''revision'', quote (ed_Revision d)),
         (''purpose'', quote (ed_Purpose d)), (''engineCapabilityDigest'', quote (ed_EngineCapabilityDigest d)), (''pack'', pack)])
       (rawMarshal (ed_Pack d))"

definition encFact :: "Fact \<Rightarrow> json" where
  "encFact f =
     JObj [(''side'', JStr (fa_Side f)), (''id'', JStr (fa_ID f)), (''component'', JStr (fa_Component f)),
           (''type'', JStr (fa_Type f)), (''enumTokens'', encNil JStr (fa_EnumTokens f)), (''description'', JStr (fa_Description f))]"

definition entryText :: "Entry \<Rightarrow> string option" where
  "entryText e =
     map_option (\<lambda>rule. objText [(''project'', quote (en_Project e)), (''description'', quote (en_Description e)),
         (''requiredFacts'', jsonPrint (encNil encFact (en_RequiredFacts e))), (''rule'', rule)])
       (rawMarshal (en_Rule e))"

definition entriesText :: "Entry list option \<Rightarrow> string option" where
  "entriesText entries =
     (case entries of None \<Rightarrow> Some ''null'' | Some es \<Rightarrow> map_option arrText (those (map entryText es)))"

definition packText :: "rulePack \<Rightarrow> string option" where
  "packText p =
     map_option (\<lambda>entries. objText [(''schema'', quote (pk_Schema p)), (''revision'', quote (pk_Revision p)),
         (''policyId'', quote (pk_PolicyID p)), (''policyDigest'', quote (pk_PolicyDigest p)),
         (''landscapeFileDigest'', quote (pk_LandscapeFileDigest p)), (''registryDigest'', quote (pk_RegistryDigest p)),
         (''entries'', entries)])
       (entriesText (pk_Entries p))"

definition encAdmission :: "ExternalAdmission \<Rightarrow> json" where
  "encAdmission a =
     JObj [(''Revision'', JStr (ea_Revision a)), (''Purpose'', JStr (ea_Purpose a)),
           (''EngineCapabilityDigest'', JStr (ea_EngineCapabilityDigest a)), (''HasRule'', JBool (ea_HasRule a)),
           (''RuleDigest'', JStr (ea_RuleDigest a)), (''EvidenceExpiresAt'', JStr (ea_EvidenceExpiresAt a))]"

definition externalDigestJSON :: "string option \<Rightarrow> string" where
  "externalDigestJSON text = cncfDigest (case text of None \<Rightarrow> [] | Some raw \<Rightarrow> raw)"

definition externalValid :: "ExternalBundle \<Rightarrow> bool" where
  "externalValid b =
     (eb_seal b \<and> cncfDigest (eb_raw b) = eb_bundleDigest b \<and>
      externalDigestJSON (documentText (eb_document b)) = eb_documentDigest b \<and>
      externalDigestJSON (packText (eb_pack b)) = eb_packDigest b \<and>
      externalDigestJSON (Some (jsonPrint (encAdmission (eb_admission b)))) = eb_admissionDigest b)"

definition Admission :: "ExternalBundle \<Rightarrow> ExternalAdmission cncfResult" where
  "Admission b = refuseIf (\<not> externalValid b) CncfIntegrity (Inr (eb_admission b))"

definition BundleDigest :: "ExternalBundle \<Rightarrow> string" where
  "BundleDigest b = (if \<not> externalValid b then [] else eb_bundleDigest b)"

section \<open>The scanner and the shape of an envelope\<close>

text \<open>As for the engine's gate, the walk over the token stream is a predicate on the tree.\<close>

fun consumeExternalJSON :: "(string \<Rightarrow> string) \<Rightarrow> nat \<Rightarrow> bool \<Rightarrow> json \<Rightarrow> bool" where
  "consumeExternalJSON lower depth allowNull JNull = (depth \<le> maxExternalJSONDepth \<and> allowNull)"
| "consumeExternalJSON lower depth allowNull (JStr s) = (depth \<le> maxExternalJSONDepth \<and> length s \<le> maxExternalStringBytes)"
| "consumeExternalJSON lower depth allowNull (JObj ms) =
     (depth \<le> maxExternalJSONDepth \<and> length ms \<le> maxExternalObjectMembers \<and>
      list_all (\<lambda>(name, _). name \<noteq> [] \<and> length name \<le> maxExternalStringBytes) ms \<and> distinct (map (lower \<circ> fst) ms) \<and>
      (\<forall>(name, v)\<in>set ms. consumeExternalJSON lower (depth + 1) (name = ''enumTokens'') v))"
| "consumeExternalJSON lower depth allowNull (JArr vs) =
     (depth \<le> maxExternalJSONDepth \<and> length vs \<le> maxExternalArrayItems \<and>
      (\<forall>v\<in>set vs. consumeExternalJSON lower (depth + 1) False v))"
| "consumeExternalJSON lower depth allowNull (JBool b) = (depth \<le> maxExternalJSONDepth)"
| "consumeExternalJSON lower depth allowNull (JNum l) = (depth \<le> maxExternalJSONDepth)"

definition scanExternalJSON :: "(string \<Rightarrow> string) \<Rightarrow> string \<Rightarrow> bool" where
  "scanExternalJSON lower raw =
     (raw \<noteq> [] \<and> length raw \<le> maxExternalBundleBytes \<and> utf8Valid raw \<and>
      (case jsonParse raw of None \<Rightarrow> False | Some v \<Rightarrow> consumeExternalJSON lower 0 False v))"

definition externalObject :: "json option \<Rightarrow> string list \<Rightarrow> (string \<times> json) list option" where
  "externalObject raw required =
     (case raw of
        Some (JObj object) \<Rightarrow>
          if (\<exists>key\<in>set required. case objGet object key of None \<Rightarrow> True | Some v \<Rightarrow> v = JNull \<and> key \<noteq> ''enumTokens'') then None
          else if (\<exists>(key, _)\<in>set object. (key \<notin> set required \<and> required \<noteq> []) \<or>
                     (objGet object key = Some JNull \<and> key \<noteq> ''enumTokens'')) then None
          else Some object
      | _ \<Rightarrow> None)"

definition externalArray :: "json option \<Rightarrow> json list option" where
  "externalArray raw = (case raw of Some (JArr vs) \<Rightarrow> Some vs | _ \<Rightarrow> None)"

definition externalEntryShape :: "json \<Rightarrow> bool" where
  "externalEntryShape raw =
     (case externalObject (Some raw) [''project'', ''description'', ''requiredFacts'', ''rule''] of
        None \<Rightarrow> False
      | Some entry \<Rightarrow>
          (case externalArray (objGet entry ''requiredFacts'') of
             None \<Rightarrow> False
           | Some facts \<Rightarrow>
               length facts \<le> maxExternalFacts \<and>
               list_all (\<lambda>f. externalObject (Some f) [''side'', ''id'', ''component'', ''type'', ''enumTokens'', ''description''] \<noteq> None) facts \<and>
               externalObject (objGet entry ''rule'') [] \<noteq> None))"

definition validateExternalEnvelopeShape :: "string \<Rightarrow> bool" where
  "validateExternalEnvelopeShape raw =
     (case externalObject (jsonParse raw) [''schema'', ''revision'', ''purpose'', ''engineCapabilityDigest'', ''pack''] of
        None \<Rightarrow> False
      | Some root \<Rightarrow>
          (case externalObject (objGet root ''pack'') [''schema'', ''revision'', ''policyId'', ''policyDigest'',
                  ''landscapeFileDigest'', ''registryDigest'', ''entries''] of
             None \<Rightarrow> False
           | Some pack \<Rightarrow>
               (case externalArray (objGet pack ''entries'') of
                  None \<Rightarrow> False
                | Some entries \<Rightarrow> length entries \<le> maxExternalEntries \<and> list_all externalEntryShape entries)))"

section \<open>Admission\<close>

text \<open>\<open>^[1-9][0-9]*$\<close>, then \<open>strconv.ParseUint(value, 10, 31)\<close>.\<close>

definition externalRevisionPattern :: "string \<Rightarrow> bool" where
  "externalRevisionPattern s =
     (case s of [] \<Rightarrow> False | c # cs \<Rightarrow> isDigit c \<and> c \<noteq> CHR ''0'' \<and> list_all isDigit cs)"

definition validExternalRevision :: "string \<Rightarrow> bool" where
  "validExternalRevision s =
     (if \<not> externalRevisionPattern s then False else decVal s < 2 ^ 31 \<and> 0 < decVal s)"

definition externalCapabilityDigest :: "cncfBundle \<Rightarrow> string" where
  "externalCapabilityDigest base =
     cncfDigest (jsonPrint (JObj
       [(''schema'', JStr externalBundleSchema), (''engineContractDigest'', JStr engineContractDigest),
        (''registryDigest'', JStr (reg_digest (bu_registry base))), (''policyId'', JStr (pk_PolicyID (bu_pack base))),
        (''policyDigest'', JStr (pk_PolicyDigest (bu_pack base))),
        (''landscapeRevision'', JStr (ld_Revision (bu_landscape base))),
        (''landscapeFileDigest'', JStr (ld_LandscapeFileDigest (bu_landscape base)))]))"

fun firstFailure :: "('a \<Rightarrow> cncfError option) \<Rightarrow> 'a list \<Rightarrow> cncfError option" where
  "firstFailure f [] = None"
| "firstFailure f (x # xs) = (case f x of Some e \<Rightarrow> Some e | None \<Rightarrow> firstFailure f xs)"

definition validateExternalPack :: "cncfBundle \<Rightarrow> rulePack \<Rightarrow> string \<Rightarrow> cncfError option" where
  "validateExternalPack base pack revision =
     (if \<not> validPackSchema pack \<or> pk_Revision pack \<noteq> revision \<or> pk_PolicyID pack \<noteq> pk_PolicyID (bu_pack base) \<or>
         pk_PolicyDigest pack \<noteq> pk_PolicyDigest (bu_pack base) \<or>
         pk_LandscapeFileDigest pack \<noteq> ld_LandscapeFileDigest (bu_landscape base) \<or>
         pk_RegistryDigest pack \<noteq> reg_digest (bu_registry base) \<or> maxExternalEntries < length (goSlice (pk_Entries pack))
      then Some CncfIntegrity
      else firstFailure (checkEntry CncfInvalid (bu_landscape base)) (goSlice (pk_Entries pack)))"

definition decValidUntil :: "json \<Rightarrow> string option" where
  "decValidUntil v =
     Option.bind (decStruct False [''evidence''] v) (\<lambda>ms.
     decField (\<lambda>e. Option.bind (decStruct False [''validUntil''] e) (\<lambda>es. decField decString [] es ''validUntil'')) [] ms ''evidence'')"

definition entryExpiry :: "Entry \<Rightarrow> goTime cncfResult" where
  "entryExpiry e =
     (case unmarshal decValidUntil (en_Rule e) of
        None \<Rightarrow> Inl CncfIntegrity
      | Some text \<Rightarrow>
          (case parseRFC3339 text of
             None \<Rightarrow> Inl CncfIntegrity
           | Some t \<Rightarrow> if \<not> t_utc t \<or> formatRFC3339 t \<noteq> text then Inl CncfIntegrity else Inr t))"

fun earliestLoop :: "goTime \<Rightarrow> Entry list \<Rightarrow> goTime cncfResult" where
  "earliestLoop earliest [] = Inr earliest"
| "earliestLoop earliest (e # es) =
     thenDo (entryExpiry e) (\<lambda>t. earliestLoop (if timeIsZero earliest \<or> timeBefore t earliest then t else earliest) es)"

definition earliestExternalExpiry :: "Entry list \<Rightarrow> string cncfResult" where
  "earliestExternalExpiry entries =
     thenDo (earliestLoop zeroTime entries) (\<lambda>earliest.
       refuseIf (timeIsZero earliest) CncfIntegrity (Inr (formatRFC3339 earliest)))"

definition candidateBundle :: "cncfBundle \<Rightarrow> rulePack \<Rightarrow> Registry \<Rightarrow> string \<Rightarrow> cncfBundle" where
  "candidateBundle base pack registry packDigest =
     \<lparr>bu_landscape = bu_landscape base, bu_priority = bu_priority base, bu_pack = pack, bu_registry = registry,
      bu_packDigest = packDigest, bu_catalogueDigest = bu_catalogueDigest base\<rparr>"

definition admissionOf :: "externalBundleDocument \<Rightarrow> rulePack \<Rightarrow> RuleSet \<Rightarrow> ExternalAdmission cncfResult" where
  "admissionOf document pack rules =
     (let entries = goSlice (pk_Entries pack);
          admission = \<lparr>ea_Revision = ed_Revision document, ea_Purpose = ed_Purpose document,
                       ea_EngineCapabilityDigest = ed_EngineCapabilityDigest document, ea_HasRule = 0 < length entries,
                       ea_RuleDigest = [], ea_EvidenceExpiresAt = []\<rparr>
      in if ea_HasRule admission then
           thenDo (orFail CncfIntegrity (engineCall (ruleSetDigest rules))) (\<lambda>digest.
           thenDo (orFail CncfIntegrity (earliestExternalExpiry entries)) (\<lambda>expiry.
             Inr (admission\<lparr>ea_RuleDigest := digest, ea_EvidenceExpiresAt := expiry\<rparr>)))
         else Inr admission)"

definition issueExternal :: "string \<Rightarrow> externalBundleDocument \<Rightarrow> rulePack \<Rightarrow> Registry \<Rightarrow> ExternalAdmission \<Rightarrow> ExternalBundle" where
  "issueExternal raw document pack registry admission =
     \<lparr>eb_raw = raw, eb_document = document, eb_pack = pack, eb_registry = registry, eb_bundleDigest = cncfDigest raw,
      eb_documentDigest = externalDigestJSON (documentText document), eb_packDigest = externalDigestJSON (packText pack),
      eb_admission = admission, eb_admissionDigest = externalDigestJSON (Some (jsonPrint (encAdmission admission))), eb_seal = True\<rparr>"

definition admitPack :: "cncfBundle \<Rightarrow> string \<Rightarrow> externalBundleDocument \<Rightarrow> rulePack \<Rightarrow> ExternalBundle cncfResult" where
  "admitPack base raw document pack =
     (case validateExternalPack base pack (ed_Revision document) of
        Some e \<Rightarrow> Inl e
      | None \<Rightarrow>
          thenDo (orFail CncfIntegrity (packRuleSet (candidateBundle base pack (bu_registry base) (cncfDigest raw)) [])) (\<lambda>rules.
          thenDo (admissionOf document pack rules) (\<lambda>admission.
            Inr (issueExternal raw document pack (bu_registry base) admission))))"

definition ParseExternalBundle :: "(string \<Rightarrow> string) \<Rightarrow> packagedFiles \<Rightarrow> string \<Rightarrow> ExternalBundle cncfResult" where
  "ParseExternalBundle lower files raw =
     refuseIf (\<not> scanExternalJSON lower raw \<or> \<not> validateExternalEnvelopeShape raw) CncfInvalid
       (case Option.bind (rawParse raw) decExternalDocument of
          None \<Rightarrow> Inl CncfInvalid
        | Some document \<Rightarrow>
            refuseIf (ed_Schema document \<noteq> externalBundleSchema \<or> \<not> validExternalRevision (ed_Revision document) \<or>
                      (ed_Purpose document \<noteq> ''operator_provided'' \<and> ed_Purpose document \<noteq> ''synthetic_test_only'')) CncfInvalid
            (thenDo (load files) (\<lambda>base.
             refuseIf (ed_EngineCapabilityDigest document \<noteq> externalCapabilityDigest base) CncfIntegrity
               (case Option.bind (rawParse (ed_Pack document)) (decRulePack False) of
                  None \<Rightarrow> Inl CncfInvalid
                | Some pack \<Rightarrow> admitPack base raw document pack))))"

section \<open>Profile and export\<close>

definition ExternalCapabilityDigest :: "packagedFiles \<Rightarrow> string cncfResult" where
  "ExternalCapabilityDigest files = thenDo (load files) (\<lambda>base. Inr (externalCapabilityDigest base))"

definition profileRequirements :: "cncfBundle \<Rightarrow> ProfileRequirements" where
  "profileRequirements base =
     \<lparr>rq_Schema = externalBundleSchema, rq_PackSchema = packSchema, rq_EngineCapabilityDigest = externalCapabilityDigest base,
      rq_PolicyID = pk_PolicyID (bu_pack base), rq_PolicyDigest = pk_PolicyDigest (bu_pack base),
      rq_RegistryDigest = reg_digest (bu_registry base), rq_LandscapeFileDigest = ld_LandscapeFileDigest (bu_landscape base)\<rparr>"

definition ExternalProfileRequirements :: "packagedFiles \<Rightarrow> ProfileRequirements cncfResult" where
  "ExternalProfileRequirements files = thenDo (load files) (\<lambda>base. Inr (profileRequirements base))"

definition ExternalProfileContractForCNCF :: "packagedFiles \<Rightarrow> ExternalProfileContract cncfResult" where
  "ExternalProfileContractForCNCF files =
     thenDo (ExternalProfileRequirements files) (\<lambda>requirements. Inr
       \<lparr>xc_Profile = externalProfileName, xc_TargetPath = externalTargetPath, xc_Purpose = ''operator_provided'',
        xc_Requirements = requirements, xc_MaxBundleBytes = maxExternalBundleBytes, xc_MaxEntries = maxExternalEntries,
        xc_MaxFactsPerEntry = maxExternalFacts, xc_ExplicitSelectionOnly = True, xc_RequiresIndependentRoot = True\<rparr>)"

definition exportText :: "cncfBundle \<Rightarrow> string \<Rightarrow> string option" where
  "exportText base revision =
     map_option (\<lambda>pack. objText [(''schema'', quote externalBundleSchema), (''revision'', quote revision),
         (''purpose'', quote ''operator_provided''), (''engineCapabilityDigest'', quote (externalCapabilityDigest base)), (''pack'', pack)])
       (packText ((bu_pack base)\<lparr>pk_Revision := revision\<rparr>))"

definition ExportEmbeddedExternalBundle :: "(string \<Rightarrow> string) \<Rightarrow> packagedFiles \<Rightarrow> string \<Rightarrow> string cncfResult" where
  "ExportEmbeddedExternalBundle lower files revision =
     refuseIf (\<not> validExternalRevision revision) CncfInvalid
       (thenDo (load files) (\<lambda>base.
          (case exportText base revision of
             None \<Rightarrow> Inl CncfIntegrity
           | Some raw \<Rightarrow> thenDo (ParseExternalBundle lower files raw) (\<lambda>_. Inr raw))))"

section \<open>Evaluation\<close>

definition nextExternalUnavailable :: string where
  "nextExternalUnavailable = ''the selected external revision has no exact rule for this native-input capability; retain UNKNOWN with no embedded fallback''"
definition nextExternalNoRules :: string where
  "nextExternalNoRules = ''no rules are packaged for this project; retain UNKNOWN and request reviewed coverage''"

definition externalReport :: "ExternalBundle \<Rightarrow> cncfBundle \<Rightarrow> string \<Rightarrow> string \<Rightarrow> string \<Rightarrow> Report \<Rightarrow> cncfReport" where
  "externalReport eb base project ruleID inputRaw result = sealReport
     \<lparr>cr_Schema = ''prufyx.io/cncf-source-check/v1alpha1'', cr_Project = project, cr_Assessment = ''UNKNOWN'',
      cr_KnowledgeOrigin = ''external_declared'', cr_KnowledgeRevision = ed_Revision (eb_document eb),
      cr_KnowledgePackDigest = eb_bundleDigest eb, cr_CatalogueDigest = bu_catalogueDigest base,
      cr_InputFileDigest = cncfDigest inputRaw, cr_RequestedRuleID = ruleID,
      cr_SelectedRuleID = (if soleClaim ruleID result then ruleID else []), cr_SourceAuthority = externalSourceAuthority,
      cr_RuntimeReproduced = 0, cr_NetworkUsed = False,
      cr_NextAction =
        (if rp_Claims result = [] then (if ruleID \<noteq> [] then nextExternalUnavailable else nextExternalNoRules)
         else if soleClaim ruleID result then nextReviewSelected else nextReviewClaims),
      cr_Check = result, cr_seal = False, cr_digest = []\<rparr>"

definition selectedBundle :: "ExternalBundle \<Rightarrow> cncfBundle \<Rightarrow> cncfBundle" where
  "selectedBundle eb base = candidateBundle base (eb_pack eb) (eb_registry eb) (eb_bundleDigest eb)"

definition externalOwned :: "cncfBundle \<Rightarrow> string \<Rightarrow> string \<Rightarrow> unit cncfResult" where
  "externalOwned base project ruleID =
     (if ruleID = [] then Inr ()
      else thenDo (orFail CncfIntegrity (ownsRuleID base project ruleID)) (\<lambda>owned. refuseIf (\<not> owned) CncfInvalid (Inr ())))"

definition externalRules :: "cncfBundle \<Rightarrow> string \<Rightarrow> string \<Rightarrow> string \<Rightarrow> RuleSet cncfResult" where
  "externalRules selected project ruleID inputRaw =
     orFail CncfIntegrity (if ruleID \<noteq> [] then selectedRuleSet selected project ruleID
                           else rulesForAdmittedInput selected project inputRaw)"

definition evaluateOn :: "ExternalBundle \<Rightarrow> cncfBundle \<Rightarrow> string \<Rightarrow> string \<Rightarrow> string \<Rightarrow> goTime \<Rightarrow> cncfReport cncfResult" where
  "evaluateOn eb base project ruleID inputRaw now =
     refuseIf (\<not> hasProject base project) CncfInvalid
       (thenDo (externalOwned base project ruleID) (\<lambda>_.
        thenDo (orFail CncfInvalid (engineCall (ParseInput inputRaw (eb_registry eb)))) (\<lambda>input.
        thenDo (externalRules (selectedBundle eb base) project ruleID inputRaw) (\<lambda>rules.
        thenDo (orFail CncfInvalid (engineCall (Evaluate input rules now))) (\<lambda>result.
        thenDo (orFail CncfIntegrity (engineCall (MarshalReport result))) (\<lambda>_.
          Inr (externalReport eb base project ruleID inputRaw result)))))))"

definition externalEvaluate :: "packagedFiles \<Rightarrow> ExternalBundle \<Rightarrow> string \<Rightarrow> string \<Rightarrow> string \<Rightarrow> goTime \<Rightarrow> cncfReport cncfResult" where
  "externalEvaluate files eb project ruleID inputRaw now =
     refuseIf (\<not> externalValid eb) CncfIntegrity
       (thenDo (load files) (\<lambda>base. evaluateOn eb base project ruleID inputRaw now))"

definition EvaluateExternal :: "packagedFiles \<Rightarrow> ExternalBundle \<Rightarrow> string \<Rightarrow> string \<Rightarrow> goTime \<Rightarrow> cncfReport cncfResult" where
  "EvaluateExternal files eb project inputRaw now = externalEvaluate files eb project [] inputRaw now"

definition EvaluateRule :: "packagedFiles \<Rightarrow> ExternalBundle \<Rightarrow> string \<Rightarrow> string \<Rightarrow> string \<Rightarrow> goTime \<Rightarrow> cncfReport cncfResult" where
  "EvaluateRule files eb project ruleID inputRaw now =
     refuseIf (ruleID = []) CncfInvalid (externalEvaluate files eb project ruleID inputRaw now)"

section \<open>What admission guarantees\<close>

lemma validExternalRevision_iff: "validExternalRevision s \<longleftrightarrow> (\<exists>n. 0 < n \<and> n < 2 ^ 31 \<and> s = decShow n)"
proof
  assume v: "validExternalRevision s"
  then have c: "canonicalNumeral s" by (auto simp: validExternalRevision_def externalRevisionPattern_def canonicalNumeral_def split: list.splits if_splits)
  from v show "\<exists>n. 0 < n \<and> n < 2 ^ 31 \<and> s = decShow n"
    using decShow_decVal [OF c] by (intro exI [of _ "decVal s"]) (simp add: validExternalRevision_def split: if_splits)
next
  assume "\<exists>n. 0 < n \<and> n < 2 ^ 31 \<and> s = decShow n"
  then obtain n where n: "0 < n" "n < 2 ^ 31" "s = decShow n" by blast
  then have "canonicalNumeral s" "s \<noteq> ''0''" using decVal_decShow [of n] by (auto simp: decVal_def digitVal_def)
  then have "externalRevisionPattern s" using n
    by (auto simp: externalRevisionPattern_def canonicalNumeral_def decVal_def digitVal_def split: list.splits)
  with n show "validExternalRevision s" by (simp add: validExternalRevision_def)
qed

lemma firstFailure_None [simp]: "firstFailure f xs = None \<longleftrightarrow> (\<forall>x\<in>set xs. f x = None)"
  by (induction xs) (auto split: option.splits)

lemma issueExternal_valid: "externalValid (issueExternal raw document pack registry admission)"
  by (simp add: externalValid_def issueExternal_def)

lemma admitPack_form:
  "admitPack base raw document pack = Inr eb \<longleftrightarrow>
     validateExternalPack base pack (ed_Revision document) = None \<and>
     (\<exists>rules admission. packRuleSet (candidateBundle base pack (bu_registry base) (cncfDigest raw)) [] = Inr rules \<and>
        admissionOf document pack rules = Inr admission \<and> eb = issueExternal raw document pack (bu_registry base) admission)"
  by (auto simp: admitPack_def split: option.splits)

lemma admitPack_wf:
  assumes "wfBundle base" and "admitPack base raw document pack = Inr eb"
  shows "externalValid eb" and "wfBundle (selectedBundle eb base)" and "eb_registry eb = bu_registry base"
    and "eb_pack eb = pack" and "length (goSlice (pk_Entries pack)) \<le> maxExternalEntries"
proof -
  obtain rules admission where p: "validateExternalPack base pack (ed_Revision document) = None"
    "packRuleSet (candidateBundle base pack (bu_registry base) (cncfDigest raw)) [] = Inr rules"
    "eb = issueExternal raw document pack (bu_registry base) admission"
    using assms(2) unfolding admitPack_form by blast
  have sel: "selectedBundle eb base = candidateBundle base pack (bu_registry base) (cncfDigest raw)"
    by (simp add: p(3) selectedBundle_def issueExternal_def)
  have e: "\<forall>e\<in>set (goSlice (pk_Entries pack)). entryBelongs (bu_landscape base) e"
    using p(1) checkEntry_belongs [of CncfInvalid] by (auto simp: validateExternalPack_def split: if_splits)
  show "externalValid eb" by (simp add: p(3) issueExternal_valid)
  show "wfBundle (selectedBundle eb base)" using assms(1) p(2) e by (auto simp: sel wfBundle_def candidateBundle_def)
  show "eb_registry eb = bu_registry base" "eb_pack eb = pack" by (simp_all add: p(3) issueExternal_def)
  show "length (goSlice (pk_Entries pack)) \<le> maxExternalEntries"
    using p(1) by (simp add: validateExternalPack_def split: if_splits)
qed

lemma ParseExternalBundle_form:
  assumes "ParseExternalBundle lower files raw = Inr eb"
  obtains base pack where "load files = Inr base" "admitPack base raw (eb_document eb) pack = Inr eb"
    "validExternalRevision (ed_Revision (eb_document eb))"
    "ed_EngineCapabilityDigest (eb_document eb) = externalCapabilityDigest base"
proof -
  obtain document base pack where d: "load files = Inr base" "admitPack base raw document pack = Inr eb"
    "validExternalRevision (ed_Revision document)" "ed_EngineCapabilityDigest document = externalCapabilityDigest base"
    using assms by (auto simp: ParseExternalBundle_def split: option.splits)
  moreover from d(2) have "eb_document eb = document" by (auto simp: admitPack_form issueExternal_def)
  ultimately show ?thesis using that by blast
qed

section \<open>The earliest expiry\<close>

lemma timeBefore_trichotomy: "\<not> timeBefore a b \<Longrightarrow> \<not> timeBefore b c \<Longrightarrow> \<not> timeBefore a c"
  by (auto simp: timeBefore_def)

lemma earliestLoop_least:
  assumes "earliestLoop earliest es = Inr t" and "\<forall>e\<in>set es. \<forall>x. entryExpiry e = Inr x \<longrightarrow> \<not> timeIsZero x"
  shows "(t = earliest \<or> (\<exists>e\<in>set es. entryExpiry e = Inr t)) \<and> (\<not> timeIsZero earliest \<longrightarrow> \<not> timeBefore earliest t) \<and>
    (\<forall>e\<in>set es. \<exists>x. entryExpiry e = Inr x \<and> \<not> timeBefore x t) \<and> (es \<noteq> [] \<or> \<not> timeIsZero earliest \<longrightarrow> \<not> timeIsZero t)"
  using assms
proof (induction es arbitrary: earliest)
  case (Cons e es)
  obtain x where x: "entryExpiry e = Inr x" using Cons.prems(1) by auto
  let ?next = "if timeIsZero earliest \<or> timeBefore x earliest then x else earliest"
  have nz: "\<not> timeIsZero x" "\<not> timeIsZero ?next" using x Cons.prems(2) by auto
  have IH: "(t = ?next \<or> (\<exists>e\<in>set es. entryExpiry e = Inr t)) \<and> \<not> timeBefore ?next t \<and>
    (\<forall>e\<in>set es. \<exists>x. entryExpiry e = Inr x \<and> \<not> timeBefore x t) \<and> \<not> timeIsZero t"
    using Cons.IH [of ?next] Cons.prems x nz by auto
  have "\<not> timeBefore x ?next" "\<not> timeIsZero earliest \<Longrightarrow> \<not> timeBefore earliest ?next"
    using timeBefore_asym [of x earliest] by auto
  then have "\<not> timeBefore x t" "\<not> timeIsZero earliest \<Longrightarrow> \<not> timeBefore earliest t"
    using IH timeBefore_trichotomy by blast+
  moreover have "t = earliest \<or> (\<exists>e\<in>set (e # es). entryExpiry e = Inr t)" using IH x by (cases "timeIsZero earliest \<or> timeBefore x earliest") auto
  ultimately show ?case using IH x by simp
qed simp

lemma earliestExternalExpiry_least:
  assumes "earliestExternalExpiry entries = Inr expiry"
    and "\<forall>e\<in>set entries. \<forall>x. entryExpiry e = Inr x \<longrightarrow> \<not> timeIsZero x"
  shows "\<exists>t. expiry = formatRFC3339 t \<and> (\<exists>e\<in>set entries. entryExpiry e = Inr t) \<and>
    (\<forall>e\<in>set entries. \<exists>x. entryExpiry e = Inr x \<and> \<not> timeBefore x t)"
proof -
  obtain t where t: "earliestLoop zeroTime entries = Inr t" "\<not> timeIsZero t" "expiry = formatRFC3339 t"
    using assms(1) by (auto simp: earliestExternalExpiry_def)
  have "timeIsZero zeroTime" by code_simp
  then show ?thesis using earliestLoop_least [OF t(1) assms(2)] t(2,3) by auto
qed

section \<open>What an evaluation is about\<close>

lemma evaluateOn_form:
  "evaluateOn eb base project ruleID inputRaw now = Inr report \<longleftrightarrow>
     hasProject base project \<and> externalOwned base project ruleID = Inr () \<and>
     (\<exists>input rules result raw. ParseInput inputRaw (eb_registry eb) = Inr input \<and>
        externalRules (selectedBundle eb base) project ruleID inputRaw = Inr rules \<and>
        Evaluate input rules now = Inr result \<and> MarshalReport result = Inr raw \<and>
        report = externalReport eb base project ruleID inputRaw result)"
  by (auto simp: evaluateOn_def)

lemma externalReport_published:
  "MarshalReport result = Inr raw \<Longrightarrow> MarshalCheckReport (externalReport eb base project ruleID inputRaw result) =
     Inr (reportBytes (externalReport eb base project ruleID inputRaw result))"
  unfolding externalReport_def by (simp add: MarshalCheckReport_def sealReport_bytes) (simp add: sealReport_def)

lemma externalRules_rules:
  assumes "wfBundle selected" and "ParseInput inputRaw (bu_registry selected) = Inr input" and "project \<noteq> []"
    and "externalRules selected project ruleID inputRaw = Inr rules"
  shows "rd_Rules (rs_document rules) =
    (if ruleID \<noteq> [] then projectRules selected project (\<lambda>r. r_ID r = ruleID)
     else let matching = projectRules selected project (subjectMatches (in_document input))
          in if matching = [] then projectRules selected project (\<lambda>_. True) else matching)"
proof (cases "ruleID = []")
  case True
  then have "rulesFor selected project [] inputRaw = Inr rules" using assms(4) by (simp add: externalRules_def rulesFor_def)
  from rulesFor_admitted [OF assms(1,2) this assms(3)] True show ?thesis by simp
next
  case False
  then have "selectedRuleSet selected project ruleID = Inr rules" using assms(4) by (simp add: externalRules_def)
  from selectedRuleSet_rules [OF assms(1) this] False show ?thesis by simp
qed

end
