(* ===== verification/Samples.thy ===== *)
theory Samples
  imports Reporting "HOL-Library.Code_Target_Numeral"
begin

text \<open>
  A concrete deployment used to show that the hypotheses of the properties can be met: a registry
  with a boolean and an enum fact, an input that declares two components and their complete scope,
  and a rule document whose corpus attests both. The digests stay symbolic; everything else is
  evaluated.
\<close>

definition sampleBool :: FactDefinition where
  "sampleBool = \<lparr>fd_ID = ''component.istio.legacy'', fd_Component = ''pkg:github/istio/istio'', fd_Type = FactBool, fd_EnumTokens = []\<rparr>"

definition sampleEnum :: FactDefinition where
  "sampleEnum = \<lparr>fd_ID = ''component.nats.store'', fd_Component = ''pkg:github/nats-io/nats-server'', fd_Type = FactEnum,
                 fd_EnumTokens = [''file'', ''memory'']\<rparr>"

definition sampleDefinitions :: "FactDefinition list" where
  "sampleDefinitions = [sampleBool, sampleEnum]"

definition sampleEntries :: "(string \<times> FactDefinition) list" where
  "sampleEntries = [(''component.nats.store'', sampleEnum), (''component.istio.legacy'', sampleBool)]"

definition sampleRegistry :: Registry where
  "sampleRegistry = \<lparr>reg_definitions = sampleEntries, reg_digest = registryDigest sampleEntries\<rparr>"

lemma sampleRegistry_new: "newRegistry sampleDefinitions maxFacts = Inr sampleRegistry"
proof -
  have "admitAll [] sampleDefinitions = Inr sampleEntries" "\<not> maxFacts < length sampleDefinitions" by code_simp+
  then show ?thesis by (simp add: newRegistry_def EmptyRegistry_def sampleRegistry_def)
qed

text \<open>The input, once with the legacy mode on (a violation) and once with it off.\<close>

definition sampleInputDoc :: "bool \<Rightarrow> inputDocument" where
  "sampleInputDoc legacy =
     \<lparr>id_Schema = InputSchema, id_Authority = InputAuthority,
      id_Current = \<lparr>is_Components =
        [\<lparr>ic_Component = ''pkg:github/istio/istio'', ic_Version = ''1.20.3'',
          ic_Facts = [\<lparr>if_ID = ''component.istio.legacy'', if_State = ''declared'', if_BoolValue = Some legacy, if_EnumValue = []\<rparr>]\<rparr>,
         \<lparr>ic_Component = ''pkg:github/nats-io/nats-server'', ic_Version = ''2.9.0'', ic_Facts = []\<rparr>]\<rparr>,
      id_Proposed = \<lparr>is_Components =
        [\<lparr>ic_Component = ''pkg:github/istio/istio'', ic_Version = ''1.21.0'', ic_Facts = []\<rparr>,
         \<lparr>ic_Component = ''pkg:github/nats-io/nats-server'', ic_Version = ''2.10.0'',
          ic_Facts = [\<lparr>if_ID = ''component.nats.store'', if_State = ''declared'', if_BoolValue = None, if_EnumValue = ''file''\<rparr>]\<rparr>]\<rparr>,
      id_Scope = Some \<lparr>isc_Declaration = ScopeDeclaration, isc_Components = [''pkg:github/istio/istio'', ''pkg:github/nats-io/nats-server'']\<rparr>\<rparr>"

definition sampleInputText :: "bool \<Rightarrow> string" where
  "sampleInputText legacy = jsonPrint (encInputDocument (sampleInputDoc legacy))"

definition sampleInput :: "bool \<Rightarrow> Input" where
  "sampleInput legacy =
     \<lparr>in_document = sampleInputDoc legacy, in_digest = digestJSON (encInputDocument (sampleInputDoc legacy)),
      in_registryDigest = registryDigest sampleEntries, in_seal = True\<rparr>"

lemma sampleInput_tree:
  "\<forall>b. plainJson (encInputDocument (sampleInputDoc b))"
  "\<forall>b. consumeJSON 0 (encInputDocument (sampleInputDoc b))"
  "\<forall>b. inputShape (Some (encInputDocument (sampleInputDoc b)))"
  "\<forall>b. decInputDocument (encInputDocument (sampleInputDoc b)) = Some (sampleInputDoc b)"
  "\<forall>b. length (jsonPrint (encInputDocument (sampleInputDoc b))) \<le> maxInputBytes"
  by code_simp+

lemma sampleInput_gates:
  "gateJSON (sampleInputText b) maxInputBytes = None" "validateInputShape (sampleInputText b) = None"
  "decodeStrict decInputDocument (sampleInputText b) = Inr (sampleInputDoc b)"
  by (simp_all add: sampleInputText_def gateJSON_print validateInputShape_def decodeStrict_def jsonParse_jsonPrint sampleInput_tree)

lemma sampleInput_sides:
  "validateSide (id_Current (sampleInputDoc b)) \<lparr>reg_definitions = sampleEntries, reg_digest = d\<rparr> = None"
  "validateSide (id_Proposed (sampleInputDoc b)) \<lparr>reg_definitions = sampleEntries, reg_digest = d\<rparr> = None"
  "validateScope (sampleInputDoc b) = None"
  by code_simp+

lemma sampleInput_parsed: "ParseInput (sampleInputText b) sampleRegistry = Inr (sampleInput b)"
proof -
  have "id_Schema (sampleInputDoc b) = InputSchema" "id_Authority (sampleInputDoc b) = InputAuthority"
    by (simp_all add: sampleInputDoc_def)
  then have "ParseInput (sampleInputText b) sampleRegistry =
      Inr \<lparr>in_document = sampleInputDoc b, in_digest = digestJSON (encInputDocument (sampleInputDoc b)),
           in_registryDigest = reg_digest sampleRegistry, in_seal = True\<rparr>"
    by (intro ParseInput_accepts) (simp_all add: sampleInput_gates sampleInput_sides sampleRegistry_def)
  then show ?thesis by (simp add: sampleInput_def sampleRegistry_def)
qed

definition sampleEvidence :: evidence where
  "sampleEvidence =
     \<lparr>ev_State = ''active'', ev_ReviewedAt = ''2025-05-01T00:00:00Z'', ev_ValidUntil = ''2025-07-15T00:00:00Z'',
      ev_Sources = [\<lparr>se_ID = ''release-notes'',
        se_URL = ''https://github.com/istio/istio/blob/0123456789abcdef0123456789abcdef01234567/README.md'',
        se_Revision = ''0123456789abcdef0123456789abcdef01234567'',
        se_ContentDigest = ''sha256:abababababababababababababababababababababababababababababababab'',
        se_StartLine = 3, se_EndLine = 7\<rparr>]\<rparr>"

text \<open>A predicate, a dependency with an applicability condition, and a dependency over a range.\<close>

definition samplePredicate :: rule where
  "samplePredicate =
     \<lparr>r_ID = ''istio-legacy'', r_Operator = ''forbid_predicate_value'',
      r_Subject = \<lparr>tr_Component = ''pkg:github/istio/istio'', tr_From = ''1.20.3'', tr_To = ''1.21.0''\<rparr>, r_Range = None,
      r_Condition = Some \<lparr>fc_Side = ''current'', fc_Component = ''pkg:github/istio/istio'', fc_FactID = ''component.istio.legacy'',
                          fc_BoolValue = Some True, fc_EnumValue = []\<rparr>,
      r_AppliesWhen = [], r_Dependency = None, r_Intermediate = [], r_Evidence = sampleEvidence,
      r_ReasonCode = ''LEGACY_MODE_REMOVED'', r_NextAction = ''turn-legacy-mode-off''\<rparr>"

definition sampleDependency :: rule where
  "sampleDependency =
     \<lparr>r_ID = ''nats-mesh'', r_Operator = ''require_component_version'',
      r_Subject = \<lparr>tr_Component = ''pkg:github/nats-io/nats-server'', tr_From = ''2.9.0'', tr_To = ''2.10.0''\<rparr>, r_Range = None, r_Condition = None,
      r_AppliesWhen = [\<lparr>fc_Side = ''proposed'', fc_Component = ''pkg:github/nats-io/nats-server'', fc_FactID = ''component.nats.store'',
                         fc_BoolValue = None, fc_EnumValue = ''file''\<rparr>],
      r_Dependency = Some \<lparr>cc_Side = ''proposed'', cc_Component = ''pkg:github/istio/istio'', cc_Comparison = ''gte'', cc_Version = ''1.21.0''\<rparr>,
      r_Intermediate = [], r_Evidence = sampleEvidence, r_ReasonCode = ''MESH_TOO_OLD'', r_NextAction = ''upgrade-the-mesh-first''\<rparr>"

definition sampleRange :: VersionRange where
  "sampleRange =
     \<lparr>vr_From = \<lparr>vb_Gte = ''2.9.0'', vb_Lt = ''2.10.0''\<rparr>, vr_To = \<lparr>vb_Gte = ''2.10.0'', vb_Lt = ''2.11.0''\<rparr>,
      vr_Bounds = [\<lparr>rb_Bound = boundFromGte, rb_Basis = BasisPreviousMinorLine, rb_SourceID = ''release-notes''\<rparr>,
                   \<lparr>rb_Bound = boundFromLt, rb_Basis = BasisChangedInRelease, rb_SourceID = ''release-notes''\<rparr>,
                   \<lparr>rb_Bound = boundToGte, rb_Basis = BasisChangedInRelease, rb_SourceID = ''release-notes''\<rparr>,
                   \<lparr>rb_Bound = boundToLt, rb_Basis = BasisReviewedThroughMinorLine, rb_SourceID = ''release-notes''\<rparr>]\<rparr>"

definition sampleRanged :: rule where
  "sampleRanged =
     \<lparr>r_ID = ''nats-range'', r_Operator = ''require_component_version'',
      r_Subject = \<lparr>tr_Component = ''pkg:github/nats-io/nats-server'', tr_From = ''2.9.5'', tr_To = ''2.10.1''\<rparr>, r_Range = Some sampleRange,
      r_Condition = None, r_AppliesWhen = [],
      r_Dependency = Some \<lparr>cc_Side = ''current'', cc_Component = ''pkg:github/istio/istio'', cc_Comparison = ''lt'', cc_Version = ''2.0.0''\<rparr>,
      r_Intermediate = [], r_Evidence = sampleEvidence, r_ReasonCode = ''MESH_TOO_NEW'', r_NextAction = ''keep-the-mesh-on-1.x''\<rparr>"

definition sampleRulesDoc :: ruleDocument where
  "sampleRulesDoc =
     \<lparr>rd_Schema = RulesSchemaRanged, rd_Revision = ''rev-1'', rd_PolicyID = ''policy'',
      rd_PolicyDigest = ''sha256:abababababababababababababababababababababababababababababababab'',
      rd_Rules = [samplePredicate, sampleDependency, sampleRanged],
      rd_Corpus = Some \<lparr>co_Completeness = CorpusAttestation, co_Components = [''pkg:github/istio/istio'', ''pkg:github/nats-io/nats-server'']\<rparr>\<rparr>"

definition sampleRulesText :: string where
  "sampleRulesText = jsonPrint (encRuleDocument sampleRulesDoc)"

definition sampleRules :: RuleSet where
  "sampleRules =
     \<lparr>rs_document = sampleRulesDoc, rs_digest = digestJSON (encRuleDocument sampleRulesDoc),
      rs_registryDigest = registryDigest sampleEntries, rs_ranged = True, rs_seal = True\<rparr>"

lemma sampleRules_tree:
  "plainJson (encRuleDocument sampleRulesDoc)" "consumeJSON 0 (encRuleDocument sampleRulesDoc)"
  "ruleDocumentShape (Some (encRuleDocument sampleRulesDoc))"
  "decRuleDocument (encRuleDocument sampleRulesDoc) = Some sampleRulesDoc"
  "length (jsonPrint (encRuleDocument sampleRulesDoc)) \<le> maxRulesBytes"
  by code_simp+

lemma sampleRules_gates:
  "gateJSON sampleRulesText maxRulesBytes = None"
  "validateRuleShape sampleRulesText = None"
  "decodeStrict decRuleDocument sampleRulesText = Inr sampleRulesDoc"
  by (simp_all add: sampleRulesText_def gateJSON_print validateRuleShape_def decodeStrict_def jsonParse_jsonPrint sampleRules_tree)

lemma sampleRule_valid:
  "validateRule samplePredicate \<lparr>reg_definitions = sampleEntries, reg_digest = d\<rparr> = None"
  "validateRule sampleDependency \<lparr>reg_definitions = sampleEntries, reg_digest = d\<rparr> = None"
  "validateRule sampleRanged \<lparr>reg_definitions = sampleEntries, reg_digest = d\<rparr> = None"
  by code_simp+

lemma sampleRules_valid:
  "validateRangeOverlaps (rd_Rules sampleRulesDoc) = None" "validateCorpus sampleRulesDoc = None"
  "idRE (rd_Revision sampleRulesDoc)" "idRE (rd_PolicyID sampleRulesDoc)" "digestRE (rd_PolicyDigest sampleRulesDoc)"
  "length (rd_Rules sampleRulesDoc) \<le> maxRules" "list_ex (\<lambda>r. r_Range r \<noteq> None) (rd_Rules sampleRulesDoc)"
  "\<not> r_ID sampleDependency \<le> r_ID samplePredicate" "\<not> r_ID sampleRanged \<le> r_ID sampleDependency"
  by code_simp+

lemma sampleRules_wf: "wfRules sampleRegistry sampleRulesDoc"
proof -
  have "sorted_wrt (<) (map r_ID (rd_Rules sampleRulesDoc))"
    using sampleRules_valid(8,9) by (auto simp: sampleRulesDoc_def not_le)
  moreover have "\<forall>r\<in>set (rd_Rules sampleRulesDoc). validateRule r sampleRegistry = None"
    by (simp add: sampleRulesDoc_def sampleRule_valid sampleRegistry_def)
  moreover have "rd_Schema sampleRulesDoc = RulesSchemaRanged" by (simp add: sampleRulesDoc_def)
  moreover have "\<exists>r\<in>set (rd_Rules sampleRulesDoc). r_Range r \<noteq> None"
    using sampleRules_valid(7) by (simp add: list_ex_iff)
  ultimately show ?thesis using sampleRules_valid(1-6) unfolding wfRules_def by blast
qed

lemma sampleRules_parsed: "ParseRuleSet sampleRulesText sampleRegistry = Inr sampleRules"
  using ParseRuleSet_accepts [OF sampleRules_gates sampleRules_wf] sampleRules_valid(7)
  by (simp add: sampleRules_def sampleRegistry_def)

lemma sample_issued: "issuedPair sampleRegistry (sampleInput b) sampleRules"
  by (rule issuedPair_parsed [OF sampleRegistry_new sampleInput_parsed sampleRules_parsed])

definition sampleNow :: goTime where
  "sampleNow = \<lparr>t_year = 2025, t_month = 6, t_day = 1, t_hour = 12, t_minute = 0, t_second = 0, t_nsec = 0, t_utc = True\<rparr>"

lemma sampleNow_valid: "validClock sampleNow"
  by code_simp

text \<open>The same document without its ranged rule and without a corpus attestation.\<close>

definition sampleExactDoc :: ruleDocument where
  "sampleExactDoc = sampleRulesDoc\<lparr>rd_Schema := RulesSchema, rd_Rules := [samplePredicate, sampleDependency], rd_Corpus := None\<rparr>"

definition sampleExactText :: string where
  "sampleExactText = jsonPrint (encRuleDocument sampleExactDoc)"

definition sampleExactRules :: RuleSet where
  "sampleExactRules =
     \<lparr>rs_document = sampleExactDoc, rs_digest = digestJSON (encRuleDocument sampleExactDoc),
      rs_registryDigest = registryDigest sampleEntries, rs_ranged = False, rs_seal = True\<rparr>"

lemma sampleExact_tree:
  "plainJson (encRuleDocument sampleExactDoc)" "consumeJSON 0 (encRuleDocument sampleExactDoc)"
  "ruleDocumentShape (Some (encRuleDocument sampleExactDoc))"
  "decRuleDocument (encRuleDocument sampleExactDoc) = Some sampleExactDoc"
  "length (jsonPrint (encRuleDocument sampleExactDoc)) \<le> maxRulesBytes"
  "length (rd_Rules sampleExactDoc) \<le> maxRules"
  by code_simp+

lemma sampleExact_parsed: "ParseRuleSet sampleExactText sampleRegistry = Inr sampleExactRules"
proof -
  have rng: "r_Range samplePredicate = None" "r_Range sampleDependency = None"
    by (simp_all add: samplePredicate_def sampleDependency_def)
  have "wfRules sampleRegistry sampleExactDoc"
    using sampleRules_valid(3-5,8) sampleExact_tree(6)
    by (auto simp: wfRules_def sampleExactDoc_def sampleRule_valid sampleRegistry_def validateCorpus_def not_le engine_defs rng)
  moreover have "gateJSON sampleExactText maxRulesBytes = None" "validateRuleShape sampleExactText = None"
    "decodeStrict decRuleDocument sampleExactText = Inr sampleExactDoc"
    by (simp_all add: sampleExactText_def gateJSON_print validateRuleShape_def decodeStrict_def jsonParse_jsonPrint sampleExact_tree)
  ultimately show ?thesis
    using ParseRuleSet_accepts [of sampleExactText sampleExactDoc sampleRegistry]
    by (simp add: sampleExactRules_def sampleRegistry_def sampleExactDoc_def rng)
qed

lemma sampleExact_issued: "issuedPair sampleRegistry (sampleInput b) sampleExactRules"
  by (rule issuedPair_parsed [OF sampleRegistry_new sampleInput_parsed sampleExact_parsed])

text \<open>The assessment of the sample with the legacy mode off.\<close>

lemma samplePass:
  assumes "Evaluate (sampleInput False) sampleRules sampleNow = Inr report"
  shows "rp_Assessment report = AssessmentScopeCompletePass"
proof -
  have sc: "id_Scope (in_document (sampleInput False)) =
      Some \<lparr>isc_Declaration = ScopeDeclaration, isc_Components = [''pkg:github/istio/istio'', ''pkg:github/nats-io/nats-server'']\<rparr>"
    and co: "rd_Corpus (rs_document sampleRules) =
      Some \<lparr>co_Completeness = CorpusAttestation, co_Components = [''pkg:github/istio/istio'', ''pkg:github/nats-io/nats-server'']\<rparr>"
    by (simp_all add: sampleInput_def sampleInputDoc_def sampleRules_def sampleRulesDoc_def)
  have docs: "in_document (sampleInput False) = sampleInputDoc False" "rd_Rules (rs_document sampleRules) = rd_Rules sampleRulesDoc"
    by (simp_all add: sampleInput_def sampleRules_def)
  have "\<forall>r\<in>set (rd_Rules sampleRulesDoc). expectedStatus (sampleInputDoc False) r sampleNow = ''PASS''"
    "\<forall>k\<in>set [''pkg:github/istio/istio'', ''pkg:github/nats-io/nats-server'']. \<exists>r\<in>set (rd_Rules sampleRulesDoc). tr_Component (r_Subject r) = k \<and>
      \<not> rangeMatched (sampleInputDoc False) r \<and> expectedStatus (sampleInputDoc False) r sampleNow = ''PASS''"
    by code_simp+
  with pass_issued [OF sample_issued sampleNow_valid assms sc co] show ?thesis unfolding docs by simp
qed

text \<open>Two ranges under one key, over different minor lines.\<close>

definition sampleRangedNext :: rule where
  "sampleRangedNext = sampleRanged\<lparr>r_ID := ''nats-range-next'',
     r_Subject := \<lparr>tr_Component = ''pkg:github/nats-io/nats-server'', tr_From = ''2.10.5'', tr_To = ''2.11.1''\<rparr>,
     r_Range := Some (sampleRange\<lparr>vr_From := \<lparr>vb_Gte = ''2.10.0'', vb_Lt = ''2.11.0''\<rparr>,
                                   vr_To := \<lparr>vb_Gte = ''2.11.0'', vb_Lt = ''2.12.0''\<rparr>\<rparr>)\<rparr>"

definition sampleTwoRangesDoc :: ruleDocument where
  "sampleTwoRangesDoc = sampleRulesDoc\<lparr>rd_Rules := [sampleRanged, sampleRangedNext], rd_Corpus := None\<rparr>"

definition sampleTwoRangesText :: string where
  "sampleTwoRangesText = jsonPrint (encRuleDocument sampleTwoRangesDoc)"

definition sampleTwoRanges :: RuleSet where
  "sampleTwoRanges =
     \<lparr>rs_document = sampleTwoRangesDoc, rs_digest = digestJSON (encRuleDocument sampleTwoRangesDoc),
      rs_registryDigest = registryDigest sampleEntries, rs_ranged = True, rs_seal = True\<rparr>"

lemma sampleTwoRanges_tree:
  "plainJson (encRuleDocument sampleTwoRangesDoc)" "consumeJSON 0 (encRuleDocument sampleTwoRangesDoc)"
  "ruleDocumentShape (Some (encRuleDocument sampleTwoRangesDoc))"
  "decRuleDocument (encRuleDocument sampleTwoRangesDoc) = Some sampleTwoRangesDoc"
  "length (jsonPrint (encRuleDocument sampleTwoRangesDoc)) \<le> maxRulesBytes"
  "length (rd_Rules sampleTwoRangesDoc) \<le> maxRules"
  "validateRule sampleRangedNext \<lparr>reg_definitions = sampleEntries, reg_digest = d\<rparr> = None"
  "validateRangeOverlaps (rd_Rules sampleTwoRangesDoc) = None"
  "\<not> r_ID sampleRangedNext \<le> r_ID sampleRanged"
  by code_simp+

lemma sampleTwoRanges_parsed: "ParseRuleSet sampleTwoRangesText sampleRegistry = Inr sampleTwoRanges"
proof -
  have rng: "r_Range sampleRanged \<noteq> None" by (simp add: sampleRanged_def)
  have doc: "rd_Rules sampleTwoRangesDoc = [sampleRanged, sampleRangedNext]" "rd_Schema sampleTwoRangesDoc = RulesSchemaRanged"
    "rd_Corpus sampleTwoRangesDoc = None" "rd_Revision sampleTwoRangesDoc = rd_Revision sampleRulesDoc"
    "rd_PolicyID sampleTwoRangesDoc = rd_PolicyID sampleRulesDoc" "rd_PolicyDigest sampleTwoRangesDoc = rd_PolicyDigest sampleRulesDoc"
    by (simp_all add: sampleTwoRangesDoc_def sampleRulesDoc_def)
  have "wfRules sampleRegistry sampleTwoRangesDoc"
    using sampleRules_valid(3-5) sampleTwoRanges_tree(6,8,9) rng
    by (auto simp: wfRules_def doc sampleRule_valid sampleTwoRanges_tree(7) sampleRegistry_def validateCorpus_def not_le
        simp del: validateRangeOverlaps.simps)
  moreover have "gateJSON sampleTwoRangesText maxRulesBytes = None" "validateRuleShape sampleTwoRangesText = None"
    "decodeStrict decRuleDocument sampleTwoRangesText = Inr sampleTwoRangesDoc"
    by (simp_all add: sampleTwoRangesText_def gateJSON_print validateRuleShape_def decodeStrict_def jsonParse_jsonPrint sampleTwoRanges_tree)
  ultimately show ?thesis
    using ParseRuleSet_accepts [of sampleTwoRangesText sampleTwoRangesDoc sampleRegistry] rng
    by (simp add: sampleTwoRanges_def sampleRegistry_def doc)
qed

text \<open>A mandatory intermediate version over a range.\<close>

definition sampleIntermediate :: rule where
  "sampleIntermediate = sampleRanged\<lparr>r_ID := ''nats-step'', r_Operator := ''require_intermediate_version'', r_Dependency := None,
     r_Intermediate := ''2.9.25'', r_Subject := \<lparr>tr_Component = ''pkg:github/nats-io/nats-server'', tr_From = ''2.8.4'', tr_To = ''2.10.0''\<rparr>,
     r_Range := Some \<lparr>vr_From = \<lparr>vb_Gte = ''2.8.0'', vb_Lt = ''2.9.0''\<rparr>, vr_To = \<lparr>vb_Gte = ''2.10.0'', vb_Lt = ''2.11.0''\<rparr>,
      vr_Bounds = [\<lparr>rb_Bound = boundFromGte, rb_Basis = BasisUpgradeFromSeries, rb_SourceID = ''release-notes''\<rparr>,
                   \<lparr>rb_Bound = boundFromLt, rb_Basis = BasisUpgradeFromSeries, rb_SourceID = ''release-notes''\<rparr>,
                   \<lparr>rb_Bound = boundToGte, rb_Basis = BasisTargetSeries, rb_SourceID = ''release-notes''\<rparr>,
                   \<lparr>rb_Bound = boundToLt, rb_Basis = BasisTargetSeries, rb_SourceID = ''release-notes''\<rparr>]\<rparr>\<rparr>"

lemma sampleIntermediate_valid:
  "validateRule sampleIntermediate \<lparr>reg_definitions = sampleEntries, reg_digest = d\<rparr> = None"
  by code_simp

end
