(* ===== verification/CncfSamples.thy ===== *)
theory CncfSamples
  imports CncfCatalog CncfExternal Samples
begin

text \<open>
  A bundle of two projects with the three sample rules, the attestation of its corpus and an external
  pack with one of the rules: the concrete data on which the properties of the package are witnessed.
\<close>

section \<open>Packs of printed rules\<close>

definition ruleText :: "rule \<Rightarrow> string" where
  "ruleText r = jsonPrint (encRule r)"

definition packDocument :: "cncfBundle \<Rightarrow> rule list \<Rightarrow> string list \<Rightarrow> ruleDocument" where
  "packDocument b rules corpus =
     \<lparr>rd_Schema = (if list_ex (\<lambda>r. r_Range r \<noteq> None) rules then RulesSchemaRanged else RulesSchema),
      rd_Revision = pk_Revision (bu_pack b), rd_PolicyID = pk_PolicyID (bu_pack b), rd_PolicyDigest = pk_PolicyDigest (bu_pack b),
      rd_Rules = rules,
      rd_Corpus = (if corpus = [] then None else Some \<lparr>co_Completeness = CorpusAttestation, co_Components = corpus\<rparr>)\<rparr>"

lemma encRule_range: "objGet (case encRule r of JObj ms \<Rightarrow> ms | _ \<Rightarrow> []) ''range'' \<noteq> None \<longleftrightarrow> r_Range r \<noteq> None"
  by (cases "r_Range r") (auto simp: encRule_def objGet_def omitNil_def omitNone_def omitBlank_def split: option.splits)

lemma AnyRanged_printed:
  "\<forall>r\<in>set rules. plainJson (encRule r) \<Longrightarrow> AnyRanged (map ruleText rules) = Inr (list_ex (\<lambda>r. r_Range r \<noteq> None) rules)"
proof (induction rules)
  case (Cons r rules)
  obtain ms where ms: "encRule r = JObj ms" by (simp add: encRule_def)
  then have "jsonParse (ruleText r) = Some (JObj ms)" using Cons.prems jsonParse_jsonPrint [of "encRule r"] by (simp add: ruleText_def)
  then show ?case using Cons encRule_range [of r] ms by (auto split: option.splits)
qed simp

lemma ruleDocumentBytes_printed:
  assumes "\<forall>r\<in>set rules. plainJson (encRule r) \<and> list_all compactByte (ruleText r)"
  shows "ruleDocumentBytes b (map ruleText rules) corpus = Inr (jsonPrint (encRuleDocument (packDocument b rules corpus)))"
proof -
  have "rawMarshal (ruleText r) = Some (ruleText r)" if "r \<in> set rules" for r
    using assms that by (intro rawMarshal_compact) (auto simp: ruleText_def jsonParse_jsonPrint)
  then have t: "those (map (rawMarshal \<circ> ruleText) rules) = Some (map ruleText rules)" by (induction rules) auto
  have schema: "RulesSchemaFor (map ruleText rules) = Inr (rd_Schema (packDocument b rules corpus))"
    using AnyRanged_printed [of rules] assms by (simp add: RulesSchemaFor_def packDocument_def)
  let ?ms = "[(''schema'', JStr (rd_Schema (packDocument b rules corpus))), (''revision'', JStr (pk_Revision (bu_pack b))),
    (''policyId'', JStr (pk_PolicyID (bu_pack b))), (''policyDigest'', JStr (pk_PolicyDigest (bu_pack b))),
    (''rules'', JArr (map encRule rules))] @ (if corpus = [] then [] else [(''corpus'', encRuleCorpus \<lparr>co_Completeness = CorpusAttestation, co_Components = corpus\<rparr>)])"
  have "corpusMember corpus = map (\<lambda>(k, v). (k, jsonPrint v))
      (if corpus = [] then [] else [(''corpus'', encRuleCorpus \<lparr>co_Completeness = CorpusAttestation, co_Components = corpus\<rparr>)])"
    using objText_print [of "[(''completeness'', JStr CorpusAttestation), (''components'', JArr (map JStr corpus))]"]
    by (simp add: corpusMember_def encRuleCorpus_def arrText_def comp_def del: objText_print)
  moreover have "arrText (map ruleText rules) = jsonPrint (JArr (map encRule rules))"
    using arrText_print [of "map encRule rules"] by (simp add: ruleText_def [abs_def] comp_def)
  ultimately have "ruleDocumentBytes b (map ruleText rules) corpus = Inr (objText (map (\<lambda>(k, v). (k, jsonPrint v)) ?ms))"
    by (simp add: ruleDocumentBytes_def schema t del: jsonPrint.simps(5,6))
  moreover have "encRuleDocument (packDocument b rules corpus) = JObj ?ms" by (simp add: encRuleDocument_def packDocument_def omitNil_def)
  ultimately show ?thesis by (simp only: objText_print)
qed

section \<open>The bundle\<close>

definition sampleIstio :: projectIdentity where
  "sampleIstio = \<lparr>pi_Slug = ''istio'', pi_Name = ''Istio'', pi_RepositoryURL = ''https://github.com/istio/istio'', pi_CNCFStage = ''graduated''\<rparr>"
definition sampleNats :: projectIdentity where
  "sampleNats = \<lparr>pi_Slug = ''nats'', pi_Name = ''NATS'', pi_RepositoryURL = ''https://github.com/nats-io/nats-server'', pi_CNCFStage = ''incubating''\<rparr>"

definition sampleEntry :: "string \<Rightarrow> rule \<Rightarrow> Entry" where
  "sampleEntry project r =
     \<lparr>en_Project = project, en_Description = ''a reviewed rule'', en_RequiredFacts = Some [], en_Rule = ruleText r\<rparr>"

definition sampleDigest :: string where
  "sampleDigest = ''sha256:abababababababababababababababababababababababababababababababab''"

definition samplePack :: "string \<Rightarrow> Entry list \<Rightarrow> rulePack" where
  "samplePack revision entries =
     \<lparr>pk_Schema = packSchemaRanged, pk_Revision = revision, pk_PolicyID = ''policy'', pk_PolicyDigest = sampleDigest,
      pk_LandscapeFileDigest = sampleDigest, pk_RegistryDigest = reg_digest sampleRegistry, pk_Entries = Some entries\<rparr>"

definition sampleBundle :: cncfBundle where
  "sampleBundle =
     \<lparr>bu_landscape = \<lparr>ld_Schema = ''prufyx.io/cncf-landscape/v1'', ld_Revision = ''1'', ld_SourceURL = [],
        ld_LandscapeFileDigest = sampleDigest, ld_Projects = [sampleIstio, sampleNats]\<rparr>,
      bu_priority = \<lparr>pd_Schema = ''prufyx.io/cncf-priority/v1'', pd_LandscapeFileDigest = sampleDigest, pd_Priority = [''istio'']\<rparr>,
      bu_pack = samplePack ''rev-1'' [sampleEntry ''istio'' samplePredicate, sampleEntry ''nats'' sampleDependency, sampleEntry ''nats'' sampleRanged],
      bu_registry = sampleRegistry, bu_packDigest = sampleDigest, bu_catalogueDigest = sampleDigest\<rparr>"

lemma sampleRule_texts:
  "plainJson (encRule samplePredicate)" "plainJson (encRule sampleDependency)" "plainJson (encRule sampleRanged)"
  by code_simp+

lemma sampleRule_decoded:
  "decRule (encRule samplePredicate) = Some samplePredicate" "decRule (encRule sampleDependency) = Some sampleDependency"
  "decRule (encRule sampleRanged) = Some sampleRanged"
  by code_simp+

lemma sampleRule_compact:
  "list_all compactByte (ruleText samplePredicate)" "list_all compactByte (ruleText sampleDependency)"
  "list_all compactByte (ruleText sampleRanged)"
  by code_simp+

lemma sampleRule_of: "ruleOf (ruleText samplePredicate) = Some samplePredicate" "ruleOf (ruleText sampleDependency) = Some sampleDependency"
  "ruleOf (ruleText sampleRanged) = Some sampleRanged"
  by (simp_all add: ruleOf_def ruleText_def jsonParse_jsonPrint sampleRule_texts sampleRule_decoded)

lemma sampleRule_window:
  "validReviewWindow (ruleText samplePredicate)" "validReviewWindow (ruleText sampleDependency)" "validReviewWindow (ruleText sampleRanged)"
proof -
  have w: "(case parseCNCFUTC (ev_ReviewedAt sampleEvidence) of Inl _ \<Rightarrow> False | Inr reviewed \<Rightarrow>
      (case parseCNCFUTC (ev_ValidUntil sampleEvidence) of Inl _ \<Rightarrow> False | Inr until \<Rightarrow>
         timeBefore reviewed until \<and> unixSeconds until - unixSeconds reviewed \<le> maxCNCFReviewWindow))" by code_simp
  have e: "r_Evidence samplePredicate = sampleEvidence" "r_Evidence sampleDependency = sampleEvidence" "r_Evidence sampleRanged = sampleEvidence"
    by (simp_all add: samplePredicate_def sampleDependency_def sampleRanged_def)
  show "validReviewWindow (ruleText samplePredicate)" "validReviewWindow (ruleText sampleDependency)" "validReviewWindow (ruleText sampleRanged)"
    using w unfolding validReviewWindow_def sampleRule_of [THEN ruleOf_reads(4)] e option.case prod.case by assumption+
qed

text \<open>Documents of the whole pack, without and with the attestation, and of the ranged rule alone.\<close>

lemma sampleDoc_whole: "packDocument sampleBundle [samplePredicate, sampleDependency, sampleRanged] [] = sampleRulesDoc\<lparr>rd_Corpus := None\<rparr>"
  and sampleDoc_attested: "packDocument sampleBundle [samplePredicate, sampleDependency, sampleRanged]
     [''pkg:github/istio/istio'', ''pkg:github/nats-io/nats-server''] = sampleRulesDoc"
  by (simp_all add: packDocument_def sampleBundle_def samplePack_def sampleRulesDoc_def sampleDigest_def sampleRanged_def)

lemma sampleWhole_tree:
  "plainJson (encRuleDocument (sampleRulesDoc\<lparr>rd_Corpus := None\<rparr>))" "consumeJSON 0 (encRuleDocument (sampleRulesDoc\<lparr>rd_Corpus := None\<rparr>))"
  "ruleDocumentShape (Some (encRuleDocument (sampleRulesDoc\<lparr>rd_Corpus := None\<rparr>)))"
  "decRuleDocument (encRuleDocument (sampleRulesDoc\<lparr>rd_Corpus := None\<rparr>)) = Some (sampleRulesDoc\<lparr>rd_Corpus := None\<rparr>)"
  "length (jsonPrint (encRuleDocument (sampleRulesDoc\<lparr>rd_Corpus := None\<rparr>))) \<le> maxRulesBytes"
  by code_simp+

lemma samplePack_texts: "map en_Rule (packEntries sampleBundle) = map ruleText [samplePredicate, sampleDependency, sampleRanged]"
  by (simp add: sampleBundle_def samplePack_def sampleEntry_def goSlice_def)

lemma samplePack_bytes:
  "ruleDocumentBytes sampleBundle (map en_Rule (packEntries sampleBundle)) corpus =
     Inr (jsonPrint (encRuleDocument (packDocument sampleBundle [samplePredicate, sampleDependency, sampleRanged] corpus)))"
  unfolding samplePack_texts by (rule ruleDocumentBytes_printed) (simp add: sampleRule_texts sampleRule_compact)

lemma samplePack_parse:
  "parseRulesCorpus sampleBundle (map en_Rule (packEntries sampleBundle)) corpus =
     engineCall (ParseRuleSet (jsonPrint (encRuleDocument (packDocument sampleBundle [samplePredicate, sampleDependency, sampleRanged] corpus))) sampleRegistry)"
proof -
  have "validateCNCFReviewWindows (map en_Rule (packEntries sampleBundle)) = None"
    unfolding samplePack_texts by (simp add: validateCNCFReviewWindows_def sampleRule_window)
  then show ?thesis by (simp add: parseRulesCorpus_def samplePack_bytes) (simp add: sampleBundle_def)
qed

lemma samplePack_attested:
  "parseRulesCorpus sampleBundle (map en_Rule (packEntries sampleBundle)) [''pkg:github/istio/istio'', ''pkg:github/nats-io/nats-server''] = Inr sampleRules"
  using sampleRules_parsed by (simp add: samplePack_parse sampleDoc_attested sampleRulesText_def)

lemma samplePack_whole: "\<exists>rs. packRuleSet sampleBundle [] = Inr rs"
proof -
  let ?doc = "sampleRulesDoc\<lparr>rd_Corpus := None\<rparr>"
  have "gateJSON (jsonPrint (encRuleDocument ?doc)) maxRulesBytes = None" "validateRuleShape (jsonPrint (encRuleDocument ?doc)) = None"
    "decodeStrict decRuleDocument (jsonPrint (encRuleDocument ?doc)) = Inr ?doc"
    by (simp_all add: gateJSON_print validateRuleShape_def decodeStrict_def jsonParse_jsonPrint sampleWhole_tree)
  moreover have "validateCorpus ?doc = None" by (simp add: validateCorpus_def)
  then have "wfRules sampleRegistry ?doc" using sampleRules_wf by (auto simp: wfRules_def)
  ultimately have "\<exists>rs. ParseRuleSet (jsonPrint (encRuleDocument ?doc)) sampleRegistry = Inr rs"
    using ParseRuleSet_accepts by blast
  then show ?thesis unfolding packRuleSet_def parseRules_def using samplePack_parse [of "[]"] sampleDoc_whole by simp
qed

lemma sampleBundle_wf: "wfBundle sampleBundle"
proof -
  have "wfRegistry sampleRegistry" by (rule newRegistry_wf [OF sampleRegistry_new])
  moreover have "slugPattern ''istio''" "slugPattern ''nats''" "''istio'' < ''nats''" by code_simp+
  moreover have "subjectComponent ''istio'' ''https://github.com/istio/istio'' = ''pkg:github/istio/istio''"
    "subjectComponent ''nats'' ''https://github.com/nats-io/nats-server'' = ''pkg:github/nats-io/nats-server''" by code_simp+
  moreover have "tr_Component (r_Subject samplePredicate) = ''pkg:github/istio/istio''" "tr_Component (r_Subject sampleDependency) = ''pkg:github/nats-io/nats-server''"
    "tr_Component (r_Subject sampleRanged) = ''pkg:github/nats-io/nats-server''" by (simp_all add: samplePredicate_def sampleDependency_def sampleRanged_def)
  ultimately show ?thesis using samplePack_whole
    by (simp add: wfBundle_def sampleBundle_def samplePack_def goSlice_def entryBelongs_def sampleEntry_def sampleRule_of sampleIstio_def sampleNats_def)
qed

lemma sampleBundle_registry [simp]: "bu_registry sampleBundle = sampleRegistry"
  by (simp add: sampleBundle_def)

lemma sampleBundle_input: "ParseInput (sampleInputText legacy) (bu_registry sampleBundle) = Inr (sampleInput legacy)"
  by (simp add: sampleInput_parsed)

section \<open>The attestation of the corpus\<close>

definition sampleComponents :: "string list" where
  "sampleComponents = [''pkg:github/istio/istio'', ''pkg:github/nats-io/nats-server'']"

definition attestationMembers :: "Attestation \<Rightarrow> (string \<times> json) list" where
  "attestationMembers a =
     [(''schema'', JStr (at_Schema a)), (''attestation'', JStr (at_Attestation a)), (''revision'', JStr (at_Revision a)),
      (''packDigest'', JStr (at_PackDigest a)), (''ruleSetDigest'', JStr (at_RuleSetDigest a)), (''ruleCount'', encInt (at_RuleCount a)),
      (''components'', JArr (map JStr (at_Components a))), (''limitations'', JArr (map JStr (at_Limitations a)))]"

definition attestationText :: "Attestation \<Rightarrow> string" where
  "attestationText a = jsonPrint (JObj (attestationMembers a))"

lemma attestationMembers_decode:
  assumes "decInt (encInt (at_RuleCount a)) = Some (at_RuleCount a)"
  shows "decAttestation (JObj (attestationMembers a)) = Some a"
proof -
  have "distinct (map foldName [''schema'', ''attestation'', ''revision'', ''packDigest'', ''ruleSetDigest'', ''ruleCount'', ''components'', ''limitations''])"
    by code_simp
  then have f: "decField d z (attestationMembers a) k = d v" if "(k, v) \<in> set (attestationMembers a)" for k v d and z :: 'x
    using jsonField_in [OF _ that] by (simp add: decField_def attestationMembers_def)
  have mem: "(''schema'', JStr (at_Schema a)) \<in> set (attestationMembers a)" "(''attestation'', JStr (at_Attestation a)) \<in> set (attestationMembers a)"
    "(''revision'', JStr (at_Revision a)) \<in> set (attestationMembers a)" "(''packDigest'', JStr (at_PackDigest a)) \<in> set (attestationMembers a)"
    "(''ruleSetDigest'', JStr (at_RuleSetDigest a)) \<in> set (attestationMembers a)" "(''ruleCount'', encInt (at_RuleCount a)) \<in> set (attestationMembers a)"
    "(''components'', JArr (map JStr (at_Components a))) \<in> set (attestationMembers a)"
    "(''limitations'', JArr (map JStr (at_Limitations a))) \<in> set (attestationMembers a)"
    by (simp_all add: attestationMembers_def)
  have strs: "those (map (decString \<circ> JStr) ss) = Some ss" for ss by (induction ss) auto
  have "decStruct True [''schema'', ''attestation'', ''revision'', ''packDigest'', ''ruleSetDigest'', ''ruleCount'', ''components'', ''limitations'']
      (JObj (attestationMembers a)) = Some (attestationMembers a)" by (auto simp: attestationMembers_def)
  then show ?thesis by (simp add: decAttestation_def mem [THEN f] strs assms)
qed

lemma attestationText_decodes:
  assumes "\<forall>s\<in>set ([at_Schema a, at_Attestation a, at_Revision a, at_PackDigest a, at_RuleSetDigest a] @ at_Components a @ at_Limitations a). utf8Valid s"
    and "at_RuleCount a = 3"
  shows "strictJSON (decAttestation \<circ> rawTree) (attestationText a) = Some a"
proof -
  have "plainJson (JObj (attestationMembers a))" using assms by (auto simp: attestationMembers_def plainJson_encInt runeError_def)
  then have "jsonParse (attestationText a) = Some (JObj (attestationMembers a))" unfolding attestationText_def by (rule jsonParse_jsonPrint)
  then obtain x where x: "rawParse (attestationText a) = Some x" "rawTree x = JObj (attestationMembers a)" by (auto simp: jsonParse_raw)
  moreover have "decInt (encInt (at_RuleCount a)) = Some (at_RuleCount a)" unfolding assms(2) by code_simp
  ultimately show ?thesis using attestationMembers_decode by (simp add: strictJSON_def)
qed

lemma digestRE_ascii:
  assumes "digestRE s"
  shows "list_all (\<lambda>c. byte c < 128) s"
proof -
  have "list_all (\<lambda>c. byte c < 128) ''sha256:''" by code_simp
  moreover have "take 7 s = ''sha256:''" using assms unfolding digestPattern_iff [symmetric] digestPattern_def by simp
  ultimately have "list_all (\<lambda>c. byte c < 128) (take 7 s)" by (simp only:)
  moreover have "isHexLower c \<Longrightarrow> byte c < 128" for c
    by (auto simp: isHexLower_def isDigit_def less_eq_char_def)
  then have "list_all (\<lambda>c. byte c < 128) (drop 7 s)" using assms by (auto simp: digestRE_def list_all_iff)
  ultimately show ?thesis by (subst append_take_drop_id [of 7 s, symmetric]) (simp only: list_all_append)
qed

lemma samplePack_rules: "packRules sampleBundle = [samplePredicate, sampleDependency, sampleRanged]"
  by (simp add: packRules_def sampleBundle_def samplePack_def goSlice_def sampleEntry_def List.map_filter_def sampleRule_of)

lemma sampleCorpus_components: "corpusComponents sampleBundle = Inr sampleComponents"
proof -
  have "sort (remdups (map (tr_Component \<circ> r_Subject) [samplePredicate, sampleDependency, sampleRanged])) = sampleComponents"
    by code_simp
  then show ?thesis using corpusComponents_wf [OF sampleBundle_wf] samplePack_rules
    by (simp add: sampleBundle_def samplePack_def goSlice_def)
qed

text \<open>The attestation the maintainer command builds for the bundle; the digest of its rules stays symbolic.\<close>

lemma sampleAttestation_built:
  obtains inventory where "unfilteredCorpus sampleBundle = Inr inventory" "inv_Components inventory = sampleComponents"
    "inv_RuleCount inventory = 3" "validAttestation (attestationOf inventory)"
    "strictJSON (decAttestation \<circ> rawTree) (attestationText (attestationOf inventory)) = Some (attestationOf inventory)"
proof -
  obtain digest where d: "unfilteredRuleSetDigest sampleBundle = Inr digest" "digestRE digest"
    using unfilteredRuleSetDigest_wf [OF sampleBundle_wf] by (auto simp: ruleSetValid_def)
  let ?i = "\<lparr>inv_Revision = ''rev-1'', inv_PackDigest = sampleDigest, inv_RuleSetDigest = digest, inv_RuleCount = 3,
            inv_Components = sampleComponents\<rparr>"
  have u: "unfilteredCorpus sampleBundle = Inr ?i"
    using sampleCorpus_components d(1) by (simp add: unfilteredCorpus_def) (simp add: sampleBundle_def samplePack_def goSlice_def)
  have "digestPattern sampleDigest" by code_simp
  then have v: "validAttestation (attestationOf ?i)"
    by (intro attestationOf_valid [OF sampleBundle_wf u]) (simp_all add: sampleBundle_def samplePack_def)
  have "list_all utf8Valid ([CorpusAttestationSchema, CorpusAttestation, ''rev-1'', sampleDigest] @ sampleComponents @ AttestationLimitations)"
    by code_simp
  then have "strictJSON (decAttestation \<circ> rawTree) (attestationText (attestationOf ?i)) = Some (attestationOf ?i)"
    using utf8Valid_ascii [OF digestRE_ascii [OF d(2)]]
    by (intro attestationText_decodes) (auto simp: attestationOf_def list_all_iff)
  with u v that [of ?i] show ?thesis by simp
qed

lemma sampleAttestation_accepted:
  obtains a raw where "attestedRuleSet sampleBundle raw = Inr (sampleRules, a)" "at_Components a = sampleComponents"
proof -
  obtain inventory where i: "unfilteredCorpus sampleBundle = Inr inventory" "inv_Components inventory = sampleComponents"
    "validAttestation (attestationOf inventory)"
    "strictJSON (decAttestation \<circ> rawTree) (attestationText (attestationOf inventory)) = Some (attestationOf inventory)"
    by (rule sampleAttestation_built)
  have "unfilteredRuleSet sampleBundle (inv_Components inventory) = Inr sampleRules"
    using samplePack_attested unfilteredRuleSet_wf [OF sampleBundle_wf] i(2) by (simp add: sampleComponents_def)
  from attestedRuleSet_built [OF sampleBundle_wf i(1,3,4) this] that i(2) show ?thesis by (simp add: attestationOf_def)
qed

lemma sampleScope_declared: "declaredScope (sampleInputText legacy) = Some sampleComponents"
proof -
  have "plainJson (encInputDocument (sampleInputDoc legacy))" by (cases legacy) (use sampleInput_tree in blast)+
  then have "jsonParse (sampleInputText legacy) = Some (encInputDocument (sampleInputDoc legacy))"
    unfolding sampleInputText_def by (rule jsonParse_jsonPrint)
  moreover have "decDeclaredScope (encInputDocument (sampleInputDoc legacy)) = Some (Some (ScopeDeclaration, sampleComponents))" by code_simp
  ultimately show ?thesis by (simp add: declaredScope_def unmarshal_def)
qed

lemma sampleScope_identities: "set sampleComponents \<subseteq> set (componentIdentities sampleBundle)"
proof -
  have "subjectComponent ''istio'' ''https://github.com/istio/istio'' = ''pkg:github/istio/istio''"
    "subjectComponent ''nats'' ''https://github.com/nats-io/nats-server'' = ''pkg:github/nats-io/nats-server''" by code_simp+
  then show ?thesis by (simp add: componentIdentities_def sampleBundle_def sampleIstio_def sampleNats_def sampleComponents_def)
qed

lemma sampleScope_assessed:
  obtains attestationRaw report where "assessScopeWith sampleBundle attestationRaw (sampleInputText False) sampleNow = Inr report"
    "sr_Assessment report = AssessmentScopeCompletePass"
proof -
  obtain a raw where a: "attestedRuleSet sampleBundle raw = Inr (sampleRules, a)" by (rule sampleAttestation_accepted)
  obtain result where r: "Evaluate (sampleInput False) sampleRules sampleNow = Inr result" "MarshalReport result = Inr (jsonPrint (encReport result))"
    by (rule MarshalReport_issued [OF sample_issued sampleNow_valid])
  have "assessScopeWith sampleBundle raw (sampleInputText False) sampleNow =
      Inr (scopeReport sampleBundle a sampleComponents (sampleInputText False) result)"
    unfolding assessScopeWith_form using a r sampleScope_declared sampleScope_identities sampleBundle_input
    by (auto simp: sampleComponents_def)
  moreover have "sr_Assessment (scopeReport sampleBundle a sampleComponents (sampleInputText False) result) = AssessmentScopeCompletePass"
    using samplePass [OF r(1)] by (simp add: scopeReport_def)
  ultimately show ?thesis by (rule that)
qed

section \<open>An external pack\<close>

definition externalPack :: rulePack where
  "externalPack = samplePack ''1'' [sampleEntry ''nats'' sampleRanged]"

definition externalDocument :: externalBundleDocument where
  "externalDocument =
     \<lparr>ed_Schema = externalBundleSchema, ed_Revision = ''1'', ed_Purpose = ''operator_provided'',
      ed_EngineCapabilityDigest = externalCapabilityDigest sampleBundle, ed_Pack = the (packText externalPack)\<rparr>"

definition externalRulesDoc :: ruleDocument where
  "externalRulesDoc = sampleRulesDoc\<lparr>rd_Revision := ''1'', rd_Rules := [sampleRanged], rd_Corpus := None\<rparr>"

lemma externalRules_tree:
  "plainJson (encRuleDocument externalRulesDoc)" "consumeJSON 0 (encRuleDocument externalRulesDoc)"
  "ruleDocumentShape (Some (encRuleDocument externalRulesDoc))"
  "decRuleDocument (encRuleDocument externalRulesDoc) = Some externalRulesDoc"
  "length (jsonPrint (encRuleDocument externalRulesDoc)) \<le> maxRulesBytes"
  "idRE (rd_Revision externalRulesDoc)" "validateRangeOverlaps (rd_Rules externalRulesDoc) = None"
  by code_simp+

lemma externalPack_parsed: "\<exists>rs. packRuleSet (candidateBundle sampleBundle externalPack sampleRegistry d) [] = Inr rs"
proof -
  let ?b = "candidateBundle sampleBundle externalPack sampleRegistry d"
  have sel: "map en_Rule (filter (\<lambda>e. [] = [] \<or> en_Project e = []) (packEntries ?b)) = map ruleText [sampleRanged]"
    by (simp add: candidateBundle_def externalPack_def samplePack_def sampleEntry_def goSlice_def)
  have "packDocument ?b [sampleRanged] [] = externalRulesDoc"
    by (simp add: packDocument_def candidateBundle_def externalPack_def samplePack_def externalRulesDoc_def sampleRulesDoc_def sampleDigest_def sampleRanged_def)
  then have "ruleDocumentBytes ?b (map ruleText [sampleRanged]) [] = Inr (jsonPrint (encRuleDocument externalRulesDoc))"
    using ruleDocumentBytes_printed [of "[sampleRanged]" ?b "[]"] sampleRule_texts(3) sampleRule_compact(3) by simp
  moreover have "gateJSON (jsonPrint (encRuleDocument externalRulesDoc)) maxRulesBytes = None" "validateRuleShape (jsonPrint (encRuleDocument externalRulesDoc)) = None"
    "decodeStrict decRuleDocument (jsonPrint (encRuleDocument externalRulesDoc)) = Inr externalRulesDoc"
    by (simp_all add: gateJSON_print validateRuleShape_def decodeStrict_def jsonParse_jsonPrint externalRules_tree)
  moreover have "wfRules sampleRegistry externalRulesDoc"
  proof -
    have "validateCorpus externalRulesDoc = None" by (simp add: validateCorpus_def externalRulesDoc_def)
    moreover have "r_Range sampleRanged \<noteq> None" by (simp add: sampleRanged_def)
    ultimately show ?thesis using sampleRules_wf externalRules_tree(6,7) by (simp add: wfRules_def) (simp add: externalRulesDoc_def sampleRulesDoc_def)
  qed
  ultimately have "\<exists>rs. thenDo (ruleDocumentBytes ?b (map ruleText [sampleRanged]) []) (\<lambda>raw. engineCall (ParseRuleSet raw sampleRegistry)) = Inr rs"
    using ParseRuleSet_accepts by (fastforce simp: thenDo_def engineCall_def)
  moreover have "bu_registry ?b = sampleRegistry" by (simp add: candidateBundle_def)
  moreover have "validateCNCFReviewWindows (map ruleText [sampleRanged]) = None" by (simp add: validateCNCFReviewWindows_def sampleRule_window(3))
  ultimately show ?thesis unfolding packRuleSet_def sel parseRules_def parseRulesCorpus_def by (simp only: option.case)
qed

lemma externalPack_valid: "validateExternalPack sampleBundle externalPack ''1'' = None"
proof -
  have "unmarshal decPackRule (ruleText sampleRanged) = Some (shapeOfRule sampleRanged)" by (rule ruleOf_reads(2) [OF sampleRule_of(3)])
  moreover have "subjectComponent ''nats'' ''https://github.com/nats-io/nats-server'' = ''pkg:github/nats-io/nats-server''" by code_simp
  ultimately have "checkEntry CncfInvalid (bu_landscape sampleBundle) (sampleEntry ''nats'' sampleRanged) = None"
    by (simp add: checkEntry_def sampleEntry_def identities_def sampleBundle_def sampleIstio_def sampleNats_def goSlice_def shapeOfRule_def sampleRanged_def)
  moreover have "validPackSchema externalPack"
    using AnyRanged_printed [of "[sampleRanged]"] sampleRule_texts(3)
    by (simp add: validPackSchema_def externalPack_def samplePack_def sampleEntry_def goSlice_def sampleRanged_def)
  ultimately show ?thesis by (simp add: validateExternalPack_def) (simp add: externalPack_def samplePack_def goSlice_def sampleBundle_def maxExternalEntries_def)
qed

definition sampleExpiry :: goTime where
  "sampleExpiry = \<lparr>t_year = 2025, t_month = 7, t_day = 15, t_hour = 0, t_minute = 0, t_second = 0, t_nsec = 0, t_utc = True\<rparr>"

lemma externalPack_expiry: "entryExpiry (sampleEntry ''nats'' sampleRanged) = Inr sampleExpiry"
proof -
  have "jsonParse (ruleText sampleRanged) = Some (encRule sampleRanged)"
    unfolding ruleText_def by (rule jsonParse_jsonPrint [OF sampleRule_texts(3)])
  moreover have "decValidUntil (encRule sampleRanged) = Some ''2025-07-15T00:00:00Z''" by code_simp
  moreover have "(case parseRFC3339 ''2025-07-15T00:00:00Z'' of None \<Rightarrow> Inl CncfIntegrity
      | Some t \<Rightarrow> if \<not> t_utc t \<or> formatRFC3339 t \<noteq> ''2025-07-15T00:00:00Z'' then Inl CncfIntegrity else Inr t) =
    Inr sampleExpiry" by code_simp
  ultimately show ?thesis unfolding entryExpiry_def by (simp add: unmarshal_def sampleEntry_def)
qed

lemma externalPack_earliest: "earliestExternalExpiry [sampleEntry ''nats'' sampleRanged] = Inr ''2025-07-15T00:00:00Z''"
  and sampleExpiry_nonzero: "\<not> timeIsZero sampleExpiry"
proof -
  have "timeIsZero zeroTime" "\<not> timeIsZero sampleExpiry" "formatRFC3339 sampleExpiry = ''2025-07-15T00:00:00Z''" by code_simp+
  then show "earliestExternalExpiry [sampleEntry ''nats'' sampleRanged] = Inr ''2025-07-15T00:00:00Z''" "\<not> timeIsZero sampleExpiry"
    by (simp_all add: earliestExternalExpiry_def externalPack_expiry)
qed

lemma externalPack_admitted:
  obtains eb where "admitPack sampleBundle raw externalDocument externalPack = Inr eb"
proof -
  obtain rs where rs: "packRuleSet (candidateBundle sampleBundle externalPack sampleRegistry (cncfDigest raw)) [] = Inr rs"
    using externalPack_parsed by blast
  have reg: "bu_registry (candidateBundle sampleBundle externalPack sampleRegistry (cncfDigest raw)) = sampleRegistry" by (simp add: candidateBundle_def)
  obtain source where "ParseRuleSet source sampleRegistry = Inr rs"
    using rs parseRulesCorpus_parsed(1) [of "candidateBundle sampleBundle externalPack sampleRegistry (cncfDigest raw)"]
    unfolding packRuleSet_def parseRules_def reg by blast
  then have v: "ruleSetValid rs" by (rule ParseRuleSet_issued)
  have entries: "goSlice (pk_Entries externalPack) = [sampleEntry ''nats'' sampleRanged]" by (simp add: externalPack_def samplePack_def goSlice_def)
  have "\<exists>admission. admissionOf externalDocument externalPack rs = Inr admission"
    using v externalPack_earliest by (simp add: admissionOf_def entries ruleSetDigest_def)
  moreover have "ed_Revision externalDocument = ''1''" by (simp add: externalDocument_def)
  ultimately show ?thesis using that externalPack_valid rs unfolding admitPack_form by auto
qed

end
