(* ===== verification/CncfProperties.thy ===== *)
theory CncfProperties
  imports CncfTotal CncfSamples
begin

text \<open>
  The properties of the package \<open>cncfcheck\<close>: the compiled registry, the rule documents handed to the
  engine, the checks of one project, the attested corpus and the external bundles.
\<close>

section \<open>Claims of an evaluation\<close>

definition verdicts :: "Report \<Rightarrow> (string \<times> string) list" where
  "verdicts report = map (\<lambda>c. (cl_RuleID c, cl_Status c)) (rp_Claims report)"

definition expectedVerdicts :: "inputDocument \<Rightarrow> goTime \<Rightarrow> rule list \<Rightarrow> (string \<times> string) list" where
  "expectedVerdicts input now rules = map (\<lambda>r. (r_ID r, expectedStatus input r now)) rules"

lemma Evaluate_verdicts:
  assumes "issuedPair registry input rules" and "Evaluate input rules now = Inr report"
  shows "verdicts report = expectedVerdicts (in_document input) now (rd_Rules (rs_document rules))"
proof -
  let ?rs = "rd_Rules (rs_document rules)"
  obtain claims body where e: "Evaluate input rules now = Inr (issueReport body)" "rp_Claims body = claims"
    "evaluatedClaims evaluateRule (in_document input) ?rs now claims"
    by (rule Evaluate_form [OF assms(1) Evaluate_clock [OF assms(2)]]) simp
  have v: "\<forall>r\<in>set ?rs. validateRule r registry = None" using assms(1) by (simp add: issuedPair_def wfRules_def)
  have len: "length claims = length ?rs" by (rule rule_eval.evaluatedClaims_ids(1) [OF e(3) v])
  have "claimOK (in_document input) (?rs ! i) now (claims ! i)" if "i < length ?rs" for i
    using evaluatedClaims_ok(1) [OF e(3) v, of "?rs ! i" "claims ! i"] that len by (auto simp: in_set_zip)
  then have "(cl_RuleID (claims ! i), cl_Status (claims ! i)) = (r_ID (?rs ! i), expectedStatus (in_document input) (?rs ! i) now)"
    if "i < length ?rs" for i using that claimOK_sel(1,2) by blast
  then have "map (\<lambda>c. (cl_RuleID c, cl_Status c)) claims = expectedVerdicts (in_document input) now ?rs"
    unfolding expectedVerdicts_def by (intro nth_equalityI) (simp_all add: len)
  moreover have "rp_Claims report = claims" using e(1,2) assms(2) by (auto simp: issueReport_def)
  ultimately show ?thesis by (simp add: verdicts_def)
qed

lemma hasProject_nonempty: "wfBundle b \<Longrightarrow> hasProject b project \<Longrightarrow> project \<noteq> []"
  using hasProject_iff [of b project] by (auto simp: wfBundle_def)

lemma checkReport_sel [simp]:
  "cr_Check (checkReport b project ruleID inputRaw result) = result"
  "cr_SelectedRuleID (checkReport b project ruleID inputRaw result) = (if soleClaim ruleID result then ruleID else [])"
  by (simp_all add: checkReport_def sealReport_def)

lemma sampleBundle_projects [simp]: "ld_Projects (bu_landscape sampleBundle) = [sampleIstio, sampleNats]"
  "pi_Slug sampleIstio = ''istio''" "pi_Slug sampleNats = ''nats''"
  by (simp_all add: sampleBundle_def sampleIstio_def sampleNats_def)

lemma sampleBundle_sorted: "sorted_wrt (<) (map pi_Slug (ld_Projects (bu_landscape sampleBundle)))"
  using sampleBundle_wf by (simp add: wfBundle_def del: sampleBundle_projects)

lemma sampleBundle_hasProject: "hasProject sampleBundle ''istio''" "hasProject sampleBundle ''nats''"
  by (simp_all add: hasProject_iff [OF sampleBundle_sorted])

lemma sampleCheck_returns:
  obtains report where "cncfCheck sampleBundle ''nats'' [] (sampleInputText True) sampleNow = Inr report"
  by (rule cncfCheck_total [OF sampleBundle_wf sampleBundle_hasProject(2) sampleBundle_input sampleNow_valid disjI1 [OF refl]])

lemma sampleBundle_owns:
  "\<exists>e\<in>set (packEntries sampleBundle). en_Project e = ''istio'' \<and> map_option r_ID (ruleOf (en_Rule e)) = Some (r_ID samplePredicate)"
  by (simp add: sampleBundle_def samplePack_def goSlice_def sampleEntry_def sampleRule_of)

section \<open>The compiled registry and the rule documents\<close>


text \<open>
  C25. Whatever rule document the package assembles from raw rules and the engine accepts, it holds
  exactly the rules the raw texts denote, in their order, under the pack's revision, and it attests a
  corpus exactly when one was asked for.
\<close>

theorem rule_document_faithful:
  assumes "parseRulesCorpus b rules corpus = Inr rs"
  shows "map ruleOf rules = map Some (rd_Rules (rs_document rs)) \<and>
    rd_Revision (rs_document rs) = utf8Coerce (pk_Revision (bu_pack b)) \<and>
    rd_Corpus (rs_document rs) = (if corpus = [] then None
      else Some \<lparr>co_Completeness = CorpusAttestation, co_Components = map utf8Coerce corpus\<rparr>)"
  using parseRulesCorpus_rules [OF assms] parseRulesCorpus_parsed(4,5) [OF assms] by blast

theorem rule_document_faithful_witness:
  "map ruleOf (map en_Rule (packEntries sampleBundle)) = map Some (rd_Rules (rs_document sampleRules))"
  using rule_document_faithful [OF samplePack_attested] by blast

text \<open>
  C26. Every rule the engine receives from a pack was reviewed for at most ninety days: its two
  evidence timestamps are canonical UTC times, the review precedes the expiry, and at most 7776000
  seconds lie between them.
\<close>

theorem review_window_bounded:
  assumes "parseRulesCorpus b rules corpus = Inr rs" and "r \<in> set (rd_Rules (rs_document rs))"
  shows "\<exists>reviewed until. parseCNCFUTC (ev_ReviewedAt (r_Evidence r)) = Inr reviewed \<and>
    parseCNCFUTC (ev_ValidUntil (r_Evidence r)) = Inr until \<and> timeBefore reviewed until \<and>
    unixSeconds until - unixSeconds reviewed \<le> 7776000"
proof -
  have "Some r \<in> set (map ruleOf rules)" using assms(2) unfolding parseRulesCorpus_rules [OF assms(1)] by simp
  then obtain raw where raw: "raw \<in> set rules" "ruleOf raw = Some r" by auto
  then have "validReviewWindow raw" using parseRulesCorpus_parsed(2) [OF assms(1)] by (simp add: list_all_iff)
  with ruleOf_reads(4) [OF raw(2)] show ?thesis
    by (simp add: validReviewWindow_def maxCNCFReviewWindow_def split: sum.splits)
qed

theorem review_window_bounded_witness:
  "\<exists>reviewed until. parseCNCFUTC (ev_ReviewedAt (r_Evidence samplePredicate)) = Inr reviewed \<and>
    parseCNCFUTC (ev_ValidUntil (r_Evidence samplePredicate)) = Inr until \<and> timeBefore reviewed until \<and>
    unixSeconds until - unixSeconds reviewed \<le> 7776000"
  by (rule review_window_bounded [OF samplePack_attested]) (simp add: sampleRules_def sampleRulesDoc_def)

section \<open>The checks of one project\<close>

text \<open>
  C28. A check without a requested rule reports one claim per rule of the project whose transition
  matches the declared versions, or one per rule of the project when none matches, in the order of the
  pack and with the status the engine's specification gives.
\<close>

theorem check_evaluates_selection:
  assumes "wfBundle b" and "ParseInput inputRaw (bu_registry b) = Inr input"
    and "cncfCheck b project [] inputRaw now = Inr report"
  shows "verdicts (cr_Check report) = expectedVerdicts (in_document input) now
    (let matching = projectRules b project (subjectMatches (in_document input))
     in if matching = [] then projectRules b project (\<lambda>_. True) else matching)"
proof -
  obtain rules result where c: "hasProject b project" "rulesFor b project [] inputRaw = Inr rules"
    "Evaluate input rules now = Inr result" "report = checkReport b project [] inputRaw result"
    using assms(2,3) unfolding cncfCheck_form by auto
  obtain rules' selected where r: "rulesFor b project [] inputRaw = Inr rules'" "parseRules b selected = Inr rules'"
    by (rule rulesFor_total [OF assms(1,2) disjI1 [OF refl]])
  have "issuedPair (bu_registry b) input rules"
    using evaluate_bundle [OF assms(1,2) r(2) [unfolded parseRules_def] Evaluate_clock [OF c(3)]] r(1) c(2) by auto
  from Evaluate_verdicts [OF this c(3)] show ?thesis
    using rulesFor_admitted [OF assms(1,2) c(2) hasProject_nonempty [OF assms(1) c(1)]] by (simp add: c(4))
qed

theorem check_evaluates_selection_witness:
  "\<exists>report. cncfCheck sampleBundle ''nats'' [] (sampleInputText True) sampleNow = Inr report \<and>
    verdicts (cr_Check report) = expectedVerdicts (in_document (sampleInput True)) sampleNow
     (let matching = projectRules sampleBundle ''nats'' (subjectMatches (in_document (sampleInput True)))
      in if matching = [] then projectRules sampleBundle ''nats'' (\<lambda>_. True) else matching)"
proof -
  obtain report where r: "cncfCheck sampleBundle ''nats'' [] (sampleInputText True) sampleNow = Inr report"
    by (rule sampleCheck_returns)
  from check_evaluates_selection [OF sampleBundle_wf sampleBundle_input r] r show ?thesis by blast
qed

text \<open>
  C29. A check of a requested rule reports exactly one claim, for that rule, records it as selected,
  and the rule belongs to an entry of the project.
\<close>

theorem check_selected_rule:
  assumes "wfBundle b" and "ruleID \<noteq> []" and "cncfCheck b project ruleID inputRaw now = Inr report"
  shows "map cl_RuleID (rp_Claims (cr_Check report)) = [ruleID] \<and> cr_SelectedRuleID report = ruleID \<and>
    (\<exists>e\<in>set (packEntries b). en_Project e = project \<and> map_option r_ID (ruleOf (en_Rule e)) = Some ruleID)"
proof -
  obtain input rules result where c: "ParseInput inputRaw (bu_registry b) = Inr input" "rulesFor b project ruleID inputRaw = Inr rules"
    "Evaluate input rules now = Inr result" "report = checkReport b project ruleID inputRaw result"
    using assms(3) unfolding cncfCheck_form by auto
  have own: "\<exists>e\<in>set (packEntries b). en_Project e = project \<and> map_option r_ID (ruleOf (en_Rule e)) = Some ruleID"
    using c(2) assms(2) by (auto simp: rulesFor_def ownsRuleID_iff [OF assms(1)])
  obtain rules' selected where r: "rulesFor b project ruleID inputRaw = Inr rules'" "parseRules b selected = Inr rules'"
    by (rule rulesFor_total [OF assms(1) c(1) disjI2 [OF own]])
  have issued: "issuedPair (bu_registry b) input rules"
    using evaluate_bundle [OF assms(1) c(1) r(2) [unfolded parseRules_def] Evaluate_clock [OF c(3)]] r(1) c(2) by auto
  note rs = rulesFor_selected [OF assms(1) c(2) assms(2)]
  have ids: "set (map r_ID (rd_Rules (rs_document rules))) \<subseteq> {ruleID}" "rd_Rules (rs_document rules) \<noteq> []"
    using rs(1) by (auto simp: projectRules_def) (use rs in auto)
  have "sorted_wrt (<) (map r_ID (rd_Rules (rs_document rules)))" using issued by (simp add: issuedPair_def wfRules_def)
  then have "map r_ID (rd_Rules (rs_document rules)) = [ruleID]"
    using ids by (cases "rd_Rules (rs_document rules)"; cases "tl (rd_Rules (rs_document rules))") auto
  moreover have "map fst (verdicts result) = map r_ID (rd_Rules (rs_document rules))"
    by (simp add: Evaluate_verdicts [OF issued c(3)] expectedVerdicts_def comp_def)
  ultimately have "map cl_RuleID (rp_Claims result) = [ruleID]" by (simp add: verdicts_def comp_def)
  then show ?thesis using own assms(2) by (auto simp: c(4) soleClaim_def)
qed

theorem check_selected_rule_witness:
  "\<exists>report. cncfCheck sampleBundle ''istio'' (r_ID samplePredicate) (sampleInputText True) sampleNow = Inr report \<and>
    map cl_RuleID (rp_Claims (cr_Check report)) = [r_ID samplePredicate]"
proof -
  have n: "r_ID samplePredicate \<noteq> []" by (simp add: samplePredicate_def)
  obtain report where r: "cncfCheck sampleBundle ''istio'' (r_ID samplePredicate) (sampleInputText True) sampleNow = Inr report"
    by (rule cncfCheck_total [OF sampleBundle_wf sampleBundle_hasProject(1) sampleBundle_input sampleNow_valid
        disjI2 [OF sampleBundle_owns]])
  show ?thesis using conjI [OF r conjunct1 [OF check_selected_rule [OF sampleBundle_wf n r]]] by (rule exI)
qed

text \<open>
  C30. On a well-formed bundle a check of a listed project returns a report for every admitted input
  at every admissible clock, with or without a requested rule of the project: no selection of rules
  fails to be assembled, parsed or evaluated, and the report can be published.
\<close>

theorem check_always_returns:
  assumes "wfBundle b" and "hasProject b project" and "ParseInput inputRaw (bu_registry b) = Inr input"
    and "\<not> timeIsZero now" and "t_utc now" and "t_nsec now = 0"
    and "ruleID = [] \<or> (\<exists>e\<in>set (packEntries b). en_Project e = project \<and> map_option r_ID (ruleOf (en_Rule e)) = Some ruleID)"
  shows "\<exists>report. cncfCheck b project ruleID inputRaw now = Inr report \<and> MarshalCheckReport report = Inr (reportBytes report)"
proof -
  have "validClock now" using assms(4-6) by (simp add: validClock_def)
  then obtain report where "cncfCheck b project ruleID inputRaw now = Inr report" by (rule cncfCheck_total [OF assms(1-3) _ assms(7)])
  then show ?thesis using cncfCheck_published by blast
qed

theorem check_always_returns_witness:
  "\<exists>report. cncfCheck sampleBundle ''istio'' [] (sampleInputText False) sampleNow = Inr report \<and>
    MarshalCheckReport report = Inr (reportBytes report)"
  by (rule check_always_returns [OF sampleBundle_wf sampleBundle_hasProject(1) sampleBundle_input])
     (use sampleNow_valid in \<open>simp_all add: validClock_def\<close>)

text \<open>
  C31. Replay of a check accepts a recorded report exactly when the check returns a publishable report
  whose published bytes and a final newline are the recorded bytes, within four mebibytes.
\<close>

theorem replay_check_exact:
  "ReplayCheck files project inputRaw now expected = Inr report \<longleftrightarrow>
     Check files project inputRaw now = Inr report \<and> expected = reportBytes report @ [CHR 0x0A] \<and> length expected \<le> 4194304"
proof -
  have "MarshalCheckReport report = Inr (reportBytes report)" if "Check files project inputRaw now = Inr report"
    using that cncfCheck_published by (auto simp: Check_def)
  then show ?thesis by (auto simp: ReplayCheck_def maxReplayBytes_def)
qed

text \<open>
  C32. The exit code is 3 for a report that cannot be published, 10 when a claim is BLOCKED, 0 when
  there are claims and all of them pass, and 11 otherwise.
\<close>

theorem claim_exit_codes:
  "ClaimExit report =
     (if isl (MarshalCheckReport report) then 3
      else if list_ex (\<lambda>c. cl_Status c = ''BLOCKED'') (rp_Claims (cr_Check report)) then 10
      else if rp_Claims (cr_Check report) \<noteq> [] \<and> list_all (\<lambda>c. cl_Status c = ''PASS'') (rp_Claims (cr_Check report)) then 0 else 11)"
  by (cases "MarshalCheckReport report") (auto simp: ClaimExit_def claimCode_spec list_ex_iff list_all_iff)

section \<open>The attested corpus\<close>



text \<open>
  C33. An accepted attestation is bound to the whole pack: the rule set it yields holds every rule of the
  pack and no other, it names the pack's revision, digest, rule count and the digest of the pack's
  unattested rule set, and it is not vacuous, since it lists at least one component and every listed
  component is the subject of a rule of the pack.
\<close>

theorem attestation_binds_pack:
  assumes "wfBundle b" and "attestedRuleSet b raw = Inr (rules, a)"
  shows "rd_Rules (rs_document rules) = packRules b \<and> at_Revision a = pk_Revision (bu_pack b) \<and>
    at_PackDigest a = bu_packDigest b \<and> at_RuleCount a = int (length (packRules b)) \<and>
    (\<exists>whole. packRuleSet b [] = Inr whole \<and> at_RuleSetDigest a = rs_digest whole) \<and>
    at_Components a \<noteq> [] \<and> set (at_Components a) \<subseteq> (tr_Component \<circ> r_Subject) ` set (packRules b)"
proof -
  note bound = attestedRuleSet_bound [OF assms(2)]
  obtain whole where "packRuleSet b [] = Inr whole" "unfilteredRuleSetDigest b = Inr (rs_digest whole)"
    using unfilteredRuleSetDigest_wf [OF assms(1)] by blast
  moreover obtain present where "corpusComponents b = Inr present" "set (at_Components a) \<subseteq> set present" using bound(7) by blast
  moreover have "length (packEntries b) = length (packRules b)" by (rule list_all2_lengthD [OF packRules_all2 [OF assms(1)]])
  ultimately show ?thesis
    using bound unfilteredRuleSet_rules [OF assms(1) bound(6)] validAttestation_components(1) [OF bound(1)]
      corpusComponents_Inr(2) [OF assms(1)] by auto
qed

theorem attestation_binds_pack_witness:
  "\<exists>raw a. attestedRuleSet sampleBundle raw = Inr (sampleRules, a) \<and> rd_Rules (rs_document sampleRules) = packRules sampleBundle \<and>
    at_RuleCount a = 3"
proof -
  obtain a raw where r: "attestedRuleSet sampleBundle raw = Inr (sampleRules, a)" by (rule sampleAttestation_accepted)
  have "length (packRules sampleBundle) = 3" by (simp add: samplePack_rules)
  with attestation_binds_pack [OF sampleBundle_wf r] r show ?thesis by auto
qed





section \<open>External bundles\<close>







end
