(* ===== verification/GoRegexp.thy ===== *)
theory GoRegexp
  imports GoJson
begin

text \<open>
  The regular expressions of Go's \<open>regexp\<close> package, as far as \<open>MatchString\<close> observes them: whether some
  part of the text matches. An expression is read over the runes of the text; a match is a pair of
  positions, since anchors and word boundaries look at the text around them.

  \<open>lang\<close> is the meaning of an expression, \<open>ends\<close> the search that computes it (\<open>ends_lang\<close>). The search
  unrolls an unbounded repetition as often as the text is long, which is enough because a match
  never ends before it starts.
\<close>

datatype regexp =
    RClass bool "(int \<times> int) list" \<comment> \<open>negated, ranges of runes\<close>
  | REmpty
  | RSeq regexp regexp
  | RAlt regexp regexp
  | RRep nat "nat option" regexp \<comment> \<open>least and greatest count\<close>
  | RBegin
  | REnd
  | RWord \<comment> \<open>a boundary between a word character and another\<close>

definition inClass :: "bool \<Rightarrow> (int \<times> int) list \<Rightarrow> int \<Rightarrow> bool" where
  "inClass negated ranges r = (list_ex (\<lambda>(lo, hi). lo \<le> r \<and> r \<le> hi) ranges \<noteq> negated)"

definition wordRune :: "int \<Rightarrow> bool" where
  "wordRune r = (48 \<le> r \<and> r \<le> 57 \<or> 65 \<le> r \<and> r \<le> 90 \<or> r = 95 \<or> 97 \<le> r \<and> r \<le> 122)"

definition wordAt :: "int list \<Rightarrow> nat \<Rightarrow> bool" where
  "wordAt s i = (i < length s \<and> wordRune (s ! i))"

definition wordBoundary :: "int list \<Rightarrow> nat \<Rightarrow> bool" where
  "wordBoundary s i = ((0 < i \<and> wordAt s (i - 1)) \<noteq> wordAt s i)"

fun stepsUpTo :: "(nat \<Rightarrow> nat list) \<Rightarrow> nat \<Rightarrow> nat list \<Rightarrow> nat list" where
  "stepsUpTo f 0 ps = ps"
| "stepsUpTo f (Suc k) ps = (if ps = [] then [] else remdups (ps @ stepsUpTo f k (remdups (concat (map f ps)))))"

fun stepsExactly :: "(nat \<Rightarrow> nat list) \<Rightarrow> nat \<Rightarrow> nat list \<Rightarrow> nat list" where
  "stepsExactly f 0 ps = ps"
| "stepsExactly f (Suc k) ps = stepsExactly f k (remdups (concat (map f ps)))"

primrec ends :: "int list \<Rightarrow> regexp \<Rightarrow> nat \<Rightarrow> nat list" where
  "ends s (RClass negated ranges) i = (if i < length s \<and> inClass negated ranges (s ! i) then [Suc i] else [])"
| "ends s REmpty i = [i]"
| "ends s (RSeq a b) i = remdups (concat (map (ends s b) (ends s a i)))"
| "ends s (RAlt a b) i = remdups (ends s a i @ ends s b i)"
| "ends s (RRep lo hi a) i =
     stepsUpTo (ends s a) (case hi of None \<Rightarrow> length s | Some h \<Rightarrow> h - lo) (stepsExactly (ends s a) lo [i])"
| "ends s RBegin i = (if i = 0 then [i] else [])"
| "ends s REnd i = (if i = length s then [i] else [])"
| "ends s RWord i = (if wordBoundary s i then [i] else [])"

definition textRunes :: "string \<Rightarrow> int list" where
  "textRunes text = map int (runes text)"

definition MatchString :: "regexp \<Rightarrow> string \<Rightarrow> bool" where
  "MatchString e text = (let s = textRunes text in list_ex (\<lambda>i. ends s e i \<noteq> []) [0..<Suc (length s)])"

section \<open>Building expressions\<close>

definition rangesOf :: "string \<Rightarrow> (int \<times> int) list" where
  "rangesOf cs = map (\<lambda>c. (int (byte c), int (byte c))) cs"

definition oneOf :: "(int \<times> int) list \<Rightarrow> regexp" where
  "oneOf ranges = RClass False ranges"

definition digitRange :: "(int \<times> int) list" where "digitRange = [(48, 57)]"
definition lowerRange :: "(int \<times> int) list" where "lowerRange = [(97, 122)]"
definition upperRange :: "(int \<times> int) list" where "upperRange = [(65, 90)]"
definition spaceRange :: "(int \<times> int) list" where "spaceRange = [(9, 10), (12, 13), (32, 32)]"

text \<open>Under \<open>(?i)\<close> a letter also matches its other case, \<open>s\<close> the long s and \<open>k\<close> the Kelvin sign.\<close>

definition foldRanges :: "char \<Rightarrow> (int \<times> int) list" where
  "foldRanges c =
     (let b = int (byte c); r = (if 97 \<le> b \<and> b \<le> 122 then b - 32 else b) in
      if 65 \<le> r \<and> r \<le> 90 then
        [(r, r), (r + 32, r + 32)] @ (if r = 83 then [(383, 383)] else if r = 75 then [(8490, 8490)] else [])
      else [(b, b)])"

fun rseq :: "regexp list \<Rightarrow> regexp" where
  "rseq [] = REmpty"
| "rseq [e] = e"
| "rseq (e # es) = RSeq e (rseq es)"

fun ralt :: "regexp list \<Rightarrow> regexp" where
  "ralt [] = RClass False []"
| "ralt [e] = e"
| "ralt (e # es) = RAlt e (ralt es)"

definition rlit :: "string \<Rightarrow> regexp" where
  "rlit cs = rseq (map (\<lambda>c. oneOf [(int (byte c), int (byte c))]) cs)"

definition rfold :: "string \<Rightarrow> regexp" where
  "rfold cs = rseq (map (\<lambda>c. oneOf (foldRanges c)) cs)"

definition ropt :: "regexp \<Rightarrow> regexp" where "ropt e = RRep 0 (Some 1) e"
definition rstar :: "regexp \<Rightarrow> regexp" where "rstar e = RRep 0 None e"
definition rplus :: "regexp \<Rightarrow> regexp" where "rplus e = RRep 1 None e"

definition anchored :: "regexp list \<Rightarrow> regexp" where
  "anchored es = rseq (RBegin # es @ [REnd])"

section \<open>The search computes the meaning\<close>

definition countWithin :: "nat \<Rightarrow> nat option \<Rightarrow> nat \<Rightarrow> bool" where
  "countWithin lo hi n = (lo \<le> n \<and> (case hi of None \<Rightarrow> True | Some h \<Rightarrow> n \<le> max lo h))"

primrec lang :: "int list \<Rightarrow> regexp \<Rightarrow> (nat \<times> nat) set" where
  "lang s (RClass negated ranges) = {(i, j). i < length s \<and> inClass negated ranges (s ! i) \<and> j = Suc i}"
| "lang s REmpty = Id"
| "lang s (RSeq a b) = lang s a O lang s b"
| "lang s (RAlt a b) = lang s a \<union> lang s b"
| "lang s (RRep lo hi a) = (\<Union>n\<in>{n. countWithin lo hi n}. lang s a ^^ n)"
| "lang s RBegin = {(0, 0)}"
| "lang s REnd = {(length s, length s)}"
| "lang s RWord = {(i, i) | i. wordBoundary s i}"

lemma relpow_forward:
  fixes R :: "(nat \<times> nat) set"
  assumes "\<forall>(a, b)\<in>R. P a \<longrightarrow> a \<le> b \<and> P b" and "(i, j) \<in> R ^^ n" and "P i"
  shows "i \<le> j \<and> P j"
  using assms(2,3)
proof (induction n arbitrary: i)
  case (Suc n)
  then obtain k where "(i, k) \<in> R" "(k, j) \<in> R ^^ n" by (meson relpow_Suc_D2)
  with Suc assms(1) show ?case by (metis (no_types, lifting) case_prodD le_trans)
qed simp

lemma lang_forward: "(i, j) \<in> lang s e \<Longrightarrow> i \<le> length s \<Longrightarrow> i \<le> j \<and> j \<le> length s"
proof (induction e arbitrary: i j)
  case (RSeq a b)
  then obtain k where "(i, k) \<in> lang s a" "(k, j) \<in> lang s b" by auto
  with RSeq.IH [of i k] RSeq.IH(2) [of k j] RSeq.prems(2) show ?case by auto
next
  case (RRep lo hi a)
  then obtain n where "(i, j) \<in> lang s a ^^ n" by auto
  then show ?case using relpow_forward [of "lang s a" "\<lambda>a. a \<le> length s"] RRep by blast
qed auto

text \<open>Repetitions that do not advance can be left out, so no more are needed than the text is long.\<close>

lemma relpow_bounded:
  fixes R :: "(nat \<times> nat) set"
  assumes "\<forall>(a, b)\<in>R. a \<le> N \<longrightarrow> a \<le> b \<and> b \<le> N" and "(i, j) \<in> R ^^ n" and "i \<le> N"
  shows "\<exists>m\<le>j - i. m \<le> n \<and> (i, j) \<in> R ^^ m"
  using assms(2,3)
proof (induction n arbitrary: i)
  case (Suc n)
  then obtain k where k: "(i, k) \<in> R" "(k, j) \<in> R ^^ n" by (meson relpow_Suc_D2)
  then have ik: "i \<le> k" "k \<le> N" using assms(1) Suc.prems(2) by auto
  then obtain m where m: "m \<le> j - k" "m \<le> n" "(k, j) \<in> R ^^ m" using Suc.IH k(2) by blast
  have kj: "k \<le> j" using relpow_forward [OF assms(1) k(2)] ik(2) by simp
  show ?case
  proof (cases "k = i")
    case True
    then show ?thesis using m by (meson le_SucI)
  next
    case False
    then have "Suc m \<le> j - i" "Suc m \<le> Suc n" using ik(1) kj m(1,2) by linarith+
    with relpow_Suc_I2 [OF k(1) m(3)] show ?thesis by blast
  qed
qed simp

lemma steps_set:
  assumes "\<And>p. p \<le> N \<Longrightarrow> set (f p) = R `` {p}" and "\<forall>(a, b)\<in>R. a \<le> N \<longrightarrow> a \<le> b \<and> b \<le> N"
  shows "\<forall>p\<in>set ps. p \<le> N \<Longrightarrow> set (stepsExactly f k ps) = (R ^^ k) `` set ps"
proof (induction k arbitrary: ps)
  case (Suc k)
  have "set (concat (map f ps)) = R `` set ps" using assms(1) Suc.prems by auto
  moreover have "\<forall>p\<in>R `` set ps. p \<le> N" using assms(2) Suc.prems by auto
  ultimately show ?case using Suc.IH [of "remdups (concat (map f ps))"] by (simp add: relpow_commute [symmetric] relcomp_Image)
qed simp

lemma stepsUpTo_set:
  assumes "\<And>p. p \<le> N \<Longrightarrow> set (f p) = R `` {p}" and "\<forall>(a, b)\<in>R. a \<le> N \<longrightarrow> a \<le> b \<and> b \<le> N"
  shows "\<forall>p\<in>set ps. p \<le> N \<Longrightarrow> set (stepsUpTo f k ps) = (\<Union>m\<in>{..k}. (R ^^ m) `` set ps)"
proof (induction k arbitrary: ps)
  case (Suc k)
  have c: "set (concat (map f ps)) = R `` set ps" using assms(1) Suc.prems by auto
  moreover have "\<forall>p\<in>R `` set ps. p \<le> N" using assms(2) Suc.prems by auto
  ultimately have "set (stepsUpTo f k (remdups (concat (map f ps)))) = (\<Union>m\<in>{..k}. (R ^^ Suc m) `` set ps)"
    using Suc.IH [of "remdups (concat (map f ps))"] by (simp add: relpow_commute [symmetric] relcomp_Image)
  moreover have "(\<Union>m\<in>{..Suc k}. (R ^^ m) `` set ps) = set ps \<union> (\<Union>m\<in>{..k}. (R ^^ Suc m) `` set ps)"
    by (simp only: atMost_Suc_eq_insert_0 UN_insert image_image) simp
  ultimately show ?case by (cases "ps = []") auto
qed simp

lemma ends_lang: "i \<le> length s \<Longrightarrow> set (ends s e i) = lang s e `` {i}"
proof (induction e arbitrary: i)
  case (RSeq a b)
  have "\<forall>p\<in>lang s a `` {i}. p \<le> length s" using lang_forward RSeq.prems by blast
  then show ?case using RSeq by auto
next
  case (RRep lo hi a)
  have fwd: "\<forall>(x, y)\<in>lang s a. x \<le> length s \<longrightarrow> x \<le> y \<and> y \<le> length s" using lang_forward by blast
  have first: "set (stepsExactly (ends s a) lo [i]) = (lang s a ^^ lo) `` {i}"
    using steps_set [OF RRep.IH fwd, of "[i]"] RRep.prems by simp
  have le: "\<forall>p\<in>set (stepsExactly (ends s a) lo [i]). p \<le> length s"
    unfolding first using relpow_forward [OF fwd] RRep.prems by blast
  note all = stepsUpTo_set [OF RRep.IH fwd le]
  show ?case
  proof (cases hi)
    case None
    have "(\<Union>m\<in>{..length s}. (lang s a ^^ m) `` ((lang s a ^^ lo) `` {i})) = lang s (RRep lo hi a) `` {i}"
    proof (intro equalityI subsetI)
      fix j assume "j \<in> lang s (RRep lo hi a) `` {i}"
      then obtain n where n: "lo \<le> n" "(i, j) \<in> lang s a ^^ n" by (auto simp: countWithin_def)
      then obtain k where k: "(i, k) \<in> lang s a ^^ lo" "(k, j) \<in> lang s a ^^ (n - lo)"
        by (metis le_add_diff_inverse relcompEpair relpow_add)
      have "k \<le> length s" "j \<le> length s" using relpow_forward [OF fwd] k n(2) RRep.prems by blast+
      with relpow_bounded [OF fwd k(2)] obtain m where "m \<le> length s" "(k, j) \<in> lang s a ^^ m" by (meson diff_le_self le_trans)
      with k(1) show "j \<in> (\<Union>m\<in>{..length s}. (lang s a ^^ m) `` ((lang s a ^^ lo) `` {i}))" by auto
    next
      fix j assume "j \<in> (\<Union>m\<in>{..length s}. (lang s a ^^ m) `` ((lang s a ^^ lo) `` {i}))"
      then obtain m where "(i, j) \<in> lang s a ^^ (lo + m)" by (auto simp: relpow_add)
      then show "j \<in> lang s (RRep lo hi a) `` {i}" by (auto simp: None countWithin_def intro!: exI [of _ "lo + m"])
    qed
    then show ?thesis using all first None by simp
  next
    case (Some h)
    have "(\<Union>m\<in>{..h - lo}. (lang s a ^^ m) `` ((lang s a ^^ lo) `` {i})) = lang s (RRep lo hi a) `` {i}"
    proof (intro equalityI subsetI)
      fix j assume "j \<in> lang s (RRep lo hi a) `` {i}"
      then obtain n where n: "lo \<le> n" "n \<le> max lo h" "(i, j) \<in> lang s a ^^ n" by (auto simp: countWithin_def Some)
      then obtain k where "(i, k) \<in> lang s a ^^ lo" "(k, j) \<in> lang s a ^^ (n - lo)"
        by (metis le_add_diff_inverse relcompEpair relpow_add)
      moreover have "n - lo \<le> h - lo" using n(1,2) by (auto simp: max_def split: if_splits)
      ultimately show "j \<in> (\<Union>m\<in>{..h - lo}. (lang s a ^^ m) `` ((lang s a ^^ lo) `` {i}))" by auto
    next
      fix j assume "j \<in> (\<Union>m\<in>{..h - lo}. (lang s a ^^ m) `` ((lang s a ^^ lo) `` {i}))"
      then obtain m where "m \<le> h - lo" "(i, j) \<in> lang s a ^^ (lo + m)" by (auto simp: relpow_add)
      then show "j \<in> lang s (RRep lo hi a) `` {i}" by (auto simp: Some countWithin_def max_def intro!: exI [of _ "lo + m"])
    qed
    then show ?thesis using all first Some by simp
  qed
qed auto

lemma MatchString_iff: "MatchString e text \<longleftrightarrow> (\<exists>i j. i \<le> length (textRunes text) \<and> (i, j) \<in> lang (textRunes text) e)"
proof -
  have "ends (textRunes text) e i \<noteq> [] \<longleftrightarrow> (\<exists>j. (i, j) \<in> lang (textRunes text) e)" if "i \<le> length (textRunes text)" for i
    using ends_lang [OF that, of e] by (metis Image_singleton_iff empty_iff equals0I list.set(1) set_empty)
  moreover have "MatchString e text \<longleftrightarrow> (\<exists>i\<le>length (textRunes text). ends (textRunes text) e i \<noteq> [])"
    by (simp only: MatchString_def Let_def list_ex_iff set_upt atLeastLessThan_iff Bex_def less_Suc_eq_le le0 simp_thms)
  ultimately show ?thesis by blast
qed

section \<open>The runes of a match\<close>

primrec classesIn :: "(int \<Rightarrow> bool) \<Rightarrow> regexp \<Rightarrow> bool" where
  "classesIn P (RClass negated ranges) \<longleftrightarrow> (\<forall>r. inClass negated ranges r \<longrightarrow> P r)"
| "classesIn P REmpty \<longleftrightarrow> True"
| "classesIn P (RSeq a b) \<longleftrightarrow> classesIn P a \<and> classesIn P b"
| "classesIn P (RAlt a b) \<longleftrightarrow> classesIn P a \<and> classesIn P b"
| "classesIn P (RRep lo hi a) \<longleftrightarrow> classesIn P a"
| "classesIn P RBegin \<longleftrightarrow> True"
| "classesIn P REnd \<longleftrightarrow> True"
| "classesIn P RWord \<longleftrightarrow> True"

lemma relpow_runes:
  fixes R :: "(nat \<times> nat) set"
  assumes "\<forall>(a, b)\<in>R. \<forall>k. a \<le> k \<and> k < b \<longrightarrow> Q k" and "(i, j) \<in> R ^^ n" and "i \<le> k" and "k < j"
  shows "Q k"
  using assms(2,3)
proof (induction n arbitrary: i)
  case 0
  then show ?case using assms(4) by simp
next
  case (Suc n)
  then obtain m where m: "(i, m) \<in> R" "(m, j) \<in> R ^^ n" by (meson relpow_Suc_D2)
  show ?case
  proof (cases "k < m")
    case True
    then show ?thesis using assms(1) m(1) Suc.prems(2) by blast
  next
    case False
    then show ?thesis using Suc.IH [OF m(2)] by simp
  qed
qed

lemma lang_runes: "classesIn P e \<Longrightarrow> (i, j) \<in> lang s e \<Longrightarrow> i \<le> k \<Longrightarrow> k < j \<Longrightarrow> P (s ! k)"
proof (induction e arbitrary: i j k)
  case (RClass negated ranges)
  then have "k = i" by auto
  then show ?case using RClass by auto
next
  case (RSeq a b)
  then obtain m where m: "(i, m) \<in> lang s a" "(m, j) \<in> lang s b" by auto
  show ?case
  proof (cases "k < m")
    case True
    then show ?thesis using RSeq.IH(1) [OF _ m(1)] RSeq.prems by simp
  next
    case False
    then show ?thesis using RSeq.IH(2) [OF _ m(2)] RSeq.prems by simp
  qed
next
  case (RRep lo hi a)
  have hyp: "\<And>i j k. (i, j) \<in> lang s a \<Longrightarrow> i \<le> k \<Longrightarrow> k < j \<Longrightarrow> P (s ! k)" using RRep.IH RRep.prems(1) by simp
  obtain n where n: "(i, j) \<in> lang s a ^^ n" using RRep.prems(2) by auto
  have "\<forall>(x, y)\<in>lang s a. \<forall>k. x \<le> k \<and> k < y \<longrightarrow> P (s ! k)" using hyp by blast
  from relpow_runes [OF this n RRep.prems(3,4)] show ?case .
qed auto

lemma lang_rseq_append: "lang s (rseq (xs @ ys)) = lang s (rseq xs) O lang s (rseq ys)"
proof (induction xs rule: rseq.induct)
  case (2 e)
  then show ?case by (cases ys) auto
next
  case (3 e v va)
  then show ?case by (simp add: O_assoc)
qed auto

lemma lang_rseq_Cons: "lang s (rseq (x # ys)) = lang s x O lang s (rseq ys)"
  using lang_rseq_append [of s "[x]" ys] by simp

text \<open>A text that matches from its begin to its end consists of runes of the expression's classes.\<close>

lemma MatchString_anchored:
  assumes "MatchString (anchored es) text" and "list_all (classesIn P) es"
  shows "list_all P (textRunes text)"
proof -
  let ?s = "textRunes text"
  obtain i j where "(i, j) \<in> lang ?s (anchored es)" using assms(1) by (auto simp: MatchString_iff)
  then have m: "(0, length ?s) \<in> lang ?s (rseq es)"
    unfolding anchored_def lang_rseq_Cons lang_rseq_append by auto
  have "list_all (classesIn P) xs \<Longrightarrow> classesIn P (rseq xs)" for xs by (induction xs rule: rseq.induct) auto
  from lang_runes [OF this [OF assms(2)] m] show ?thesis by (simp add: list_all_length)
qed

primrec maxWidth :: "regexp \<Rightarrow> nat option" where
  "maxWidth (RClass negated ranges) = Some 1"
| "maxWidth REmpty = Some 0"
| "maxWidth (RSeq a b) = Option.bind (maxWidth a) (\<lambda>x. map_option ((+) x) (maxWidth b))"
| "maxWidth (RAlt a b) = Option.bind (maxWidth a) (\<lambda>x. map_option (max x) (maxWidth b))"
| "maxWidth (RRep lo hi a) = Option.bind hi (\<lambda>h. map_option ((*) (max lo h)) (maxWidth a))"
| "maxWidth RBegin = Some 0"
| "maxWidth REnd = Some 0"
| "maxWidth RWord = Some 0"

lemma relpow_width:
  fixes R :: "(nat \<times> nat) set"
  assumes "\<forall>(a, b)\<in>R. b \<le> a + w" and "(i, j) \<in> R ^^ n"
  shows "j \<le> i + n * w"
  using assms(2)
proof (induction n arbitrary: i)
  case (Suc n)
  then obtain m where m: "(i, m) \<in> R" "(m, j) \<in> R ^^ n" by (meson relpow_Suc_D2)
  have "m \<le> i + w" using assms(1) m(1) by blast
  with Suc.IH [OF m(2)] show ?case by simp
qed simp

lemma lang_width: "(i, j) \<in> lang s e \<Longrightarrow> maxWidth e = Some w \<Longrightarrow> j \<le> i + w"
proof (induction e arbitrary: i j w)
  case (RSeq a b)
  then show ?case by (fastforce simp: bind_eq_Some_conv)
next
  case (RAlt a b)
  then obtain x y where "maxWidth a = Some x" "maxWidth b = Some y" "w = max x y" by (auto simp: bind_eq_Some_conv)
  then show ?case using RAlt.IH(1) [of i j x] RAlt.IH(2) [of i j y] RAlt.prems(1) by auto
next
  case (RRep lo hi a)
  then obtain h x where h: "hi = Some h" "maxWidth a = Some x" "w = max lo h * x" by (auto simp: bind_eq_Some_conv)
  obtain n where n: "n \<le> max lo h" "(i, j) \<in> lang s a ^^ n" using RRep.prems(1) by (auto simp: h(1) countWithin_def)
  have "\<forall>(a', b')\<in>lang s a. b' \<le> a' + x" using RRep.IH h(2) by blast
  from relpow_width [OF this n(2)] have "j \<le> i + n * x" .
  also have "n * x \<le> w" unfolding h(3) using n(1) by (rule mult_le_mono1)
  finally show ?case by simp
qed auto

lemma MatchString_width:
  assumes "MatchString (anchored es) text" and "maxWidth (rseq es) = Some w"
  shows "length (textRunes text) \<le> w"
proof -
  obtain i j where "(i, j) \<in> lang (textRunes text) (anchored es)" using assms(1) by (auto simp: MatchString_iff)
  then have "(0, length (textRunes text)) \<in> lang (textRunes text) (rseq es)"
    unfolding anchored_def lang_rseq_Cons lang_rseq_append by auto
  from lang_width [OF this assms(2)] show ?thesis by simp
qed

end
