(* ===== verification/CandidatePatterns.thy ===== *)
theory CandidatePatterns
  imports GoRegexp GoTime CncfPack
begin

text \<open>
  The patterns and scalar checks of \<open>validation/contracts.go\<close>: its compiled regular expressions written
  as terms of \<open>GoRegexp\<close>, the texts an explanation may hold, observed versions, evidence paths, and
  what the package observes of \<open>net/url\<close> and of \<open>time.Parse\<close>.
\<close>

section \<open>Bounds\<close>

definition APIVersion :: string where "APIVersion = ''prufyx.io/validation/v1alpha1''"
definition ReportKind :: string where "ReportKind = ''ChangeValidationReport''"
definition SchemaVersion :: string where "SchemaVersion = ''1.0.0''"
definition MaxReportComponents :: nat where "MaxReportComponents = 10000"
definition MaxStringBytes :: nat where "MaxStringBytes = 4096"
definition MaxSourceEvidenceLine :: int where "MaxSourceEvidenceLine = 1000000"
definition CandidateReportStatus :: string where "CandidateReportStatus = ''CANDIDATE_ONLY''"
definition maxReportListItems :: nat where "maxReportListItems = 1024"
definition EvaluatorVersion :: string where "EvaluatorVersion = ''candidate-evaluator-v1''"

section \<open>Patterns\<close>

definition lowerAlnum :: "(int \<times> int) list" where "lowerAlnum = lowerRange @ digitRange"

definition digestRegex :: regexp where
  "digestRegex = anchored [rlit ''sha256:'', RRep 64 (Some 64) (oneOf (digitRange @ [(97, 102)]))]"

definition componentRegex :: regexp where
  "componentRegex = anchored [rlit ''pkg:'', oneOf lowerAlnum, RRep 2 (Some 255) (oneOf (lowerAlnum @ rangesOf ''+._/-''))]"

definition numeralExp :: regexp where
  "numeralExp = ralt [rlit ''0'', RSeq (oneOf [(49, 57)]) (rstar (oneOf digitRange))]"

definition coreVersionExp :: regexp where
  "coreVersionExp = rseq [numeralExp, rlit ''.'', numeralExp, rlit ''.'', numeralExp]"

definition versionRegex :: regexp where
  "versionRegex = anchored [coreVersionExp]"

definition identifiersExp :: regexp where
  "identifiersExp =
     (let identifier = rplus (oneOf (digitRange @ upperRange @ lowerRange @ rangesOf ''-''))
      in RSeq identifier (rstar (RSeq (rlit ''.'') identifier)))"

definition observedVersionRegex :: regexp where
  "observedVersionRegex =
     anchored [coreVersionExp, ropt (RSeq (rlit ''-'') identifiersExp), ropt (RSeq (rlit ''+'') identifiersExp)]"

definition idRegex :: regexp where
  "idRegex = anchored [oneOf lowerAlnum, RRep 0 (Some 127) (oneOf (lowerAlnum @ rangesOf ''._-''))]"

definition reasonRegex :: regexp where
  "reasonRegex = anchored [oneOf lowerAlnum, RRep 0 (Some 127) (oneOf (lowerAlnum @ rangesOf ''_.-''))]"

definition commitRegex :: regexp where
  "commitRegex = anchored [RRep 40 (Some 40) (oneOf (digitRange @ [(97, 102)]))]"

definition checkpointRegex :: regexp where
  "checkpointRegex =
     anchored [rlit ''github-release-checkpoint:'', RRep 4 (Some 4) (oneOf digitRange), rlit ''-'',
               RRep 2 (Some 2) (oneOf digitRange), rlit ''-'', RRep 2 (Some 2) (oneOf digitRange)]"

definition evidenceGapRegex :: regexp where
  "evidenceGapRegex = anchored [oneOf upperRange, RRep 2 (Some 127) (oneOf (upperRange @ digitRange @ rangesOf ''_.-''))]"

definition credentialPattern :: regexp where
  "credentialPattern =
     rseq [ralt [rfold ''password'', rfold ''passwd'', rfold ''secret'', rfold ''token'', rfold ''bearer'',
                 rfold ''authorization'', rfold ''credential'',
                 rseq [rfold ''api'', ropt (oneOf (rangesOf ''_-'')), rfold ''key'']],
           rstar (oneOf spaceRange), oneOf (rangesOf '':='')]"

definition privateEndpointPattern :: regexp where
  "privateEndpointPattern =
     ralt [rfold ''localhost'', rlit ''127.0.0.1'', rlit ''::1'', RSeq (rfold ''.internal'') RWord,
           RSeq (rfold ''.local'') RWord, RSeq (rfold ''.invalid'') RWord]"

definition privateIPv4Pattern :: regexp where
  "privateIPv4Pattern =
     rseq [RWord,
           ralt [rlit ''10'', rlit ''192.168'',
                 RSeq (rlit ''172.'') (ralt [RSeq (rlit ''1'') (oneOf [(54, 57)]), RSeq (rlit ''2'') (oneOf digitRange),
                                             RSeq (rlit ''3'') (oneOf [(48, 49)])])],
           RRep 2 (Some 2) (RSeq (rlit ''.'') (RRep 1 (Some 3) (oneOf digitRange))), RWord]"

definition absolutePathPattern :: regexp where
  "absolutePathPattern =
     rseq [RAlt RBegin (oneOf (spaceRange @ rangesOf ''('')), rlit ''/'', rplus (RClass True (spaceRange @ rangesOf ''/'')),
           ropt (RSeq (rlit ''/'') (rstar (RClass True spaceRange)))]"

definition windowsPathPattern :: regexp where
  "windowsPathPattern =
     rseq [RWord, oneOf (upperRange @ lowerRange @ [(383, 383), (8490, 8490)]), rlit '':'', oneOf (rangesOf [CHR 0x5C, CHR ''/''])]"

section \<open>Scalars\<close>

definition boundedID :: "string \<Rightarrow> bool" where
  "boundedID value = (MatchString idRegex value \<and> length value \<le> MaxStringBytes)"

definition boundedString :: "string \<Rightarrow> bool" where
  "boundedString value = (value \<noteq> [] \<and> length value \<le> MaxStringBytes \<and> CHR 0x00 \<notin> set value)"

definition boundedCheckpoint :: "string \<Rightarrow> bool" where
  "boundedCheckpoint value = (value \<noteq> [] \<and> length value \<le> MaxStringBytes \<and> MatchString checkpointRegex value)"

definition allDigits :: "string \<Rightarrow> bool" where
  "allDigits value = (value \<noteq> [] \<and> list_all (\<lambda>r. 48 \<le> r \<and> r \<le> 57) (runes value))"

definition validObservedVersion :: "string \<Rightarrow> bool" where
  "validObservedVersion value =
     (if MaxStringBytes < length value \<or> \<not> MatchString observedVersionRegex value then False
      else (let (core, _, _) = cutAt (CHR ''+'') value; (_, release, found) = cutAt (CHR ''-'') core in
            if \<not> found then True
            else list_all (\<lambda>identifier. \<not> (identifier = [] \<or>
                   (allDigits identifier \<and> 1 < length identifier \<and> hd identifier = CHR ''0''))) (splitOn (CHR ''.'') release)))"

fun containsText :: "string \<Rightarrow> string \<Rightarrow> bool" where
  "containsText [] part = (part = [])"
| "containsText (c # cs) part = (hasPrefix (c # cs) part \<or> containsText cs part)"

definition safeExplanationText :: "string \<Rightarrow> bool" where
  "safeExplanationText value =
     (if value = [] \<or> MaxStringBytes < length value \<or> \<not> utf8Valid value then False
      else if containsText value ''://'' \<or> MatchString absolutePathPattern value \<or> MatchString windowsPathPattern value \<or>
              MatchString credentialPattern value \<or> MatchString privateEndpointPattern value \<or> MatchString privateIPv4Pattern value
           then False
      else list_all (\<lambda>r. \<not> isControl r) (runes value))"

definition validGitHubBlobEvidencePath :: "string \<Rightarrow> bool" where
  "validGitHubBlobEvidencePath path =
     (if path = [] \<or> \<not> hasPrefix path ''/'' \<or> last path = CHR ''/'' \<or> CHR 0x5C \<in> set path then False
      else (let parts = splitOn (CHR ''/'') (trimPrefix path ''/'') in
            if length parts < 5 \<or> parts ! 0 = [] \<or> parts ! 1 = [] \<or> parts ! 0 = ''.'' \<or> parts ! 0 = ''..'' \<or>
               parts ! 1 = ''.'' \<or> parts ! 1 = ''..'' \<or> parts ! 2 \<noteq> ''blob'' \<or> \<not> MatchString commitRegex (parts ! 3) then False
            else list_all (\<lambda>part. \<not> (part = [] \<or> part = ''.'' \<or> part = ''..'' \<or> CHR 0x5C \<in> set part)) (drop 4 parts)))"

section \<open>URLs and times\<close>

text \<open>
  \<open>url.ParseRequestURI\<close> as far as \<open>canonicalURLs\<close> reads it: as for \<open>httpsRepository\<close>, but no fragment is cut
  off and the host name before the port is not empty.
\<close>

definition httpsRequestURI :: "string \<Rightarrow> bool" where
  "httpsRequestURI url =
     (let (scheme, rest) = getScheme url;
          (rest', _, _) = cutAt (CHR ''?'') rest;
          authority = takeWhile (\<lambda>c. c \<noteq> CHR ''/'') (drop 2 rest');
          (hostname, port, colon) = cutAt (CHR '':'') authority
      in list_all (\<lambda>c. 32 \<le> byte c \<and> byte c \<noteq> 127) url \<and> lowerASCII scheme = ''https'' \<and> hasPrefix rest' ''//'' \<and>
         hostname \<noteq> [] \<and> CHR ''@'' \<notin> set authority \<and> (colon \<longrightarrow> list_all isDigit port) \<and> hostOK authority \<and>
         percentOK (drop (2 + length authority) rest'))"

text \<open>The path of a URL and its default encoding; \<open>RawPath\<close> is empty when the two agree.\<close>

fun urlUnescape :: "string \<Rightarrow> string option" where
  "urlUnescape [] = Some []"
| "urlUnescape (c # cs) =
     (if c = CHR ''%'' then
        (case cs of
           a # b # rest \<Rightarrow>
             (case (hexVal a, hexVal b) of
                (Some x, Some y) \<Rightarrow> map_option ((#) (char_of (16 * x + y))) (urlUnescape rest)
              | _ \<Rightarrow> None)
         | _ \<Rightarrow> None)
      else map_option ((#) c) (urlUnescape cs))"

definition upperHex :: "nat \<Rightarrow> char" where
  "upperHex n = (if n < 10 then char_of (48 + n) else char_of (55 + n))"

definition urlEscapePath :: "string \<Rightarrow> string" where
  "urlEscapePath path = concat (map (\<lambda>c.
     if isAlnum c \<or> c \<in> set ''-_.~$&+,/:;=@'' then [c]
     else [CHR ''%'', upperHex (byte c div 16), upperHex (byte c mod 16)]) path)"

definition evidencePath :: "string \<Rightarrow> string option" where
  "evidencePath url =
     (if \<not> list_all (\<lambda>c. 32 \<le> byte c \<and> byte c \<noteq> 127) url then None
      else (case urlHostPath url of
              None \<Rightarrow> None
            | Some (host, p) \<Rightarrow>
                if host \<noteq> ''github.com'' then None
                else (case urlUnescape p of None \<Rightarrow> None | Some path \<Rightarrow> if urlEscapePath path = p then Some path else None)))"

text \<open>
  Whether \<open>time.Parse(time.RFC3339, value)\<close> succeeds. Besides the canonical texts it takes an hour of
  one digit, a fraction after a period or a comma, and a numeric zone of up to 24 hours and 60 minutes.
\<close>

definition getnum :: "bool \<Rightarrow> string \<Rightarrow> (nat \<times> string) option" where
  "getnum fixed s =
     (case s of
        a # b # rest \<Rightarrow> if \<not> isDigit a then None
                     else if isDigit b then Some (num2 a b, rest) else if fixed then None else Some (digitVal a, b # rest)
      | [a] \<Rightarrow> if isDigit a \<and> \<not> fixed then Some (digitVal a, []) else None
      | [] \<Rightarrow> None)"

definition skipByte :: "char \<Rightarrow> string \<Rightarrow> string option" where
  "skipByte c s = (case s of [] \<Rightarrow> None | x # xs \<Rightarrow> if x = c then Some xs else None)"

definition skipFraction :: "string \<Rightarrow> string" where
  "skipFraction s =
     (case s of a # b # rest \<Rightarrow> if a \<in> set ''.,'' \<and> isDigit b then dropWhile isDigit rest else s | _ \<Rightarrow> s)"

definition zoneParses :: "string \<Rightarrow> bool" where
  "zoneParses s =
     (s = ''Z'' \<or>
      (case s of
         [sign, a, b, colon, c, d] \<Rightarrow> sign \<in> set ''+-'' \<and> colon = CHR '':'' \<and> list_all isDigit [a, b, c, d] \<and>
                                     num2 a b \<le> 24 \<and> num2 c d \<le> 60
       | _ \<Rightarrow> False))"

definition timeParses :: "string \<Rightarrow> bool" where
  "timeParses s =
     (length s \<ge> 4 \<and> list_all isDigit (take 4 s) \<and>
      (case Option.bind (skipByte (CHR ''-'') (drop 4 s)) (\<lambda>s.
            Option.bind (getnum True s) (\<lambda>(month, s).
            Option.bind (skipByte (CHR ''-'') s) (\<lambda>s.
            Option.bind (getnum True s) (\<lambda>(day, s).
            Option.bind (skipByte (CHR ''T'') s) (\<lambda>s.
            Option.bind (getnum False s) (\<lambda>(hour, s).
            Option.bind (skipByte (CHR '':'') s) (\<lambda>s.
            Option.bind (getnum True s) (\<lambda>(minute, s).
            Option.bind (skipByte (CHR '':'') s) (\<lambda>s.
            Option.bind (getnum True s) (\<lambda>(second, s). Some (month, day, hour, minute, second, s))))))))))) of
         None \<Rightarrow> False
       | Some (month, day, hour, minute, second, s') \<Rightarrow>
           1 \<le> month \<and> month \<le> 12 \<and> 1 \<le> day \<and> day \<le> daysIn month (int (decVal (take 4 s))) \<and> hour < 24 \<and> minute < 60 \<and>
           second < 60 \<and> zoneParses (skipFraction s')))"

lemma timeParses_canonical:
  assumes "parseRFC3339 s = Some t"
  shows "timeParses s"
proof -
  obtain y1 y2 y3 y4 m1 m2 a1 a2 h1 h2 n1 n2 s1 s2 where
    s: "s = [y1, y2, y3, y4, CHR ''-'', m1, m2, CHR ''-'', a1, a2, CHR ''T'', h1, h2, CHR '':'', n1, n2, CHR '':'', s1, s2, CHR ''Z'']"
    and d: "list_all isDigit [y1, y2, y3, y4, m1, m2, a1, a2, h1, h2, n1, n2, s1, s2]"
    and b: "1 \<le> num2 m1 m2" "num2 m1 m2 \<le> 12" "1 \<le> num2 a1 a2" "num2 a1 a2 \<le> daysIn (num2 m1 m2) (int (num2 y1 y2 * 100 + num2 y3 y4))"
      "num2 h1 h2 < 24" "num2 n1 n2 < 60" "num2 s1 s2 < 60"
    using assms by (auto simp: parseRFC3339_def Let_def split: list.splits if_splits)
  have "decVal (take 4 s) = num2 y1 y2 * 100 + num2 y3 y4" by (simp add: s decVal_def num2_def)
  then show ?thesis using d b unfolding timeParses_def
    by (simp add: s getnum_def skipByte_def skipFraction_def zoneParses_def)
qed

end
