(* ===== verification/Candidate.thy ===== *)
theory Candidate
  imports CandidatePatterns Decision "HOL-Library.Product_Lexorder"
begin

text \<open>
  Candidate reports of \<open>validation/contracts.go\<close>: the report types, the canonical order of their lists,
  \<open>validateCandidateReport\<close>, \<open>CanonicalCandidateReport\<close> and the contents of the files that
  \<open>WriteCandidateReport\<close> and \<open>WriteIncompleteReport\<close> hand to the file system.

  The code rewrites the lists of the report it is given; the definitions return the rewritten value. A
  slice that keeps its nil is an option of a list. The map of evidence gaps is a list of its entries; it
  is printed in the order of its keys. An error is the sentinel it wraps.

  Shown here: what a canonical report guarantees (\<open>canonicalReport_guarantees\<close>), and that making a
  canonical report canonical again changes nothing (\<open>canonicalReport_idempotent\<close>).
\<close>

section \<open>Reports\<close>

datatype validationError = VInvalid | VIntegrity

type_synonym 'a checked = "validationError + 'a"

record TruthLabels =
  tl_CandidateOnly :: bool
  tl_ModelUsed :: bool
  tl_NetworkUsed :: bool
  tl_ClusterOperationUsed :: bool
  tl_ClusterUsed :: bool

record NamedDigest =
  nd_Name :: string
  nd_Digest :: string

record InputDigests =
  ig_ObservationProjection :: string
  ig_ProposedBundle :: string
  ig_PolicyReference :: string
  ig_PolicyPin :: string
  ig_KnowledgeIndex :: string
  ig_KnowledgeSources :: string
  ig_KnowledgePacks :: "NamedDigest list option"

record CurrentSummary =
  cu_KubernetesVersion :: string
  cu_ComponentCount :: int

record RequirementDetail =
  rq_Code :: string
  rq_Reason :: string
  rq_NextAction :: string

record ReportSource =
  sx_SourceID :: string
  sx_URL :: string
  sx_ContentDigest :: string
  sx_StartLine :: int
  sx_EndLine :: int

record CandidateComponentReport =
  cc_ComponentID :: string
  cc_CurrentVersion :: string
  cc_TargetVersion :: string
  cc_AlreadyCurrent :: bool
  cc_RetainedCurrent :: bool
  cc_ObservedPredicateIDs :: "string list option"
  cc_MissingRequirements :: "string list"
  cc_ReleaseCheckpoint :: string
  cc_SourceURLs :: "string list option"
  cc_SourceDigests :: "string list option"
  cc_RequirementDetails :: "RequirementDetail list option"
  cc_SourceEvidence :: "ReportSource list option"
  cc_EvidenceGaps :: "string list"
  cc_EvidenceState :: string
  cc_Decision :: string

record CandidateReport =
  ct_APIVersion :: string
  ct_Kind :: string
  ct_SchemaVersion :: string
  ct_Status :: string
  ct_Decision :: string
  ct_ReasonCode :: string
  ct_Now :: string
  ct_Current :: CurrentSummary
  ct_Components :: "CandidateComponentReport list"
  ct_MissingRequirements :: "string list"
  ct_GlobalEvidenceGaps :: "string list"
  ct_ComponentEvidenceGaps :: "(string \<times> string list) list"
  ct_KnowledgeRevision :: string
  ct_ReleaseCheckpoint :: string
  ct_Inputs :: InputDigests
  ct_Truth :: TruthLabels

section \<open>Results\<close>

definition failWhen :: "bool \<Rightarrow> validationError \<Rightarrow> 'a checked \<Rightarrow> 'a checked" where
  "failWhen c e r = (if c then Inl e else r)"

definition onOk :: "'a checked \<Rightarrow> ('a \<Rightarrow> 'b checked) \<Rightarrow> 'b checked" where
  "onOk r f = (case r of Inl e \<Rightarrow> Inl e | Inr x \<Rightarrow> f x)"

lemma failWhen_Inr [simp]: "failWhen c e r = Inr x \<longleftrightarrow> \<not> c \<and> r = Inr x"
  by (simp add: failWhen_def)

lemma onOk_Inr [simp]: "onOk r f = Inr y \<longleftrightarrow> (\<exists>x. r = Inr x \<and> f x = Inr y)"
  by (auto simp: onOk_def split: sum.splits)

section \<open>Canonical lists\<close>

definition canonicalCodes :: "string list \<Rightarrow> string list checked" where
  "canonicalCodes values' =
     failWhen (maxReportListItems < length values') VInvalid
    (failWhen (\<not> list_all (\<lambda>value. length value \<le> MaxStringBytes \<and> MatchString evidenceGapRegex value) values') VInvalid
       (Inr (sort (remdups values'))))"

definition canonicalEvidenceGaps :: "string list \<Rightarrow> string list checked" where
  "canonicalEvidenceGaps values' = canonicalCodes values'"

text \<open>The lists whose elements must be distinct: each element passes \<open>ok\<close>, and the list is sorted by \<open>key\<close>.\<close>

definition sortDistinct :: "('a \<Rightarrow> 'k::linorder) \<Rightarrow> ('a \<Rightarrow> bool) \<Rightarrow> 'a list option \<Rightarrow> 'a list option checked" where
  "sortDistinct key ok values' =
     failWhen (maxReportListItems < length (goSlice values')) VInvalid
    (failWhen (\<not> list_all ok (goSlice values') \<or> \<not> distinct (map key (goSlice values'))) VInvalid
       (Inr (map_option (sort_key key) values')))"

definition canonicalIDs :: "string list option \<Rightarrow> string list option checked" where
  "canonicalIDs = sortDistinct id (\<lambda>value. boundedString value \<and> MatchString idRegex value)"

definition canonicalURLs :: "string list option \<Rightarrow> string list option checked" where
  "canonicalURLs = sortDistinct id (\<lambda>value. length value \<le> MaxStringBytes \<and> httpsRequestURI value)"

definition canonicalDigests :: "string list option \<Rightarrow> string list option checked" where
  "canonicalDigests = sortDistinct id (MatchString digestRegex)"

definition validEvidence :: "ReportSource \<Rightarrow> bool" where
  "validEvidence evidence =
     (\<not> (sx_SourceID evidence = [] \<or> MaxStringBytes < length (sx_SourceID evidence) \<or> \<not> MatchString idRegex (sx_SourceID evidence) \<or>
         sx_URL evidence = [] \<or> MaxStringBytes < length (sx_URL evidence) \<or> MaxStringBytes < length (sx_ContentDigest evidence) \<or>
         \<not> MatchString digestRegex (sx_ContentDigest evidence) \<or> sx_StartLine evidence < 1 \<or>
         sx_EndLine evidence < sx_StartLine evidence \<or> MaxSourceEvidenceLine < sx_EndLine evidence) \<and>
      (case evidencePath (sx_URL evidence) of None \<Rightarrow> False | Some path \<Rightarrow> validGitHubBlobEvidencePath path))"

definition canonicalSourceEvidence :: "ReportSource list option \<Rightarrow> bool \<Rightarrow> ReportSource list option checked" where
  "canonicalSourceEvidence values' allowEmpty =
     failWhen (goSlice values' = [] \<and> \<not> allowEmpty) VInvalid (sortDistinct sx_SourceID validEvidence values')"

fun requirementDetailsLoop :: "string list \<Rightarrow> string list \<Rightarrow> RequirementDetail list \<Rightarrow> validationError option" where
  "requirementDetailsLoop missing seen [] = None"
| "requirementDetailsLoop missing seen (detail # details) =
     (if \<not> MatchString evidenceGapRegex (rq_Code detail) \<or> MaxStringBytes < length (rq_Code detail) \<or>
         \<not> safeExplanationText (rq_Reason detail) \<or> \<not> safeExplanationText (rq_NextAction detail) then Some VInvalid
      else if rq_Code detail \<notin> set missing then Some VIntegrity
      else if rq_Code detail \<in> set seen then Some VInvalid
      else requirementDetailsLoop missing (rq_Code detail # seen) details)"

definition canonicalRequirementDetails :: "RequirementDetail list option \<Rightarrow> string list \<Rightarrow> RequirementDetail list option checked" where
  "canonicalRequirementDetails values' missing =
     failWhen (maxReportListItems < length (goSlice values') \<or> length (goSlice values') \<noteq> length missing) VInvalid
       (case requirementDetailsLoop missing [] (goSlice values') of
          Some e \<Rightarrow> Inl e
        | None \<Rightarrow> Inr (map_option (sort_key (\<lambda>d. (rq_Code d, rq_Reason d, rq_NextAction d))) values'))"

section \<open>Validation\<close>

definition plannerUnknownRequirementCodes :: "string list" where
  "plannerUnknownRequirementCodes =
     [''IDENTITY_UNRESOLVED'', ''IDENTITY_AMBIGUOUS'', ''CURRENT_SCOPE_UNKNOWN'', ''TARGET_UNSUPPORTED'', ''TARGET_AMBIGUOUS'',
      ''RECEIPT_MISSING'', ''NO_ACTIVE_RECEIPT'', ''RECEIPT_STALE_OR_REVOKED'', ''RECEIPT_NOT_ACTIVE'',
      ''CONFIGURATION_INCOMPLETE'', ''CURRENT_VERSION_UNVERSIONED'', ''ROLLBACK_NOT_SUPPORTED'']"

definition plannerUnknownProjection :: "CandidateComponentReport \<Rightarrow> bool" where
  "plannerUnknownProjection component =
     (if cc_TargetVersion component \<noteq> cc_CurrentVersion component \<or> \<not> cc_AlreadyCurrent component \<or>
         cc_ReleaseCheckpoint component \<noteq> [] \<or> goSlice (cc_SourceURLs component) \<noteq> [] \<or>
         goSlice (cc_SourceDigests component) \<noteq> [] \<or> goSlice (cc_SourceEvidence component) \<noteq> [] then False
      else if \<not> cc_RetainedCurrent component \<and> cc_CurrentVersion component = [] then False
      else list_ex (\<lambda>detail. rq_Code detail \<in> set plannerUnknownRequirementCodes \<and>
                             rq_Code detail \<in> set (cc_MissingRequirements component) \<and> rq_NextAction detail \<noteq> [])
             (goSlice (cc_RequirementDetails component)))"

definition componentScalars :: "CandidateComponentReport \<Rightarrow> validationError option" where
  "componentScalars component =
     (if cc_CurrentVersion component \<noteq> [] \<and> \<not> validObservedVersion (cc_CurrentVersion component) then Some VInvalid
      else if cc_RetainedCurrent component \<and>
              (cc_TargetVersion component \<noteq> cc_CurrentVersion component \<or> \<not> cc_AlreadyCurrent component) then Some VIntegrity
      else if \<not> cc_RetainedCurrent component \<and> \<not> MatchString versionRegex (cc_TargetVersion component) then Some VInvalid
      else if cc_ReleaseCheckpoint component = [] then (if plannerUnknownProjection component then None else Some VInvalid)
      else if boundedCheckpoint (cc_ReleaseCheckpoint component) then None else Some VInvalid)"

definition validateCandidateComponent ::
  "string list \<Rightarrow> CandidateComponentReport option \<Rightarrow> CandidateComponentReport \<Rightarrow> CandidateComponentReport checked" where
  "validateCandidateComponent seen previous component =
     failWhen (\<not> MatchString componentRegex (cc_ComponentID component) \<or> MaxStringBytes < length (cc_ComponentID component) \<or>
               cc_Decision component \<noteq> ''UNKNOWN'' \<or> cc_EvidenceState component \<noteq> CandidateReportStatus) VIntegrity
    (failWhen (cc_ComponentID component \<in> set seen) VInvalid
    (failWhen (outOfOrder cc_ComponentID previous component) VInvalid
       (case componentScalars component of
          Some e \<Rightarrow> Inl e
        | None \<Rightarrow>
            onOk (canonicalIDs (cc_ObservedPredicateIDs component)) (\<lambda>ids.
            onOk (canonicalCodes (cc_MissingRequirements component)) (\<lambda>missing.
            onOk (canonicalEvidenceGaps (cc_EvidenceGaps component)) (\<lambda>gaps.
            onOk (canonicalURLs (cc_SourceURLs component)) (\<lambda>urls.
            onOk (canonicalDigests (cc_SourceDigests component)) (\<lambda>digests.
            onOk (canonicalRequirementDetails (cc_RequirementDetails component) missing) (\<lambda>details.
            onOk (canonicalSourceEvidence (cc_SourceEvidence component) (plannerUnknownProjection component)) (\<lambda>evidence.
              Inr (component\<lparr>cc_ObservedPredicateIDs := ids, cc_MissingRequirements := missing, cc_EvidenceGaps := gaps,
                             cc_SourceURLs := urls, cc_SourceDigests := digests, cc_RequirementDetails := details,
                             cc_SourceEvidence := evidence\<rparr>))))))))))) "

fun validateComponents ::
  "string list \<Rightarrow> CandidateComponentReport option \<Rightarrow> CandidateComponentReport list \<Rightarrow> CandidateComponentReport list checked" where
  "validateComponents seen previous [] = Inr []"
| "validateComponents seen previous (c # cs) =
     onOk (validateCandidateComponent seen previous c) (\<lambda>c'.
     onOk (validateComponents (cc_ComponentID c # seen) (Some c) cs) (\<lambda>cs'. Inr (c' # cs')))"

fun validateGaps :: "string list \<Rightarrow> (string \<times> string list) list \<Rightarrow> (string \<times> string list) list checked" where
  "validateGaps seenComponents [] = Inr []"
| "validateGaps seenComponents ((componentID, gaps) # rest) =
     failWhen (componentID \<notin> set seenComponents \<or> \<not> MatchString componentRegex componentID) VInvalid
    (onOk (canonicalEvidenceGaps gaps) (\<lambda>gaps'.
     onOk (validateGaps seenComponents rest) (\<lambda>rest'. Inr ((componentID, gaps') # rest'))))"

fun validatePacks :: "string list \<Rightarrow> NamedDigest option \<Rightarrow> NamedDigest list \<Rightarrow> bool" where
  "validatePacks seen previous [] = True"
| "validatePacks seen previous (pack # packs) =
     ((boundedID (nd_Name pack) \<or> MatchString componentRegex (nd_Name pack)) \<and> MatchString digestRegex (nd_Digest pack) \<and>
      \<not> (nd_Name pack \<in> set seen \<or> outOfOrder nd_Name previous pack) \<and> validatePacks (nd_Name pack # seen) (Some pack) packs)"

definition reportScalars :: "CandidateReport \<Rightarrow> bool" where
  "reportScalars report =
     (\<not> (ct_Components report = [] \<or> MaxReportComponents < length (ct_Components report)) \<and>
      \<not> (cu_ComponentCount (ct_Current report) < 0 \<or> int MaxReportComponents < cu_ComponentCount (ct_Current report)) \<and>
      (cu_KubernetesVersion (ct_Current report) \<noteq> [] \<longrightarrow> boundedString (cu_KubernetesVersion (ct_Current report))) \<and>
      \<not> (cu_KubernetesVersion (ct_Current report) \<noteq> [] \<and> \<not> validObservedVersion (cu_KubernetesVersion (ct_Current report))) \<and>
      boundedString (ct_KnowledgeRevision report) \<and> boundedCheckpoint (ct_ReleaseCheckpoint report))"

definition validateCandidateReport :: "CandidateReport \<Rightarrow> CandidateReport checked" where
  "validateCandidateReport report =
     failWhen (\<not> reportScalars report) VInvalid
    (onOk (canonicalCodes (ct_MissingRequirements report)) (\<lambda>missing.
     onOk (canonicalEvidenceGaps (ct_GlobalEvidenceGaps report)) (\<lambda>global.
     failWhen (MaxReportComponents < length (ct_ComponentEvidenceGaps report)) VInvalid
    (onOk (validateComponents [] None (ct_Components report)) (\<lambda>components.
     onOk (validateGaps (map cc_ComponentID (ct_Components report)) (ct_ComponentEvidenceGaps report)) (\<lambda>gaps.
     failWhen (length (ct_ComponentEvidenceGaps report) \<noteq> length (ct_Components report)) VIntegrity
    (failWhen (maxReportListItems < length (goSlice (ig_KnowledgePacks (ct_Inputs report)))) VInvalid
    (failWhen (\<not> validatePacks [] None (goSlice (ig_KnowledgePacks (ct_Inputs report)))) VInvalid
       (Inr (report\<lparr>ct_MissingRequirements := missing, ct_GlobalEvidenceGaps := global, ct_Components := components,
                    ct_ComponentEvidenceGaps := gaps\<rparr>)))))))))) "

section \<open>Serialization\<close>

definition encStrings :: "string list \<Rightarrow> json" where
  "encStrings ss = JArr (map JStr ss)"

definition omitFalse :: "string \<Rightarrow> bool \<Rightarrow> (string \<times> json) list" where
  "omitFalse name b = (if b then [(name, JBool True)] else [])"

definition encTruthLabels :: "TruthLabels \<Rightarrow> json" where
  "encTruthLabels t =
     JObj [(''candidateOnly'', JBool (tl_CandidateOnly t)), (''modelUsed'', JBool (tl_ModelUsed t)),
           (''networkUsed'', JBool (tl_NetworkUsed t)), (''clusterOperationUsed'', JBool (tl_ClusterOperationUsed t)),
           (''clusterUsed'', JBool (tl_ClusterUsed t))]"

definition encNamedDigest :: "NamedDigest \<Rightarrow> json" where
  "encNamedDigest d = JObj [(''name'', JStr (nd_Name d)), (''digest'', JStr (nd_Digest d))]"

definition encInputDigests :: "InputDigests \<Rightarrow> json" where
  "encInputDigests d =
     JObj [(''observationProjection'', JStr (ig_ObservationProjection d)), (''proposedBundle'', JStr (ig_ProposedBundle d)),
           (''policyReference'', JStr (ig_PolicyReference d)), (''policyPin'', JStr (ig_PolicyPin d)),
           (''knowledgeIndex'', JStr (ig_KnowledgeIndex d)), (''knowledgeSources'', JStr (ig_KnowledgeSources d)),
           (''knowledgePacks'', encNil encNamedDigest (ig_KnowledgePacks d))]"

definition encCurrentSummary :: "CurrentSummary \<Rightarrow> json" where
  "encCurrentSummary s =
     JObj [(''kubernetesVersion'', JStr (cu_KubernetesVersion s)), (''componentCount'', encInt (cu_ComponentCount s))]"

definition encRequirementDetail :: "RequirementDetail \<Rightarrow> json" where
  "encRequirementDetail d =
     JObj [(''code'', JStr (rq_Code d)), (''reason'', JStr (rq_Reason d)), (''nextAction'', JStr (rq_NextAction d))]"

definition encReportSource :: "ReportSource \<Rightarrow> json" where
  "encReportSource e =
     JObj [(''sourceId'', JStr (sx_SourceID e)), (''url'', JStr (sx_URL e)), (''contentDigest'', JStr (sx_ContentDigest e)),
           (''startLine'', encInt (sx_StartLine e)), (''endLine'', encInt (sx_EndLine e))]"

definition encCandidateComponent :: "CandidateComponentReport \<Rightarrow> json" where
  "encCandidateComponent c =
     JObj ([(''componentId'', JStr (cc_ComponentID c))] @ omitBlank ''currentVersion'' (cc_CurrentVersion c) @
           [(''targetVersion'', JStr (cc_TargetVersion c)), (''alreadyCurrent'', JBool (cc_AlreadyCurrent c))] @
           omitFalse ''retainedCurrent'' (cc_RetainedCurrent c) @
           [(''observedPredicateIds'', encNil JStr (cc_ObservedPredicateIDs c)),
            (''missingRequirementCodes'', encStrings (cc_MissingRequirements c)),
            (''releaseCheckpoint'', JStr (cc_ReleaseCheckpoint c)), (''sourceUrls'', encNil JStr (cc_SourceURLs c)),
            (''sourceDigests'', encNil JStr (cc_SourceDigests c)),
            (''requirementDetails'', encNil encRequirementDetail (cc_RequirementDetails c)),
            (''sourceEvidence'', encNil encReportSource (cc_SourceEvidence c)),
            (''evidenceGaps'', encStrings (cc_EvidenceGaps c)), (''evidenceState'', JStr (cc_EvidenceState c)),
            (''decision'', JStr (cc_Decision c))])"

definition encCandidateReport :: "CandidateReport \<Rightarrow> json" where
  "encCandidateReport r =
     JObj [(''apiVersion'', JStr (ct_APIVersion r)), (''kind'', JStr (ct_Kind r)), (''schemaVersion'', JStr (ct_SchemaVersion r)),
           (''status'', JStr (ct_Status r)), (''decision'', JStr (ct_Decision r)), (''reasonCode'', JStr (ct_ReasonCode r)),
           (''now'', JStr (ct_Now r)), (''current'', encCurrentSummary (ct_Current r)),
           (''components'', JArr (map encCandidateComponent (ct_Components r))),
           (''missingRequirementCodes'', encStrings (ct_MissingRequirements r)),
           (''globalEvidenceGaps'', encStrings (ct_GlobalEvidenceGaps r)),
           (''componentEvidenceGaps'', JObj (map (\<lambda>(k, gaps). (k, encStrings gaps)) (sort_key fst (ct_ComponentEvidenceGaps r)))),
           (''knowledgeRevision'', JStr (ct_KnowledgeRevision r)), (''releaseCheckpoint'', JStr (ct_ReleaseCheckpoint r)),
           (''inputs'', encInputDigests (ct_Inputs r)), (''truth'', encTruthLabels (ct_Truth r))]"

text \<open>\<open>CanonicalCandidateReport\<close> up to the marshalling, and with it.\<close>

definition orDefault :: "string \<Rightarrow> string \<Rightarrow> string" where
  "orDefault value fallback = (if value = [] then fallback else value)"

definition candidateTruth :: "TruthLabels \<Rightarrow> bool" where
  "candidateTruth t =
     (tl_CandidateOnly t \<and> \<not> tl_ModelUsed t \<and> \<not> tl_NetworkUsed t \<and> \<not> tl_ClusterOperationUsed t \<and> \<not> tl_ClusterUsed t)"

definition inputDigestsValid :: "InputDigests \<Rightarrow> bool" where
  "inputDigestsValid d =
     (MatchString digestRegex (ig_ObservationProjection d) \<and> MatchString digestRegex (ig_ProposedBundle d) \<and>
      MatchString digestRegex (ig_PolicyReference d) \<and> MatchString digestRegex (ig_PolicyPin d) \<and>
      MatchString digestRegex (ig_KnowledgeIndex d) \<and> MatchString digestRegex (ig_KnowledgeSources d) \<and>
      list_all (\<lambda>named. nd_Name named \<noteq> [] \<and> MatchString digestRegex (nd_Digest named)) (goSlice (ig_KnowledgePacks d)))"

definition canonicalReport :: "CandidateReport \<Rightarrow> CandidateReport checked" where
  "canonicalReport given =
     (let report = given\<lparr>ct_APIVersion := orDefault (ct_APIVersion given) APIVersion, ct_Kind := orDefault (ct_Kind given) ReportKind,
                         ct_SchemaVersion := orDefault (ct_SchemaVersion given) SchemaVersion\<rparr> in
      failWhen (ct_APIVersion report \<noteq> APIVersion \<or> ct_Kind report \<noteq> ReportKind \<or> ct_SchemaVersion report \<noteq> SchemaVersion) VInvalid
     (failWhen (ct_Status report \<noteq> CandidateReportStatus \<or> ct_Decision report \<noteq> ''UNKNOWN'' \<or>
                \<not> MatchString reasonRegex (ct_ReasonCode report)) VIntegrity
     (failWhen (\<not> candidateTruth (ct_Truth report)) VIntegrity
     (failWhen (\<not> timeParses (ct_Now report)) VInvalid
     (onOk (validateCandidateReport report) (\<lambda>canonical.
        failWhen (\<not> inputDigestsValid (ct_Inputs canonical)) VIntegrity (Inr canonical)))))))"

definition CanonicalCandidateReport :: "CandidateReport \<Rightarrow> string checked" where
  "CanonicalCandidateReport given =
     onOk (canonicalReport given) (\<lambda>report. Inr (jsonPrint (encCandidateReport report) @ [CHR 0x0A]))"

section \<open>The written files\<close>

text \<open>\<open>WriteCandidateReport\<close> reads its own bytes again before it fills the replay, so texts are those a JSON round trip gives.\<close>

definition validationDigest :: "string \<Rightarrow> string" where
  "validationDigest raw = ''sha256:'' @ sha256Hex raw"

definition encCandidateReplay :: "CandidateReport \<Rightarrow> string \<Rightarrow> json" where
  "encCandidateReplay report reportDigest =
     JObj [(''apiVersion'', JStr APIVersion), (''kind'', JStr ''ValidationReplay''), (''schemaVersion'', JStr SchemaVersion),
           (''now'', JStr (utf8Coerce (ct_Now report))), (''knowledgeRevision'', JStr (utf8Coerce (ct_KnowledgeRevision report))),
           (''reportDigest'', JStr reportDigest), (''inputs'', encInputDigests (ct_Inputs report)),
           (''truth'', encTruthLabels (ct_Truth report)), (''evaluatorVersion'', JStr EvaluatorVersion),
           (''evaluatorContractDigest'', JStr (validationDigest EvaluatorVersion))]"

definition writtenFiles :: "string \<Rightarrow> json \<Rightarrow> (string \<times> string) list" where
  "writtenFiles encoded replay =
     [(''report.json'', encoded), (''report.sha256'', validationDigest encoded @ [CHR 0x0A]),
      (''replay.json'', jsonPrint replay @ [CHR 0x0A])]"

definition WriteCandidateReport :: "CandidateReport \<Rightarrow> (string \<times> (string \<times> string) list) checked" where
  "WriteCandidateReport given =
     onOk (CanonicalCandidateReport given) (\<lambda>encoded.
     onOk (canonicalReport given) (\<lambda>report.
       Inr (validationDigest encoded, writtenFiles encoded (encCandidateReplay report (validationDigest encoded)))))"

record IncompleteReport =
  ir_APIVersion :: string
  ir_Kind :: string
  ir_SchemaVersion :: string
  ir_Status :: string
  ir_Decision :: string
  ir_ReasonCode :: string
  ir_Now :: string
  ir_ProposedBundleDigest :: string
  ir_PolicyDigest :: string
  ir_ComponentCount :: int

definition encIncompleteReport :: "IncompleteReport \<Rightarrow> json" where
  "encIncompleteReport r =
     JObj [(''apiVersion'', JStr (ir_APIVersion r)), (''kind'', JStr (ir_Kind r)), (''schemaVersion'', JStr (ir_SchemaVersion r)),
           (''status'', JStr (ir_Status r)), (''decision'', JStr (ir_Decision r)), (''reasonCode'', JStr (ir_ReasonCode r)),
           (''now'', JStr (ir_Now r)), (''proposedBundleDigest'', JStr (ir_ProposedBundleDigest r)),
           (''policyDigest'', JStr (ir_PolicyDigest r)), (''componentCount'', encInt (ir_ComponentCount r))]"

definition encIncompleteReplay :: "IncompleteReport \<Rightarrow> string \<Rightarrow> json" where
  "encIncompleteReplay report reportDigest =
     JObj [(''apiVersion'', JStr APIVersion), (''kind'', JStr ''ValidationReplay''), (''schemaVersion'', JStr SchemaVersion),
           (''now'', JStr (ir_Now report)), (''reportDigest'', JStr reportDigest),
           (''proposedBundleDigest'', JStr (ir_ProposedBundleDigest report)), (''policyDigest'', JStr (ir_PolicyDigest report)),
           (''evaluatorVersion'', JStr EvaluatorVersion), (''evaluatorContractDigest'', JStr (validationDigest EvaluatorVersion))]"

definition WriteIncompleteReport :: "IncompleteReport \<Rightarrow> (string \<times> (string \<times> string) list) checked" where
  "WriteIncompleteReport given =
     (let report = given\<lparr>ir_APIVersion := orDefault (ir_APIVersion given) APIVersion, ir_Kind := orDefault (ir_Kind given) ReportKind,
                         ir_SchemaVersion := orDefault (ir_SchemaVersion given) SchemaVersion\<rparr> in
      failWhen (ir_APIVersion report \<noteq> APIVersion \<or> ir_Kind report \<noteq> ReportKind \<or> ir_SchemaVersion report \<noteq> SchemaVersion) VInvalid
     (failWhen (\<not> MatchString digestRegex (ir_ProposedBundleDigest report) \<or> \<not> MatchString digestRegex (ir_PolicyDigest report) \<or>
                \<not> MatchString reasonRegex (ir_ReasonCode report) \<and> ir_ReasonCode report \<noteq> []) VInvalid
     (failWhen (ir_ComponentCount report < 0 \<or> int MaxReportComponents < ir_ComponentCount report) VInvalid
       (let final = report\<lparr>ir_Status := ''IMPLEMENTATION_INCOMPLETE'', ir_Decision := ''UNKNOWN''\<rparr>;
            encoded = jsonPrint (encIncompleteReport final) @ [CHR 0x0A]
        in failWhen (\<not> timeParses (ir_Now final)) VInvalid
             (Inr (validationDigest encoded, writtenFiles encoded (encIncompleteReplay final (validationDigest encoded))))))))"

section \<open>Canonical lists are fixed points\<close>

lemma canonicalCodes_fixed:
  assumes "canonicalCodes xs = Inr ys"
  shows "canonicalCodes ys = Inr ys" and "set ys = set xs" and "sorted_wrt (<) ys"
proof -
  have ys: "ys = sort (remdups xs)" and ok: "length xs \<le> maxReportListItems"
    "list_all (\<lambda>value. length value \<le> MaxStringBytes \<and> MatchString evidenceGapRegex value) xs"
    using assms by (auto simp: canonicalCodes_def)
  show "set ys = set xs" by (simp add: ys)
  show "sorted_wrt (<) ys" by (simp add: ys strict_sorted_iff)
  have "length ys \<le> maxReportListItems" using le_trans [OF length_remdups_leq ok(1)] by (simp add: ys)
  moreover have "sort (remdups ys) = ys" by (simp add: ys distinct_remdups_id sorted_sort_id)
  ultimately show "canonicalCodes ys = Inr ys" using ok(2) by (simp add: canonicalCodes_def list_all_iff \<open>set ys = set xs\<close>)
qed

lemma sortDistinct_fixed:
  assumes "sortDistinct key ok xs = Inr ys"
  shows "sortDistinct key ok ys = Inr ys" and "set (goSlice ys) = set (goSlice xs)" and "list_all ok (goSlice ys)"
    and "sorted_wrt (<) (map key (goSlice ys))"
proof -
  have ys: "ys = map_option (sort_key key) xs" and ok: "length (goSlice xs) \<le> maxReportListItems" "list_all ok (goSlice xs)"
    "distinct (map key (goSlice xs))"
    using assms by (auto simp: sortDistinct_def)
  have slice: "goSlice ys = sort_key key (goSlice xs)" by (cases xs) (simp_all add: ys goSlice_def)
  show "set (goSlice ys) = set (goSlice xs)" by (simp add: slice)
  then show "list_all ok (goSlice ys)" using ok(2) by (simp add: list_all_iff)
  have d: "distinct (map key (goSlice ys))" using ok(3) by (simp add: slice distinct_map)
  then show "sorted_wrt (<) (map key (goSlice ys))" by (simp add: slice strict_sorted_iff)
  have "map_option (sort_key key) ys = ys" by (cases xs) (simp_all add: ys sort_key_id_if_sorted)
  then show "sortDistinct key ok ys = Inr ys"
    using ok(1) d \<open>list_all ok (goSlice ys)\<close> by (simp add: sortDistinct_def) (simp add: slice)
qed

lemma requirementDetailsLoop_None:
  "requirementDetailsLoop missing seen ds = None \<longleftrightarrow>
     (\<forall>d\<in>set ds. MatchString evidenceGapRegex (rq_Code d) \<and> length (rq_Code d) \<le> MaxStringBytes \<and> safeExplanationText (rq_Reason d) \<and>
        safeExplanationText (rq_NextAction d) \<and> rq_Code d \<in> set missing \<and> rq_Code d \<notin> set seen) \<and> distinct (map rq_Code ds)"
  by (induction ds arbitrary: seen) (auto, metis imageI)

lemma canonicalRequirementDetails_fixed:
  assumes "canonicalRequirementDetails xs missing = Inr ys"
  shows "canonicalRequirementDetails ys missing = Inr ys" and "set (goSlice ys) = set (goSlice xs)"
    and "\<forall>d\<in>set (goSlice ys). safeExplanationText (rq_Reason d) \<and> safeExplanationText (rq_NextAction d) \<and> rq_Code d \<in> set missing"
proof -
  let ?key = "\<lambda>d. (rq_Code d, rq_Reason d, rq_NextAction d)"
  have ys: "ys = map_option (sort_key ?key) xs" and ok: "length (goSlice xs) \<le> maxReportListItems" "length (goSlice xs) = length missing"
    "requirementDetailsLoop missing [] (goSlice xs) = None"
    using assms by (auto simp: canonicalRequirementDetails_def split: option.splits)
  have slice: "goSlice ys = sort_key ?key (goSlice xs)" by (cases xs) (simp_all add: ys goSlice_def)
  show s: "set (goSlice ys) = set (goSlice xs)" by (simp add: slice)
  have "distinct (map rq_Code (goSlice ys))" using ok(3) by (simp add: requirementDetailsLoop_None slice distinct_map)
  then have n: "requirementDetailsLoop missing [] (goSlice ys) = None" using ok(3) s unfolding requirementDetailsLoop_None by simp
  have "map_option (sort_key ?key) ys = ys" by (cases xs) (simp_all add: ys sort_key_id_if_sorted)
  then show "canonicalRequirementDetails ys missing = Inr ys"
    using ok(1,2) n by (simp add: canonicalRequirementDetails_def) (simp add: slice)
  show "\<forall>d\<in>set (goSlice ys). safeExplanationText (rq_Reason d) \<and> safeExplanationText (rq_NextAction d) \<and> rq_Code d \<in> set missing"
    using n by (simp add: requirementDetailsLoop_None)
qed

section \<open>Canonical reports are fixed points\<close>

text \<open>The scalar fields of a component, which validation leaves as they are.\<close>

definition sameScalars :: "CandidateComponentReport \<Rightarrow> CandidateComponentReport \<Rightarrow> bool" where
  "sameScalars c c' \<longleftrightarrow>
     cc_ComponentID c' = cc_ComponentID c \<and> cc_CurrentVersion c' = cc_CurrentVersion c \<and> cc_TargetVersion c' = cc_TargetVersion c \<and>
     cc_AlreadyCurrent c' = cc_AlreadyCurrent c \<and> cc_RetainedCurrent c' = cc_RetainedCurrent c \<and>
     cc_ReleaseCheckpoint c' = cc_ReleaseCheckpoint c \<and> cc_EvidenceState c' = cc_EvidenceState c \<and> cc_Decision c' = cc_Decision c"

definition sameLists :: "CandidateComponentReport \<Rightarrow> CandidateComponentReport \<Rightarrow> bool" where
  "sameLists c c' \<longleftrightarrow>
     set (cc_MissingRequirements c') = set (cc_MissingRequirements c) \<and>
     set (goSlice (cc_SourceURLs c')) = set (goSlice (cc_SourceURLs c)) \<and>
     set (goSlice (cc_SourceDigests c')) = set (goSlice (cc_SourceDigests c)) \<and>
     set (goSlice (cc_RequirementDetails c')) = set (goSlice (cc_RequirementDetails c)) \<and>
     set (goSlice (cc_SourceEvidence c')) = set (goSlice (cc_SourceEvidence c))"

lemma plannerUnknownProjection_same:
  assumes "sameScalars c c'" and "sameLists c c'"
  shows "plannerUnknownProjection c' = plannerUnknownProjection c"
proof -
  have e: "goSlice (cc_SourceURLs c') = [] \<longleftrightarrow> goSlice (cc_SourceURLs c) = []" "goSlice (cc_SourceDigests c') = [] \<longleftrightarrow> goSlice (cc_SourceDigests c) = []"
    "goSlice (cc_SourceEvidence c') = [] \<longleftrightarrow> goSlice (cc_SourceEvidence c) = []"
    using assms(2) unfolding sameLists_def by (metis set_empty)+
  show ?thesis using assms e unfolding plannerUnknownProjection_def sameScalars_def sameLists_def list_ex_iff by simp
qed

lemma componentScalars_same: "sameScalars c c' \<Longrightarrow> sameLists c c' \<Longrightarrow> componentScalars c' = componentScalars c"
  using plannerUnknownProjection_same [of c c'] unfolding componentScalars_def sameScalars_def by (elim conjE) (simp only:)

lemma canonicalSourceEvidence_fixed:
  assumes "canonicalSourceEvidence xs allowEmpty = Inr ys"
  shows "canonicalSourceEvidence ys allowEmpty = Inr ys" and "set (goSlice ys) = set (goSlice xs)"
    and "goSlice ys = [] \<longrightarrow> allowEmpty" and "\<forall>e\<in>set (goSlice ys). validEvidence e"
proof -
  have s: "sortDistinct sx_SourceID validEvidence xs = Inr ys" and e: "goSlice xs = [] \<longrightarrow> allowEmpty"
    using assms by (auto simp: canonicalSourceEvidence_def)
  note f = sortDistinct_fixed [OF s]
  show "set (goSlice ys) = set (goSlice xs)" by (rule f)
  then show a: "goSlice ys = [] \<longrightarrow> allowEmpty" using e by (metis set_empty)
  show "canonicalSourceEvidence ys allowEmpty = Inr ys" using f(1) a by (simp add: canonicalSourceEvidence_def)
  show "\<forall>e\<in>set (goSlice ys). validEvidence e" using f(3) by (simp add: list_all_iff)
qed

lemma validateCandidateComponent_fixed:
  assumes "validateCandidateComponent seen previous c = Inr c'"
  shows "sameScalars c c'" and "sameLists c c'" and "validateCandidateComponent seen previous c' = Inr c'"
    and "goSlice (cc_SourceEvidence c') = [] \<longrightarrow> plannerUnknownProjection c'"
    and "\<forall>d\<in>set (goSlice (cc_RequirementDetails c')). safeExplanationText (rq_Reason d) \<and> safeExplanationText (rq_NextAction d)"
proof -
  obtain ids missing gaps urls digests details evidence where
    g: "MatchString componentRegex (cc_ComponentID c)" "length (cc_ComponentID c) \<le> MaxStringBytes" "cc_Decision c = ''UNKNOWN''"
      "cc_EvidenceState c = CandidateReportStatus" "cc_ComponentID c \<notin> set seen" "\<not> outOfOrder cc_ComponentID previous c" "componentScalars c = None"
    and l: "canonicalIDs (cc_ObservedPredicateIDs c) = Inr ids" "canonicalCodes (cc_MissingRequirements c) = Inr missing"
      "canonicalCodes (cc_EvidenceGaps c) = Inr gaps" "canonicalURLs (cc_SourceURLs c) = Inr urls"
      "canonicalDigests (cc_SourceDigests c) = Inr digests" "canonicalRequirementDetails (cc_RequirementDetails c) missing = Inr details"
      "canonicalSourceEvidence (cc_SourceEvidence c) (plannerUnknownProjection c) = Inr evidence"
    and c': "c' = c\<lparr>cc_ObservedPredicateIDs := ids, cc_MissingRequirements := missing, cc_EvidenceGaps := gaps, cc_SourceURLs := urls,
        cc_SourceDigests := digests, cc_RequirementDetails := details, cc_SourceEvidence := evidence\<rparr>"
    using assms by (auto simp: validateCandidateComponent_def canonicalEvidenceGaps_def not_less split: option.splits)
  note fixed = sortDistinct_fixed [OF l(1) [unfolded canonicalIDs_def], folded canonicalIDs_def] canonicalCodes_fixed [OF l(2)]
    canonicalCodes_fixed [OF l(3)] sortDistinct_fixed [OF l(4) [unfolded canonicalURLs_def], folded canonicalURLs_def]
    sortDistinct_fixed [OF l(5) [unfolded canonicalDigests_def], folded canonicalDigests_def]
    canonicalRequirementDetails_fixed [OF l(6)] canonicalSourceEvidence_fixed [OF l(7)]
  show s: "sameScalars c c'" and t: "sameLists c c'" using fixed by (simp_all add: c' sameScalars_def sameLists_def)
  note p = plannerUnknownProjection_same [OF s t] componentScalars_same [OF s t]
  have "outOfOrder cc_ComponentID previous c' = outOfOrder cc_ComponentID previous c" by (simp add: c' outOfOrder_def split: option.splits)
  moreover have "c'\<lparr>cc_ObservedPredicateIDs := ids, cc_MissingRequirements := missing, cc_EvidenceGaps := gaps, cc_SourceURLs := urls,
        cc_SourceDigests := digests, cc_RequirementDetails := details, cc_SourceEvidence := evidence\<rparr> = c'" by (simp add: c')
  moreover have "cc_ObservedPredicateIDs c' = ids" "cc_MissingRequirements c' = missing" "cc_EvidenceGaps c' = gaps" "cc_SourceURLs c' = urls"
    "cc_SourceDigests c' = digests" "cc_RequirementDetails c' = details" "cc_SourceEvidence c' = evidence" by (simp_all add: c')
  ultimately show "validateCandidateComponent seen previous c' = Inr c'"
    using g p s fixed unfolding validateCandidateComponent_def sameScalars_def canonicalEvidenceGaps_def by (simp add: failWhen_def onOk_def)
  show "goSlice (cc_SourceEvidence c') = [] \<longrightarrow> plannerUnknownProjection c'" using fixed p(1) by (simp add: c')
  show "\<forall>d\<in>set (goSlice (cc_RequirementDetails c')). safeExplanationText (rq_Reason d) \<and> safeExplanationText (rq_NextAction d)"
    using fixed by (simp add: c')
qed

lemma validateComponents_fixed:
  assumes "validateComponents seen previous cs = Inr cs'"
  shows "list_all2 (\<lambda>c c'. sameScalars c c' \<and> sameLists c c') cs cs' \<and>
    (\<forall>prev. map_option cc_ComponentID prev = map_option cc_ComponentID previous \<longrightarrow> validateComponents seen prev cs' = Inr cs') \<and>
    (\<forall>c\<in>set cs'. cc_Decision c = ''UNKNOWN'' \<and> (goSlice (cc_SourceEvidence c) = [] \<longrightarrow> plannerUnknownProjection c) \<and>
       (\<forall>d\<in>set (goSlice (cc_RequirementDetails c)). safeExplanationText (rq_Reason d) \<and> safeExplanationText (rq_NextAction d)))"
  using assms
proof (induction cs arbitrary: seen previous cs')
  case (Cons c cs)
  obtain c' rest where c: "validateCandidateComponent seen previous c = Inr c'" "validateComponents (cc_ComponentID c # seen) (Some c) cs = Inr rest"
    "cs' = c' # rest" using Cons.prems by auto
  note f = validateCandidateComponent_fixed [OF c(1)]
  note r = Cons.IH [OF c(2)]
  have i: "cc_ComponentID c' = cc_ComponentID c" "cc_Decision c' = ''UNKNOWN''" using f(1) c(1) by (auto simp: sameScalars_def validateCandidateComponent_def)
  have "validateCandidateComponent seen prev c' = Inr c'" if "map_option cc_ComponentID prev = map_option cc_ComponentID previous" for prev
  proof -
    have "outOfOrder cc_ComponentID prev c' = outOfOrder cc_ComponentID previous c'"
      using that by (auto simp: outOfOrder_def split: option.splits)
    then show ?thesis using f(3) by (simp only: validateCandidateComponent_def)
  qed
  moreover have "validateComponents (cc_ComponentID c' # seen) (Some c') rest = Inr rest" using r i(1) by simp
  ultimately show ?case using r f i by (simp add: c(3))
qed simp

lemma validateComponents_sorted:
  "validateComponents seen previous cs = Inr cs' \<Longrightarrow>
     sorted_wrt (<) ((case previous of None \<Rightarrow> [] | Some p \<Rightarrow> [cc_ComponentID p]) @ map cc_ComponentID cs)"
proof (induction cs arbitrary: seen previous cs')
  case (Cons c cs)
  then obtain c' rest where c: "validateCandidateComponent seen previous c = Inr c'" "validateComponents (cc_ComponentID c # seen) (Some c) cs = Inr rest"
    by auto
  then have o: "\<not> outOfOrder cc_ComponentID previous c" by (simp add: validateCandidateComponent_def)
  have s: "sorted_wrt (<) (cc_ComponentID c # map cc_ComponentID cs)" using Cons.IH [OF c(2)] by simp
  show ?case
  proof (cases previous)
    case (Some p)
    then have "cc_ComponentID p < cc_ComponentID c" using o by (simp add: outOfOrder_def not_le)
    with s Some show ?thesis by fastforce
  qed (use s in simp)
qed (simp split: option.splits)

lemma validateGaps_fixed:
  assumes "validateGaps ids m = Inr m'"
  shows "map fst m' = map fst m" and "validateGaps ids m' = Inr m'"
  using assms
proof (induction m arbitrary: m' rule: validateGaps.induct)
  case (2 ids k gaps rest)
  {
    case 1
    then show ?case using 2 by auto
  next
    case 2
    then show ?case using "2.IH" canonicalCodes_fixed(1) by (auto simp: canonicalEvidenceGaps_def)
  }
qed auto

lemma canonicalReport_form:
  assumes "canonicalReport given = Inr report"
  obtains base where "validateCandidateReport base = Inr report"
    "ct_APIVersion report = APIVersion" "ct_Kind report = ReportKind" "ct_SchemaVersion report = SchemaVersion"
    "ct_Status report = CandidateReportStatus" "ct_Decision report = ''UNKNOWN''" "MatchString reasonRegex (ct_ReasonCode report)"
    "candidateTruth (ct_Truth report)" "timeParses (ct_Now report)" "inputDigestsValid (ct_Inputs report)"
proof -
  define base where "base = given\<lparr>ct_APIVersion := orDefault (ct_APIVersion given) APIVersion, ct_Kind := orDefault (ct_Kind given) ReportKind,
      ct_SchemaVersion := orDefault (ct_SchemaVersion given) SchemaVersion\<rparr>"
  have v: "validateCandidateReport base = Inr report" and
    b: "ct_APIVersion base = APIVersion" "ct_Kind base = ReportKind" "ct_SchemaVersion base = SchemaVersion"
      "ct_Status base = CandidateReportStatus" "ct_Decision base = ''UNKNOWN''" "MatchString reasonRegex (ct_ReasonCode base)"
      "candidateTruth (ct_Truth base)" "timeParses (ct_Now base)" and i: "inputDigestsValid (ct_Inputs report)"
    using assms unfolding canonicalReport_def base_def [symmetric] Let_def by auto
  have "ct_APIVersion report = ct_APIVersion base" "ct_Kind report = ct_Kind base" "ct_SchemaVersion report = ct_SchemaVersion base"
    "ct_Status report = ct_Status base" "ct_Decision report = ct_Decision base" "ct_ReasonCode report = ct_ReasonCode base"
    "ct_Truth report = ct_Truth base" "ct_Now report = ct_Now base"
    using v by (auto simp: validateCandidateReport_def)
  with that v b i show ?thesis by simp
qed

lemma validateCandidateReport_fixed:
  assumes "validateCandidateReport r = Inr r'"
  shows "validateCandidateReport r' = Inr r'"
proof -
  obtain missing global components gaps where
    v: "reportScalars r" "canonicalCodes (ct_MissingRequirements r) = Inr missing" "canonicalCodes (ct_GlobalEvidenceGaps r) = Inr global"
      "length (ct_ComponentEvidenceGaps r) \<le> MaxReportComponents" "validateComponents [] None (ct_Components r) = Inr components"
      "validateGaps (map cc_ComponentID (ct_Components r)) (ct_ComponentEvidenceGaps r) = Inr gaps"
      "length (ct_ComponentEvidenceGaps r) = length (ct_Components r)" "length (goSlice (ig_KnowledgePacks (ct_Inputs r))) \<le> maxReportListItems"
      "validatePacks [] None (goSlice (ig_KnowledgePacks (ct_Inputs r)))"
    and r': "r' = r\<lparr>ct_MissingRequirements := missing, ct_GlobalEvidenceGaps := global, ct_Components := components, ct_ComponentEvidenceGaps := gaps\<rparr>"
    using assms by (auto simp: validateCandidateReport_def canonicalEvidenceGaps_def)
  note c = validateComponents_fixed [OF v(5)] and g = validateGaps_fixed [OF v(6)]
  have len: "length components = length (ct_Components r)" "length gaps = length (ct_ComponentEvidenceGaps r)"
    using list_all2_lengthD [OF conjunct1 [OF c]] arg_cong [OF g(1), of length] by simp_all
  have ids: "map cc_ComponentID components = map cc_ComponentID (ct_Components r)"
    using conjunct1 [OF c] by (induction rule: list_all2_induct) (simp_all add: sameScalars_def)
  have "components = [] \<longleftrightarrow> ct_Components r = []" using len(1) by (metis length_0_conv)
  then have "reportScalars r'" using v(1) len(1) by (simp add: reportScalars_def r')
  moreover have "validateComponents [] None components = Inr components" using c by simp
  ultimately show ?thesis
    using v(4,7-9) canonicalCodes_fixed(1) [OF v(2)] canonicalCodes_fixed(1) [OF v(3)] g(2) len ids
    by (simp add: validateCandidateReport_def canonicalEvidenceGaps_def r')
qed

lemma canonicalReport_idempotent:
  assumes "canonicalReport given = Inr report"
  shows "canonicalReport report = Inr report"
proof -
  obtain base where b: "validateCandidateReport base = Inr report"
    "ct_APIVersion report = APIVersion" "ct_Kind report = ReportKind" "ct_SchemaVersion report = SchemaVersion"
    "ct_Status report = CandidateReportStatus" "ct_Decision report = ''UNKNOWN''" "MatchString reasonRegex (ct_ReasonCode report)"
    "candidateTruth (ct_Truth report)" "timeParses (ct_Now report)" "inputDigestsValid (ct_Inputs report)"
    by (rule canonicalReport_form [OF assms])
  have "APIVersion \<noteq> []" "ReportKind \<noteq> []" "SchemaVersion \<noteq> []" by (simp_all add: APIVersion_def ReportKind_def SchemaVersion_def)
  then have "report\<lparr>ct_APIVersion := orDefault (ct_APIVersion report) APIVersion, ct_Kind := orDefault (ct_Kind report) ReportKind,
      ct_SchemaVersion := orDefault (ct_SchemaVersion report) SchemaVersion\<rparr> = report"
    using b(2-4) by (simp add: orDefault_def)
  then show ?thesis using b(2-10) validateCandidateReport_fixed [OF b(1)] unfolding canonicalReport_def Let_def by simp
qed

lemma CanonicalCandidateReport_form:
  "CanonicalCandidateReport given = Inr raw \<longleftrightarrow>
     (\<exists>report. canonicalReport given = Inr report \<and> raw = jsonPrint (encCandidateReport report) @ [CHR 0x0A])"
  by (auto simp: CanonicalCandidateReport_def)

lemma plannerUnknownProjection_coded:
  "plannerUnknownProjection c \<Longrightarrow> cc_TargetVersion c = cc_CurrentVersion c \<and>
     (\<exists>d\<in>set (goSlice (cc_RequirementDetails c)). rq_Code d \<in> set plannerUnknownRequirementCodes \<and> rq_Code d \<in> set (cc_MissingRequirements c))"
  by (auto simp: plannerUnknownProjection_def list_ex_iff split: if_splits)

lemma canonicalReport_components:
  assumes "canonicalReport given = Inr report"
  shows "sorted_wrt (<) (map cc_ComponentID (ct_Components report)) \<and> ct_Components report \<noteq> [] \<and>
    (\<forall>c\<in>set (ct_Components report). cc_Decision c = ''UNKNOWN'' \<and>
       (\<forall>d\<in>set (goSlice (cc_RequirementDetails c)). safeExplanationText (rq_Reason d) \<and> safeExplanationText (rq_NextAction d)) \<and>
       (goSlice (cc_SourceEvidence c) = [] \<longrightarrow> plannerUnknownProjection c))"
proof -
  obtain base where "validateCandidateReport base = Inr report" by (rule canonicalReport_form [OF assms])
  then have "validateCandidateReport report = Inr report" by (rule validateCandidateReport_fixed)
  then obtain components where v: "validateComponents [] None (ct_Components report) = Inr components" "components = ct_Components report"
    "reportScalars report"
    by (auto simp: validateCandidateReport_def) (metis CandidateReport.select_convs(9) CandidateReport.surjective CandidateReport.update_convs(9,10,11,12))
  then show ?thesis using validateComponents_fixed [OF v(1)] validateComponents_sorted [OF v(1)] by (simp add: reportScalars_def)
qed

end
