(* ===== verification/PolicyRef.thy ===== *)
theory PolicyRef
  imports Candidate
begin

text \<open>
  Policy references of \<open>validation/contracts.go\<close>: the strict reading of retained bytes (no duplicate
  keys, no unknown fields, bounded depth, sizes and numbers), their validation and their digest.

  Shown here: what an accepted reference satisfies, that normalization leaves it as it is, and that its
  own canonical text is accepted again (\<open>ParsePolicyReference_accepts\<close>).
\<close>

record PolicyReference =
  po_APIVersion :: string
  po_Kind :: string
  po_SchemaVersion :: string
  po_PolicyID :: string
  po_Revision :: string
  po_Digest :: string

definition PolicyReferenceKind :: string where "PolicyReferenceKind = ''PolicyReference''"
definition MaxInputBytes :: nat where "MaxInputBytes = 8 * 2 ^ 20"
definition MaxJSONDepth :: nat where "MaxJSONDepth = 32"
definition MaxArrayItems :: nat where "MaxArrayItems = 10000"
definition MaxObjectMembers :: nat where "MaxObjectMembers = 256"

section \<open>Bounded JSON\<close>

text \<open>The walk over the token stream is a predicate on the tree: no object repeats a key, and the root is an object.\<close>

fun walkValue :: "json \<Rightarrow> bool" where
  "walkValue (JObj ms) = (distinct (map fst ms) \<and> (\<forall>(_, v)\<in>set ms. walkValue v))"
| "walkValue (JArr vs) = (\<forall>v\<in>set vs. walkValue v)"
| "walkValue _ = True"

definition rejectDuplicateKeys :: "string \<Rightarrow> bool" where
  "rejectDuplicateKeys raw = (case jsonParse raw of Some (JObj ms) \<Rightarrow> walkValue (JObj ms) | _ \<Rightarrow> False)"

text \<open>
  \<open>strconv.ParseFloat\<close> on the text of a JSON number fails only by overflow: the exact value rounds to
  infinity from \<open>2^1024 - 2^970\<close> on. The reader stops adding digits to an exponent of 10000 or more.
\<close>

definition exponentVal :: "string \<Rightarrow> nat" where
  "exponentVal ds = foldl (\<lambda>e d. if e < 10000 then 10 * e + digitVal d else e) 0 ds"

definition floatFinite :: "string \<Rightarrow> bool" where
  "floatFinite text =
     (let unsigned = (if hasPrefix text ''-'' then drop 1 text else text);
          mantissa = takeWhile (\<lambda>c. c \<notin> set ''eE'') unsigned;
          power = drop (Suc (length mantissa)) unsigned;
          (whole, fraction, _) = cutAt (CHR ''.'') mantissa;
          e = (if hasPrefix power ''-'' then - int (exponentVal (drop 1 power))
               else int (exponentVal (if hasPrefix power ''+'' then drop 1 power else power))) - int (length fraction);
          m = decVal (whole @ fraction); limit = 2 ^ 1024 - 2 ^ 970
      in if 0 \<le> e then m * 10 ^ nat e < limit else m < limit * 10 ^ nat (- e))"

definition numberBounded :: "string \<Rightarrow> bool" where
  "numberBounded text =
     (if list_ex (\<lambda>c. c \<in> set ''.eE'') text then floatFinite text
      else decVal (if hasPrefix text ''-'' then drop 1 text else text) \<le> 9007199254740991)"

fun validateDecoded :: "nat \<Rightarrow> json \<Rightarrow> bool" where
  "validateDecoded depth (JStr s) = (depth \<le> MaxJSONDepth \<and> length s \<le> MaxStringBytes)"
| "validateDecoded depth (JNum text) = (depth \<le> MaxJSONDepth \<and> numberBounded text)"
| "validateDecoded depth (JArr vs) =
     (depth \<le> MaxJSONDepth \<and> length vs \<le> MaxArrayItems \<and> (\<forall>v\<in>set vs. validateDecoded (depth + 1) v))"
| "validateDecoded depth (JObj ms) =
     (depth \<le> MaxJSONDepth \<and> length ms \<le> MaxObjectMembers \<and>
      (\<forall>(k, v)\<in>set ms. length k \<le> MaxStringBytes \<and> validateDecoded (depth + 1) v))"
| "validateDecoded depth JNull = (depth \<le> MaxJSONDepth)"
| "validateDecoded depth (JBool b) = (depth \<le> MaxJSONDepth)"

definition validateJSONValue :: "string \<Rightarrow> nat \<Rightarrow> bool" where
  "validateJSONValue raw depth = (case jsonParse raw of None \<Rightarrow> False | Some v \<Rightarrow> validateDecoded depth v)"

section \<open>Policy references\<close>

definition decPolicyReference :: "json \<Rightarrow> PolicyReference option" where
  "decPolicyReference v =
     Option.bind (decStruct True [''apiVersion'', ''kind'', ''schemaVersion'', ''policyId'', ''revision'', ''digest''] v) (\<lambda>ms.
     Option.bind (decField decString [] ms ''apiVersion'') (\<lambda>a.
     Option.bind (decField decString [] ms ''kind'') (\<lambda>k.
     Option.bind (decField decString [] ms ''schemaVersion'') (\<lambda>s.
     Option.bind (decField decString [] ms ''policyId'') (\<lambda>p.
     Option.bind (decField decString [] ms ''revision'') (\<lambda>r.
     Option.bind (decField decString [] ms ''digest'') (\<lambda>d.
       Some \<lparr>po_APIVersion = a, po_Kind = k, po_SchemaVersion = s, po_PolicyID = p, po_Revision = r, po_Digest = d\<rparr>)))))))"

definition policyMembers :: "PolicyReference \<Rightarrow> (string \<times> json) list" where
  "policyMembers p =
     [(''apiVersion'', JStr (po_APIVersion p)), (''kind'', JStr (po_Kind p)), (''schemaVersion'', JStr (po_SchemaVersion p)),
      (''policyId'', JStr (po_PolicyID p)), (''revision'', JStr (po_Revision p)), (''digest'', JStr (po_Digest p))]"

definition validatePolicy :: "PolicyReference \<Rightarrow> bool" where
  "validatePolicy p =
     (po_APIVersion p = APIVersion \<and> po_Kind p = PolicyReferenceKind \<and> po_SchemaVersion p = SchemaVersion \<and>
      boundedID (po_PolicyID p) \<and> boundedID (po_Revision p) \<and> MatchString digestRegex (po_Digest p))"

definition normalizedPolicy :: "PolicyReference \<Rightarrow> PolicyReference" where
  "normalizedPolicy p = p\<lparr>po_Digest := lowerASCII (po_Digest p)\<rparr>"

definition ParsePolicyReference :: "string \<Rightarrow> PolicyReference checked" where
  "ParsePolicyReference raw =
     failWhen (raw = [] \<or> MaxInputBytes < length raw \<or> \<not> utf8Valid raw \<or> \<not> rejectDuplicateKeys raw) VInvalid
       (case Option.bind (jsonParse raw) decPolicyReference of
          None \<Rightarrow> Inl VInvalid
        | Some policy \<Rightarrow>
            failWhen (\<not> validateJSONValue raw 0) VInvalid
           (failWhen (\<not> validatePolicy policy) VInvalid (Inr (normalizedPolicy policy))))"

definition DigestPolicyReference :: "PolicyReference \<Rightarrow> string" where
  "DigestPolicyReference policy = validationDigest (jsonPrint (JObj (policyMembers policy)))"

section \<open>The texts the patterns admit\<close>

lemma decodeRune_ascii:
  assumes "decodeRune (b # bs) = (r, w)" and "r < 128"
  shows "byte b < 128 \<and> r = byte b \<and> w = 1"
proof (cases "byte b < 128")
  case False
  then obtain len lo hi where l: "leadInfo (byte b) = Some (len, lo, hi)" using assms by (auto simp: runeError_def split: option.splits)
  have m: "2 \<le> n mod 32" if "194 \<le> n" "n \<le> 223" for n :: nat using digit_mod [of "n - 192" 32 6] that by simp
  have m1: "32 \<le> n mod 64" if "160 \<le> n" "n \<le> 191" for n :: nat using digit_mod [of "n - 128" 64 2] that by simp
  have m2: "1 \<le> n mod 16" if "225 \<le> n" "n \<le> 239" for n :: nat using digit_mod [of "n - 224" 16 14] that by simp
  have m3: "16 \<le> n mod 64" if "144 \<le> n" "n \<le> 191" for n :: nat using digit_mod [of "n - 128" 64 2] that by simp
  have m4: "1 \<le> n mod 8" if "241 \<le> n" "n \<le> 243" for n :: nat using digit_mod [of "n - 240" 8 30] that by simp
  show ?thesis using assms False l
    by (cases bs; cases "tl bs"; cases "tl (tl bs)")
       (auto simp: runeError_def leadInfo_def contByte_def not_less split: if_splits dest!: m m1 m2 m3 m4)
qed (use assms in simp)

lemma runes_ascii: "list_all P (runes s) \<Longrightarrow> (\<And>r. P r \<Longrightarrow> r < 128) \<Longrightarrow> list_all (\<lambda>c. P (byte c)) s"
proof (induction s rule: runes.induct)
  case (2 b bs)
  obtain r w where rw: "decodeRune (b # bs) = (r, w)" by fastforce
  then have "P r" "list_all P (runes (drop (w - 1) bs))" using "2.prems"(1) by (auto simp del: decodeRune.simps)
  moreover have a: "byte b < 128 \<and> r = byte b \<and> w = 1" by (rule decodeRune_ascii [OF rw]) (use \<open>P r\<close> "2.prems"(2) in blast)
  ultimately show ?case using "2.IH" [OF rw [symmetric]] "2.prems"(2) by simp
qed simp

text \<open>Texts of the identifiers and digests: ASCII without capital letters.\<close>

definition plainRune :: "int \<Rightarrow> bool" where
  "plainRune r = (r < 128 \<and> \<not> (65 \<le> r \<and> r \<le> 90))"

lemma patterns_plain:
  "MatchString idRegex s \<Longrightarrow> list_all (\<lambda>c. plainRune (int (byte c))) s"
  "MatchString digestRegex s \<Longrightarrow> list_all (\<lambda>c. plainRune (int (byte c))) s"
proof -
  have id: "list_all (classesIn plainRune) [oneOf lowerAlnum, RRep 0 (Some 127) (oneOf (lowerAlnum @ rangesOf ''._-''))]"
    and digest: "list_all (classesIn plainRune) [rlit ''sha256:'', RRep 64 (Some 64) (oneOf (digitRange @ [(97, 102)]))]"
    by (auto simp: oneOf_def lowerAlnum_def lowerRange_def digitRange_def rangesOf_def rlit_def inClass_def plainRune_def)
  show "MatchString idRegex s \<Longrightarrow> list_all (\<lambda>c. plainRune (int (byte c))) s" "MatchString digestRegex s \<Longrightarrow> list_all (\<lambda>c. plainRune (int (byte c))) s"
    unfolding idRegex_def digestRegex_def
    by (rule runes_ascii, erule MatchString_anchored [OF _ id, unfolded textRunes_def list.pred_map comp_def]
        MatchString_anchored [OF _ digest, unfolded textRunes_def list.pred_map comp_def], simp add: plainRune_def)+
qed

lemma plain_text: "list_all (\<lambda>c. plainRune (int (byte c))) s \<Longrightarrow> utf8Valid s \<and> lowerASCII s = s"
proof
  assume p: "list_all (\<lambda>c. plainRune (int (byte c))) s"
  show "utf8Valid s" by (rule utf8Valid_ascii) (use p in \<open>simp add: list_all_iff plainRune_def\<close>)
  show "lowerASCII s = s" unfolding lowerASCII_def
    by (rule map_idI) (use p in \<open>auto simp: list_all_iff plainRune_def isUpper_def less_eq_char_def\<close>)
qed

section \<open>Accepted references\<close>

lemma ParsePolicyReference_sound:
  assumes "ParsePolicyReference raw = Inr policy"
  shows "validatePolicy policy" and "normalizedPolicy policy = policy"
proof -
  obtain p where p: "validatePolicy p" "policy = normalizedPolicy p" using assms by (auto simp: ParsePolicyReference_def split: option.splits)
  have "lowerASCII (po_Digest p) = po_Digest p" using p(1) patterns_plain(2) plain_text by (auto simp: validatePolicy_def)
  then have "policy = p" by (simp add: p(2) normalizedPolicy_def)
  then show "validatePolicy policy" "normalizedPolicy policy = policy" using p by simp_all
qed

lemma policyMembers_decode: "decPolicyReference (JObj (policyMembers p)) = Some p"
proof -
  have "distinct (map foldName [''apiVersion'', ''kind'', ''schemaVersion'', ''policyId'', ''revision'', ''digest''])" by code_simp
  then have f: "decField d z (policyMembers p) k = d v" if "(k, v) \<in> set (policyMembers p)" for k v d and z :: 'x
    using jsonField_in [OF _ that] by (simp add: decField_def policyMembers_def)
  have mem: "(''apiVersion'', JStr (po_APIVersion p)) \<in> set (policyMembers p)" "(''kind'', JStr (po_Kind p)) \<in> set (policyMembers p)"
    "(''schemaVersion'', JStr (po_SchemaVersion p)) \<in> set (policyMembers p)" "(''policyId'', JStr (po_PolicyID p)) \<in> set (policyMembers p)"
    "(''revision'', JStr (po_Revision p)) \<in> set (policyMembers p)" "(''digest'', JStr (po_Digest p)) \<in> set (policyMembers p)"
    by (simp_all add: policyMembers_def)
  have "decStruct True [''apiVersion'', ''kind'', ''schemaVersion'', ''policyId'', ''revision'', ''digest''] (JObj (policyMembers p)) =
      Some (policyMembers p)" by (auto simp: policyMembers_def)
  then show ?thesis by (simp add: decPolicyReference_def mem [THEN f])
qed

lemma runes_of_ascii: "list_all (\<lambda>c. byte c < 128) s \<Longrightarrow> runes s = map byte s"
  by (induction s) auto

lemma patterns_width: "MatchString idRegex s \<Longrightarrow> length s \<le> 128" "MatchString digestRegex s \<Longrightarrow> length s \<le> 71"
proof -
  have ascii: "list_all (\<lambda>c. plainRune (int (byte c))) s \<Longrightarrow> length (runes s) = length s"
    using runes_of_ascii [of s] by (simp add: list_all_iff plainRune_def)
  have w: "maxWidth (rseq [oneOf lowerAlnum, RRep 0 (Some 127) (oneOf (lowerAlnum @ rangesOf ''._-''))]) = Some 128"
    "maxWidth (rseq [rlit ''sha256:'', RRep 64 (Some 64) (oneOf (digitRange @ [(97, 102)]))]) = Some 71"
    by (simp_all add: oneOf_def rlit_def)
  show "MatchString idRegex s \<Longrightarrow> length s \<le> 128"
    using MatchString_width [OF _ w(1), of s] ascii [OF patterns_plain(1)] unfolding idRegex_def by (simp add: textRunes_def)
  show "MatchString digestRegex s \<Longrightarrow> length s \<le> 71"
    using MatchString_width [OF _ w(2), of s] ascii [OF patterns_plain(2)] unfolding digestRegex_def by (simp add: textRunes_def)
qed

lemma ParsePolicyReference_accepts:
  assumes "validatePolicy p"
  shows "ParsePolicyReference (jsonPrint (JObj (policyMembers p))) = Inr p"
proof -
  let ?t = "JObj (policyMembers p)"
  have c: "po_APIVersion p = APIVersion" "po_Kind p = PolicyReferenceKind" "po_SchemaVersion p = SchemaVersion"
    and m: "MatchString idRegex (po_PolicyID p)" "MatchString idRegex (po_Revision p)" "MatchString digestRegex (po_Digest p)"
    using assms by (simp_all add: validatePolicy_def boundedID_def)
  note plain = patterns_plain(1) [OF m(1)] patterns_plain(1) [OF m(2)] patterns_plain(2) [OF m(3)]
  note len = patterns_width(1) [OF m(1)] patterns_width(1) [OF m(2)] patterns_width(2) [OF m(3)]
  have fixedTexts: "utf8Valid APIVersion \<and> utf8Valid PolicyReferenceKind \<and> utf8Valid SchemaVersion"
    "length APIVersion \<le> 128 \<and> length PolicyReferenceKind \<le> 128 \<and> length SchemaVersion \<le> 128"
    by (simp_all add: APIVersion_def PolicyReferenceKind_def SchemaVersion_def runeError_def)
  have v: "plainJson ?t" using fixedTexts(1) plain [THEN plain_text] c by (simp add: policyMembers_def runeError_def)
  note parse = jsonParse_jsonPrint [OF v]
  have "list_all (\<lambda>c. byte c < 128) s" if "list_all (\<lambda>c. plainRune (int (byte c))) s" for s using that by (simp add: list_all_iff plainRune_def)
  then have q: "length (quote (po_PolicyID p)) \<le> 770" "length (quote (po_Revision p)) \<le> 770" "length (quote (po_Digest p)) \<le> 770"
    using quote_length [of "po_PolicyID p"] quote_length [of "po_Revision p"] quote_length [of "po_Digest p"] plain len by simp_all
  have "length (quote APIVersion) \<le> 100" "length (quote PolicyReferenceKind) \<le> 100" "length (quote SchemaVersion) \<le> 100"
    by (simp_all add: APIVersion_def PolicyReferenceKind_def SchemaVersion_def quote_def escapeByte_def)
  then have "length (jsonPrint ?t) \<le> MaxInputBytes" using q c
    by (simp add: policyMembers_def memberText_def quote_def MaxInputBytes_def commaSep_Cons escapeByte_def)
  moreover have "rejectDuplicateKeys (jsonPrint ?t)" unfolding rejectDuplicateKeys_def parse by (simp add: policyMembers_def)
  moreover have "validateJSONValue (jsonPrint ?t) 0" using len fixedTexts(2) c
    unfolding validateJSONValue_def parse by (simp add: policyMembers_def MaxJSONDepth_def MaxObjectMembers_def MaxStringBytes_def)
  moreover have "normalizedPolicy p = p" using plain_text [OF plain(3)] by (simp add: normalizedPolicy_def)
  moreover have "jsonPrint ?t \<noteq> []" "utf8Valid (jsonPrint ?t)" by (rule jsonPrint_not_Nil [OF v], rule utf8Valid_jsonPrint [OF v])
  ultimately show ?thesis using assms by (simp add: ParsePolicyReference_def parse policyMembers_decode del: jsonPrint.simps)
qed

end
