(* ===== verification/ValidationProperties.thy ===== *)
theory ValidationProperties
  imports PolicyRef
begin

text \<open>
  The properties of the candidate reports and policy references of \<open>validation/contracts.go\<close>, with a
  report and a reference on which they are witnessed.
\<close>

section \<open>Samples\<close>

definition retainedComponent :: CandidateComponentReport where
  "retainedComponent =
     \<lparr>cc_ComponentID = ''pkg:github/istio/istio'', cc_CurrentVersion = ''1.20.3'', cc_TargetVersion = ''1.20.3'',
      cc_AlreadyCurrent = True, cc_RetainedCurrent = True, cc_ObservedPredicateIDs = Some [''mesh.mode''],
      cc_MissingRequirements = [''RECEIPT_MISSING'', ''RECEIPT_MISSING''], cc_ReleaseCheckpoint = [],
      cc_SourceURLs = None, cc_SourceDigests = None,
      cc_RequirementDetails = Some
        [\<lparr>rq_Code = ''RECEIPT_MISSING'', rq_Reason = ''ask'', rq_NextAction = ''ask''\<rparr>],
      cc_SourceEvidence = None, cc_EvidenceGaps = [], cc_EvidenceState = CandidateReportStatus,
      cc_Decision = ''UNKNOWN''\<rparr>"

definition sampleReportDigest :: string where
  "sampleReportDigest = ''sha256:abababababababababababababababababababababababababababababababab''"

definition sampleReport :: CandidateReport where
  "sampleReport =
     \<lparr>ct_APIVersion = [], ct_Kind = [], ct_SchemaVersion = [], ct_Status = CandidateReportStatus, ct_Decision = ''UNKNOWN'',
      ct_ReasonCode = ''candidate_only'', ct_Now = ''2025-06-01T12:00:00Z'',
      ct_Current = \<lparr>cu_KubernetesVersion = ''1.30.1-rc.0'', cu_ComponentCount = 1\<rparr>, ct_Components = [retainedComponent],
      ct_MissingRequirements = [], ct_GlobalEvidenceGaps = [], ct_ComponentEvidenceGaps = [(''pkg:github/istio/istio'', [])],
      ct_KnowledgeRevision = ''7'', ct_ReleaseCheckpoint = ''github-release-checkpoint:2025-06-01'',
      ct_Inputs = \<lparr>ig_ObservationProjection = sampleReportDigest, ig_ProposedBundle = sampleReportDigest,
        ig_PolicyReference = sampleReportDigest, ig_PolicyPin = sampleReportDigest, ig_KnowledgeIndex = sampleReportDigest,
        ig_KnowledgeSources = sampleReportDigest, ig_KnowledgePacks = None\<rparr>,
      ct_Truth = \<lparr>tl_CandidateOnly = True, tl_ModelUsed = False, tl_NetworkUsed = False, tl_ClusterOperationUsed = False, tl_ClusterUsed = False\<rparr>\<rparr>"

lemma sampleText_safe: "safeExplanationText ''ask''"
proof -
  have "\<not> MatchString absolutePathPattern ''ask''" "\<not> MatchString windowsPathPattern ''ask''" "\<not> MatchString credentialPattern ''ask''"
    "\<not> MatchString privateEndpointPattern ''ask''" "\<not> MatchString privateIPv4Pattern ''ask''" by code_simp+
  then show ?thesis by (simp add: safeExplanationText_def MaxStringBytes_def hasPrefix_def runeError_def isControl_def)
qed

lemma sampleLists:
  "canonicalIDs (Some [''mesh.mode'']) = Inr (Some [''mesh.mode''])" "canonicalCodes [''RECEIPT_MISSING'', ''RECEIPT_MISSING''] = Inr [''RECEIPT_MISSING'']"
  by code_simp+

lemma sampleLists_empty:
  "canonicalCodes [] = Inr []" "canonicalURLs None = Inr None" "canonicalDigests None = Inr None" "sortDistinct sx_SourceID validEvidence None = Inr None"
  by (simp_all add: canonicalCodes_def canonicalURLs_def canonicalDigests_def sortDistinct_def goSlice_def)

lemma sampleScalars:
  "componentScalars retainedComponent = None" "plannerUnknownProjection retainedComponent" "MatchString componentRegex ''pkg:github/istio/istio''"
  "MatchString evidenceGapRegex ''RECEIPT_MISSING''" "reportScalars sampleReport" "timeParses ''2025-06-01T12:00:00Z''"
  "MatchString reasonRegex ''candidate_only''" "MatchString digestRegex sampleReportDigest"
  by code_simp+

lemma sampleComponent_validated: "\<exists>c. validateCandidateComponent [] None retainedComponent = Inr c"
proof -
  have "length ''pkg:github/istio/istio'' \<le> MaxStringBytes" "length ''RECEIPT_MISSING'' \<le> MaxStringBytes" by (simp_all add: MaxStringBytes_def)
  moreover have "canonicalRequirementDetails (cc_RequirementDetails retainedComponent) [''RECEIPT_MISSING''] = Inr (cc_RequirementDetails retainedComponent)"
    using sampleText_safe sampleScalars(4)
    by (simp add: canonicalRequirementDetails_def retainedComponent_def goSlice_def maxReportListItems_def MaxStringBytes_def)
  ultimately show ?thesis
    using sampleScalars(1-3) sampleLists sampleLists_empty
    by (simp add: validateCandidateComponent_def canonicalSourceEvidence_def canonicalEvidenceGaps_def not_less) (simp add: retainedComponent_def not_less)
qed

lemma sampleReport_canonical: "\<exists>report. canonicalReport sampleReport = Inr report"
proof -
  let ?r = "sampleReport\<lparr>ct_APIVersion := APIVersion, ct_Kind := ReportKind, ct_SchemaVersion := SchemaVersion\<rparr>"
  obtain c where c: "validateCandidateComponent [] None retainedComponent = Inr c" using sampleComponent_validated by blast
  have "reportScalars ?r" using sampleScalars(5) by (simp add: reportScalars_def)
  then have "\<exists>r. validateCandidateReport ?r = Inr r \<and> ct_Inputs r = ct_Inputs sampleReport"
    using c sampleScalars(3) sampleLists_empty(1)
    by (simp add: validateCandidateReport_def canonicalEvidenceGaps_def)
       (simp add: sampleReport_def retainedComponent_def goSlice_def MaxReportComponents_def canonicalEvidenceGaps_def)
  moreover have "inputDigestsValid (ct_Inputs sampleReport)" using sampleScalars(8) by (simp add: inputDigestsValid_def sampleReport_def goSlice_def)
  ultimately show ?thesis using sampleScalars(6,7)
    by (auto simp: canonicalReport_def Let_def sampleReport_def orDefault_def candidateTruth_def)
qed

definition samplePolicy :: PolicyReference where
  "samplePolicy =
     \<lparr>po_APIVersion = APIVersion, po_Kind = PolicyReferenceKind, po_SchemaVersion = SchemaVersion, po_PolicyID = ''local-policy'',
      po_Revision = ''7'', po_Digest = sampleReportDigest\<rparr>"

lemma samplePolicy_valid: "validatePolicy samplePolicy"
  by code_simp

section \<open>Candidate reports\<close>

text \<open>
  C27. Whatever report the serialization accepts, the bytes it returns are those of a report that claims
  nothing: the decision and every component's decision are UNKNOWN and the truth labels say that no
  model, network or cluster was used; components are strictly sorted; every explanation passes the
  disclosure test; a component without source evidence keeps its current version and names an
  allow-listed reason; and serializing the canonical report again gives the same bytes.
\<close>

theorem candidate_report_claims_nothing:
  assumes "CanonicalCandidateReport given = Inr raw"
  shows "\<exists>report. canonicalReport given = Inr report \<and> raw = jsonPrint (encCandidateReport report) @ [CHR 0x0A] \<and>
    ct_Decision report = ''UNKNOWN'' \<and> candidateTruth (ct_Truth report) \<and>
    sorted_wrt (<) (map cc_ComponentID (ct_Components report)) \<and>
    (\<forall>c\<in>set (ct_Components report). cc_Decision c = ''UNKNOWN'' \<and>
       (\<forall>d\<in>set (goSlice (cc_RequirementDetails c)). safeExplanationText (rq_Reason d) \<and> safeExplanationText (rq_NextAction d)) \<and>
       (goSlice (cc_SourceEvidence c) = [] \<longrightarrow> cc_TargetVersion c = cc_CurrentVersion c \<and>
          (\<exists>d\<in>set (goSlice (cc_RequirementDetails c)). rq_Code d \<in> set plannerUnknownRequirementCodes \<and>
             rq_Code d \<in> set (cc_MissingRequirements c)))) \<and>
    CanonicalCandidateReport report = Inr raw"
proof -
  obtain report where r: "canonicalReport given = Inr report" "raw = jsonPrint (encCandidateReport report) @ [CHR 0x0A]"
    using assms unfolding CanonicalCandidateReport_form by blast
  obtain base where f: "ct_Decision report = ''UNKNOWN''" "candidateTruth (ct_Truth report)" by (rule canonicalReport_form [OF r(1)])
  have same: "CanonicalCandidateReport report = Inr raw"
    unfolding CanonicalCandidateReport_form using canonicalReport_idempotent [OF r(1)] r(2) by (intro exI [of _ report]) simp
  have coded: "cc_Decision c = ''UNKNOWN'' \<and>
       (\<forall>d\<in>set (goSlice (cc_RequirementDetails c)). safeExplanationText (rq_Reason d) \<and> safeExplanationText (rq_NextAction d)) \<and>
       (goSlice (cc_SourceEvidence c) = [] \<longrightarrow> cc_TargetVersion c = cc_CurrentVersion c \<and>
          (\<exists>d\<in>set (goSlice (cc_RequirementDetails c)). rq_Code d \<in> set plannerUnknownRequirementCodes \<and>
             rq_Code d \<in> set (cc_MissingRequirements c)))" if "c \<in> set (ct_Components report)" for c
    using bspec [OF conjunct2 [OF conjunct2 [OF canonicalReport_components [OF r(1)]]] that] plannerUnknownProjection_coded [of c]
    by (intro conjI impI; elim conjE) simp_all
  show ?thesis
    by (rule exI [of _ report], intro conjI) (rule r f conjunct1 [OF canonicalReport_components [OF r(1)]] ballI same coded | assumption)+
qed

theorem candidate_report_claims_nothing_witness:
  "\<exists>raw report. CanonicalCandidateReport sampleReport = Inr raw \<and> CanonicalCandidateReport report = Inr raw \<and> ct_Decision report = ''UNKNOWN''"
proof -
  obtain raw where r: "CanonicalCandidateReport sampleReport = Inr raw"
    using sampleReport_canonical unfolding CanonicalCandidateReport_form by blast
  from candidate_report_claims_nothing [OF r] r show ?thesis by blast
qed

section \<open>Policy references\<close>

text \<open>
  C40. A policy reference that passes validation survives its own text: the bytes that its digest is taken
  over are accepted by the strict reader, within every size bound, and read back as the same
  reference, with no change by normalization.
\<close>

theorem policy_reference_roundtrip:
  assumes "validatePolicy policy"
  shows "ParsePolicyReference (jsonPrint (JObj (policyMembers policy))) = Inr policy \<and> normalizedPolicy policy = policy \<and>
    DigestPolicyReference policy = validationDigest (jsonPrint (JObj (policyMembers policy)))"
  using ParsePolicyReference_accepts [OF assms] ParsePolicyReference_sound(2) by (auto simp: DigestPolicyReference_def)

theorem policy_reference_roundtrip_witness:
  "ParsePolicyReference (jsonPrint (JObj (policyMembers samplePolicy))) = Inr samplePolicy"
  using policy_reference_roundtrip [OF samplePolicy_valid] by blast

text \<open>The pattern for private addresses also matches a release version of three parts that starts with 10.\<close>

lemma release_text_refused: "\<not> safeExplanationText ''10.4.1''"
proof -
  have "MatchString privateIPv4Pattern ''10.4.1''" by code_simp
  then show ?thesis by (simp add: safeExplanationText_def)
qed

end
