(* ===== verification/EventScan.thy ===== *)
theory EventScan
  imports GoRaw
begin

text \<open>
  The scanner of \<open>cloudeventsstructuredjson/event.go\<close>: a second reading of an admitted JSON text that
  keeps the six members the profile looks at, notes repeated names and repaired surrogates, and bounds
  depth, tokens, members and names.

  The position in the text is the unread rest of it. The recursion of \<open>value\<close>, \<open>object\<close> and \<open>array\<close> and the
  loops run on fuel; \<open>Exhausted\<close> is running out of it.

  Shown here: twice the length of the rest is enough fuel, and more changes nothing (\<open>scan_enough\<close>,
  \<open>scan_more\<close>); on a text the JSON parser accepts, the scanner fails exactly when a bound is exceeded
  and otherwise returns what the parsed tree says (\<open>scan_exact\<close>, \<open>scanRoot_exact\<close>).
\<close>

section \<open>State and results\<close>

record selectedValue =
  sv_present :: bool
  sv_kind :: char
  sv_text :: string
  sv_repaired :: bool

definition zeroSelected :: selectedValue where
  "zeroSelected = \<lparr>sv_present = False, sv_kind = CHR 0x00, sv_text = [], sv_repaired = False\<rparr>"

record eventScan =
  ev_rootObject :: bool
  ev_duplicate :: bool
  ev_selected :: "string \<rightharpoonup> selectedValue"

record jsonScanner =
  sc_rest :: string
  sc_tokens :: int
  sc_members :: int

datatype 'a scanned = Exhausted | Refused | Scanned 'a jsonScanner

definition andScan :: "'a scanned \<Rightarrow> ('a \<Rightarrow> jsonScanner \<Rightarrow> 'b scanned) \<Rightarrow> 'b scanned" where
  "andScan r f = (case r of Exhausted \<Rightarrow> Exhausted | Refused \<Rightarrow> Refused | Scanned x s \<Rightarrow> f x s)"

lemma andScan_simps [simp]:
  "andScan Exhausted f = Exhausted" "andScan Refused f = Refused" "andScan (Scanned x s) f = f x s"
  by (simp_all add: andScan_def)

section \<open>Tokens\<close>

definition scannerSpace :: "jsonScanner \<Rightarrow> jsonScanner" where
  "scannerSpace s = s\<lparr>sc_rest := skipSpace (sc_rest s)\<rparr>"

definition scannerTake :: "char \<Rightarrow> jsonScanner \<Rightarrow> jsonScanner option" where
  "scannerTake c s = (case skipSpace (sc_rest s) of [] \<Rightarrow> None | d # ds \<Rightarrow> if d = c then Some (s\<lparr>sc_rest := ds\<rparr>) else None)"

definition scannerLiteral :: "string \<Rightarrow> jsonScanner \<Rightarrow> jsonScanner option" where
  "scannerLiteral v s = (if hasPrefix (sc_rest s) v then Some (s\<lparr>sc_rest := drop (length v) (sc_rest s)\<rparr>) else None)"

definition isJSONTerminator :: "char \<Rightarrow> bool" where
  "isJSONTerminator c = (isSpace c \<or> c = CHR '','' \<or> c = CHR '']'' \<or> c = CHR ''}'')"

function tokenLoop :: "bool \<Rightarrow> string \<Rightarrow> (bool \<times> string) option" where
  "tokenLoop repaired [] = None"
| "tokenLoop repaired (c # cs) =
     (if c = CHR 0x22 then Some (repaired, cs)
      else if c = CHR 0x5C then
        (case cs of
           [] \<Rightarrow> None
         | e # es \<Rightarrow>
             if e \<noteq> CHR ''u'' then tokenLoop repaired es
             else (case hex4 es of
                     None \<Rightarrow> None
                   | Some (v, rest) \<Rightarrow>
                       if 55296 \<le> v \<and> v \<le> 56319 then
                         (case peekU4 rest of
                            Some (low, rest2) \<Rightarrow>
                              if 56320 \<le> low \<and> low \<le> 57343 then tokenLoop repaired rest2 else tokenLoop True rest
                          | None \<Rightarrow> tokenLoop True rest)
                       else if 56320 \<le> v \<and> v \<le> 57343 then tokenLoop True rest
                       else tokenLoop repaired rest))
      else tokenLoop repaired cs)"
  by pat_completeness auto
termination
  by (relation "measure (length \<circ> snd)") (auto dest!: hex4_length peekU4_length)

declare tokenLoop.simps [simp del]

definition stringToken :: "jsonScanner \<Rightarrow> (string \<times> bool) scanned" where
  "stringToken s =
     (case skipSpace (sc_rest s) of
        [] \<Rightarrow> Refused
      | c # cs \<Rightarrow>
          if c \<noteq> CHR 0x22 then Refused
          else (case tokenLoop False cs of
                  None \<Rightarrow> Refused
                | Some (repaired, rest) \<Rightarrow>
                    (case Option.bind (jsonParse (c # take (length cs - length rest) cs)) decString of
                       None \<Rightarrow> Refused
                     | Some text \<Rightarrow>
                         if \<not> utf8Valid text then Refused else Scanned (text, repaired) (s\<lparr>sc_rest := rest\<rparr>))))"

text \<open>A member name with its colon, and what follows a member or an element: the closing byte, or a comma and the next one.\<close>

definition memberName :: "jsonScanner \<Rightarrow> string scanned" where
  "memberName s =
     andScan (stringToken s) (\<lambda>(key, _) s1.
       if 16384 < int (length key) \<or> 100000 < sc_members s1 + 1 then Refused
       else (case scannerTake (CHR '':'') (s1\<lparr>sc_members := sc_members s1 + 1\<rparr>) of None \<Rightarrow> Refused | Some s2 \<Rightarrow> Scanned key s2))"

definition closeOr :: "char \<Rightarrow> 'a \<Rightarrow> (jsonScanner \<Rightarrow> 'a scanned) \<Rightarrow> jsonScanner \<Rightarrow> 'a scanned" where
  "closeOr close x next' s =
     (case scannerTake close s of
        Some s' \<Rightarrow> Scanned x s'
      | None \<Rightarrow> (case scannerTake (CHR '','') s of None \<Rightarrow> Refused | Some s' \<Rightarrow> next' s'))"

definition emptyOr :: "char \<Rightarrow> 'a \<Rightarrow> (jsonScanner \<Rightarrow> 'a scanned) \<Rightarrow> jsonScanner \<Rightarrow> 'a scanned" where
  "emptyOr close x next' s = (case scannerTake close s of Some s' \<Rightarrow> Scanned x s' | None \<Rightarrow> next' s)"

section \<open>Values\<close>

definition ofKind :: "char \<Rightarrow> selectedValue" where
  "ofKind k = zeroSelected\<lparr>sv_kind := k\<rparr>"

definition literalOf :: "string \<Rightarrow> char \<Rightarrow> jsonScanner \<Rightarrow> selectedValue scanned" where
  "literalOf v k s = (case scannerLiteral v s of Some s' \<Rightarrow> Scanned (ofKind k) s' | None \<Rightarrow> Refused)"

fun scanValue :: "nat \<Rightarrow> int \<Rightarrow> jsonScanner \<Rightarrow> selectedValue scanned"
  and objectLoop :: "nat \<Rightarrow> int \<Rightarrow> jsonScanner \<Rightarrow> unit scanned"
  and arrayLoop :: "nat \<Rightarrow> int \<Rightarrow> jsonScanner \<Rightarrow> unit scanned"
where
  "scanValue 0 depth s = Exhausted"
| "scanValue (Suc n) depth s =
     (if 24 < depth \<or> 100000 < sc_tokens s then Refused
      else (case skipSpace (sc_rest s) of
              [] \<Rightarrow> Refused
            | c # cs \<Rightarrow>
                (let s1 = s\<lparr>sc_rest := c # cs, sc_tokens := sc_tokens s + 1\<rparr>; s2 = s\<lparr>sc_rest := cs, sc_tokens := sc_tokens s + 1\<rparr> in
                 if c = CHR 0x22 then
                   andScan (stringToken s1) (\<lambda>(t, r). Scanned ((ofKind (CHR ''s''))\<lparr>sv_text := t, sv_repaired := r\<rparr>))
                 else if c = CHR ''{'' then
                   andScan (emptyOr (CHR ''}'') () (objectLoop n (depth + 1)) s2) (\<lambda>_. Scanned (ofKind (CHR ''o'')))
                 else if c = CHR ''['' then
                   andScan (emptyOr (CHR '']'') () (arrayLoop n (depth + 1)) s2) (\<lambda>_. Scanned (ofKind (CHR ''a'')))
                 else if c = CHR ''n'' then literalOf ''null'' (CHR ''n'') s1
                 else if c = CHR ''t'' then literalOf ''true'' (CHR ''b'') s1
                 else if c = CHR ''f'' then literalOf ''false'' (CHR ''b'') s1
                 else if isJSONTerminator c then Refused
                 else Scanned (ofKind (CHR ''#'')) (s1\<lparr>sc_rest := dropWhile (\<lambda>x. \<not> isJSONTerminator x) (c # cs)\<rparr>))))"
| "objectLoop 0 depth s = Exhausted"
| "objectLoop (Suc n) depth s =
     andScan (memberName s) (\<lambda>_ s1. andScan (scanValue n depth s1) (\<lambda>_ s2. closeOr (CHR ''}'') () (objectLoop n depth) s2))"
| "arrayLoop 0 depth s = Exhausted"
| "arrayLoop (Suc n) depth s =
     andScan (scanValue n depth s) (\<lambda>_ s1. closeOr (CHR '']'') () (arrayLoop n depth) s1)"

declare scanValue.simps [simp del] objectLoop.simps [simp del] arrayLoop.simps [simp del]

section \<open>The root\<close>

definition selectedKeys :: "string list" where
  "selectedKeys = [''specversion'', ''id'', ''source'', ''type'', ''data'', ''data_base64'']"

definition keepMember :: "string list \<Rightarrow> string \<Rightarrow> selectedValue \<Rightarrow> eventScan \<Rightarrow> eventScan" where
  "keepMember seen key value result =
     (let result1 = (if key \<in> set seen then result\<lparr>ev_duplicate := True\<rparr> else result) in
      if key \<in> set selectedKeys
      then result1\<lparr>ev_selected := (ev_selected result1)(key \<mapsto> value\<lparr>sv_present := True\<rparr>)\<rparr> else result1)"

fun rootLoop :: "nat \<Rightarrow> string list \<Rightarrow> eventScan \<Rightarrow> jsonScanner \<Rightarrow> eventScan scanned" where
  "rootLoop 0 seen result s = Exhausted"
| "rootLoop (Suc n) seen result s =
     andScan (memberName s) (\<lambda>key s1. andScan (scanValue n 1 s1) (\<lambda>value s2.
       closeOr (CHR ''}'') (keepMember seen key value result) (rootLoop n (key # seen) (keepMember seen key value result)) s2))"

declare rootLoop.simps [simp del]

definition emptyScan :: eventScan where
  "emptyScan = \<lparr>ev_rootObject = False, ev_duplicate = False, ev_selected = Map.empty\<rparr>"

definition scanRoot :: "nat \<Rightarrow> jsonScanner \<Rightarrow> eventScan scanned" where
  "scanRoot n s =
     (case skipSpace (sc_rest s) of
        [] \<Rightarrow> Refused
      | c # cs \<Rightarrow>
          if c \<noteq> CHR ''{'' then andScan (scanValue n 0 (scannerSpace s)) (\<lambda>_. Scanned emptyScan)
          else emptyOr (CHR ''}'') (emptyScan\<lparr>ev_rootObject := True\<rparr>) (rootLoop n [] (emptyScan\<lparr>ev_rootObject := True\<rparr>))
                 (s\<lparr>sc_rest := cs, sc_tokens := sc_tokens s + 1\<rparr>))"

section \<open>Progress and fuel\<close>

lemma tokenLoop_length: "tokenLoop repaired s = Some (r, rest) \<Longrightarrow> length rest < length s"
proof (induction "length s" arbitrary: s repaired rule: less_induct)
  case less
  define N where "N = length s"
  have IH: "length rest < N" if "tokenLoop b s' = Some (r, rest)" "length s' < N" for s' b
    using less.hyps that unfolding N_def by (meson less_trans)
  obtain c cs where s: "s = c # cs" using less.prems by (cases s) (auto simp: tokenLoop.simps)
  then have N: "N = Suc (length cs)" by (simp add: N_def)
  have "length rest < N"
    using less.prems unfolding s
    by (auto simp: tokenLoop.simps(2) split: if_splits list.splits option.splits dest!: hex4_length peekU4_length)
       ((erule IH)?, simp add: N)+
  then show ?case by (simp add: N_def)
qed

abbreviation unread :: "jsonScanner \<Rightarrow> nat" where
  "unread s \<equiv> length (sc_rest s)"

lemma scannerTake_unread: "scannerTake c s = Some s' \<Longrightarrow> unread s' < unread s"
  by (auto simp: scannerTake_def split: list.splits if_splits dest!: skipSpace_length)

lemma stringToken_unread: "stringToken s = Scanned x s' \<Longrightarrow> unread s' < unread s"
  by (auto simp: stringToken_def split: list.splits if_splits option.splits prod.splits dest!: skipSpace_length tokenLoop_length)

lemma stringToken_finite: "stringToken s \<noteq> Exhausted"
  by (auto simp: stringToken_def split: list.splits option.splits prod.splits)

lemma andScan_Scanned: "andScan r f = Scanned y s' \<longleftrightarrow> (\<exists>x s. r = Scanned x s \<and> f x s = Scanned y s')"
  by (cases r) auto

lemma andScan_Exhausted: "andScan r f = Exhausted \<longleftrightarrow> r = Exhausted \<or> (\<exists>x s. r = Scanned x s \<and> f x s = Exhausted)"
  by (cases r) auto

lemma memberName_unread: "memberName s = Scanned x s' \<Longrightarrow> unread s' < unread s"
  by (auto simp: memberName_def andScan_Scanned split: if_splits option.splits dest!: stringToken_unread scannerTake_unread)

lemma memberName_finite: "memberName s \<noteq> Exhausted"
  by (auto simp: memberName_def andScan_Exhausted stringToken_finite split: option.splits)

text \<open>A continuation that always consumes, and one that never runs out of fuel on shorter texts.\<close>

lemma closeOr_unread:
  assumes "\<And>s y s'. next' s = Scanned y s' \<Longrightarrow> unread s' < unread s"
  shows "closeOr c x next' s = Scanned y s' \<Longrightarrow> unread s' < unread s"
  by (auto simp: closeOr_def split: option.splits dest!: assms scannerTake_unread)

lemma emptyOr_unread:
  assumes "\<And>s y s'. next' s = Scanned y s' \<Longrightarrow> unread s' < unread s"
  shows "emptyOr c x next' s = Scanned y s' \<Longrightarrow> unread s' < unread s"
  by (auto simp: emptyOr_def split: option.splits dest!: assms scannerTake_unread)

lemma closeOr_finite:
  assumes "\<And>s'. unread s' < unread s \<Longrightarrow> next' s' \<noteq> Exhausted"
  shows "closeOr c x next' s \<noteq> Exhausted"
  using assms by (auto simp: closeOr_def split: option.splits dest: scannerTake_unread)

lemma emptyOr_finite: "next' s \<noteq> Exhausted \<Longrightarrow> emptyOr c x next' s \<noteq> Exhausted"
  by (auto simp: emptyOr_def split: option.splits)

lemma scan_unread_step:
  assumes V: "\<And>d s v s'. scanValue n d s = Scanned v s' \<Longrightarrow> unread s' < unread s"
    and M: "\<And>d s v s'. objectLoop n d s = Scanned v s' \<Longrightarrow> unread s' < unread s"
    and E: "\<And>d s v s'. arrayLoop n d s = Scanned v s' \<Longrightarrow> unread s' < unread s"
  shows "scanValue (Suc n) d s = Scanned v s' \<Longrightarrow> unread s' < unread s"
    and "objectLoop (Suc n) d s = Scanned u s' \<Longrightarrow> unread s' < unread s"
    and "arrayLoop (Suc n) d s = Scanned u s' \<Longrightarrow> unread s' < unread s"
proof -
  have num: "length (dropWhile P cs) < length s" if "skipSpace s = c # cs" for P c cs and s :: string
    using skipSpace_length [OF that] length_dropWhile_le [of P cs] by simp
  have lit: "unread s' < unread s" if "literalOf (p # ps) k (s\<lparr>sc_rest := c # cs, sc_tokens := i\<rparr>) = Scanned v s'" "skipSpace (sc_rest s) = c # cs"
    for p ps k i c cs
    using that skipSpace_length [OF that(2)] by (auto simp: literalOf_def scannerLiteral_def split: if_splits)
  have str: "unread s' < unread s" if "stringToken (s\<lparr>sc_rest := c # cs, sc_tokens := i\<rparr>) = Scanned y s'" "skipSpace (sc_rest s) = c # cs" for i c cs y
    using stringToken_unread [OF that(1)] skipSpace_length [OF that(2)] by simp
  have obj: "unread s' < unread s" if "emptyOr k () (objectLoop n e) (s\<lparr>sc_rest := cs, sc_tokens := i\<rparr>) = Scanned y s'" "skipSpace (sc_rest s) = c # cs"
    for k e i c cs y using emptyOr_unread [OF M [of e] that(1)] skipSpace_length [OF that(2)] by simp
  have arr: "unread s' < unread s" if "emptyOr k () (arrayLoop n e) (s\<lparr>sc_rest := cs, sc_tokens := i\<rparr>) = Scanned y s'" "skipSpace (sc_rest s) = c # cs"
    for k e i c cs y using emptyOr_unread [OF E [of e] that(1)] skipSpace_length [OF that(2)] by simp
  show "scanValue (Suc n) d s = Scanned v s' \<Longrightarrow> unread s' < unread s"
    by (auto simp: scanValue.simps Let_def andScan_Scanned num split: list.splits if_splits intro: str obj arr lit)
  show "unread s' < unread s" if run: "objectLoop (Suc n) d s = Scanned u s'"
  proof -
    obtain k s1 v s2 where "memberName s = Scanned k s1" "scanValue n d s1 = Scanned v s2" "closeOr (CHR ''}'') () (objectLoop n d) s2 = Scanned u s'"
      using run by (auto simp: objectLoop.simps andScan_Scanned)
    from memberName_unread [OF this(1)] V [OF this(2)] closeOr_unread [OF M [of d] this(3)] show ?thesis by simp
  qed
  show "unread s' < unread s" if run: "arrayLoop (Suc n) d s = Scanned u s'"
  proof -
    obtain v s2 where "scanValue n d s = Scanned v s2" "closeOr (CHR '']'') () (arrayLoop n d) s2 = Scanned u s'"
      using run by (auto simp: arrayLoop.simps andScan_Scanned)
    from V [OF this(1)] closeOr_unread [OF E [of d] this(2)] show ?thesis by simp
  qed
qed

lemma scan_unread:
  shows "scanValue n d s = Scanned v s' \<Longrightarrow> unread s' < unread s"
    and "objectLoop n d s = Scanned u s' \<Longrightarrow> unread s' < unread s"
    and "arrayLoop n d s = Scanned u s' \<Longrightarrow> unread s' < unread s"
proof (induction n arbitrary: d s v s' u)
  case (Suc n)
  {
    case 1
    with scan_unread_step(1) [of n] Suc show ?case by blast
  next
    case 2
    with scan_unread_step(2) [of n] Suc show ?case by blast
  next
    case 3
    with scan_unread_step(3) [of n] Suc show ?case by blast
  }
qed (simp_all add: scanValue.simps objectLoop.simps arrayLoop.simps)

lemma scan_enough_step:
  assumes V: "\<And>d s. 2 * unread s < n \<Longrightarrow> scanValue n d s \<noteq> Exhausted"
    and M: "\<And>d s. 2 * unread s < n \<Longrightarrow> objectLoop n d s \<noteq> Exhausted"
    and E: "\<And>d s. 2 * unread s + 1 < n \<Longrightarrow> arrayLoop n d s \<noteq> Exhausted"
  shows "2 * unread s < Suc n \<Longrightarrow> scanValue (Suc n) d s \<noteq> Exhausted"
    and "2 * unread s < Suc n \<Longrightarrow> objectLoop (Suc n) d s \<noteq> Exhausted"
    and "2 * unread s + 1 < Suc n \<Longrightarrow> arrayLoop (Suc n) d s \<noteq> Exhausted"
proof -
  assume b: "2 * unread s < Suc n"
  have obj: "emptyOr k () (objectLoop n e) (s\<lparr>sc_rest := cs, sc_tokens := i\<rparr>) \<noteq> Exhausted" if "skipSpace (sc_rest s) = c # cs" for k e i c cs
    using M b skipSpace_length [OF that] by (intro emptyOr_finite) simp
  have arr: "emptyOr k () (arrayLoop n e) (s\<lparr>sc_rest := cs, sc_tokens := i\<rparr>) \<noteq> Exhausted" if "skipSpace (sc_rest s) = c # cs" for k e i c cs
    using E b skipSpace_length [OF that] by (intro emptyOr_finite) simp
  have lit: "literalOf p k s' \<noteq> Exhausted" for p k s' by (simp add: literalOf_def split: option.splits)
  show "scanValue (Suc n) d s \<noteq> Exhausted"
    using stringToken_finite lit
    by (simp add: scanValue.simps Let_def andScan_Exhausted obj arr split: list.splits prod.splits)
next
  assume b: "2 * unread s < Suc n"
  have "scanValue n d s' \<noteq> Exhausted" if "unread s' < unread s" for d s' using V [of s'] b that by simp
  moreover have "closeOr c () (objectLoop n d) s' \<noteq> Exhausted" if "unread s' < unread s" for c d s'
    using M b that by (intro closeOr_finite) simp
  ultimately show "objectLoop (Suc n) d s \<noteq> Exhausted"
    by (auto simp: objectLoop.simps andScan_Exhausted memberName_finite dest!: memberName_unread scan_unread(1))
next
  assume b: "2 * unread s + 1 < Suc n"
  have "scanValue n d s \<noteq> Exhausted" for d using V [of s] b by simp
  moreover have "closeOr c () (arrayLoop n d) s' \<noteq> Exhausted" if "unread s' < unread s" for c d s'
    using E b that by (intro closeOr_finite) simp
  ultimately show "arrayLoop (Suc n) d s \<noteq> Exhausted"
    by (auto simp: arrayLoop.simps andScan_Exhausted dest!: scan_unread(1))
qed

lemma scan_enough:
  shows "2 * unread s < n \<Longrightarrow> scanValue n d s \<noteq> Exhausted"
    and "2 * unread s < n \<Longrightarrow> objectLoop n d s \<noteq> Exhausted"
    and "2 * unread s + 1 < n \<Longrightarrow> arrayLoop n d s \<noteq> Exhausted"
proof (induction n arbitrary: d s)
  case (Suc n)
  {
    case 1
    with scan_enough_step(1) [of n s d] Suc show ?case by blast
  next
    case 2
    with scan_enough_step(2) [of n s d] Suc show ?case by blast
  next
    case 3
    with scan_enough_step(3) [of n s d] Suc show ?case by blast
  }
qed simp_all

text \<open>A result, once reached, is kept by more fuel.\<close>

lemma andScan_more:
  assumes "r \<noteq> Exhausted \<Longrightarrow> r' = r" and "\<And>x s. r = Scanned x s \<Longrightarrow> f x s \<noteq> Exhausted \<Longrightarrow> f' x s = f x s"
  shows "andScan r f \<noteq> Exhausted \<Longrightarrow> andScan r' f' = andScan r f"
  using assms by (cases r) auto

lemma closeOr_more:
  assumes "\<And>s. f s \<noteq> Exhausted \<Longrightarrow> f' s = f s"
  shows "closeOr c x f s \<noteq> Exhausted \<Longrightarrow> closeOr c x f' s = closeOr c x f s"
  using assms by (auto simp: closeOr_def split: option.splits)

lemma emptyOr_more:
  assumes "\<And>s. f s \<noteq> Exhausted \<Longrightarrow> f' s = f s"
  shows "emptyOr c x f s \<noteq> Exhausted \<Longrightarrow> emptyOr c x f' s = emptyOr c x f s"
  using assms by (auto simp: emptyOr_def split: option.splits)

lemma scan_more:
  shows "scanValue n d s \<noteq> Exhausted \<Longrightarrow> n \<le> m \<Longrightarrow> scanValue m d s = scanValue n d s"
    and "objectLoop n d s \<noteq> Exhausted \<Longrightarrow> n \<le> m \<Longrightarrow> objectLoop m d s = objectLoop n d s"
    and "arrayLoop n d s \<noteq> Exhausted \<Longrightarrow> n \<le> m \<Longrightarrow> arrayLoop m d s = arrayLoop n d s"
proof (induction n arbitrary: d s m)
  case (Suc n)
  {
    case 1
    then obtain k where k: "m = Suc k" "n \<le> k" by (cases m) auto
    have "andScan (emptyOr e () (objectLoop k d') s') g = andScan (emptyOr e () (objectLoop n d') s') g"
      if "andScan (emptyOr e () (objectLoop n d') s') g \<noteq> Exhausted" for e d' s' and g :: "unit \<Rightarrow> jsonScanner \<Rightarrow> selectedValue scanned"
      using that emptyOr_more [of "objectLoop n d'" "objectLoop k d'" e "()" s'] Suc.IH(2) [OF _ k(2)] by (intro andScan_more) auto
    moreover have "andScan (emptyOr e () (arrayLoop k d') s') g = andScan (emptyOr e () (arrayLoop n d') s') g"
      if "andScan (emptyOr e () (arrayLoop n d') s') g \<noteq> Exhausted" for e d' s' and g :: "unit \<Rightarrow> jsonScanner \<Rightarrow> selectedValue scanned"
      using that emptyOr_more [of "arrayLoop n d'" "arrayLoop k d'" e "()" s'] Suc.IH(3) [OF _ k(2)] by (intro andScan_more) auto
    ultimately show ?case using 1 k(1) by (cases "skipSpace (sc_rest s)") (auto simp: scanValue.simps Let_def)
  next
    case 2
    then obtain k where k: "m = Suc k" "n \<le> k" by (cases m) auto
    have v: "scanValue k d s' = scanValue n d s'" if "scanValue n d s' \<noteq> Exhausted" for s' using Suc.IH(1) that k by blast
    have "closeOr c () (objectLoop k d) s' = closeOr c () (objectLoop n d) s'" if "closeOr c () (objectLoop n d) s' \<noteq> Exhausted" for c s'
      using that by (rule closeOr_more [rotated]) (use Suc.IH(2) k in blast)
    then show ?case using 2 unfolding k(1) objectLoop.simps by (intro andScan_more v refl) auto
  next
    case 3
    then obtain k where k: "m = Suc k" "n \<le> k" by (cases m) auto
    have v: "scanValue k d s' = scanValue n d s'" if "scanValue n d s' \<noteq> Exhausted" for s' using Suc.IH(1) that k by blast
    have "closeOr c () (arrayLoop k d) s' = closeOr c () (arrayLoop n d) s'" if "closeOr c () (arrayLoop n d) s' \<noteq> Exhausted" for c s'
      using that by (rule closeOr_more [rotated]) (use Suc.IH(3) k in blast)
    then show ?case using 3 unfolding k(1) arrayLoop.simps by (intro andScan_more v) auto
  }
qed (simp_all add: scanValue.simps objectLoop.simps arrayLoop.simps)

lemma rootLoop_enough: "2 * unread s < n \<Longrightarrow> rootLoop n seen result s \<noteq> Exhausted"
proof (induction n arbitrary: seen result s)
  case (Suc n)
  have "closeOr c y (rootLoop n seen' result') s' \<noteq> Exhausted" if "unread s' < unread s" for c y seen' result' s'
    using Suc that by (intro closeOr_finite) simp
  moreover have "scanValue n 1 s' \<noteq> Exhausted" if "unread s' < unread s" for s' using scan_enough(1) [of s' n 1] Suc.prems that by simp
  ultimately show ?case
    by (auto simp: rootLoop.simps andScan_Exhausted memberName_finite dest!: memberName_unread scan_unread(1))
qed simp

lemma rootLoop_more: "rootLoop n seen result s \<noteq> Exhausted \<Longrightarrow> n \<le> m \<Longrightarrow> rootLoop m seen result s = rootLoop n seen result s"
proof (induction n arbitrary: seen result s m)
  case (Suc n)
  obtain k where k: "m = Suc k" "n \<le> k" using Suc.prems(2) by (cases m) auto
  have v: "scanValue k 1 s' = scanValue n 1 s'" if "scanValue n 1 s' \<noteq> Exhausted" for s' using scan_more(1) that k by blast
  have "closeOr c y (rootLoop k seen' result') s' = closeOr c y (rootLoop n seen' result') s'"
    if "closeOr c y (rootLoop n seen' result') s' \<noteq> Exhausted" for c y seen' result' s'
    using that by (rule closeOr_more [rotated]) (use Suc.IH k in blast)
  then show ?case using Suc.prems(1) unfolding k(1) rootLoop.simps by (intro andScan_more v refl) auto
qed (simp add: rootLoop.simps)

text \<open>The scan of a text ends within twice its length, whether or not the text is JSON.\<close>

lemma scanRoot_enough: "2 * unread s < n \<Longrightarrow> scanRoot n s \<noteq> Exhausted"
proof -
  assume n: "2 * unread s < n"
  have "2 * unread (scannerSpace s) < n" using n length_dropWhile_le [of isSpace "sc_rest s"] by (simp add: scannerSpace_def skipSpace_def)
  then have "scanValue n 0 (scannerSpace s) \<noteq> Exhausted" by (rule scan_enough(1))
  moreover have "emptyOr c y (rootLoop n seen result) (s\<lparr>sc_rest := cs, sc_tokens := i\<rparr>) \<noteq> Exhausted"
    if "skipSpace (sc_rest s) = d # cs" for c y seen result i d cs
    using skipSpace_length [OF that] n by (intro emptyOr_finite rootLoop_enough) simp
  ultimately show ?thesis by (simp add: scanRoot_def andScan_Exhausted split: list.splits)
qed

lemma scanRoot_more: "scanRoot n s \<noteq> Exhausted \<Longrightarrow> n \<le> m \<Longrightarrow> scanRoot m s = scanRoot n s"
proof -
  assume e: "scanRoot n s \<noteq> Exhausted" and n: "n \<le> m"
  have "andScan (scanValue m 0 s') f = andScan (scanValue n 0 s') f" if "andScan (scanValue n 0 s') f \<noteq> Exhausted" for s' and f :: "selectedValue \<Rightarrow> jsonScanner \<Rightarrow> eventScan scanned"
    using that scan_more(1) [OF _ n] by (intro andScan_more) auto
  moreover have "emptyOr c y (rootLoop m [] y) s' = emptyOr c y (rootLoop n [] y) s'" if "emptyOr c y (rootLoop n [] y) s' \<noteq> Exhausted" for c y s'
    using that by (rule emptyOr_more [rotated]) (use rootLoop_more n in blast)
  ultimately show ?thesis using e by (simp add: scanRoot_def split: list.splits if_splits)
qed

section \<open>String tokens\<close>

definition tokenReads :: "string \<Rightarrow> string \<Rightarrow> bool \<Rightarrow> bool" where
  "tokenReads b t f \<longleftrightarrow> (\<forall>q. scanString (b @ CHR 0x22 # q) = Some (t, q) \<and>
     (\<forall>repaired. tokenLoop repaired (b @ CHR 0x22 # q) = Some (repaired \<or> f, q)))"

lemma peekU4_local:
  assumes "peekU4 (b @ CHR 0x22 # q) = Some (r, rest)"
  shows "\<exists>rest'. peekU4 (b @ CHR 0x22 # s) = Some (r, rest')"
proof -
  obtain h where h: "b @ CHR 0x22 # q = (CHR 0x5C # CHR ''u'' # h) @ rest" "hexText h r" using peekU4_text [OF assms] by auto
  obtain b' where "b = (CHR 0x5C # CHR ''u'' # h) @ b'"
    using prefix_body [OF _ h(1) [symmetric]] hexText_no_quote [OF h(2)] by auto
  then show ?thesis using h(2) by (auto simp: peekU4_hexText)
qed

lemma tokenReads_unicode:
  assumes "hexText h x" "\<not> isSurrogate x" "tokenReads b t f"
  shows "tokenReads (CHR 0x5C # CHR ''u'' # h @ b) (encodeRune x @ t) f"
  using assms by (auto simp: tokenReads_def scanString.simps(2) [of "CHR 0x5C"] tokenLoop.simps(2) [of _ "CHR 0x5C"] hexText_hex4 isSurrogate_def)

lemma tokenReads_pair:
  assumes "hexText h x" "isSurrogate x" "hexText g r" "surrogatePair x r = Some p" "tokenReads b t f"
  shows "tokenReads (CHR 0x5C # CHR ''u'' # h @ CHR 0x5C # CHR ''u'' # g @ b) (encodeRune p @ t) f"
  using assms
  by (auto simp: tokenReads_def scanString.simps(2) [of "CHR 0x5C"] tokenLoop.simps(2) [of _ "CHR 0x5C"] hexText_hex4 peekU4_hexText
           surrogatePair_def split: if_splits)

lemma tokenReads_lone:
  assumes "hexText h x" "isSurrogate x" "tokenReads b t f"
    and "\<And>r rest. peekU4 (b @ CHR 0x22 # s) = Some (r, rest) \<Longrightarrow> surrogatePair x r = None"
  shows "tokenReads (CHR 0x5C # CHR ''u'' # h @ b) (encodeRune runeError @ t) True"
proof -
  have lone: "surrogatePair x r = None" if "peekU4 (b @ CHR 0x22 # q) = Some (r, rest)" for q r rest
    using peekU4_local [OF that, of s] assms(4) by blast
  have "scanString (CHR 0x5C # CHR ''u'' # h @ b @ CHR 0x22 # q) = Some (encodeRune runeError @ t, q)" for q
    using assms(1-3) lone [of q] by (auto simp: tokenReads_def scanString.simps(2) [of "CHR 0x5C"] hexText_hex4 split: option.splits)
  moreover have "tokenLoop repaired (CHR 0x5C # CHR ''u'' # h @ b @ CHR 0x22 # q) = Some (True, q)" for repaired q
    using assms(1-3) lone [of q]
    by (auto simp: tokenReads_def tokenLoop.simps(2) [of _ "CHR 0x5C"] hexText_hex4 isSurrogate_def surrogatePair_def split: option.splits if_splits)
  ultimately show ?thesis by (simp add: tokenReads_def)
qed

lemma tokenReads_escape:
  assumes "simpleEscape e = Some d" "e \<noteq> CHR ''u''" "tokenReads b t f"
  shows "tokenReads (CHR 0x5C # e # b) (d # t) f"
  using assms by (simp add: tokenReads_def scanString.simps(2) [of "CHR 0x5C"] tokenLoop.simps(2) [of _ "CHR 0x5C"])

lemma tokenReads_byte:
  assumes "c \<noteq> CHR 0x22" "c \<noteq> CHR 0x5C" "32 \<le> byte c" "tokenReads b t f"
  shows "tokenReads (c # b) (c # t) f"
  using assms by (simp add: tokenReads_def scanString.simps(2) [of c] tokenLoop.simps(2) [of _ c])

lemma tokenReads_scan:
  "scanString s = Some (t, r) \<Longrightarrow> \<exists>b f. s = b @ CHR 0x22 # r \<and> tokenReads b t f"
proof (induction "length s" arbitrary: s t rule: less_induct)
  case less
  obtain c cs where s: "s = c # cs" using less.prems by (cases s) (auto simp: scanString.simps)
  from less.prems [unfolded s] show ?case
  proof (cases rule: scanString_cases)
    case quote
    then show ?thesis using s by (intro exI [of _ "[]"] exI [of _ False]) (simp add: tokenReads_def scanString.simps tokenLoop.simps)
  next
    case (unicode h x rest)
    from less.prems [unfolded s unicode(1,2)] unicode(3) show ?thesis
    proof (cases rule: scanString_unicode)
      case (rune t')
      then obtain b f where "rest = b @ CHR 0x22 # r" "tokenReads b t' f" using less.hyps [of rest t'] s unicode by auto
      then show ?thesis using tokenReads_unicode [OF unicode(3) rune(1)] rune(3) s unicode(1,2)
        by (intro exI [of _ "CHR 0x5C # CHR ''u'' # h @ b"] exI [of _ f]) simp
    next
      case (pair g r2 rest2 p t')
      then obtain b f where "rest2 = b @ CHR 0x22 # r" "tokenReads b t' f" using less.hyps [of rest2 t'] s unicode by auto
      then show ?thesis using tokenReads_pair [OF unicode(3) pair(1,3,4)] pair(2,6) s unicode(1,2)
        by (intro exI [of _ "CHR 0x5C # CHR ''u'' # h @ CHR 0x5C # CHR ''u'' # g @ b"] exI [of _ f]) simp
    next
      case (lone t')
      then obtain b f where "rest = b @ CHR 0x22 # r" "tokenReads b t' f" using less.hyps [of rest t'] s unicode by auto
      then show ?thesis using tokenReads_lone [OF unicode(3) lone(1), of b t' f r] lone(2,4) s unicode(1,2)
        by (intro exI [of _ "CHR 0x5C # CHR ''u'' # h @ b"] exI [of _ True]) auto
    qed
  next
    case (escape e es d t')
    then obtain b f where "es = b @ CHR 0x22 # r" "tokenReads b t' f" using less.hyps [of es t'] s by auto
    then show ?thesis using tokenReads_escape [OF escape(4,3)] escape s by (intro exI [of _ "CHR 0x5C # e # b"] exI [of _ f]) simp
  next
    case (byte t')
    obtain b f where b: "cs = b @ CHR 0x22 # r" "tokenReads b t' f" using less.hyps [of cs t'] byte(4) s by auto
    from tokenReads_byte [OF byte(1-3) this(2)] show ?thesis using b(1) s byte(5) by (intro exI [of _ "c # b"] exI [of _ f]) simp
  qed
qed

text \<open>Whether a string literal with the given body needed a replacement for a lone surrogate.\<close>

definition repairedBody :: "string \<Rightarrow> bool" where
  "repairedBody b = (case tokenLoop False (b @ [CHR 0x22]) of Some (f, _) \<Rightarrow> f | None \<Rightarrow> False)"

lemma stringToken_exact:
  assumes "skipSpace (sc_rest s) = CHR 0x22 # cs" and "scanString cs = Some (t, r)"
  shows "stringToken s = Scanned (utf8Coerce t, repairedBody (bodyOf cs r)) (s\<lparr>sc_rest := r\<rparr>)"
proof -
  obtain b f where b: "cs = b @ CHR 0x22 # r" "tokenReads b t f" using tokenReads_scan [OF assms(2)] by blast
  then have body: "bodyOf cs r = b" "take (length cs - length r) cs = b @ [CHR 0x22]" by (simp_all add: bodyOf_def)
  have "jsonParse (CHR 0x22 # b @ [CHR 0x22]) = Some (JStr (utf8Coerce t))"
    using b(2) by (simp add: jsonParse_def parseValue.simps skipSpace_def tokenReads_def)
  moreover have "tokenLoop False cs = Some (f, r)" "repairedBody b = f"
    using b by (simp_all add: tokenReads_def repairedBody_def)
  ultimately show ?thesis using assms(1) body by (simp add: stringToken_def utf8Valid_coerce)
qed

section \<open>The scanner and the parsed tree\<close>

text \<open>How many values and members a tree has, and whether its depth and its names are within bounds.\<close>

fun rawValues :: "rawJson \<Rightarrow> int" where
  "rawValues (RArr xs) = 1 + (\<Sum>x\<leftarrow>xs. rawValues x)"
| "rawValues (RObj ms) = 1 + (\<Sum>(k, x)\<leftarrow>ms. rawValues x)"
| "rawValues _ = 1"

fun rawMemberCount :: "rawJson \<Rightarrow> int" where
  "rawMemberCount (RArr xs) = (\<Sum>x\<leftarrow>xs. rawMemberCount x)"
| "rawMemberCount (RObj ms) = int (length ms) + (\<Sum>(k, x)\<leftarrow>ms. rawMemberCount x)"
| "rawMemberCount _ = 0"

fun rawNested :: "int \<Rightarrow> rawJson \<Rightarrow> bool" where
  "rawNested d (RArr xs) = (d \<le> 24 \<and> (\<forall>x\<in>set xs. rawNested (d + 1) x))"
| "rawNested d (RObj ms) = (d \<le> 24 \<and> (\<forall>(k, x)\<in>set ms. rawNested (d + 1) x))"
| "rawNested d _ = (d \<le> 24)"

fun rawNames :: "rawJson \<Rightarrow> bool" where
  "rawNames (RArr xs) = (\<forall>x\<in>set xs. rawNames x)"
| "rawNames (RObj ms) = (\<forall>(k, x)\<in>set ms. int (length (snd k)) \<le> 16384 \<and> rawNames x)"
| "rawNames _ = True"

fun kindOf :: "rawJson \<Rightarrow> selectedValue" where
  "kindOf (RStr b t) = (ofKind (CHR ''s''))\<lparr>sv_text := t, sv_repaired := repairedBody b\<rparr>"
| "kindOf (RArr xs) = ofKind (CHR ''a'')"
| "kindOf (RObj ms) = ofKind (CHR ''o'')"
| "kindOf (RLit v) = ofKind (case v of JNull \<Rightarrow> CHR ''n'' | JBool b \<Rightarrow> CHR ''b'' | _ \<Rightarrow> CHR ''#'')"

text \<open>Admission of the members of an object, of the elements of an array and of one value, from a state at a depth.\<close>

definition admitsValue :: "int \<Rightarrow> jsonScanner \<Rightarrow> rawJson \<Rightarrow> bool" where
  "admitsValue d s x \<longleftrightarrow> rawNested d x \<and> rawNames x \<and> sc_tokens s + rawValues x \<le> 100001 \<and> sc_members s + rawMemberCount x \<le> 100000"

definition admitsMembers :: "int \<Rightarrow> jsonScanner \<Rightarrow> ((string \<times> string) \<times> rawJson) list \<Rightarrow> bool" where
  "admitsMembers d s ms \<longleftrightarrow> (\<forall>(k, x)\<in>set ms. rawNested d x) \<and> rawNames (RObj ms) \<and>
     sc_tokens s + rawValues (RObj ms) \<le> 100002 \<and> sc_members s + rawMemberCount (RObj ms) \<le> 100000"

definition admitsElems :: "int \<Rightarrow> jsonScanner \<Rightarrow> rawJson list \<Rightarrow> bool" where
  "admitsElems d s xs \<longleftrightarrow> (\<forall>x\<in>set xs. rawNested d x) \<and> rawNames (RArr xs) \<and>
     sc_tokens s + rawValues (RArr xs) \<le> 100002 \<and> sc_members s + rawMemberCount (RArr xs) \<le> 100000"

definition advance :: "string \<Rightarrow> int \<Rightarrow> int \<Rightarrow> jsonScanner \<Rightarrow> jsonScanner" where
  "advance r tokens members s = s\<lparr>sc_rest := r, sc_tokens := sc_tokens s + tokens, sc_members := sc_members s + members\<rparr>"

definition valueResult :: "int \<Rightarrow> jsonScanner \<Rightarrow> rawJson \<Rightarrow> string \<Rightarrow> selectedValue scanned" where
  "valueResult d s x r = (if admitsValue d s x then Scanned (kindOf x) (advance r (rawValues x) (rawMemberCount x) s) else Refused)"

definition membersResult :: "int \<Rightarrow> jsonScanner \<Rightarrow> ((string \<times> string) \<times> rawJson) list \<Rightarrow> string \<Rightarrow> unit scanned" where
  "membersResult d s ms r =
     (if admitsMembers d s ms then Scanned () (advance r (rawValues (RObj ms) - 1) (rawMemberCount (RObj ms)) s) else Refused)"

definition elemsResult :: "int \<Rightarrow> jsonScanner \<Rightarrow> rawJson list \<Rightarrow> string \<Rightarrow> unit scanned" where
  "elemsResult d s xs r =
     (if admitsElems d s xs then Scanned () (advance r (rawValues (RArr xs) - 1) (rawMemberCount (RArr xs)) s) else Refused)"

lemma raw_counts: "1 \<le> rawValues x" "0 \<le> rawMemberCount x"
proof -
  have "1 \<le> rawValues x \<and> 0 \<le> rawMemberCount x"
  proof (induction x)
    case (RArr xs)
    then have "0 \<le> (\<Sum>x\<leftarrow>xs. rawValues x)" "0 \<le> (\<Sum>x\<leftarrow>xs. rawMemberCount x)" by (force intro!: sum_list_nonneg)+
    then show ?case by simp
  next
    case (RObj ms)
    have "0 \<le> rawValues x \<and> 0 \<le> rawMemberCount x" if "(k, x) \<in> set ms" for k x
      using RObj [OF that, of x] by (simp add: prod_set_simps)
    then have "0 \<le> (\<Sum>(k, x)\<leftarrow>ms. rawValues x)" "0 \<le> (\<Sum>(k, x)\<leftarrow>ms. rawMemberCount x)" by (auto intro!: sum_list_nonneg)
    then show ?case by simp
  qed simp_all
  then show "1 \<le> rawValues x" "0 \<le> rawMemberCount x" by simp_all
qed

lemma sum_counts: "0 \<le> (\<Sum>(k, x)\<leftarrow>ms. rawValues x)" "0 \<le> (\<Sum>(k, x)\<leftarrow>ms. rawMemberCount x)"
  "0 \<le> (\<Sum>x\<leftarrow>xs. rawValues x)" "0 \<le> (\<Sum>x\<leftarrow>xs. rawMemberCount x)"
  using raw_counts order_trans [OF zero_le_one raw_counts(1)] by (auto intro!: sum_list_nonneg)

definition stopsScan :: "string \<Rightarrow> bool" where
  "stopsScan r = (case r of [] \<Rightarrow> True | c # _ \<Rightarrow> isJSONTerminator c)"

definition numberByte :: "char \<Rightarrow> bool" where
  "numberByte c = (isDigit c \<or> c \<in> set ''-+.eE'')"

lemma numberByte_scan: "numberByte c \<Longrightarrow> \<not> isJSONTerminator c"
  by (auto simp: numberByte_def isDigit_def isJSONTerminator_def isSpace_def)

lemma numberByte_digit: "isDigit c \<Longrightarrow> numberByte c"
  by (simp add: numberByte_def)

lemma numberByte_digits: "list_all numberByte (takeWhile isDigit xs)"
  using set_takeWhileD [of _ isDigit xs] by (auto simp: list_all_iff numberByte_def)

lemma numberByte_marks: "numberByte CHR ''-''" "numberByte CHR ''+''" "numberByte CHR ''.''" "numberByte CHR ''e''" "numberByte CHR ''E''" "numberByte CHR ''0''"
  by (simp_all add: numberByte_def isDigit_def)

lemma scanExp_bytes: "scanExp lit xs = Some (l, r) \<Longrightarrow> list_all numberByte lit \<Longrightarrow> list_all numberByte l"
  by (auto simp: scanExp_def Let_def numberByte_digits numberByte_digit numberByte_marks split: list.splits if_splits)

lemma scanFrac_bytes: "scanFrac lit xs = Some (l, r) \<Longrightarrow> list_all numberByte lit \<Longrightarrow> list_all numberByte l"
  by (auto simp: scanFrac_def Let_def numberByte_digits numberByte_digit numberByte_marks split: list.splits if_splits dest!: scanExp_bytes)

lemma scanNumber_bytes:
  assumes "scanNumber s = Some (l, r)"
  shows "list_all numberByte l"
  using assms
  by (auto simp: scanNumber_def Let_def numberByte_digits numberByte_digit numberByte_marks split: list.splits if_splits prod.splits dest!: scanFrac_bytes)

lemma skipSpace_token: "\<not> isSpace c \<Longrightarrow> skipSpace (c # cs) = c # cs"
  by (simp add: skipSpace_def)

lemma skipSpace_hd: "skipSpace s = c # cs \<Longrightarrow> \<not> isSpace c"
  by (metis skipSpace_def hd_dropWhile list.distinct(1) list.sel(1))

lemma stopsScan_skip: "skipSpace r = e # es \<Longrightarrow> isJSONTerminator e \<Longrightarrow> stopsScan r"
  by (cases r) (auto simp: stopsScan_def skipSpace_def isJSONTerminator_def split: if_splits)

lemma closeOr_exact:
  "skipSpace (sc_rest s) = e # es \<Longrightarrow>
     closeOr c x f s = (if e = c then Scanned x (s\<lparr>sc_rest := es\<rparr>) else if e = CHR '','' then f (s\<lparr>sc_rest := es\<rparr>) else Refused)"
  by (simp add: closeOr_def scannerTake_def)

lemma emptyOr_exact:
  "skipSpace (sc_rest s) = e # es \<Longrightarrow> emptyOr c x f s = (if e = c then Scanned x (s\<lparr>sc_rest := es\<rparr>) else f s)"
  by (simp add: emptyOr_def scannerTake_def)

lemma memberName_exact:
  assumes "skipSpace (sc_rest s) = CHR 0x22 # cs" "scanString cs = Some (k, r)" "skipSpace r = CHR '':'' # ds"
  shows "memberName s = (if 16384 < int (length (utf8Coerce k)) \<or> 100000 < sc_members s + 1 then Refused
     else Scanned (utf8Coerce k) (s\<lparr>sc_rest := ds, sc_members := sc_members s + 1\<rparr>))"
  using assms(3) by (simp add: memberName_def stringToken_exact [OF assms(1,2)] scannerTake_def)

lemma literal_exact:
  assumes "scanLiteral (c # cs) = Some (v, r)" and "stopsScan r"
  shows "(c = CHR ''n'' \<and> v = JNull \<and> (\<forall>k. literalOf ''null'' k (s\<lparr>sc_rest := c # cs, sc_tokens := i\<rparr>) = Scanned (ofKind k) (s\<lparr>sc_rest := r, sc_tokens := i\<rparr>))) \<or>
    (c = CHR ''t'' \<and> v = JBool True \<and> (\<forall>k. literalOf ''true'' k (s\<lparr>sc_rest := c # cs, sc_tokens := i\<rparr>) = Scanned (ofKind k) (s\<lparr>sc_rest := r, sc_tokens := i\<rparr>))) \<or>
    (c = CHR ''f'' \<and> v = JBool False \<and> (\<forall>k. literalOf ''false'' k (s\<lparr>sc_rest := c # cs, sc_tokens := i\<rparr>) = Scanned (ofKind k) (s\<lparr>sc_rest := r, sc_tokens := i\<rparr>))) \<or>
    (numberByte c \<and> c \<notin> set ''ntf'' \<and> (\<exists>l. v = JNum l) \<and> dropWhile (\<lambda>x. \<not> isJSONTerminator x) (c # cs) = r)"
proof -
  have lit: "literalOf p k (s\<lparr>sc_rest := c # cs, sc_tokens := i\<rparr>) = Scanned (ofKind k) (s\<lparr>sc_rest := drop m (c # cs), sc_tokens := i\<rparr>)" if "hasPrefix (c # cs) p" "length p = m" for p m k
    using that by (cases s) (simp add: literalOf_def scannerLiteral_def)
  consider "hasPrefix (c # cs) ''null''" "v = JNull" "r = drop 4 (c # cs)" | "hasPrefix (c # cs) ''true''" "v = JBool True" "r = drop 4 (c # cs)"
    | "hasPrefix (c # cs) ''false''" "v = JBool False" "r = drop 5 (c # cs)" | l where "v = JNum l" "scanNumber (c # cs) = Some (l, r)"
    using assms(1) by (auto simp: scanLiteral_def split: if_splits)
  then show ?thesis
  proof cases
    case 1
    then show ?thesis using lit [OF 1(1), of 4] by (simp add: hasPrefix_def)
  next
    case 2
    then show ?thesis using lit [OF 2(1), of 4] by (simp add: hasPrefix_def)
  next
    case 3
    then show ?thesis using lit [OF 3(1), of 5] by (simp add: hasPrefix_def)
  next
    case (4 l)
    have l: "c # cs = l @ r" "list_all numberByte l" "l \<noteq> []" using scanNumber_any [OF 4(2)] scanNumber_bytes [OF 4(2)] by auto
    then have "numberByte c" by (cases l) auto
    moreover have "c \<notin> set ''ntf''" using calculation by (auto simp: numberByte_def isDigit_def)
    moreover have "dropWhile (\<lambda>x. \<not> isJSONTerminator x) (l @ r) = r"
      using l(2) assms(2) numberByte_scan by (cases r) (auto simp: stopsScan_def list_all_iff)
    ultimately show ?thesis using l(1) 4(1) by simp
  qed
qed

lemma scanValue_leaf:
  assumes "skipSpace (sc_rest s) = c # cs" "c \<noteq> CHR ''{''" "c \<noteq> CHR ''[''"
    and "rawValue (Suc k) (sc_rest s) = Some (x, r)" and "stopsScan r" and "sc_members s \<le> 100000"
  shows "scanValue (Suc n) d s = valueResult d s x r"
proof (cases "c = CHR 0x22")
  case True
  then obtain t where t: "scanString cs = Some (t, r)" "x = RStr (bodyOf cs r) (utf8Coerce t)"
    using assms(1,4) by (auto simp: rawValue.simps)
  have "stringToken (s\<lparr>sc_rest := CHR 0x22 # cs, sc_tokens := sc_tokens s + 1\<rparr>) =
      Scanned (utf8Coerce t, repairedBody (bodyOf cs r)) (s\<lparr>sc_rest := r, sc_tokens := sc_tokens s + 1\<rparr>)"
    by (subst stringToken_exact [OF _ t(1)]) (simp_all add: skipSpace_token)
  then show ?thesis using assms(1,6) True t(2)
    by (auto simp: scanValue.simps valueResult_def admitsValue_def advance_def)
next
  case False
  then obtain v where v: "scanLiteral (c # cs) = Some (v, r)" "x = RLit v" using assms(1-4) by (auto simp: rawValue.simps)
  then show ?thesis
    using assms(1-3,6) False literal_exact [OF v(1) assms(5), where s = s and i = "sc_tokens s + 1"]
    by (elim disjE conjE exE) (simp_all add: scanValue.simps Let_def valueResult_def admitsValue_def advance_def numberByte_scan)
qed


lemma scanValue_composite:
  assumes "skipSpace (sc_rest s) = c # cs" "c = CHR ''{'' \<or> c = CHR ''[''" "rawValue (Suc k) (sc_rest s) = Some (x, r)"
    and "sc_members s \<le> 100000"
    and M: "\<And>s ms r. rawMembers k (sc_rest s) = Some (ms, r) \<Longrightarrow> sc_members s \<le> 100000 \<Longrightarrow> unread s \<le> length cs \<Longrightarrow>
      objectLoop n (d + 1) s = membersResult (d + 1) s ms r"
    and E: "\<And>s xs r. rawElems k (sc_rest s) = Some (xs, r) \<Longrightarrow> sc_members s \<le> 100000 \<Longrightarrow> unread s \<le> length cs \<Longrightarrow>
      arrayLoop n (d + 1) s = elemsResult (d + 1) s xs r"
  shows "scanValue (Suc n) d s = valueResult d s x r"
proof (cases "skipSpace cs")
  case Nil
  then show ?thesis using assms(1-3) by (auto simp: rawValue.simps)
next
  case (Cons e es)
  let ?s = "s\<lparr>sc_rest := cs, sc_tokens := sc_tokens s + 1\<rparr>"
  have e: "emptyOr k () f ?s = (if e = k then Scanned () (?s\<lparr>sc_rest := es\<rparr>) else f ?s)" for k f
    using emptyOr_exact [of ?s e es k "()" f] Cons by simp
  show ?thesis
  proof (cases "c = CHR ''{''")
    case True
    consider "e = CHR ''}''" "x = RObj []" "r = es" | ms where "e \<noteq> CHR ''}''" "x = RObj ms" "rawMembers k cs = Some (ms, r)"
      using assms(1,3) Cons True by (auto simp: rawValue.simps split: if_splits)
    then show ?thesis
    proof cases
      case 1
      then show ?thesis using assms(1,4) True Cons e by (auto simp: scanValue.simps valueResult_def admitsValue_def advance_def)
    next
      case (2 ms)
      have "objectLoop n (d + 1) ?s = membersResult (d + 1) ?s ms r" using M [of ?s] 2(3) assms(4) by simp
      then show ?thesis using assms(1,4) True Cons e 2 sum_counts(1) [of ms]
        by (auto simp: scanValue.simps valueResult_def membersResult_def admitsValue_def admitsMembers_def advance_def)
    qed
  next
    case False
    consider "e = CHR '']''" "x = RArr []" "r = es" | xs where "e \<noteq> CHR '']''" "x = RArr xs" "rawElems k cs = Some (xs, r)"
      using assms(1-3) Cons False by (auto simp: rawValue.simps split: if_splits)
    then show ?thesis
    proof cases
      case 1
      then show ?thesis using assms(1,2,4) False Cons e by (auto simp: scanValue.simps valueResult_def admitsValue_def advance_def)
    next
      case (2 xs)
      have "arrayLoop n (d + 1) ?s = elemsResult (d + 1) ?s xs r" using E [of ?s] 2(3) assms(4) by simp
      then show ?thesis using assms(1,2,4) False Cons e 2 sum_counts(3) [of xs]
        by (auto simp: scanValue.simps valueResult_def elemsResult_def admitsValue_def admitsElems_def advance_def)
    qed
  qed
qed

lemma rawMembers_step:
  assumes "rawMembers (Suc k) t = Some (ms, r)"
  obtains cs key r1 ds x r2 e es ms' where "skipSpace t = CHR 0x22 # cs" "scanString cs = Some (key, r1)" "skipSpace r1 = CHR '':'' # ds"
    "rawValue k ds = Some (x, r2)" "skipSpace r2 = e # es" "ms = ((bodyOf cs r1, utf8Coerce key), x) # ms'"
    "e = CHR ''}'' \<and> ms' = [] \<and> r = es \<or> e = CHR '','' \<and> rawMembers k es = Some (ms', r)"
  using assms by (auto simp: rawMembers.simps split: list.splits if_splits option.splits)

lemma rawElems_step:
  assumes "rawElems (Suc k) t = Some (xs, r)"
  obtains x r2 e es xs' where "rawValue k t = Some (x, r2)" "skipSpace r2 = e # es" "xs = x # xs'"
    "e = CHR '']'' \<and> xs' = [] \<and> r = es \<or> e = CHR '','' \<and> rawElems k es = Some (xs', r)"
  using assms by (auto simp: rawElems.simps split: list.splits if_splits option.splits)

lemma rawValue_length: "rawValue k t = Some (x, r) \<Longrightarrow> length r < length t"
  using parse_length(1) [of k t "rawTree x" r] by (simp add: rawTree_parse(1))

lemma terminators: "isJSONTerminator CHR ''}''" "isJSONTerminator CHR '']''" "isJSONTerminator CHR '',''"
  by (simp_all add: isJSONTerminator_def)

text \<open>One member and what follows it, for the loops over nested objects and over the root.\<close>

definition afterName :: "string \<Rightarrow> jsonScanner \<Rightarrow> jsonScanner" where
  "afterName ds s = s\<lparr>sc_rest := ds, sc_members := sc_members s + 1\<rparr>"

definition afterMember :: "string \<Rightarrow> rawJson \<Rightarrow> jsonScanner \<Rightarrow> jsonScanner" where
  "afterMember es x s = advance es (rawValues x) (rawMemberCount x + 1) s"

lemma member_shorter:
  assumes "skipSpace t = c # cs" "scanString cs = Some (key, r1)" "skipSpace r1 = c' # ds" "rawValue k ds = Some (x, r2)" "skipSpace r2 = e # es"
  shows "length es < length t"
  using skipSpace_length [OF assms(1)] scanString_length [OF assms(2)] skipSpace_length [OF assms(3)] rawValue_length [OF assms(4)]
    skipSpace_length [OF assms(5)] by simp

lemma member_exact:
  assumes "skipSpace (sc_rest s) = CHR 0x22 # cs" "scanString cs = Some (key, r1)" "skipSpace r1 = CHR '':'' # ds"
    "rawValue k ds = Some (x, r2)" "skipSpace r2 = e # es" and e: "e = CHR ''}'' \<or> e = CHR '',''"
    and V: "\<And>s' x r. rawValue k (sc_rest s') = Some (x, r) \<Longrightarrow> stopsScan r \<Longrightarrow> sc_members s' \<le> 100000 \<Longrightarrow> unread s' < unread s \<Longrightarrow>
      scanValue n d s' = valueResult d s' x r"
  shows "andScan (memberName s) (\<lambda>key s1. andScan (scanValue n d s1) (\<lambda>v. closeOr (CHR ''}'') (y key v) (f key v))) =
      (if int (length (utf8Coerce key)) \<le> 16384 \<and> admitsValue d (afterName ds s) x
       then if e = CHR ''}'' then Scanned (y (utf8Coerce key) (kindOf x)) (afterMember es x s)
            else f (utf8Coerce key) (kindOf x) (afterMember es x s)
       else Refused)" (is "?lhs = ?rhs")
proof -
  have len: "length ds < unread s"
    using skipSpace_length [OF assms(1)] scanString_length [OF assms(2)] skipSpace_length [OF assms(3)] by simp
  have stop: "stopsScan r2" using stopsScan_skip [OF assms(5)] e terminators by auto
  have v: "scanValue n d (afterName ds s) = valueResult d (afterName ds s) x r2" if "sc_members s + 1 \<le> 100000"
    using V [of "afterName ds s"] assms(4) stop that len by (simp add: afterName_def)
  have close: "closeOr (CHR ''}'') z g (advance r2 (rawValues x) (rawMemberCount x) (afterName ds s)) =
      (if e = CHR ''}'' then Scanned z (afterMember es x s) else g (afterMember es x s))" for z g
    using closeOr_exact [of "advance r2 (rawValues x) (rawMemberCount x) (afterName ds s)" e es "CHR ''}''" z g] assms(5) e
    by (cases s) (auto simp: advance_def afterName_def afterMember_def algebra_simps)
  have "\<not> admitsValue d (afterName ds s) x" if "100000 < sc_members s + 1"
    using that raw_counts(2) [of x] by (auto simp: admitsValue_def afterName_def)
  then show "?lhs = ?rhs"
    using v close by (auto simp: memberName_exact [OF assms(1-3)] valueResult_def afterName_def [symmetric] not_less)
qed

lemma objectLoop_step:
  assumes "rawMembers (Suc k) (sc_rest s) = Some (ms, r)"
    and V: "\<And>s' x r. rawValue k (sc_rest s') = Some (x, r) \<Longrightarrow> stopsScan r \<Longrightarrow> sc_members s' \<le> 100000 \<Longrightarrow> unread s' < unread s \<Longrightarrow>
      scanValue n d s' = valueResult d s' x r"
    and M: "\<And>s' ms r. rawMembers k (sc_rest s') = Some (ms, r) \<Longrightarrow> unread s' < unread s \<Longrightarrow> objectLoop n d s' = membersResult d s' ms r"
  shows "objectLoop (Suc n) d s = membersResult d s ms r"
proof -
  obtain cs key r1 ds x r2 e es ms' where p: "skipSpace (sc_rest s) = CHR 0x22 # cs" "scanString cs = Some (key, r1)" "skipSpace r1 = CHR '':'' # ds"
    "rawValue k ds = Some (x, r2)" "skipSpace r2 = e # es" and ms: "ms = ((bodyOf cs r1, utf8Coerce key), x) # ms'"
    and e: "e = CHR ''}'' \<and> ms' = [] \<and> r = es \<or> e = CHR '','' \<and> rawMembers k es = Some (ms', r)"
    using assms(1) by (rule rawMembers_step)
  have e': "e = CHR ''}'' \<or> e = CHR '',''" using e by blast
  note one = member_exact [OF p e', where n = n and d = d and y = "\<lambda>_ _. ()" and f = "\<lambda>_ _. objectLoop n d", OF V]
  have m: "objectLoop n d (afterMember es x s) = membersResult d (afterMember es x s) ms' r" if "e = CHR '',''"
    using M [of "afterMember es x s"] that e member_shorter [OF p] by (simp add: afterMember_def advance_def)
  have "objectLoop (Suc n) d s =
      (if int (length (utf8Coerce key)) \<le> 16384 \<and> admitsValue d (afterName ds s) x
       then if e = CHR ''}'' then Scanned () (afterMember es x s) else objectLoop n d (afterMember es x s) else Refused)"
    using one by (simp add: objectLoop.simps)
  then show ?thesis using e m sum_counts(1,2) [of ms'] raw_counts [of x]
    by (elim disjE conjE)
       (auto simp: membersResult_def admitsMembers_def admitsValue_def ms advance_def afterMember_def afterName_def algebra_simps)
qed

lemma arrayLoop_step:
  assumes "rawElems (Suc k) (sc_rest s) = Some (xs, r)" "sc_members s \<le> 100000"
    and V: "\<And>x r. rawValue k (sc_rest s) = Some (x, r) \<Longrightarrow> stopsScan r \<Longrightarrow> scanValue n d s = valueResult d s x r"
    and E: "\<And>s' xs r. rawElems k (sc_rest s') = Some (xs, r) \<Longrightarrow> sc_members s' \<le> 100000 \<Longrightarrow> unread s' < unread s \<Longrightarrow>
      arrayLoop n d s' = elemsResult d s' xs r"
  shows "arrayLoop (Suc n) d s = elemsResult d s xs r"
proof -
  obtain x r2 e es xs' where p: "rawValue k (sc_rest s) = Some (x, r2)" "skipSpace r2 = e # es" and xs: "xs = x # xs'"
    and e: "e = CHR '']'' \<and> xs' = [] \<and> r = es \<or> e = CHR '','' \<and> rawElems k es = Some (xs', r)"
    using assms(1) by (rule rawElems_step)
  have v: "scanValue n d s = valueResult d s x r2" using V [OF p(1)] stopsScan_skip [OF p(2)] e terminators by auto
  let ?s = "advance es (rawValues x) (rawMemberCount x) s"
  have close: "closeOr (CHR '']'') () (arrayLoop n d) (advance r2 (rawValues x) (rawMemberCount x) s) =
      (if e = CHR '']'' then Scanned () ?s else arrayLoop n d ?s)"
    using closeOr_exact [of "advance r2 (rawValues x) (rawMemberCount x) s" e es "CHR '']''" "()"] p(2) e
    by (cases s) (auto simp: advance_def)
  have m: "arrayLoop n d ?s = elemsResult d ?s xs' r" if "e = CHR '',''" "admitsValue d s x"
    using E [of ?s] that e rawValue_length [OF p(1)] skipSpace_length [OF p(2)] by (simp add: advance_def admitsValue_def)
  show ?thesis using e v close m sum_counts(3,4) [of xs'] raw_counts [of x]
    by (elim disjE conjE)
       (auto simp: arrayLoop.simps valueResult_def elemsResult_def admitsElems_def admitsValue_def xs advance_def algebra_simps)
qed

lemma scan_exact:
  shows "rawValue k (sc_rest s) = Some (x, r) \<Longrightarrow> stopsScan r \<Longrightarrow> sc_members s \<le> 100000 \<Longrightarrow> 2 * unread s < n \<Longrightarrow>
      scanValue n d s = valueResult d s x r"
    and "rawMembers k (sc_rest s) = Some (ms, r) \<Longrightarrow> 2 * unread s < n \<Longrightarrow> objectLoop n d s = membersResult d s ms r"
    and "rawElems k (sc_rest s) = Some (xs, r) \<Longrightarrow> sc_members s \<le> 100000 \<Longrightarrow> 2 * unread s + 1 < n \<Longrightarrow>
      arrayLoop n d s = elemsResult d s xs r"
proof (induction k arbitrary: n d s x r ms xs)
  case 0
  {
    case 1
    then show ?case by (simp add: rawValue.simps)
  next
    case 2
    then show ?case by (simp add: rawMembers.simps)
  next
    case 3
    then show ?case by (simp add: rawElems.simps)
  }
next
  case (Suc k)
  {
    case 1
    obtain m where n: "n = Suc m" using 1(4) by (cases n) auto
    obtain c cs where c: "skipSpace (sc_rest s) = c # cs" using 1(1) by (cases "skipSpace (sc_rest s)") (auto simp: rawValue.simps)
    have len: "2 * length cs + 1 < m" using skipSpace_length [OF c] 1(4) n by simp
    show ?case
    proof (cases "c = CHR ''{'' \<or> c = CHR ''[''")
      case True
      show ?thesis unfolding n
        by (rule scanValue_composite [OF c True 1(1,3)]) (use Suc.IH(2,3) len in auto)
    next
      case False
      then show ?thesis unfolding n using scanValue_leaf [OF c _ _ 1(1-3)] by simp
    qed
  next
    case 2
    obtain m where n: "n = Suc m" using 2(2) by (cases n) auto
    show ?case unfolding n by (rule objectLoop_step [OF 2(1)]) (use Suc.IH(1,2) 2(2) n in auto)
  next
    case 3
    obtain m where n: "n = Suc m" using 3(3) by (cases n) auto
    show ?case unfolding n by (rule arrayLoop_step [OF 3(1,2)]) (use Suc.IH(1,3) 3(2,3) n in auto)
  }
qed

section \<open>The root and the parsed tree\<close>

fun keepMembers :: "string list \<Rightarrow> ((string \<times> string) \<times> rawJson) list \<Rightarrow> eventScan \<Rightarrow> eventScan" where
  "keepMembers seen [] result = result"
| "keepMembers seen ((name, x) # ms) result = keepMembers (snd name # seen) ms (keepMember seen (snd name) (kindOf x) result)"

lemma rootLoop_exact:
  "rawMembers k (sc_rest s) = Some (ms, r) \<Longrightarrow> 2 * unread s < n \<Longrightarrow>
     rootLoop n seen result s =
       (if admitsMembers 1 s ms then Scanned (keepMembers seen ms result) (advance r (rawValues (RObj ms) - 1) (rawMemberCount (RObj ms)) s)
        else Refused)"
proof (induction k arbitrary: n s ms seen result)
  case (Suc k)
  obtain m where n: "n = Suc m" using Suc.prems(2) by (cases n) auto
  obtain cs key r1 ds x r2 e es ms' where p: "skipSpace (sc_rest s) = CHR 0x22 # cs" "scanString cs = Some (key, r1)" "skipSpace r1 = CHR '':'' # ds"
    "rawValue k ds = Some (x, r2)" "skipSpace r2 = e # es" and ms: "ms = ((bodyOf cs r1, utf8Coerce key), x) # ms'"
    and e: "e = CHR ''}'' \<and> ms' = [] \<and> r = es \<or> e = CHR '','' \<and> rawMembers k es = Some (ms', r)"
    using Suc.prems(1) by (rule rawMembers_step)
  have e': "e = CHR ''}'' \<or> e = CHR '',''" using e by blast
  have V: "scanValue m 1 s' = valueResult 1 s' x r" if "rawValue k (sc_rest s') = Some (x, r)" "stopsScan r" "sc_members s' \<le> 100000" "unread s' < unread s"
    for s' x r using scan_exact(1) [OF that(1-3)] that(4) Suc.prems(2) n by simp
  let ?key = "utf8Coerce key" and ?s = "afterMember es x s"
  let ?keep = "keepMember seen ?key (kindOf x) result"
  have "rootLoop n seen result s = (if int (length ?key) \<le> 16384 \<and> admitsValue 1 (afterName ds s) x
       then if e = CHR ''}'' then Scanned ?keep ?s else rootLoop m (?key # seen) ?keep ?s else Refused)"
    using member_exact [OF p e', where n = m and d = 1 and y = "\<lambda>key v. keepMember seen key v result"
        and f = "\<lambda>key v. rootLoop m (key # seen) (keepMember seen key v result)", OF V]
    by (simp add: rootLoop.simps n)
  moreover have "rootLoop m (?key # seen) ?keep ?s =
      (if admitsMembers 1 ?s ms' then Scanned (keepMembers (?key # seen) ms' ?keep) (advance r (rawValues (RObj ms') - 1) (rawMemberCount (RObj ms')) ?s)
       else Refused)" if "e = CHR '',''"
    using Suc.IH [of ?s ms' m "?key # seen" ?keep] that e member_shorter [OF p] Suc.prems(2) n by (simp add: afterMember_def advance_def)
  ultimately show ?case using e sum_counts(1,2) [of ms'] raw_counts [of x]
    by (elim disjE conjE)
       (auto simp: admitsMembers_def admitsValue_def ms advance_def afterMember_def afterName_def algebra_simps)
qed (simp add: rawMembers.simps)

text \<open>What the scan of a whole text yields.\<close>

definition scanOf :: "rawJson \<Rightarrow> eventScan" where
  "scanOf x = (case x of RObj ms \<Rightarrow> keepMembers [] ms (emptyScan\<lparr>ev_rootObject := True\<rparr>) | _ \<Rightarrow> emptyScan)"

definition startScan :: "string \<Rightarrow> jsonScanner" where
  "startScan raw = \<lparr>sc_rest = raw, sc_tokens = 0, sc_members = 0\<rparr>"

lemma scanRoot_exact:
  assumes "rawParse raw = Some x" and "2 * length raw < n"
  shows "\<exists>r. skipSpace r = [] \<and> scanRoot n (startScan raw) =
      (if admitsValue 0 (startScan raw) x then Scanned (scanOf x) (advance r (rawValues x) (rawMemberCount x) (startScan raw)) else Refused)"
proof -
  let ?s = "startScan raw"
  obtain r where r: "rawValue (Suc (2 * length raw)) raw = Some (x, r)" "skipSpace r = []"
    using assms(1) by (auto simp: rawParse_def split: option.splits if_splits)
  have stop: "stopsScan r" using r(2) by (cases r) (auto simp: stopsScan_def skipSpace_def isJSONTerminator_def split: if_splits)
  obtain c cs where c: "skipSpace raw = c # cs" using r(1) by (cases "skipSpace raw") (auto simp: rawValue.simps)
  have len: "length cs < length raw" by (rule skipSpace_length [OF c])
  have "scanRoot n ?s = (if admitsValue 0 ?s x then Scanned (scanOf x) (advance r (rawValues x) (rawMemberCount x) ?s) else Refused)"
  proof (cases "c = CHR ''{''")
    case False
    have "skipSpace (skipSpace raw) = skipSpace raw" using c skipSpace_hd [OF c] by (simp add: skipSpace_token)
    then have raw: "rawValue (Suc (2 * length raw)) (sc_rest (scannerSpace ?s)) = Some (x, r)"
      using r(1) by (simp add: rawValue.simps scannerSpace_def startScan_def)
    have "scanValue n 0 (scannerSpace ?s) = valueResult 0 (scannerSpace ?s) x r"
      by (rule scan_exact(1) [OF raw stop]) (use assms(2) len c in \<open>simp_all add: scannerSpace_def startScan_def\<close>)
    moreover have "\<not> (\<exists>ms. x = RObj ms)" using r(1) c False by (auto simp: rawValue.simps split: if_splits list.splits)
    ultimately show ?thesis using c False
      by (cases x) (auto simp: scanRoot_def startScan_def scannerSpace_def valueResult_def admitsValue_def advance_def scanOf_def)
  next
    case True
    obtain e es where e: "skipSpace cs = e # es" using r(1) c True by (cases "skipSpace cs") (auto simp: rawValue.simps)
    let ?s1 = "?s\<lparr>sc_rest := cs, sc_tokens := sc_tokens ?s + 1\<rparr>"
    consider "e = CHR ''}''" "x = RObj []" "r = es" | ms where "e \<noteq> CHR ''}''" "x = RObj ms" "rawMembers (2 * length raw) cs = Some (ms, r)"
      using r(1) c True e by (auto simp: rawValue.simps split: if_splits)
    then show ?thesis
    proof cases
      case 1
      then show ?thesis using c True e emptyOr_exact [of ?s1 e es]
        by (simp add: scanRoot_def startScan_def emptyOr_exact admitsValue_def advance_def scanOf_def)
    next
      case (2 ms)
      then show ?thesis using c True e emptyOr_exact [of ?s1 e es] rootLoop_exact [of "2 * length raw" ?s1 ms r n] assms(2) len
        by (auto simp: scanRoot_def startScan_def emptyOr_exact admitsValue_def admitsMembers_def advance_def scanOf_def algebra_simps)
    qed
  qed
  then show ?thesis using r(2) by blast
qed

end
