(* ===== verification/EventProfile.thy ===== *)
theory EventProfile
  imports Digests GoRaw
begin

text \<open>
  \<open>cloudeventsstructuredjson/profile.go\<close>: the profile that names the normative sources and, when it is
  active, the one conformance rule with its expiry; its strict reading, validation, construction and
  canonical text. The embedded capability file is an argument of the reader.

  Shown here: a profile that validates is the one its canonical text reads back as
  (\<open>ParseProfile_canonical\<close>), within every bound of the reader.
\<close>

section \<open>Data\<close>

datatype eventError = EventInput | EventInvalid | EventIntegrity

definition ProfileAPIVersion :: string where "ProfileAPIVersion = ''prufyx.io/cloudevents-structured-json-profile/v1''"
definition ProfileKind :: string where "ProfileKind = ''CloudEventsStructuredJSONProfile''"
definition RuleID :: string where "RuleID = ''cloudevents-v1-structured-json-core-envelope-v1''"
definition EngineCapabilityDigest :: string where
  "EngineCapabilityDigest = ''sha256:94cc3006e46ce20a4c2579eb4d1eb99dfaee9fe00a4396ec3f4ee5ed204313bb''"
definition NormativeRepository :: string where "NormativeRepository = ''https://github.com/cloudevents/spec''"

record SourceSpan =
  esp_StartLine :: int
  esp_EndLine :: int

record NormativeSource =
  ens_Role :: string
  ens_RepositoryURL :: string
  ens_Path :: string
  ens_Commit :: string
  ens_ContentDigest :: string
  ens_Spans :: "SourceSpan list option"

record EventRule =
  eru_ID :: string
  eru_EvidenceExpiresAt :: string

record EventProfile =
  epf_APIVersion :: string
  epf_Kind :: string
  epf_Revision :: string
  epf_Purpose :: string
  epf_EngineCapabilityDigest :: string
  epf_NormativeSources :: "NormativeSource list option"
  epf_Rules :: "EventRule list option"
  epf_RuleDigest :: string

record EventAdmission =
  ead_Revision :: string
  ead_Purpose :: string
  ead_EngineCapabilityDigest :: string
  ead_HasRule :: bool
  ead_RuleDigest :: string
  ead_EvidenceExpiresAt :: string

section \<open>JSON\<close>

definition encSpan :: "SourceSpan \<Rightarrow> json" where
  "encSpan s = JObj [(''startLine'', encInt (esp_StartLine s)), (''endLine'', encInt (esp_EndLine s))]"

definition encNormativeSource :: "NormativeSource \<Rightarrow> json" where
  "encNormativeSource s =
     JObj [(''role'', JStr (ens_Role s)), (''repositoryURL'', JStr (ens_RepositoryURL s)), (''path'', JStr (ens_Path s)),
           (''commit'', JStr (ens_Commit s)), (''contentDigest'', JStr (ens_ContentDigest s)), (''spans'', encNil encSpan (ens_Spans s))]"

definition encEventRule :: "EventRule \<Rightarrow> json" where
  "encEventRule r = JObj [(''id'', JStr (eru_ID r)), (''evidenceExpiresAt'', JStr (eru_EvidenceExpiresAt r))]"

definition encProfile :: "EventProfile \<Rightarrow> json" where
  "encProfile p =
     JObj [(''apiVersion'', JStr (epf_APIVersion p)), (''kind'', JStr (epf_Kind p)), (''revision'', JStr (epf_Revision p)),
           (''purpose'', JStr (epf_Purpose p)), (''engineCapabilityDigest'', JStr (epf_EngineCapabilityDigest p)),
           (''normativeSources'', encNil encNormativeSource (epf_NormativeSources p)), (''rules'', encNil encEventRule (epf_Rules p)),
           (''ruleDigest'', JStr (epf_RuleDigest p))]"

definition decSpan :: "json \<Rightarrow> SourceSpan option" where
  "decSpan v =
     Option.bind (decStruct True [''startLine'', ''endLine''] v) (\<lambda>ms.
     Option.bind (decField decInt 0 ms ''startLine'') (\<lambda>a.
     Option.bind (decField decInt 0 ms ''endLine'') (\<lambda>b. Some \<lparr>esp_StartLine = a, esp_EndLine = b\<rparr>)))"

definition decNormativeSource :: "json \<Rightarrow> NormativeSource option" where
  "decNormativeSource v =
     Option.bind (decStruct True [''role'', ''repositoryURL'', ''path'', ''commit'', ''contentDigest'', ''spans''] v) (\<lambda>ms.
     Option.bind (decField decString [] ms ''role'') (\<lambda>a.
     Option.bind (decField decString [] ms ''repositoryURL'') (\<lambda>b.
     Option.bind (decField decString [] ms ''path'') (\<lambda>c.
     Option.bind (decField decString [] ms ''commit'') (\<lambda>d.
     Option.bind (decField decString [] ms ''contentDigest'') (\<lambda>e.
     Option.bind (decField (decNilSlice decSpan) None ms ''spans'') (\<lambda>f.
       Some \<lparr>ens_Role = a, ens_RepositoryURL = b, ens_Path = c, ens_Commit = d, ens_ContentDigest = e, ens_Spans = f\<rparr>)))))))"

definition decEventRule :: "json \<Rightarrow> EventRule option" where
  "decEventRule v =
     Option.bind (decStruct True [''id'', ''evidenceExpiresAt''] v) (\<lambda>ms.
     Option.bind (decField decString [] ms ''id'') (\<lambda>a.
     Option.bind (decField decString [] ms ''evidenceExpiresAt'') (\<lambda>b. Some \<lparr>eru_ID = a, eru_EvidenceExpiresAt = b\<rparr>)))"

definition profileNames :: "string list" where
  "profileNames = [''apiVersion'', ''kind'', ''revision'', ''purpose'', ''engineCapabilityDigest'', ''normativeSources'', ''rules'', ''ruleDigest'']"

definition decProfile :: "json \<Rightarrow> EventProfile option" where
  "decProfile v =
     Option.bind (decStruct True profileNames v) (\<lambda>ms.
     Option.bind (decField decString [] ms ''apiVersion'') (\<lambda>a.
     Option.bind (decField decString [] ms ''kind'') (\<lambda>b.
     Option.bind (decField decString [] ms ''revision'') (\<lambda>c.
     Option.bind (decField decString [] ms ''purpose'') (\<lambda>d.
     Option.bind (decField decString [] ms ''engineCapabilityDigest'') (\<lambda>e.
     Option.bind (decField (decNilSlice decNormativeSource) None ms ''normativeSources'') (\<lambda>f.
     Option.bind (decField (decNilSlice decEventRule) None ms ''rules'') (\<lambda>g.
     Option.bind (decField decString [] ms ''ruleDigest'') (\<lambda>h.
       Some \<lparr>epf_APIVersion = a, epf_Kind = b, epf_Revision = c, epf_Purpose = d, epf_EngineCapabilityDigest = e,
             epf_NormativeSources = f, epf_Rules = g, epf_RuleDigest = h\<rparr>)))))))))"

section \<open>Scanning\<close>

text \<open>
  \<open>strings.ToLower\<close> on the runes of a name that addresses a field: ASCII letters and U+212A, whose lower
  case is \<open>k\<close>. A name with any other rune that lower case changes addresses no field, and strict
  decoding refuses it whatever the scan says.
\<close>

definition lowerName :: "string \<Rightarrow> nat list" where
  "lowerName s = map (\<lambda>r. if 65 \<le> r \<and> r \<le> 90 then r + 32 else if r = 8490 then 107 else r) (runes s)"

fun profileValues :: "json \<Rightarrow> int" where
  "profileValues (JArr vs) = 1 + (\<Sum>v\<leftarrow>vs. profileValues v)"
| "profileValues (JObj ms) = 1 + (\<Sum>(k, v)\<leftarrow>ms. profileValues v)"
| "profileValues _ = 1"

fun scanProfileValue :: "int \<Rightarrow> json \<Rightarrow> bool" where
  "scanProfileValue depth (JStr s) = (depth \<le> 24 \<and> int (length s) \<le> 16384 \<and> utf8Valid s)"
| "scanProfileValue depth (JNum l) = (depth \<le> 24 \<and> int (length l) \<le> 64)"
| "scanProfileValue depth (JObj ms) =
     (depth \<le> 24 \<and> distinct (map (lowerName \<circ> fst) ms) \<and> (\<forall>(k, v)\<in>set ms. int (length k) \<le> 256 \<and> scanProfileValue (depth + 1) v))"
| "scanProfileValue depth (JArr vs) = (depth \<le> 24 \<and> (\<forall>v\<in>set vs. scanProfileValue (depth + 1) v))"
| "scanProfileValue depth _ = (depth \<le> 24)"

text \<open>The token count is tested before each value, so the last of the values may bring it one above the limit.\<close>

definition scanJSON :: "string \<Rightarrow> bool" where
  "scanJSON raw = (case jsonParse raw of None \<Rightarrow> False | Some v \<Rightarrow> scanProfileValue 0 v \<and> profileValues v \<le> 100001)"

section \<open>Validation\<close>

definition revisionRE :: "string \<Rightarrow> bool" where
  "revisionRE = headAndTail (\<lambda>c. isDigit c \<and> c \<noteq> CHR ''0'') isDigit 0 9"

definition commitRE :: "string \<Rightarrow> bool" where
  "commitRE s = (length s = 40 \<and> list_all isHexLower s)"

definition parseEventUTC :: "string \<Rightarrow> goTime option" where
  "parseEventUTC value =
     (case parseRFC3339 value of
        None \<Rightarrow> None
      | Some t \<Rightarrow> if \<not> t_utc t \<or> t_nsec t \<noteq> 0 \<or> formatRFC3339 t \<noteq> value then None else Some t)"

definition rolePath :: "string \<Rightarrow> string" where
  "rolePath role = (if role = ''spec'' then ''spec.md'' else if role = ''json-format'' then ''json-format.md'' else [])"

fun validSpans :: "int \<Rightarrow> SourceSpan list \<Rightarrow> bool" where
  "validSpans last' [] = True"
| "validSpans last' (span # spans) =
     (\<not> (esp_StartLine span \<le> last' \<or> esp_StartLine span < 1 \<or> esp_EndLine span < esp_StartLine span \<or> 10000000 < esp_EndLine span) \<and>
      validSpans (esp_EndLine span) spans)"

fun validSources :: "string list \<Rightarrow> NormativeSource list \<Rightarrow> bool" where
  "validSources seen [] = (''spec'' \<in> set seen \<and> ''json-format'' \<in> set seen)"
| "validSources seen (s # sources) =
     (\<not> (ens_Role s \<in> set seen \<or> rolePath (ens_Role s) \<noteq> ens_Path s \<or> ens_RepositoryURL s \<noteq> NormativeRepository \<or> \<not> commitRE (ens_Commit s) \<or>
         \<not> digestRE (ens_ContentDigest s) \<or> goSlice (ens_Spans s) = [] \<or> 16 < int (length (goSlice (ens_Spans s)))) \<and>
      validSpans 0 (goSlice (ens_Spans s)) \<and> validSources (ens_Role s # seen) sources)"

definition ruleDigestOf :: "NormativeSource list option \<Rightarrow> EventRule \<Rightarrow> string" where
  "ruleDigestOf sources rule = digestJSON (JObj [(''normativeSources'', encNil encNormativeSource sources), (''rule'', encEventRule rule)])"

definition validateProfile :: "EventProfile \<Rightarrow> bool" where
  "validateProfile p =
     (epf_APIVersion p = ProfileAPIVersion \<and> epf_Kind p = ProfileKind \<and> revisionRE (epf_Revision p) \<and>
      (epf_Purpose p = ''standards_conformance'' \<or> epf_Purpose p = ''synthetic_test_only'') \<and>
      epf_EngineCapabilityDigest p = EngineCapabilityDigest \<and> length (goSlice (epf_NormativeSources p)) = 2 \<and>
      validSources [] (goSlice (epf_NormativeSources p)) \<and>
      (case goSlice (epf_Rules p) of
         [] \<Rightarrow> epf_RuleDigest p = []
       | [r] \<Rightarrow> eru_ID r = RuleID \<and> parseEventUTC (eru_EvidenceExpiresAt r) \<noteq> None \<and> epf_RuleDigest p = ruleDigestOf (epf_NormativeSources p) r
       | _ \<Rightarrow> False))"

section \<open>Reading and construction\<close>

definition ParseProfile :: "string \<Rightarrow> string \<Rightarrow> eventError + EventProfile" where
  "ParseProfile capability raw =
     (if digestBytes capability \<noteq> EngineCapabilityDigest \<or> raw = [] \<or> 2 ^ 20 < int (length raw) \<or> \<not> utf8Valid raw \<or> \<not> scanJSON raw then Inl EventInvalid
      else (case Option.bind (jsonParse raw) decProfile of
              None \<Rightarrow> Inl EventInvalid
            | Some p \<Rightarrow> if validateProfile p then Inr p else Inl EventInvalid))"

definition profileRule :: "EventProfile \<Rightarrow> EventRule option" where
  "profileRule p = (case goSlice (epf_Rules p) of [r] \<Rightarrow> Some r | _ \<Rightarrow> None)"

definition AdmitProfile :: "string \<Rightarrow> string \<Rightarrow> eventError + EventAdmission" where
  "AdmitProfile capability raw =
     (case ParseProfile capability raw of
        Inl e \<Rightarrow> Inl e
      | Inr p \<Rightarrow> Inr \<lparr>ead_Revision = epf_Revision p, ead_Purpose = epf_Purpose p, ead_EngineCapabilityDigest = epf_EngineCapabilityDigest p,
                      ead_HasRule = (length (goSlice (epf_Rules p)) = 1), ead_RuleDigest = epf_RuleDigest p,
                      ead_EvidenceExpiresAt = (case profileRule p of None \<Rightarrow> [] | Some r \<Rightarrow> eru_EvidenceExpiresAt r)\<rparr>)"

definition canonicalProfile :: "EventProfile \<Rightarrow> eventError + string" where
  "canonicalProfile p = (if validateProfile p then Inr (jsonPrint (encProfile p)) else Inl EventInvalid)"

definition MakeProfile :: "string \<Rightarrow> string \<Rightarrow> NormativeSource list option \<Rightarrow> string \<Rightarrow> eventError + string" where
  "MakeProfile revision purpose sources expires =
     (let p = \<lparr>epf_APIVersion = ProfileAPIVersion, epf_Kind = ProfileKind, epf_Revision = revision, epf_Purpose = purpose,
               epf_EngineCapabilityDigest = EngineCapabilityDigest, epf_NormativeSources = sources, epf_Rules = Some [], epf_RuleDigest = []\<rparr>;
          r = \<lparr>eru_ID = RuleID, eru_EvidenceExpiresAt = expires\<rparr> in
      canonicalProfile (if expires = [] then p else p\<lparr>epf_Rules := Some [r], epf_RuleDigest := ruleDigestOf sources r\<rparr>))"

text \<open>The expiry of a rule; the error of \<open>parseUTC\<close> is ignored there, which leaves the zero time.\<close>

definition expiryOf :: "EventRule \<Rightarrow> goTime" where
  "expiryOf r = (case parseEventUTC (eru_EvidenceExpiresAt r) of None \<Rightarrow> zeroTime | Some t \<Rightarrow> t)"

definition ValidateAt :: "EventProfile \<Rightarrow> goTime \<Rightarrow> eventError option" where
  "ValidateAt p at =
     (if timeIsZero at \<or> \<not> t_utc at then Some EventInvalid
      else (case profileRule p of
              None \<Rightarrow> None
            | Some r \<Rightarrow> if timeBefore at (expiryOf r) then None else Some EventInvalid))"

section \<open>Texts of bounded width\<close>

abbreviation ascii :: "string \<Rightarrow> bool" where
  "ascii s \<equiv> list_all (\<lambda>c. byte c < 128) s"

text \<open>A bound on the length of the text of a tree of ASCII strings and natural numerals.\<close>

fun asciiJson :: "json \<Rightarrow> bool" where
  "asciiJson (JStr s) = ascii s"
| "asciiJson (JNum l) = canonicalNumeral l"
| "asciiJson (JArr vs) = (\<forall>v\<in>set vs. asciiJson v)"
| "asciiJson (JObj ms) = (\<forall>(k, v)\<in>set ms. ascii k \<and> asciiJson v)"
| "asciiJson _ = True"

fun jsonWidth :: "json \<Rightarrow> nat" where
  "jsonWidth (JStr s) = 6 * length s + 2"
| "jsonWidth (JNum l) = length l"
| "jsonWidth (JArr vs) = 2 + (\<Sum>v\<leftarrow>vs. jsonWidth v + 1)"
| "jsonWidth (JObj ms) = 2 + (\<Sum>(k, v)\<leftarrow>ms. 6 * length k + 4 + jsonWidth v)"
| "jsonWidth _ = 5"

lemma asciiJson_plain: "asciiJson v \<Longrightarrow> plainJson v"
proof (induction v)
  case (JObj ms)
  have "utf8Valid k \<and> plainJson v" if "(k, v) \<in> set ms" for k v
    using JObj.IH [OF that, of v] JObj.prems that by (auto simp: prod_set_simps intro: utf8Valid_ascii)
  then show ?case by auto
qed (auto intro: utf8Valid_ascii)

lemma commaSep_length: "length (commaSep xs) \<le> (\<Sum>x\<leftarrow>xs. length x + 1)"
  by (induction xs rule: commaSep.induct) auto

lemma jsonPrint_width: "asciiJson v \<Longrightarrow> length (jsonPrint v) \<le> jsonWidth v"
proof (induction v)
  case (JStr s)
  then show ?case using quote_length by simp
next
  case (JArr vs)
  have "(\<Sum>x\<leftarrow>map jsonPrint vs. length x + 1) \<le> (\<Sum>v\<leftarrow>vs. jsonWidth v + 1)"
    unfolding map_map comp_def using JArr by (intro sum_list_mono) simp
  then show ?case using order_trans [OF commaSep_length] by simp
next
  case (JObj ms)
  have "(case m of (k, v) \<Rightarrow> length (quote k @ CHR '':'' # jsonPrint v) + 1) \<le> (case m of (k, v) \<Rightarrow> 6 * length k + 4 + jsonWidth v)"
    if "m \<in> set ms" for m
    using JObj.IH [OF that] JObj.prems that quote_length by (cases m) (fastforce simp: prod_set_simps)
  then have "(\<Sum>x\<leftarrow>map (\<lambda>(k, v). quote k @ CHR '':'' # jsonPrint v) ms. length x + 1) \<le> (\<Sum>(k, v)\<leftarrow>ms. 6 * length k + 4 + jsonWidth v)"
    unfolding map_map comp_def by (intro sum_list_mono) (simp add: split_def)
  then show ?case using order_trans [OF commaSep_length] by simp
qed simp_all

lemma decShow_length: "n < 10 ^ k \<Longrightarrow> 0 < k \<Longrightarrow> length (decShow n) \<le> k"
proof (induction k arbitrary: n)
  case (Suc k)
  show ?case
  proof (cases "n < 10")
    case True
    then show ?thesis by (simp add: decShow.simps [of n])
  next
    case False
    then have "0 < k" using Suc.prems by (cases k) auto
    moreover have "n div 10 < 10 ^ k" using Suc.prems by (simp add: div_less_iff_less_mult mult.commute)
    ultimately show ?thesis using Suc.IH [of "n div 10"] False by (simp add: decShow.simps [of n])
  qed
qed simp

lemma decInt_encInt: "0 \<le> n \<Longrightarrow> n < 2 ^ 63 \<Longrightarrow> decInt (encInt n) = Some n"
proof -
  assume n: "0 \<le> n" "n < 2 ^ 63"
  obtain c cs where c: "decShow (nat n) = c # cs" by (cases "decShow (nat n)") auto
  have d: "list_all isDigit (c # cs)" using decShow_digits [of "nat n"] c by simp
  then have "c \<noteq> CHR ''-''" by (auto simp: isDigit_def)
  moreover have "decVal (c # cs) = nat n" using decVal_decShow [of "nat n"] c by simp
  ultimately show ?thesis using n c d by (simp add: encInt_def parseInt64_def Let_def)
qed

section \<open>The texts of a valid profile\<close>

lemma isHexLower_ascii: "isHexLower c \<Longrightarrow> byte c < 128"
  by (auto simp: isHexLower_def isDigit_def less_eq_char_def)

lemma isDigit_ascii: "isDigit c \<Longrightarrow> byte c < 128"
  by (simp add: isDigit_iff)

lemma digestRE_text: "digestRE s \<Longrightarrow> ascii s \<and> length s = 71"
proof
  assume d: "digestRE s"
  have seven: "length ''sha256:'' = 7" by simp
  have "take 7 s = ''sha256:''" using d unfolding digestRE_def hasPrefix_def seven by blast
  then have s: "s = ''sha256:'' @ drop 7 s" by (metis append_take_drop_id)
  have "ascii (''sha256:'' @ drop 7 s)" using d isHexLower_ascii by (auto simp: digestRE_def list_all_iff)
  with s show "ascii s" by simp
  have "length (''sha256:'' @ drop 7 s) = 71" using d by (simp add: digestRE_def)
  with s show "length s = 71" by simp
qed

lemma commitRE_text: "commitRE s \<Longrightarrow> ascii s \<and> length s = 40"
  using isHexLower_ascii by (auto simp: commitRE_def list_all_iff)

lemma revisionRE_text: "revisionRE s \<Longrightarrow> ascii s \<and> length s \<le> 10"
  using isDigit_ascii by (auto simp: revisionRE_def headAndTail_def list_all_iff split: list.splits)

lemma parseEventUTC_text: "parseEventUTC s \<noteq> None \<Longrightarrow> ascii s \<and> length s = 20"
  using isDigit_ascii by (auto simp: parseEventUTC_def parseRFC3339_def Let_def split: list.splits if_splits)

lemma validSpans_bounds: "validSpans last' spans \<Longrightarrow> s \<in> set spans \<Longrightarrow> 1 \<le> esp_StartLine s \<and> esp_StartLine s \<le> 10000000 \<and> 1 \<le> esp_EndLine s \<and> esp_EndLine s \<le> 10000000"
  by (induction spans arbitrary: last') auto

lemma rolePath_text: "r = ''spec'' \<or> r = ''json-format'' \<Longrightarrow> ascii r \<and> ascii (rolePath r) \<and> length r \<le> 11 \<and> length (rolePath r) \<le> 14"
  by (auto simp: rolePath_def)

definition okSource :: "NormativeSource \<Rightarrow> bool" where
  "okSource s \<longleftrightarrow> (ens_Role s = ''spec'' \<or> ens_Role s = ''json-format'') \<and> ens_Path s = rolePath (ens_Role s) \<and>
     ens_RepositoryURL s = NormativeRepository \<and> commitRE (ens_Commit s) \<and> digestRE (ens_ContentDigest s) \<and>
     (\<exists>spans. ens_Spans s = Some spans \<and> length spans \<le> 16 \<and> validSpans 0 spans)"

lemma validSources_ok:
  assumes "length sources = 2" "validSources [] sources" "s \<in> set sources"
  shows "okSource s"
proof -
  obtain a b where ab: "sources = [a, b]" using assms(1) by (auto simp: numeral_2_eq_2 length_Suc_conv)
  have ne: "''spec'' \<noteq> ''json-format''" by simp
  have "''spec'' = ens_Role b \<or> ''spec'' = ens_Role a" "''json-format'' = ens_Role b \<or> ''json-format'' = ens_Role a"
    using assms(2) by (simp_all add: ab)
  then have roles: "ens_Role a = ''spec'' \<and> ens_Role b = ''json-format'' \<or> ens_Role a = ''json-format'' \<and> ens_Role b = ''spec''"
    using ne by metis
  have some: "ens_Spans x = Some (goSlice (ens_Spans x))" if "goSlice (ens_Spans x) \<noteq> []" for x
    using that by (auto simp: goSlice_def split: option.splits)
  have s: "s = a \<or> s = b" using assms(3) ab by simp
  then have parts: "ens_Path s = rolePath (ens_Role s)" "ens_RepositoryURL s = NormativeRepository" "commitRE (ens_Commit s)" "digestRE (ens_ContentDigest s)"
    "goSlice (ens_Spans s) \<noteq> []" "\<not> 16 < int (length (goSlice (ens_Spans s)))" "validSpans 0 (goSlice (ens_Spans s))"
    using assms(2) unfolding ab by (elim disjE; simp)+
  have role: "ens_Role s = ''spec'' \<or> ens_Role s = ''json-format''" using roles s by blast
  show ?thesis unfolding okSource_def using role parts(1-4) parts(6,7) some [OF parts(5)] by (intro conjI exI [of _ "goSlice (ens_Spans s)"]) simp_all
qed

lemma line_text:
  assumes "1 \<le> n" "n \<le> 10000000"
  shows "asciiJson (encInt n) \<and> jsonWidth (encInt n) \<le> 8 \<and> decInt (encInt n) = Some n \<and> scanProfileValue 5 (encInt n) \<and> profileValues (encInt n) = 1"
proof -
  have "nat n < 10 ^ 8" using assms(2) by (simp add: nat_less_iff)
  then have "length (decShow (nat n)) \<le> 8" by (rule decShow_length) simp
  then show ?thesis using assms decInt_encInt [of n] by (simp add: encInt_def)
qed

text \<open>What is shown of the encoding of each part: it is read back, and its width, depth and count are bounded.\<close>

definition goodEnc :: "int \<Rightarrow> nat \<Rightarrow> int \<Rightarrow> json \<Rightarrow> bool" where
  "goodEnc d w n v \<longleftrightarrow> asciiJson v \<and> jsonWidth v \<le> w \<and> scanProfileValue d v \<and> profileValues v \<le> n"

lemma goodEnc_text: "ascii s \<Longrightarrow> length s \<le> 100 \<Longrightarrow> d \<le> 24 \<Longrightarrow> goodEnc d 602 1 (JStr s)"
  by (simp add: goodEnc_def utf8Valid_ascii)

lemma sum_list_bound: "(\<And>x. x \<in> set xs \<Longrightarrow> f x \<le> b) \<Longrightarrow> (\<Sum>x\<leftarrow>xs. f x) \<le> of_nat (length xs) * (b :: 'a :: linordered_idom)"
  by (induction xs) (auto simp: algebra_simps intro: add_mono)

lemma sum_list_bound_nat: "(\<And>x. x \<in> set xs \<Longrightarrow> f x \<le> b) \<Longrightarrow> (\<Sum>x\<leftarrow>xs. f x) \<le> length xs * (b :: nat)"
  by (induction xs) (auto simp: algebra_simps intro: add_mono)

lemma goodEnc_list:
  assumes "\<And>x. x \<in> set xs \<Longrightarrow> goodEnc (d + 1) w n (f x)" "length xs \<le> k" "d \<le> 24" "0 \<le> n"
  shows "goodEnc d (2 + k * (w + 1)) (1 + int k * n) (encNil f (Some xs))"
proof -
  have "(\<Sum>v\<leftarrow>map f xs. jsonWidth v + 1) \<le> length xs * (w + 1)"
    using sum_list_bound_nat [of "map f xs" "\<lambda>v. jsonWidth v + 1" "w + 1"] assms(1) by (auto simp: goodEnc_def comp_def)
  also have "\<dots> \<le> k * (w + 1)" using assms(2) by (rule mult_right_mono) simp
  finally have w: "(\<Sum>v\<leftarrow>map f xs. jsonWidth v + 1) \<le> k * (w + 1)" .
  have "(\<Sum>v\<leftarrow>map f xs. profileValues v) \<le> int (length xs) * n"
    using sum_list_bound [of "map f xs" profileValues n] assms(1) by (auto simp: goodEnc_def comp_def)
  also have "\<dots> \<le> int k * n" using assms(2,4) by (intro mult_right_mono) simp_all
  finally have "(\<Sum>v\<leftarrow>map f xs. profileValues v) \<le> int k * n" .
  then show ?thesis using w assms(1,3) by (auto simp: goodEnc_def encNil_def)
qed

lemma those_inverse: "(\<And>x. x \<in> set xs \<Longrightarrow> d (f x) = Some x) \<Longrightarrow> those (map d (map f xs)) = Some xs"
  by (induction xs) auto

lemma decNilSlice_inverse:
  "(\<And>x. x \<in> set (goSlice xs) \<Longrightarrow> d (f x) = Some x) \<Longrightarrow> decNilSlice d (encNil f xs) = Some xs"
  using those_inverse [of "goSlice xs" d f] by (cases xs) (simp_all add: decNilSlice_def encNil_def goSlice_def del: map_map)

text \<open>Decoding a field of an object whose names differ under folding.\<close>

lemma decField_in:
  assumes "distinct (map (foldName \<circ> fst) ms)" and "(k, v) \<in> set ms"
  shows "decField d z ms k = d v"
  using jsonField_in [OF assms] by (simp add: decField_def)

abbreviation distinctNames :: "string list \<Rightarrow> bool" where
  "distinctNames names \<equiv> distinct (map lowerName names) \<and> distinct (map foldName names) \<and> (\<forall>k\<in>set names. ascii k \<and> length k \<le> 32)"

lemma profile_names:
  "distinctNames [''startLine'', ''endLine'']"
  "distinctNames [''role'', ''repositoryURL'', ''path'', ''commit'', ''contentDigest'', ''spans'']"
  "distinctNames [''id'', ''evidenceExpiresAt'']"
  "distinctNames [''apiVersion'', ''kind'', ''revision'', ''purpose'', ''engineCapabilityDigest'', ''normativeSources'', ''rules'', ''ruleDigest'']"
  by (simp_all add: lowerName_def foldName_def foldRune_def)

text \<open>An object whose names are those of a struct, and whose values are good.\<close>

lemma goodEnc_object:
  assumes "distinctNames (map fst ms)" "d \<le> 24" "\<And>k v. (k, v) \<in> set ms \<Longrightarrow> goodEnc (d + 1) w n v" "0 \<le> n"
  shows "goodEnc d (2 + length ms * (196 + w)) (1 + int (length ms) * n) (JObj ms)"
proof -
  have k: "ascii k \<and> length k \<le> 32" if "(k, v) \<in> set ms" for k v using assms(1) that by force
  have "(\<Sum>(k, v)\<leftarrow>ms. 6 * length k + 4 + jsonWidth v) \<le> length ms * (196 + w)"
  proof (rule sum_list_bound_nat)
    fix m assume m: "m \<in> set ms"
    obtain a v where av: "m = (a, v)" by (cases m)
    have "length a \<le> 32" "jsonWidth v \<le> w" using k [of a v] assms(3) [of a v] m av by (auto simp: goodEnc_def)
    then show "(case m of (k, v) \<Rightarrow> 6 * length k + 4 + jsonWidth v) \<le> 196 + w" by (simp add: av)
  qed
  moreover have "(\<Sum>(k, v)\<leftarrow>ms. profileValues v) \<le> int (length ms) * n"
    using sum_list_bound [of ms "\<lambda>(k, v). profileValues v" n] assms(3) by (auto simp: goodEnc_def)
  ultimately show ?thesis using assms(1-3) k by (force simp: goodEnc_def comp_def)
qed

lemma goodEnc_mono: "goodEnc d w n v \<Longrightarrow> w \<le> w' \<Longrightarrow> n \<le> n' \<Longrightarrow> goodEnc d w' n' v"
  by (auto simp: goodEnc_def)

lemma encSpan_good:
  assumes "1 \<le> esp_StartLine s" "esp_StartLine s \<le> 10000000" "1 \<le> esp_EndLine s" "esp_EndLine s \<le> 10000000"
  shows "goodEnc 4 500 3 (encSpan s)" and "decSpan (encSpan s) = Some s"
proof -
  let ?ms = "[(''startLine'', encInt (esp_StartLine s)), (''endLine'', encInt (esp_EndLine s))]"
  have names: "distinctNames (map fst ?ms)" using profile_names(1) by simp
  note lines = line_text [OF assms(1,2)] line_text [OF assms(3,4)]
  have "goodEnc 4 (2 + length ?ms * (196 + 8)) (1 + int (length ?ms) * 1) (JObj ?ms)"
    by (rule goodEnc_object [OF names]) (use lines in \<open>auto simp: goodEnc_def\<close>)
  then show "goodEnc 4 500 3 (encSpan s)" unfolding encSpan_def by (rule goodEnc_mono) simp_all
  have f: "decField d z ?ms k = d v" if "(k, v) \<in> set ?ms" for d k v and z :: 'x by (rule decField_in [OF _ that]) (use names in \<open>simp add: comp_def\<close>)
  show "decSpan (encSpan s) = Some s" unfolding decSpan_def encSpan_def using lines by (simp add: f)
qed

lemma constant_texts: "ascii NormativeRepository \<and> length NormativeRepository \<le> 100" "ascii RuleID \<and> length RuleID \<le> 100"
  "ascii ProfileAPIVersion \<and> length ProfileAPIVersion \<le> 100" "ascii ProfileKind \<and> length ProfileKind \<le> 100"
  "ascii EngineCapabilityDigest \<and> length EngineCapabilityDigest \<le> 100"
  by (simp_all add: NormativeRepository_def RuleID_def ProfileAPIVersion_def ProfileKind_def EngineCapabilityDigest_def)

lemma encNormativeSource_good:
  assumes "okSource s"
  shows "goodEnc 2 60000 300 (encNormativeSource s)" and "decNormativeSource (encNormativeSource s) = Some s"
proof -
  let ?ms = "[(''role'', JStr (ens_Role s)), (''repositoryURL'', JStr (ens_RepositoryURL s)), (''path'', JStr (ens_Path s)),
           (''commit'', JStr (ens_Commit s)), (''contentDigest'', JStr (ens_ContentDigest s)), (''spans'', encNil encSpan (ens_Spans s))]"
  have names: "distinctNames (map fst ?ms)" using profile_names(2) by simp
  obtain spans where spans: "ens_Spans s = Some spans" "length spans \<le> 16" "validSpans 0 spans" using assms by (auto simp: okSource_def)
  have span: "goodEnc 4 500 3 (encSpan x)" "decSpan (encSpan x) = Some x" if "x \<in> set spans" for x
    using validSpans_bounds [OF spans(3) that] encSpan_good by blast+
  have list: "goodEnc 3 8100 49 (encNil encSpan (ens_Spans s))"
    unfolding spans(1) by (rule goodEnc_mono [OF goodEnc_list [where k = 16 and w = 500 and n = 3]]) (use span(1) spans(2) in simp_all)
  have texts: "goodEnc 3 8100 49 (JStr t)" if "ascii t" "length t \<le> 100" for t
    by (rule goodEnc_mono [OF goodEnc_text [OF that]]) simp_all
  have role: "ens_Role s = ''spec'' \<or> ens_Role s = ''json-format''" using assms by (simp add: okSource_def)
  note r = rolePath_text [OF role] commitRE_text [of "ens_Commit s"] digestRE_text [of "ens_ContentDigest s"] constant_texts(1)
  have ok: "ens_Path s = rolePath (ens_Role s)" "ens_RepositoryURL s = NormativeRepository" "commitRE (ens_Commit s)" "digestRE (ens_ContentDigest s)"
    using assms by (simp_all add: okSource_def)
  have "goodEnc 2 (2 + length ?ms * (196 + 8100)) (1 + int (length ?ms) * 49) (JObj ?ms)"
    by (rule goodEnc_object [OF names]) (use r ok texts list in auto)
  then show "goodEnc 2 60000 300 (encNormativeSource s)" unfolding encNormativeSource_def by (rule goodEnc_mono) simp_all
  have f: "decField d z ?ms k = d v" if "(k, v) \<in> set ?ms" for d k v and z :: 'x by (rule decField_in [OF _ that]) (use names in \<open>simp add: comp_def\<close>)
  have "decNilSlice decSpan (encNil encSpan (ens_Spans s)) = Some (ens_Spans s)"
    by (rule decNilSlice_inverse) (simp add: spans(1) goSlice_def span(2))
  then show "decNormativeSource (encNormativeSource s) = Some s"
    unfolding decNormativeSource_def encNormativeSource_def by (simp add: f)
qed

lemma encEventRule_good:
  assumes "eru_ID r = RuleID" "parseEventUTC (eru_EvidenceExpiresAt r) \<noteq> None"
  shows "goodEnc 2 2000 3 (encEventRule r)" and "decEventRule (encEventRule r) = Some r"
proof -
  let ?ms = "[(''id'', JStr (eru_ID r)), (''evidenceExpiresAt'', JStr (eru_EvidenceExpiresAt r))]"
  have names: "distinctNames (map fst ?ms)" using profile_names(3) by simp
  have "goodEnc 3 602 1 (JStr (eru_ID r))" "goodEnc 3 602 1 (JStr (eru_EvidenceExpiresAt r))"
    using assms(1) constant_texts(2) parseEventUTC_text [OF assms(2)] by (simp_all add: goodEnc_text)
  then have "goodEnc 2 (2 + length ?ms * (196 + 602)) (1 + int (length ?ms) * 1) (JObj ?ms)"
    by (intro goodEnc_object [OF names]) auto
  then show "goodEnc 2 2000 3 (encEventRule r)" unfolding encEventRule_def by (rule goodEnc_mono) simp_all
  have f: "decField d z ?ms k = d v" if "(k, v) \<in> set ?ms" for d k v and z :: 'x by (rule decField_in [OF _ that]) (use names in \<open>simp add: comp_def\<close>)
  show "decEventRule (encEventRule r) = Some r" unfolding decEventRule_def encEventRule_def by (simp add: f)
qed

lemma profileRules_good:
  assumes "validateProfile p"
  shows "goodEnc 1 125000 700 (encNil encEventRule (epf_Rules p))" and "decNilSlice decEventRule (encNil encEventRule (epf_Rules p)) = Some (epf_Rules p)"
    and "ascii (epf_RuleDigest p) \<and> length (epf_RuleDigest p) \<le> 100"
proof -
  have r: "length (goSlice (epf_Rules p)) \<le> 1" "\<And>r. r \<in> set (goSlice (epf_Rules p)) \<Longrightarrow> eru_ID r = RuleID \<and> parseEventUTC (eru_EvidenceExpiresAt r) \<noteq> None"
    and d: "epf_RuleDigest p = [] \<or> (\<exists>r. epf_RuleDigest p = ruleDigestOf (epf_NormativeSources p) r)"
    using assms by (auto simp: validateProfile_def split: list.splits)
  show "goodEnc 1 125000 700 (encNil encEventRule (epf_Rules p))"
  proof (cases "epf_Rules p")
    case None
    then show ?thesis by (simp add: goodEnc_def encNil_def)
  next
    case (Some rs)
    then show ?thesis
      by (simp only: Some, intro goodEnc_mono [OF goodEnc_list [where k = 1 and w = 2000 and n = 3]])
         (use r encEventRule_good(1) in \<open>simp_all add: goSlice_def\<close>)
  qed
  show "decNilSlice decEventRule (encNil encEventRule (epf_Rules p)) = Some (epf_Rules p)"
    by (rule decNilSlice_inverse) (use r(2) encEventRule_good(2) in blast)
  show "ascii (epf_RuleDigest p) \<and> length (epf_RuleDigest p) \<le> 100"
    using d digestRE_text [OF digestJSON_shape] by (auto simp: ruleDigestOf_def)
qed

lemma encProfile_good:
  assumes "validateProfile p"
  shows "goodEnc 0 1048576 100001 (encProfile p)" and "decProfile (encProfile p) = Some p"
proof -
  let ?ms = "[(''apiVersion'', JStr (epf_APIVersion p)), (''kind'', JStr (epf_Kind p)), (''revision'', JStr (epf_Revision p)),
           (''purpose'', JStr (epf_Purpose p)), (''engineCapabilityDigest'', JStr (epf_EngineCapabilityDigest p)),
           (''normativeSources'', encNil encNormativeSource (epf_NormativeSources p)), (''rules'', encNil encEventRule (epf_Rules p)),
           (''ruleDigest'', JStr (epf_RuleDigest p))]"
  have names: "distinctNames (map fst ?ms)" using profile_names(4) by simp
  have c: "epf_APIVersion p = ProfileAPIVersion" "epf_Kind p = ProfileKind" "epf_EngineCapabilityDigest p = EngineCapabilityDigest"
    "revisionRE (epf_Revision p)" "epf_Purpose p = ''standards_conformance'' \<or> epf_Purpose p = ''synthetic_test_only''"
    and l: "length (goSlice (epf_NormativeSources p)) = 2" "validSources [] (goSlice (epf_NormativeSources p))"
    using assms by (simp_all add: validateProfile_def)
  obtain sources where s: "epf_NormativeSources p = Some sources" using l(1) by (cases "epf_NormativeSources p") (auto simp: goSlice_def)
  have ok: "okSource x" if "x \<in> set sources" for x using validSources_ok [OF l] that by (simp add: s goSlice_def)
  have list: "goodEnc 1 125000 700 (encNil encNormativeSource (epf_NormativeSources p))"
    unfolding s by (rule goodEnc_mono [OF goodEnc_list [where k = 2 and w = 60000 and n = 300]])
      (use ok encNormativeSource_good(1) l(1) in \<open>simp_all add: s goSlice_def\<close>)
  have texts: "goodEnc 1 125000 700 (JStr t)" if "ascii t \<and> length t \<le> 100" for t
    by (rule goodEnc_mono [OF goodEnc_text]) (use that in simp_all)
  have purpose: "ascii (epf_Purpose p) \<and> length (epf_Purpose p) \<le> 100" using c(5) by auto
  have revision: "ascii (epf_Revision p) \<and> length (epf_Revision p) \<le> 100" using revisionRE_text [OF c(4)] by simp
  have "list_all (\<lambda>(k, v). goodEnc 1 125000 700 v) ?ms"
    using c(1-3) constant_texts(3-5) profileRules_good(1,3) [OF assms] list purpose revision by (simp add: texts)
  then have "goodEnc (0 + 1) 125000 700 v" if "(k, v) \<in> set ?ms" for k v using that unfolding list_all_iff by fastforce
  then have "goodEnc 0 (2 + length ?ms * (196 + 125000)) (1 + int (length ?ms) * 700) (JObj ?ms)"
    by (intro goodEnc_object [OF names]) auto
  then show "goodEnc 0 1048576 100001 (encProfile p)" unfolding encProfile_def by (rule goodEnc_mono) simp_all
  have f: "decField d z ?ms k = d v" if "(k, v) \<in> set ?ms" for d k v and z :: 'x by (rule decField_in [OF _ that]) (use names in \<open>simp add: comp_def\<close>)
  have "decNilSlice decNormativeSource (encNil encNormativeSource (epf_NormativeSources p)) = Some (epf_NormativeSources p)"
    by (rule decNilSlice_inverse) (use ok encNormativeSource_good(2) in \<open>simp add: s goSlice_def\<close>)
  then show "decProfile (encProfile p) = Some p"
    unfolding decProfile_def encProfile_def profileNames_def using profileRules_good(2) [OF assms] by (simp add: f)
qed

text \<open>A valid profile is what its canonical text reads back as.\<close>

lemma ParseProfile_canonical:
  assumes "validateProfile p" "digestBytes capability = EngineCapabilityDigest"
  shows "ParseProfile capability (jsonPrint (encProfile p)) = Inr p"
proof -
  let ?v = "encProfile p"
  note good = encProfile_good [OF assms(1)]
  have v: "asciiJson ?v" "jsonWidth ?v \<le> 1048576" "scanProfileValue 0 ?v" "profileValues ?v \<le> 100001" using good(1) by (simp_all add: goodEnc_def)
  note parse = jsonParse_jsonPrint [OF asciiJson_plain [OF v(1)]]
  have "length (jsonPrint ?v) \<le> 1048576" using jsonPrint_width [OF v(1)] v(2) by simp
  moreover have "utf8Valid (jsonPrint ?v)" by (rule utf8Valid_jsonPrint [OF asciiJson_plain [OF v(1)]])
  moreover have "jsonPrint ?v \<noteq> []" using parse by auto
  ultimately show ?thesis using assms good(2) v(3,4) by (simp add: ParseProfile_def scanJSON_def parse)
qed

end
