(* ===== verification/EventCheck.thy ===== *)
theory EventCheck
  imports EventScan EventProfile
begin

text \<open>
  \<open>Observe\<close> (\<open>cloudeventsstructuredjson/event.go\<close>) and \<open>Evaluate\<close> (\<open>evaluate.go\<close>): what is recorded of an event
  text, and the claim made of it under a profile. \<open>Observe\<close> returns \<^term>\<open>None\<close> if the scanner should run out of
  fuel.

  Shown here: what an observation says of the parsed text (\<open>Observe_exact\<close>) and which texts pass
  (\<open>observationOf_pass\<close>).
\<close>

section \<open>Observations\<close>

definition ObservationSchema :: string where
  "ObservationSchema = ''prufyx.io/cloudevents-structured-json-observation/v1''"

record Observation =
  eob_Schema :: string
  eob_RootAdmission :: string
  eob_EditionAdmission :: "string option"
  eob_IDIsNonemptyValidString :: "bool option"
  eob_SourceAdmission :: "string option"
  eob_TypeIsNonemptyValidString :: "bool option"
  eob_DataAndDataBase64NotBothPresent :: "bool option"

definition selectedOf :: "eventScan \<Rightarrow> string \<Rightarrow> selectedValue" where
  "selectedOf result key = (case ev_selected result key of None \<Rightarrow> zeroSelected | Some v \<Rightarrow> v)"

definition eventRune :: "nat \<Rightarrow> bool" where
  "eventRune r = (\<not> (r \<le> 31 \<or> 127 \<le> r \<and> r \<le> 159 \<or> 64976 \<le> r \<and> r \<le> 65007 \<or> r mod 65536 = 65534 \<or> r mod 65536 = 65535))"

definition validCloudEventsString :: "selectedValue \<Rightarrow> bool" where
  "validCloudEventsString v = (\<not> (sv_text v = [] \<or> sv_repaired v) \<and> list_all eventRune (runes (sv_text v)))"

definition stringSelected :: "eventScan \<Rightarrow> string \<Rightarrow> bool" where
  "stringSelected result key = (sv_present (selectedOf result key) \<and> sv_kind (selectedOf result key) = CHR ''s'' \<and> validCloudEventsString (selectedOf result key))"

definition editionOf :: "selectedValue \<Rightarrow> string" where
  "editionOf v =
     (if sv_present v \<and> sv_kind v = CHR ''s'' \<and> validCloudEventsString v
      then if sv_text v = ''1.0'' then ''valid_1_0'' else ''other_valid_edition'' else ''missing_or_invalid'')"

definition sourceOf :: "selectedValue \<Rightarrow> string" where
  "sourceOf v =
     (if sv_present v \<and> sv_kind v = CHR ''s'' \<and> sv_text v \<noteq> []
      then if sv_repaired v then ''repair_detected'' else ''admitted_nonempty_json_string'' else ''missing_or_invalid'')"

definition observationOf :: "eventScan \<Rightarrow> Observation" where
  "observationOf result =
     (let o0 = \<lparr>eob_Schema = ObservationSchema, eob_RootAdmission = ''unsupported_root_shape'', eob_EditionAdmission = None,
                eob_IDIsNonemptyValidString = None, eob_SourceAdmission = None, eob_TypeIsNonemptyValidString = None,
                eob_DataAndDataBase64NotBothPresent = None\<rparr>;
          edition = editionOf (selectedOf result ''specversion''); source = sourceOf (selectedOf result ''source'') in
      if \<not> ev_rootObject result then o0
      else if ev_duplicate result then o0\<lparr>eob_RootAdmission := ''duplicate_decoded_root_name''\<rparr>
      else (let o1 = o0\<lparr>eob_RootAdmission := ''admitted_root_object'', eob_EditionAdmission := Some edition\<rparr> in
        if edition \<noteq> ''valid_1_0'' then o1
        else (let idOK = stringSelected result ''id''; o2 = o1\<lparr>eob_IDIsNonemptyValidString := Some idOK\<rparr> in
          if \<not> idOK then o2
          else (let o3 = o2\<lparr>eob_SourceAdmission := Some source\<rparr> in
            if source \<noteq> ''admitted_nonempty_json_string'' then o3
            else (let typeOK = stringSelected result ''type''; o4 = o3\<lparr>eob_TypeIsNonemptyValidString := Some typeOK\<rparr> in
              if \<not> typeOK then o4
              else o4\<lparr>eob_DataAndDataBase64NotBothPresent :=
                Some (\<not> (sv_present (selectedOf result ''data'') \<and> sv_present (selectedOf result ''data_base64'')))\<rparr>)))))"

definition observeFuel :: "string \<Rightarrow> nat" where
  "observeFuel raw = 2 * length raw + 1"

definition Observe :: "string \<Rightarrow> (eventError + Observation) option" where
  "Observe raw =
     (if raw = [] \<or> 2 ^ 20 < int (length raw) \<or> \<not> utf8Valid raw \<or> jsonParse raw = None then Some (Inl EventInput)
      else (case scanRoot (observeFuel raw) (startScan raw) of
              Exhausted \<Rightarrow> None
            | Refused \<Rightarrow> Some (Inl EventInput)
            | Scanned result s \<Rightarrow> if skipSpace (sc_rest s) \<noteq> [] then Some (Inl EventInput) else Some (Inr (observationOf result))))"

definition encObservation :: "Observation \<Rightarrow> json" where
  "encObservation ob =
     JObj ([(''schema'', JStr (eob_Schema ob)), (''rootAdmission'', JStr (eob_RootAdmission ob))] @
       omitNil ''editionAdmission'' JStr (eob_EditionAdmission ob) @ omitNil ''idIsNonemptyValidString'' JBool (eob_IDIsNonemptyValidString ob) @
       omitNil ''sourceAdmission'' JStr (eob_SourceAdmission ob) @ omitNil ''typeIsNonemptyValidString'' JBool (eob_TypeIsNonemptyValidString ob) @
       omitNil ''dataAndDataBase64NotBothPresent'' JBool (eob_DataAndDataBase64NotBothPresent ob))"

definition MarshalObservation :: "Observation \<Rightarrow> eventError + string" where
  "MarshalObservation ob = (if eob_Schema ob \<noteq> ObservationSchema then Inl EventIntegrity else Inr (jsonPrint (encObservation ob)))"

definition ObservationDigest :: "Observation \<Rightarrow> eventError + string" where
  "ObservationDigest ob = (case MarshalObservation ob of Inl e \<Rightarrow> Inl e | Inr raw \<Rightarrow> Inr (digestBytes raw))"

section \<open>Claims\<close>

record EventClaim =
  ecl_Status :: string
  ecl_ReasonCode :: string
  ecl_Reason :: string
  ecl_Action :: string

definition failClaim :: "string \<Rightarrow> string \<Rightarrow> string \<Rightarrow> EventClaim" where
  "failClaim code reason action = \<lparr>ecl_Status = ''FAIL'', ecl_ReasonCode = code, ecl_Reason = reason, ecl_Action = action\<rparr>"

definition unknownClaim :: "string \<Rightarrow> string \<Rightarrow> EventClaim" where
  "unknownClaim code reason =
     \<lparr>ecl_Status = ''UNKNOWN'', ecl_ReasonCode = (if code = [] then ''OBSERVATION_NOT_IN_REVIEWED_SUBSET'' else code), ecl_Reason = reason,
      ecl_Action = ''review the complete CloudEvents event, transport, and runtime requirements outside this named subset''\<rparr>"

definition outsideSubset :: "string \<Rightarrow> EventClaim" where
  "outsideSubset reason = unknownClaim ''OBSERVATION_NOT_IN_REVIEWED_SUBSET'' reason"

definition passClaim :: EventClaim where
  "passClaim =
     \<lparr>ecl_Status = ''PASS'', ecl_ReasonCode = ''STRUCTURED_JSON_CORE_ENVELOPE_SUBSET_PASS'',
      ecl_Reason = ''the supplied object satisfies this structured JSON core-envelope subset'',
      ecl_Action = ''continue separate validation of source URI-reference semantics, payload, extensions, transport, SDK, signing, delivery, authentication, and runtime behavior''\<rparr>"

definition claimOf :: "Observation \<Rightarrow> EventClaim" where
  "claimOf ob =
     (if eob_RootAdmission ob = ''unsupported_root_shape'' then
        unknownClaim ''UNSUPPORTED_ROOT_SHAPE'' ''the supplied JSON document is not a structured-event object''
      else if eob_RootAdmission ob = ''duplicate_decoded_root_name'' then
        unknownClaim ''DUPLICATE_DECODED_ROOT_NAME'' ''the supplied object repeats an exact decoded top-level member name''
      else if eob_RootAdmission ob \<noteq> ''admitted_root_object'' then outsideSubset ''the root observation was outside the reviewed subset''
      else case eob_EditionAdmission ob of
        None \<Rightarrow> outsideSubset ''the edition observation was unavailable''
      | Some edition \<Rightarrow>
          if edition = ''missing_or_invalid'' then
            failClaim ''SPECVERSION_REQUIRED_VALID_STRING'' ''the supplied object does not have a valid nonempty specversion String''
              ''set specversion to a valid CloudEvents edition String; this profile covers edition 1.0''
          else if edition = ''other_valid_edition'' then
            unknownClaim ''UNSUPPORTED_STANDARD_EDITION'' ''the supplied object declares an edition outside this profile''
          else if edition \<noteq> ''valid_1_0'' then outsideSubset ''the edition observation was outside the reviewed subset''
          else case eob_IDIsNonemptyValidString ob of
            None \<Rightarrow> outsideSubset ''the id observation was unavailable''
          | Some False \<Rightarrow>
              failClaim ''ID_REQUIRED_VALID_STRING'' ''the supplied 1.0 object does not have a valid nonempty id String''
                ''set id to a valid nonempty CloudEvents String''
          | Some True \<Rightarrow>
              (case eob_SourceAdmission ob of
                 None \<Rightarrow> outsideSubset ''the source observation was unavailable''
               | Some source \<Rightarrow>
                   if source = ''missing_or_invalid'' then
                     failClaim ''SOURCE_REQUIRED_NONEMPTY_JSON_STRING'' ''the supplied 1.0 object does not have a nonempty source JSON string''
                       ''set source to the intended nonempty JSON string and separately validate its URI-reference semantics''
                   else if source = ''repair_detected'' then
                     unknownClaim ''SOURCE_REPAIR_DETECTED'' ''the supplied source token requires Unicode surrogate repair outside this profile''
                   else if source \<noteq> ''admitted_nonempty_json_string'' then outsideSubset ''the source observation was outside the reviewed subset''
                   else case eob_TypeIsNonemptyValidString ob of
                     None \<Rightarrow> outsideSubset ''the type observation was unavailable''
                   | Some False \<Rightarrow>
                       failClaim ''TYPE_REQUIRED_VALID_STRING'' ''the supplied 1.0 object does not have a valid nonempty type String''
                         ''set type to a valid nonempty CloudEvents String''
                   | Some True \<Rightarrow>
                       (case eob_DataAndDataBase64NotBothPresent ob of
                          None \<Rightarrow> outsideSubset ''the data-member observation was unavailable''
                        | Some False \<Rightarrow>
                            failClaim ''DATA_AND_DATA_BASE64_MUTUALLY_EXCLUSIVE'' ''the supplied object contains both data and data_base64''
                              ''retain only the payload member appropriate for the event representation''
                        | Some True \<Rightarrow> passClaim)))"

definition EvaluateEvent :: "EventProfile \<Rightarrow> Observation \<Rightarrow> goTime \<Rightarrow> EventClaim" where
  "EvaluateEvent profile ob evaluatedAt =
     (if timeIsZero evaluatedAt \<or> \<not> t_utc evaluatedAt \<or> \<not> validateProfile profile \<or> eob_Schema ob \<noteq> ObservationSchema then
        unknownClaim ''EVALUATION_INPUT_INVALID'' ''the structured-event observation or evaluation context was not valid''
      else case profileRule profile of
        None \<Rightarrow> unknownClaim ''PROFILE_NO_APPLICABLE_RULE'' ''the selected profile contains no active conformance rule''
      | Some rule \<Rightarrow>
          if \<not> timeBefore evaluatedAt (expiryOf rule) then
            unknownClaim ''PROFILE_EVIDENCE_EXPIRED'' ''the selected rule evidence had expired at evaluation time''
          else claimOf ob)"

definition EventClaimExit :: "EventClaim \<Rightarrow> int" where
  "EventClaimExit claim = (if ecl_Status claim = ''PASS'' then 0 else if ecl_Status claim = ''FAIL'' then 10 else 11)"

section \<open>What an observation says of the text\<close>

definition memberNames :: "((string \<times> string) \<times> rawJson) list \<Rightarrow> string list" where
  "memberNames ms = map (snd \<circ> fst) ms"

definition memberAt :: "((string \<times> string) \<times> rawJson) list \<Rightarrow> string \<Rightarrow> rawJson option" where
  "memberAt ms = map_of (map (\<lambda>(name, x). (snd name, x)) ms)"

lemma keepMembers_root: "ev_rootObject (keepMembers seen ms result) = ev_rootObject result"
  by (induction seen ms result rule: keepMembers.induct) (simp_all add: keepMember_def Let_def)

lemma keepMembers_duplicate:
  "ev_duplicate (keepMembers seen ms result) \<longleftrightarrow>
     ev_duplicate result \<or> \<not> distinct (memberNames ms) \<or> set seen \<inter> set (memberNames ms) \<noteq> {}"
  by (induction seen ms result rule: keepMembers.induct) (auto simp: keepMember_def Let_def memberNames_def)

lemma keepMembers_selected:
  "distinct (memberNames ms) \<Longrightarrow> ev_selected (keepMembers seen ms result) key =
     (case memberAt ms key of
        Some x \<Rightarrow> if key \<in> set selectedKeys then Some ((kindOf x)\<lparr>sv_present := True\<rparr>) else ev_selected result key
      | None \<Rightarrow> ev_selected result key)"
proof (induction seen ms result rule: keepMembers.induct)
  case (2 seen name x ms result)
  have "memberAt ms (snd name) = None"
    using "2.prems" by (auto simp: memberAt_def memberNames_def map_of_eq_None_iff image_iff split: prod.splits)
  then show ?case using 2 by (auto simp: memberAt_def memberNames_def keepMember_def Let_def split: option.splits)
qed (simp add: memberAt_def)

definition cleanText :: "rawJson \<Rightarrow> bool" where
  "cleanText x = (case x of RStr b t \<Rightarrow> t \<noteq> [] \<and> \<not> repairedBody b \<and> list_all eventRune (runes t) | _ \<Rightarrow> False)"

text \<open>The members of an event that satisfies the profile.\<close>

definition coreEnvelope :: "((string \<times> string) \<times> rawJson) list \<Rightarrow> bool" where
  "coreEnvelope ms \<longleftrightarrow> distinct (memberNames ms) \<and>
     (\<exists>x. memberAt ms ''specversion'' = Some x \<and> cleanText x \<and> rawTree x = JStr ''1.0'') \<and>
     (\<exists>x. memberAt ms ''id'' = Some x \<and> cleanText x) \<and>
     (\<exists>b t. memberAt ms ''source'' = Some (RStr b t) \<and> t \<noteq> [] \<and> \<not> repairedBody b) \<and>
     (\<exists>x. memberAt ms ''type'' = Some x \<and> cleanText x) \<and>
     (memberAt ms ''data'' = None \<or> memberAt ms ''data_base64'' = None)"

lemma kindOf_text: "sv_kind (kindOf x) = CHR ''s'' \<longleftrightarrow> (\<exists>b t. x = RStr b t)"
  by (cases x) (auto simp: ofKind_def zeroSelected_def split: json.splits)

lemma kindOf_RStr: "sv_text (kindOf (RStr b t)) = t" "sv_repaired (kindOf (RStr b t)) = repairedBody b"
  by (simp_all add: ofKind_def zeroSelected_def)

lemma okString_iff:
  "sv_present v \<and> sv_kind v = CHR ''s'' \<and> validCloudEventsString v \<longleftrightarrow> cleanText x" if "v = (kindOf x)\<lparr>sv_present := True\<rparr>"
  using that kindOf_text [of x] by (cases x) (auto simp: cleanText_def validCloudEventsString_def kindOf_RStr simp del: kindOf.simps)

lemma selectedOf_scan:
  assumes "distinct (memberNames ms)" "key \<in> set selectedKeys"
  shows "selectedOf (scanOf (RObj ms)) key =
    (case memberAt ms key of Some x \<Rightarrow> (kindOf x)\<lparr>sv_present := True\<rparr> | None \<Rightarrow> zeroSelected)"
  using assms by (simp add: selectedOf_def scanOf_def keepMembers_selected emptyScan_def split: option.splits)

lemma selected_string:
  assumes "distinct (memberNames ms)" "key \<in> set selectedKeys"
  defines "v \<equiv> selectedOf (scanOf (RObj ms)) key"
  shows "sv_present v \<and> sv_kind v = CHR ''s'' \<and> validCloudEventsString v \<longleftrightarrow> (\<exists>x. memberAt ms key = Some x \<and> cleanText x)"
    and "sv_present v \<longleftrightarrow> memberAt ms key \<noteq> None"
  using okString_iff [OF refl] by (auto simp: v_def selectedOf_scan [OF assms(1,2)] zeroSelected_def split: option.splits)

lemma editionOf_valid:
  assumes "distinct (memberNames ms)"
  shows "editionOf (selectedOf (scanOf (RObj ms)) ''specversion'') = ''valid_1_0'' \<longleftrightarrow>
    (\<exists>x. memberAt ms ''specversion'' = Some x \<and> cleanText x \<and> rawTree x = JStr ''1.0'')"
proof -
  have k: "''specversion'' \<in> set selectedKeys" by (simp add: selectedKeys_def)
  have "sv_text (selectedOf (scanOf (RObj ms)) ''specversion'') = ''1.0'' \<longleftrightarrow> rawTree x = JStr ''1.0''"
    if "memberAt ms ''specversion'' = Some x" "cleanText x" for x
    using that by (cases x) (auto simp: selectedOf_scan [OF assms k] cleanText_def kindOf_RStr simp del: kindOf.simps)
  then show ?thesis using selected_string(1) [OF assms k] by (auto simp: editionOf_def)
qed

lemma sourceOf_admitted:
  assumes "distinct (memberNames ms)"
  shows "sourceOf (selectedOf (scanOf (RObj ms)) ''source'') = ''admitted_nonempty_json_string'' \<longleftrightarrow>
    (\<exists>b t. memberAt ms ''source'' = Some (RStr b t) \<and> t \<noteq> [] \<and> \<not> repairedBody b)"
proof -
  have k: "''source'' \<in> set selectedKeys" by (simp add: selectedKeys_def)
  show ?thesis
    using kindOf_text by (auto simp: sourceOf_def selectedOf_scan [OF assms k] kindOf_RStr zeroSelected_def simp del: kindOf.simps split: option.splits)
qed

lemma claim_status: "ecl_Status (unknownClaim c r) = ''UNKNOWN''" "ecl_Status (outsideSubset r) = ''UNKNOWN''" "ecl_Status (failClaim c r a) = ''FAIL''"
  "ecl_Status passClaim = ''PASS''"
  by (simp_all add: unknownClaim_def outsideSubset_def failClaim_def passClaim_def)

text \<open>The observation and the claim in one step: a pass needs every test to succeed.\<close>

lemma claimOf_observation:
  "ecl_Status (claimOf (observationOf result)) = ''PASS'' \<longleftrightarrow>
     ev_rootObject result \<and> \<not> ev_duplicate result \<and> editionOf (selectedOf result ''specversion'') = ''valid_1_0'' \<and> stringSelected result ''id'' \<and>
     sourceOf (selectedOf result ''source'') = ''admitted_nonempty_json_string'' \<and> stringSelected result ''type'' \<and>
     \<not> (sv_present (selectedOf result ''data'') \<and> sv_present (selectedOf result ''data_base64''))"
proof -
  note defs = observationOf_def claimOf_def claim_status Let_def
  consider "\<not> ev_rootObject result" | "ev_rootObject result" "ev_duplicate result"
    | "ev_rootObject result" "\<not> ev_duplicate result" "editionOf (selectedOf result ''specversion'') \<noteq> ''valid_1_0''"
    | "ev_rootObject result" "\<not> ev_duplicate result" "editionOf (selectedOf result ''specversion'') = ''valid_1_0''" "\<not> stringSelected result ''id''"
    | "ev_rootObject result" "\<not> ev_duplicate result" "editionOf (selectedOf result ''specversion'') = ''valid_1_0''" "stringSelected result ''id''"
      "sourceOf (selectedOf result ''source'') \<noteq> ''admitted_nonempty_json_string''"
    | "ev_rootObject result" "\<not> ev_duplicate result" "editionOf (selectedOf result ''specversion'') = ''valid_1_0''" "stringSelected result ''id''"
      "sourceOf (selectedOf result ''source'') = ''admitted_nonempty_json_string''" "\<not> stringSelected result ''type''"
    | "ev_rootObject result" "\<not> ev_duplicate result" "editionOf (selectedOf result ''specversion'') = ''valid_1_0''" "stringSelected result ''id''"
      "sourceOf (selectedOf result ''source'') = ''admitted_nonempty_json_string''" "stringSelected result ''type''" by blast
  then show ?thesis
  proof cases
    case 1
    then show ?thesis by (simp add: defs)
  next
    case 2
    then show ?thesis by (simp add: defs)
  next
    case 3
    then show ?thesis by (simp add: defs)
  next
    case 4
    then show ?thesis by (simp add: defs)
  next
    case 5
    then show ?thesis by (simp add: defs)
  next
    case 6
    then show ?thesis by (simp add: defs)
  next
    case 7
    then show ?thesis by (simp add: defs split: bool.split)
  qed
qed

lemma observationOf_pass:
  "ecl_Status (claimOf (observationOf (scanOf x))) = ''PASS'' \<longleftrightarrow> (\<exists>ms. x = RObj ms \<and> coreEnvelope ms)"
proof (cases "\<exists>ms. x = RObj ms \<and> distinct (memberNames ms)")
  case True
  then obtain ms where x: "x = RObj ms" and d: "distinct (memberNames ms)" by blast
  have s: "ev_rootObject (scanOf (RObj ms))" "\<not> ev_duplicate (scanOf (RObj ms))"
    using d by (simp_all add: scanOf_def keepMembers_root keepMembers_duplicate emptyScan_def)
  have keys: "''id'' \<in> set selectedKeys" "''type'' \<in> set selectedKeys" "''data'' \<in> set selectedKeys" "''data_base64'' \<in> set selectedKeys"
    by (simp_all add: selectedKeys_def)
  note strings = keys(1,2) [THEN selected_string(1) [OF d], folded stringSelected_def]
  show ?thesis
    unfolding claimOf_observation x editionOf_valid [OF d] sourceOf_admitted [OF d] strings keys(3,4) [THEN selected_string(2) [OF d]] coreEnvelope_def
    using s d by (simp del: not_None_eq)
next
  case False
  then have "\<not> ev_rootObject (scanOf x) \<or> ev_duplicate (scanOf x)"
    by (cases x) (simp_all add: scanOf_def keepMembers_duplicate emptyScan_def)
  then show ?thesis using False unfolding claimOf_observation coreEnvelope_def by blast
qed

section \<open>Observing a text\<close>

lemma Observe_exact:
  "Observe raw =
     (if raw = [] \<or> 2 ^ 20 < int (length raw) \<or> \<not> utf8Valid raw then Some (Inl EventInput)
      else case rawParse raw of
        None \<Rightarrow> Some (Inl EventInput)
      | Some x \<Rightarrow> Some (if admitsValue 0 (startScan raw) x then Inr (observationOf (scanOf x)) else Inl EventInput))"
proof (cases "rawParse raw")
  case (Some x)
  obtain r where "skipSpace r = []" "scanRoot (observeFuel raw) (startScan raw) =
      (if admitsValue 0 (startScan raw) x then Scanned (scanOf x) (advance r (rawValues x) (rawMemberCount x) (startScan raw)) else Refused)"
    using scanRoot_exact [OF Some, of "observeFuel raw"] by (auto simp: observeFuel_def)
  then show ?thesis using Some by (simp add: Observe_def jsonParse_raw advance_def)
qed (simp add: Observe_def jsonParse_raw)

end
