(* ===== verification/EventProperties.thy ===== *)
theory EventProperties
  imports EventCheck Samples
begin

text \<open>
  The properties of the CloudEvents check (\<open>cloudeventsstructuredjson\<close>), with a profile and an event on
  which they are witnessed.
\<close>

section \<open>Samples\<close>

definition sampleSources :: "NormativeSource list" where
  "sampleSources =
     [\<lparr>ens_Role = ''spec'', ens_RepositoryURL = NormativeRepository, ens_Path = ''spec.md'', ens_Commit = ''d665aa6402a7ed5d0e506dc1c3cc408dba88d085'',
       ens_ContentDigest = ''sha256:145d77472757044983f72ac98bda898ac0eadb0901121cb21794f655e8e1a4e5'',
       ens_Spans = Some [\<lparr>esp_StartLine = 171, esp_EndLine = 215\<rparr>, \<lparr>esp_StartLine = 237, esp_EndLine = 255\<rparr>]\<rparr>,
      \<lparr>ens_Role = ''json-format'', ens_RepositoryURL = NormativeRepository, ens_Path = ''json-format.md'', ens_Commit = ''d665aa6402a7ed5d0e506dc1c3cc408dba88d085'',
       ens_ContentDigest = ''sha256:51d66f45baeb151fea9a114c1a999ae90a39723f5a6f18d8bd3ba9bd97e1d7b4'',
       ens_Spans = Some [\<lparr>esp_StartLine = 42, esp_EndLine = 45\<rparr>]\<rparr>]"

definition sampleEventRule :: EventRule where
  "sampleEventRule = \<lparr>eru_ID = RuleID, eru_EvidenceExpiresAt = ''2030-01-01T00:00:00Z''\<rparr>"

definition sampleProfile :: EventProfile where
  "sampleProfile =
     \<lparr>epf_APIVersion = ProfileAPIVersion, epf_Kind = ProfileKind, epf_Revision = ''1'', epf_Purpose = ''standards_conformance'',
      epf_EngineCapabilityDigest = EngineCapabilityDigest, epf_NormativeSources = Some sampleSources, epf_Rules = Some [sampleEventRule],
      epf_RuleDigest = ruleDigestOf (Some sampleSources) sampleEventRule\<rparr>"

text \<open>\<open>{"specversion":"1.0","id":"a","source":"s","type":"t"}\<close>\<close>

definition sampleEvent :: string where
  "sampleEvent = jsonPrint (JObj [(''specversion'', JStr ''1.0''), (''id'', JStr ''a''), (''source'', JStr ''s''), (''type'', JStr ''t'')])"

lemma sampleProfile_valid: "validateProfile sampleProfile" "timeBefore sampleNow (expiryOf sampleEventRule)" "profileRule sampleProfile = Some sampleEventRule"
proof -
  have "validSources [] sampleSources" "parseEventUTC ''2030-01-01T00:00:00Z'' \<noteq> None" by code_simp+
  then show "validateProfile sampleProfile"
    by (simp add: validateProfile_def sampleProfile_def sampleEventRule_def goSlice_def revisionRE_def headAndTail_def isDigit_def) (simp add: sampleSources_def)
  show "timeBefore sampleNow (expiryOf sampleEventRule)" by code_simp
  show "profileRule sampleProfile = Some sampleEventRule" by (simp add: profileRule_def sampleProfile_def goSlice_def)
qed

definition passesAs :: "(eventError + Observation) option \<Rightarrow> bool" where
  "passesAs r = (case r of Some (Inr ob) \<Rightarrow> ecl_Status (claimOf ob) = ''PASS'' | _ \<Rightarrow> False)"

lemma sampleEvent_passes: "passesAs (Observe sampleEvent)"
  by code_simp

lemma sampleEvent_observed: "\<exists>ob. Observe sampleEvent = Some (Inr ob) \<and> ecl_Status (claimOf ob) = ''PASS''"
  using sampleEvent_passes by (auto simp: passesAs_def split: option.splits sum.splits)

section \<open>Termination\<close>

text \<open>
  C17. Observing an event text always ends: whatever the text, JSON or not, the scanner's recursion and
  loops finish within twice the length of the text, any more fuel gives the same result, and
  \<open>Observe\<close> returns an observation or an error.
\<close>

theorem event_observe_terminates:
  "(\<exists>result. Observe raw = Some result) \<and> scanRoot (observeFuel raw) (startScan raw) \<noteq> Exhausted \<and>
    scanRoot (observeFuel raw + extra) (startScan raw) = scanRoot (observeFuel raw) (startScan raw)"
proof -
  have e: "scanRoot (observeFuel raw) (startScan raw) \<noteq> Exhausted" by (rule scanRoot_enough) (simp add: startScan_def observeFuel_def)
  have "\<exists>result. Observe raw = Some result"
    using e by (cases "scanRoot (observeFuel raw) (startScan raw)") (simp_all add: Observe_def)
  moreover have "scanRoot (observeFuel raw + extra) (startScan raw) = scanRoot (observeFuel raw) (startScan raw)"
    by (rule scanRoot_more [OF e]) simp
  ultimately show ?thesis using e by blast
qed

section \<open>The verdict\<close>

text \<open>
  C18. Under a valid profile with a rule, an explicit UTC clock and a text that was observed, the check
  exits with 0 exactly when the rule has not expired and the text parses to an object with distinct
  member names whose \<open>specversion\<close> is 1.0, whose \<open>id\<close> and \<open>type\<close> are nonempty strings of permitted characters,
  whose \<open>source\<close> is a nonempty string, none of them with a repaired surrogate, and which does not hold
  both \<open>data\<close> and \<open>data_base64\<close>: the scanner's second reading of the text agrees with the parser's.
\<close>

theorem event_pass_iff:
  assumes "validateProfile profile" and "profileRule profile = Some rule" and "\<not> timeIsZero now" and "t_utc now"
    and "Observe raw = Some (Inr ob)"
  shows "EventClaimExit (EvaluateEvent profile ob now) = 0 \<longleftrightarrow>
    timeBefore now (expiryOf rule) \<and> (\<exists>ms. rawParse raw = Some (RObj ms) \<and> coreEnvelope ms)"
proof -
  obtain x where x: "rawParse raw = Some x" "ob = observationOf (scanOf x)"
    using assms(5) by (auto simp: Observe_exact split: if_splits option.splits)
  have "eob_Schema ob = ObservationSchema" by (simp add: x(2) observationOf_def Let_def)
  then have "EvaluateEvent profile ob now = (if timeBefore now (expiryOf rule) then claimOf ob
      else unknownClaim ''PROFILE_EVIDENCE_EXPIRED'' ''the selected rule evidence had expired at evaluation time'')"
    using assms(1-4) by (simp add: EvaluateEvent_def)
  moreover have "EventClaimExit c = 0 \<longleftrightarrow> ecl_Status c = ''PASS''" for c by (simp add: EventClaimExit_def)
  ultimately show ?thesis using observationOf_pass [of x] x by (simp add: claim_status)
qed

theorem event_pass_iff_witness:
  "\<exists>ob ms. Observe sampleEvent = Some (Inr ob) \<and> EventClaimExit (EvaluateEvent sampleProfile ob sampleNow) = 0 \<and>
    rawParse sampleEvent = Some (RObj ms) \<and> coreEnvelope ms"
proof -
  obtain ob where ob: "Observe sampleEvent = Some (Inr ob)" "ecl_Status (claimOf ob) = ''PASS''" using sampleEvent_observed by blast
  have now: "\<not> timeIsZero sampleNow" "t_utc sampleNow" using sampleNow_valid by (simp_all add: validClock_def)
  have "eob_Schema ob = ObservationSchema" using ob(1) by (auto simp: Observe_exact observationOf_def Let_def split: if_splits option.splits)
  then have exit: "EventClaimExit (EvaluateEvent sampleProfile ob sampleNow) = 0"
    using sampleProfile_valid now ob(2) by (simp add: EvaluateEvent_def EventClaimExit_def)
  then show ?thesis using event_pass_iff [OF sampleProfile_valid(1,3) now ob(1)] ob(1) by blast
qed

section \<open>Profiles\<close>

text \<open>
  C20. A profile that \<open>MakeProfile\<close> writes is read back exactly: when the embedded capability is the
  expected one, \<open>ParseProfile\<close> accepts the bytes within all its bounds and yields the given revision,
  purpose, sources and rule, and the canonical text of the result is the same bytes; with any other
  capability file nothing is accepted.
\<close>

theorem event_profile_roundtrip:
  assumes "MakeProfile revision purpose sources expires = Inr raw"
  shows "\<exists>p. canonicalProfile p = Inr raw \<and> epf_Revision p = revision \<and> epf_Purpose p = purpose \<and> epf_NormativeSources p = sources \<and>
    profileRule p = (if expires = [] then None else Some \<lparr>eru_ID = RuleID, eru_EvidenceExpiresAt = expires\<rparr>) \<and>
    ParseProfile capability raw = (if digestBytes capability = EngineCapabilityDigest then Inr p else Inl EventInvalid)"
proof -
  let ?r = "\<lparr>eru_ID = RuleID, eru_EvidenceExpiresAt = expires\<rparr>"
  define p where "p = \<lparr>epf_APIVersion = ProfileAPIVersion, epf_Kind = ProfileKind, epf_Revision = revision, epf_Purpose = purpose,
      epf_EngineCapabilityDigest = EngineCapabilityDigest, epf_NormativeSources = sources,
      epf_Rules = Some (if expires = [] then [] else [?r]), epf_RuleDigest = (if expires = [] then [] else ruleDigestOf sources ?r)\<rparr>"
  have c: "canonicalProfile p = Inr raw" using assms by (auto simp: MakeProfile_def p_def Let_def split: if_splits)
  then have v: "validateProfile p" "raw = jsonPrint (encProfile p)" by (auto simp: canonicalProfile_def split: if_splits)
  have "ParseProfile capability raw = (if digestBytes capability = EngineCapabilityDigest then Inr p else Inl EventInvalid)"
    using ParseProfile_canonical [OF v(1)] v(2) by (simp add: ParseProfile_def)
  with c show ?thesis by (intro exI [of _ p]) (simp add: p_def profileRule_def goSlice_def)
qed

theorem event_profile_roundtrip_witness:
  "\<exists>raw p. MakeProfile ''1'' ''standards_conformance'' (Some sampleSources) ''2030-01-01T00:00:00Z'' = Inr raw \<and> canonicalProfile p = Inr raw \<and>
    profileRule p = Some sampleEventRule"
proof -
  have m: "MakeProfile ''1'' ''standards_conformance'' (Some sampleSources) ''2030-01-01T00:00:00Z'' = Inr (jsonPrint (encProfile sampleProfile))"
    using sampleProfile_valid(1) by (simp add: MakeProfile_def canonicalProfile_def sampleProfile_def sampleEventRule_def Let_def)
  from event_profile_roundtrip [OF m] m show ?thesis by (auto simp: sampleEventRule_def)
qed

text \<open>
  The duplicate test of the profile scan compares lower-case names, the decoder folds names: \<open>rule\<close> followed by
  U+017F is a second name for \<open>rules\<close> that the scan does not see.
\<close>

lemma fold_duplicate_admitted:
  "foldName (''rule'' @ encodeRune 383) = foldName ''rules'' \<and>
    scanProfileValue 0 (JObj [(''rules'', JNull), (''rule'' @ encodeRune 383, JNull)])"
  by (simp add: foldName_def foldRune_def lowerName_def encodeRune_def leadInfo_def contByte_def runeError_def)

end
