(* ===== verification/ProjectPack.thy ===== *)
theory ProjectPack
  imports CncfTotal CncfCorpus PolicyRef
begin

text \<open>
  \<open>projectcheck/projectcheck.go\<close>, first half: the packaged documents of the community projects, the
  integrity checks that turn them into a \<open>bundle\<close>, and the selection of rules that is handed to the
  engine.

  The package declares the same two sentinels as \<open>cncfcheck\<close> and the same shapes of facts and
  entries, so the result type, \<open>Fact\<close> and \<open>Entry\<close> are shared. The map of identities is the list of its
  entries, without repetition because the slugs are strictly ordered when it is read.

  Shown here: \<open>strict\<close> refuses a second value but not other trailing text (\<open>strictPrefix_complete\<close>,
  \<open>trailing_text_admitted\<close>); a loaded bundle satisfies \<open>wfCommunity\<close> (\<open>loadRaw_wf\<close>); the selection loop
  is a filter (\<open>communityLoop_spec\<close>) and no selection of a loaded bundle is refused by the engine
  (\<open>communitySelection_total\<close>).
\<close>

section \<open>Constants\<close>

definition CommunityPolicyDeclaration :: string where
  "CommunityPolicyDeclaration = ''Prufyx community project source-constraint preview v1: exact reviewed external project identity and current/proposed endpoints; native caller-supplied configuration, workload, or selected current metadata reduced to compiled facts; scoped PASS/BLOCKED/UNKNOWN; whole-upgrade assessment remains UNKNOWN; no CNCF membership, runtime, signature, external feed, or upload authority. Maintainer source reviews expire after 90 days.''"

definition lokiCompactorRuleID :: string where
  "lokiCompactorRuleID = ''loki.compactor-shared-store.2-9-to-3-0''"
definition lokiStructuredMetadataRuleID :: string where
  "lokiStructuredMetadataRuleID = ''loki.structured-metadata-tsdb-v13.2-9-8-to-3-0-0''"

definition communityPackSchema :: string where
  "communityPackSchema = ''prufyx.io/community-project-source-rule-pack/v1alpha1''"
definition communityPackSchemaRanged :: string where
  "communityPackSchemaRanged = ''prufyx.io/community-project-source-rule-pack/v1alpha2''"

definition communityDefinitions :: "FactDefinition list" where
  "communityDefinitions =
    [boolFact ''component.argo-workflows.server_legacy_basehref_flag_present'' ''pkg:github/argoproj/argo-workflows'',
     boolFact ''component.ceph.selected_current_osd_filestore'' ''pkg:github/ceph/ceph'',
     boolFact ''component.grafana.legacy_alerting_explicitly_enabled'' ''pkg:github/grafana/grafana'',
     boolFact ''component.fluent_bit.proposed_http2_enabled'' ''pkg:github/fluent/fluent-bit'',
     boolFact ''component.fluent_bit.target_required_http2_enabled'' ''pkg:github/fluent/fluent-bit'',
     boolFact ''component.kibana.full_status_without_monitor_required'' ''pkg:github/elastic/kibana'',
     boolFact ''component.kibana.reporting_roles_allow_present'' ''pkg:github/elastic/kibana'',
     boolFact ''component.kibana.status_page_authentication_required'' ''pkg:github/elastic/kibana'',
     boolFact ''component.kibana.status_page_bypass_monitor_privilege'' ''pkg:github/elastic/kibana'',
     boolFact ''component.loki.compactor_legacy_shared_store_present'' ''pkg:github/grafana/loki'',
     boolFact ''component.loki.structured_metadata_requires_tsdb_v13'' ''pkg:github/grafana/loki'',
     boolFact ''component.mariadb.innodb_defragmentation_required'' ''pkg:github/mariadb/server'',
     boolFact ''component.mariadb.upstream_distribution'' ''pkg:github/mariadb/server'',
     boolFact ''component.mariadb_operator.auto_update_data_plane'' ''pkg:github/mariadb-operator/mariadb-operator'',
     boolFact ''component.mariadb_operator.galera_enabled'' ''pkg:github/mariadb-operator/mariadb-operator'',
     boolFact ''component.mariadb_operator.pre_operator_update'' ''pkg:github/mariadb-operator/mariadb-operator'',
     boolFact ''component.mariadb_operator.replication_enabled'' ''pkg:github/mariadb-operator/mariadb-operator'',
     boolFact ''component.mariadb_operator.resource_complete'' ''pkg:github/mariadb-operator/mariadb-operator'']"

section \<open>Packaged documents\<close>

record communityIdentity =
  pj_Slug :: string
  pj_Name :: string
  pj_RepositoryURL :: string
  pj_Component :: string
  pj_IdentityAuthority :: string
  pj_CNCFMembership :: string

record registryDocument =
  pg_Schema :: string
  pg_Revision :: string
  pg_Projects :: "communityIdentity list"

record communityPack =
  pp_Schema :: string
  pp_Revision :: string
  pp_PolicyID :: string
  pp_PolicyDigest :: string
  pp_Entries :: "Entry list option"

record ruleBinding =
  bi_ID :: string
  bi_Operator :: string
  bi_Subject :: transition
  bi_Condition :: "packCondition option"
  bi_AppliesWhen :: "packCondition list"
  bi_ReviewedAt :: string
  bi_ValidUntil :: string

record communityBundle =
  pb_registryDocument :: registryDocument
  pb_pack :: communityPack
  pb_registry :: Registry
  pb_identities :: "(string \<times> communityIdentity) list"
  pb_packDigest :: string
  pb_registryDigest :: string

record communityFiles =
  cf_projects :: "string option"
  cf_rules :: "string option"
  cf_attestation :: "string option"

abbreviation communityEntries :: "communityBundle \<Rightarrow> Entry list" where
  "communityEntries b \<equiv> goSlice (pp_Entries (pb_pack b))"

subsection \<open>Decoding\<close>

definition decIdentity :: "json \<Rightarrow> communityIdentity option" where
  "decIdentity v =
     Option.bind (decStruct True [''slug'', ''name'', ''repositoryURL'', ''component'', ''identityAuthority'', ''cncfMembership''] v) (\<lambda>ms.
     Option.bind (decField decString [] ms ''slug'') (\<lambda>s.
     Option.bind (decField decString [] ms ''name'') (\<lambda>n.
     Option.bind (decField decString [] ms ''repositoryURL'') (\<lambda>r.
     Option.bind (decField decString [] ms ''component'') (\<lambda>c.
     Option.bind (decField decString [] ms ''identityAuthority'') (\<lambda>a.
     Option.bind (decField decString [] ms ''cncfMembership'') (\<lambda>m.
       Some \<lparr>pj_Slug = s, pj_Name = n, pj_RepositoryURL = r, pj_Component = c, pj_IdentityAuthority = a, pj_CNCFMembership = m\<rparr>)))))))"

definition decRegistryDocument :: "json \<Rightarrow> registryDocument option" where
  "decRegistryDocument v =
     Option.bind (decStruct True [''schema'', ''revision'', ''projects''] v) (\<lambda>ms.
     Option.bind (decField decString [] ms ''schema'') (\<lambda>s.
     Option.bind (decField decString [] ms ''revision'') (\<lambda>r.
     Option.bind (decField (decSlice decIdentity) [] ms ''projects'') (\<lambda>p.
       Some \<lparr>pg_Schema = s, pg_Revision = r, pg_Projects = p\<rparr>))))"

definition decCommunityPack :: "rawJson \<Rightarrow> communityPack option" where
  "decCommunityPack x =
     Option.bind (decStruct True [''schema'', ''revision'', ''policyId'', ''policyDigest'', ''entries''] (rawTree x)) (\<lambda>ms.
     Option.bind (decField decString [] ms ''schema'') (\<lambda>s.
     Option.bind (decField decString [] ms ''revision'') (\<lambda>r.
     Option.bind (decField decString [] ms ''policyId'') (\<lambda>i.
     Option.bind (decField decString [] ms ''policyDigest'') (\<lambda>p.
     Option.bind (rawNilSlice (decEntry True) (rawMember ''entries'' x)) (\<lambda>e.
       Some \<lparr>pp_Schema = s, pp_Revision = r, pp_PolicyID = i, pp_PolicyDigest = p, pp_Entries = e\<rparr>))))))"

definition decRuleBinding :: "json \<Rightarrow> ruleBinding option" where
  "decRuleBinding v =
     Option.bind (decStruct False [''id'', ''operator'', ''subject'', ''condition'', ''appliesWhen'', ''evidence''] v) (\<lambda>ms.
     Option.bind (decField decString [] ms ''id'') (\<lambda>i.
     Option.bind (decField decString [] ms ''operator'') (\<lambda>oper.
     Option.bind (decField (decTransition False) zeroTransition ms ''subject'') (\<lambda>s.
     Option.bind (decField (decPtr decPackCondition) None ms ''condition'') (\<lambda>c.
     Option.bind (decField (decSlice decPackCondition) [] ms ''appliesWhen'') (\<lambda>a.
     Option.bind (decReviewWindow v) (\<lambda>(reviewed, until).
       Some \<lparr>bi_ID = i, bi_Operator = oper, bi_Subject = s, bi_Condition = c, bi_AppliesWhen = a,
             bi_ReviewedAt = reviewed, bi_ValidUntil = until\<rparr>)))))))"

text \<open>
  \<open>strict\<close> decodes the first value of the text and then refuses the text only when a second value can
  be decoded: white space, but also text that is no JSON value or a number beyond the range of a
  \<open>float64\<close>, may follow.
\<close>

fun finiteNumbers :: "json \<Rightarrow> bool" where
  "finiteNumbers (JNum text) = floatFinite text"
| "finiteNumbers (JArr vs) = (\<forall>v\<in>set vs. finiteNumbers v)"
| "finiteNumbers (JObj ms) = (\<forall>(k, v)\<in>set ms. finiteNumbers v)"
| "finiteNumbers _ = True"

definition decodesAny :: "string \<Rightarrow> bool" where
  "decodesAny text = (case parseValue (Suc (2 * length text)) text of None \<Rightarrow> False | Some (v, _) \<Rightarrow> finiteNumbers v)"

definition strictPrefix :: "(rawJson \<Rightarrow> 'a option) \<Rightarrow> string \<Rightarrow> 'a option" where
  "strictPrefix decode raw =
     (case rawValue (Suc (2 * length raw)) raw of
        None \<Rightarrow> None
      | Some (x, rest) \<Rightarrow> Option.bind (decode x) (\<lambda>out. if decodesAny rest then None else Some out))"

section \<open>Selecting rules\<close>

text \<open>The reviewed subject of an entry that \<open>from\<close>/\<open>to\<close> and the requested identifier let through.\<close>

fun communityLoop :: "string \<Rightarrow> string \<Rightarrow> string \<Rightarrow> string \<Rightarrow> Entry list \<Rightarrow> string list \<Rightarrow> string \<Rightarrow> (string list \<times> string) cncfResult" where
  "communityLoop project from to requestedRuleID [] rules selectedRuleID = Inr (rules, selectedRuleID)"
| "communityLoop project from to requestedRuleID (e # es) rules selectedRuleID =
     (if en_Project e \<noteq> project then communityLoop project from to requestedRuleID es rules selectedRuleID
      else case RuleTransitionOf (en_Rule e) of
        Inl _ \<Rightarrow> Inl CncfIntegrity
      | Inr subject \<Rightarrow>
          (case unmarshal decRuleBinding (en_Rule e) of
             None \<Rightarrow> Inl CncfIntegrity
           | Some binding \<Rightarrow>
               if (from = [] \<and> to = [] \<or> matchTransition subject from to \<noteq> MatchNone) \<and> (requestedRuleID = [] \<or> bi_ID binding = requestedRuleID)
               then communityLoop project from to requestedRuleID es (rules @ [en_Rule e])
                      (if requestedRuleID \<noteq> [] then bi_ID binding else selectedRuleID)
               else communityLoop project from to requestedRuleID es rules selectedRuleID))"

definition communityDocumentBytes :: "communityPack \<Rightarrow> string list \<Rightarrow> string list \<Rightarrow> string cncfResult" where
  "communityDocumentBytes pack rules corpus =
     (case RulesSchemaFor rules of
        Inl _ \<Rightarrow> Inl CncfIntegrity
      | Inr schema \<Rightarrow>
          (case those (map rawMarshal rules) of
             None \<Rightarrow> Inl CncfIntegrity
           | Some texts \<Rightarrow> Inr (objText
               ([(''schema'', quote schema), (''revision'', quote (pp_Revision pack)), (''policyId'', quote (pp_PolicyID pack)),
                 (''policyDigest'', quote (pp_PolicyDigest pack)), (''rules'', arrText texts)] @ corpusMember corpus))))"

definition communityRuleSetSelected ::
  "communityBundle \<Rightarrow> string \<Rightarrow> string \<Rightarrow> string \<Rightarrow> string \<Rightarrow> (RuleSet \<times> nat \<times> string) cncfResult" where
  "communityRuleSetSelected b project from to requestedRuleID =
     thenDo (communityLoop project from to requestedRuleID (communityEntries b) [] []) (\<lambda>(rules, selectedRuleID).
     thenDo (communityDocumentBytes (pb_pack b) rules []) (\<lambda>raw.
     thenDo (engineCall (ParseRuleSet raw (pb_registry b))) (\<lambda>parsed. Inr (parsed, length rules, selectedRuleID))))"

definition communityRuleSet :: "communityBundle \<Rightarrow> string \<Rightarrow> string \<Rightarrow> string \<Rightarrow> (RuleSet \<times> nat) cncfResult" where
  "communityRuleSet b project from to =
     thenDo (communityRuleSetSelected b project from to []) (\<lambda>(rules, count, _). Inr (rules, count))"

section \<open>Loading\<close>

definition validCommunitySchema :: "communityPack \<Rightarrow> bool" where
  "validCommunitySchema pack =
     (case AnyRanged (map en_Rule (goSlice (pp_Entries pack))) of
        Inl _ \<Rightarrow> False
      | Inr ranged \<Rightarrow> if ranged then pp_Schema pack = communityPackSchemaRanged else pp_Schema pack = communityPackSchema)"

definition communityHeaders :: "registryDocument \<Rightarrow> communityPack \<Rightarrow> bool" where
  "communityHeaders document pack =
     (pg_Schema document = ''prufyx.io/community-project-registry/v1alpha1'' \<and> validCommunitySchema pack \<and>
      pp_PolicyID pack = ''community-project-source-preview-v1'' \<and> pp_PolicyDigest pack = cncfDigest CommunityPolicyDeclaration \<and>
      length (pg_Projects document) = 8 \<and> length (pg_Projects document) \<le> length (goSlice (pp_Entries pack)))"

definition validCommunityIdentity :: "communityIdentity option \<Rightarrow> communityIdentity \<Rightarrow> bool" where
  "validCommunityIdentity previous p =
     (slugPattern (pj_Slug p) \<and> pj_Name p \<noteq> [] \<and> pj_RepositoryURL p \<noteq> [] \<and> pj_Component p \<noteq> [] \<and>
      pj_IdentityAuthority p = ''MAINTAINER_REVIEWED_EXTERNAL_REPOSITORY'' \<and> pj_CNCFMembership p = ''NOT_ASSERTED'' \<and>
      \<not> outOfOrder pj_Slug previous p)"

definition factKey :: "string \<Rightarrow> string \<Rightarrow> string \<Rightarrow> string" where
  "factKey side component i = side @ CHR 0x00 # component @ CHR 0x00 # i"

definition validCommunityFact :: "FactDefinition list \<Rightarrow> communityIdentity \<Rightarrow> string list \<Rightarrow> Fact \<Rightarrow> bool" where
  "validCommunityFact definitions identity required f =
     (case map_of (rev (map (\<lambda>d. (fd_ID d, d)) definitions)) (fa_ID f) of
        None \<Rightarrow> False
      | Some d \<Rightarrow>
          (fa_Side f = ''current'' \<or> fa_Side f = ''proposed'') \<and> fa_Component f = pj_Component identity \<and>
          fd_Component d = fa_Component f \<and> fd_Type d = fa_Type f \<and> goSlice (fa_EnumTokens f) = [] \<and> fa_Description f \<noteq> [] \<and>
          factKey (fa_Side f) (fa_Component f) (fa_ID f) \<notin> set required)"

fun communityFacts :: "FactDefinition list \<Rightarrow> communityIdentity \<Rightarrow> string list \<Rightarrow> Fact list \<Rightarrow> string list option" where
  "communityFacts definitions identity required [] = Some required"
| "communityFacts definitions identity required (f # fs) =
     (if validCommunityFact definitions identity required f
      then communityFacts definitions identity (factKey (fa_Side f) (fa_Component f) (fa_ID f) # required) fs else None)"

definition requiredFact :: "string list \<Rightarrow> packCondition \<Rightarrow> bool" where
  "requiredFact required c = (factKey (pc_Side c) (pc_Component c) (pc_FactID c) \<in> set required)"

definition communityWindow :: "ruleBinding \<Rightarrow> bool" where
  "communityWindow binding =
     (case (parseRFC3339 (bi_ReviewedAt binding), parseRFC3339 (bi_ValidUntil binding)) of
        (Some reviewed, Some until) \<Rightarrow> unixSeconds until - unixSeconds reviewed \<le> 90 * 24 * 3600
      | _ \<Rightarrow> False)"

text \<open>One turn of the loop over the entries: the identifier of the admitted rule.\<close>

definition communityEntry ::
  "FactDefinition list \<Rightarrow> (string \<times> communityIdentity) list \<Rightarrow> (string \<times> string) option \<Rightarrow> string list \<Rightarrow> Entry \<Rightarrow> string option" where
  "communityEntry definitions ids previous seenRuleIDs e =
     (case map_of ids (en_Project e) of
        None \<Rightarrow> None
      | Some identity \<Rightarrow>
          if en_Description e = [] \<or> goSlice (en_RequiredFacts e) = [] \<or> 8 < length (goSlice (en_RequiredFacts e)) then None
          else (case communityFacts definitions identity [] (goSlice (en_RequiredFacts e)) of
                  None \<Rightarrow> None
                | Some required \<Rightarrow>
                    (case unmarshal decRuleBinding (en_Rule e) of
                       None \<Rightarrow> None
                     | Some binding \<Rightarrow>
                         if bi_ID binding = [] \<or> bi_Operator binding \<noteq> ''forbid_predicate_value'' \<or>
                            (case bi_Condition binding of
                               None \<Rightarrow> True
                             | Some c \<Rightarrow> tr_Component (bi_Subject binding) \<noteq> pj_Component identity \<or> \<not> requiredFact required c) \<or>
                            \<not> list_all (requiredFact required) (bi_AppliesWhen binding) \<or>
                            bi_ID binding \<in> set seenRuleIDs \<or>
                            (case previous of
                               None \<Rightarrow> False
                             | Some (p, i) \<Rightarrow> en_Project e < p \<or> p = en_Project e \<and> bi_ID binding \<le> i) \<or>
                            \<not> communityWindow binding
                         then None else Some (bi_ID binding))))"

fun communityAdmit ::
  "FactDefinition list \<Rightarrow> (string \<times> communityIdentity) list \<Rightarrow> (string \<times> string) option \<Rightarrow> string list \<Rightarrow> Entry list \<Rightarrow> bool" where
  "communityAdmit definitions ids previous seenRuleIDs [] = True"
| "communityAdmit definitions ids previous seenRuleIDs (e # es) =
     (case communityEntry definitions ids previous seenRuleIDs e of
        None \<Rightarrow> False
      | Some i \<Rightarrow> communityAdmit definitions ids (Some (en_Project e, i)) (i # seenRuleIDs) es)"

definition communityComplete :: "communityBundle \<Rightarrow> string \<Rightarrow> unit cncfResult" where
  "communityComplete b project =
     refuseIf (length (filter (\<lambda>e. en_Project e = project) (communityEntries b)) = 0) CncfIntegrity
       (thenDo (orFail CncfIntegrity (communityRuleSet b project [] [])) (\<lambda>_. Inr ()))"

definition loadRaw :: "string \<Rightarrow> string \<Rightarrow> FactDefinition list \<Rightarrow> communityBundle cncfResult" where
  "loadRaw registryRaw packRaw definitions =
     (case (strictPrefix (decRegistryDocument \<circ> rawTree) registryRaw, strictPrefix decCommunityPack packRaw) of
        (Some document, Some pack) \<Rightarrow>
          thenDo (orFail CncfIntegrity (engineCall (NewRegistry definitions))) (\<lambda>registry.
          refuseIf (\<not> communityHeaders document pack) CncfIntegrity
         (refuseIf (\<not> allAdj validCommunityIdentity None (pg_Projects document)) CncfIntegrity
         (let b = \<lparr>pb_registryDocument = document, pb_pack = pack, pb_registry = registry,
                   pb_identities = map (\<lambda>p. (pj_Slug p, p)) (pg_Projects document),
                   pb_packDigest = cncfDigest packRaw, pb_registryDigest = cncfDigest registryRaw\<rparr>
          in refuseIf (\<not> communityAdmit definitions (pb_identities b) None [] (communityEntries b)) CncfIntegrity
            (thenDo (collect (communityComplete b) (map fst (pb_identities b))) (\<lambda>_. Inr b)))))
      | _ \<Rightarrow> Inl CncfIntegrity)"

definition communityLoad :: "communityFiles \<Rightarrow> communityBundle cncfResult" where
  "communityLoad files =
     (case (cf_projects files, cf_rules files) of
        (Some registryRaw, Some packRaw) \<Rightarrow> loadRaw registryRaw packRaw communityDefinitions
      | _ \<Rightarrow> Inl CncfIntegrity)"

section \<open>Reading the documents\<close>

lemma rawValue_whole: "rawParse raw = Some x \<longleftrightarrow> (\<exists>rest. rawValue (Suc (2 * length raw)) raw = Some (x, rest) \<and> skipSpace rest = [])"
  by (auto simp: rawParse_def split: option.splits if_splits)

lemma decodesAny_blank: "skipSpace text = [] \<Longrightarrow> \<not> decodesAny text"
  by (simp add: decodesAny_def parseValue.simps)

text \<open>A text that is one value and white space is read as \<open>strictJSON\<close> reads it.\<close>

lemma strictPrefix_complete: "rawParse raw = Some x \<Longrightarrow> strictPrefix decode raw = decode x"
  by (auto simp: rawValue_whole strictPrefix_def decodesAny_blank split: Option.bind_split)

lemma trailing_text_admitted:
  "strictPrefix (decRegistryDocument \<circ> rawTree) ''{}}'' \<noteq> None \<and> strictJSON (decRegistryDocument \<circ> rawTree) ''{}}'' = None"
  by code_simp

section \<open>What the package reads of a rule\<close>

definition bindingOf :: "rule \<Rightarrow> ruleBinding" where
  "bindingOf r =
     \<lparr>bi_ID = r_ID r, bi_Operator = r_Operator r, bi_Subject = r_Subject r, bi_Condition = map_option shapeOfCondition (r_Condition r),
      bi_AppliesWhen = map shapeOfCondition (r_AppliesWhen r), bi_ReviewedAt = ev_ReviewedAt (r_Evidence r),
      bi_ValidUntil = ev_ValidUntil (r_Evidence r)\<rparr>"

lemma decRule_binding:
  assumes "decRule v = Some r"
  shows "decRuleBinding v = Some (bindingOf r)"
  using assms decRule_window [OF assms] readsOf_fieldI(1) [OF decTransition_lenient] readsOf_field [OF readsOf_ptr [OF decPackCondition_reads], of None]
    readsOf_field [OF readsOf_slice [OF decPackCondition_reads], of "[]"]
  by (auto simp: decRule_def decRuleBinding_def bindingOf_def bind_eq_Some_conv dest!: decStruct_lenient)

lemma ruleOf_binding: "ruleOf raw = Some r \<Longrightarrow> unmarshal decRuleBinding raw = Some (bindingOf r)"
  using decRule_binding by (auto simp: ruleOf_iff unmarshal_def)

section \<open>The documents handed to the engine\<close>

text \<open>The part of a pack that a rule document repeats, as the documents of \<open>cncfcheck\<close> have it.\<close>

definition packView :: "communityPack \<Rightarrow> cncfBundle" where
  "packView pack =
     \<lparr>bu_landscape = \<lparr>ld_Schema = [], ld_Revision = [], ld_SourceURL = [], ld_LandscapeFileDigest = [], ld_Projects = []\<rparr>,
      bu_priority = \<lparr>pd_Schema = [], pd_LandscapeFileDigest = [], pd_Priority = []\<rparr>,
      bu_pack = \<lparr>pk_Schema = pp_Schema pack, pk_Revision = pp_Revision pack, pk_PolicyID = pp_PolicyID pack,
        pk_PolicyDigest = pp_PolicyDigest pack, pk_LandscapeFileDigest = [], pk_RegistryDigest = [], pk_Entries = pp_Entries pack\<rparr>,
      bu_registry = EmptyRegistry, bu_packDigest = [], bu_catalogueDigest = []\<rparr>"

lemma communityDocumentBytes_view: "communityDocumentBytes pack rules corpus = ruleDocumentBytes (packView pack) rules corpus"
  by (simp add: communityDocumentBytes_def ruleDocumentBytes_def packView_def split: sum.split option.split)

lemma communityDocument_parsed:
  assumes "communityDocumentBytes pack rules corpus = Inr raw" and "ParseRuleSet raw registry = Inr rs" and "[] \<notin> set rules"
  shows "map ruleOf rules = map Some (rd_Rules (rs_document rs))" and "rd_Revision (rs_document rs) = utf8Coerce (pp_Revision pack)"
    and "rd_Corpus (rs_document rs) = (if corpus = [] then None
      else Some \<lparr>co_Completeness = CorpusAttestation, co_Components = map utf8Coerce corpus\<rparr>)"
proof -
  note parsed = ruleDocument_parsed [OF assms(1) [unfolded communityDocumentBytes_view] assms(2,3)]
  show "map ruleOf rules = map Some (rd_Rules (rs_document rs))"
    using parsed(1) by (simp add: ruleOf_iff [symmetric] list_all2_conv_all_nth list_eq_iff_nth_eq)
  show "rd_Revision (rs_document rs) = utf8Coerce (pp_Revision pack)"
    "rd_Corpus (rs_document rs) = (if corpus = [] then None
      else Some \<lparr>co_Completeness = CorpusAttestation, co_Components = map utf8Coerce corpus\<rparr>)"
    using parsed(2,3) by (simp_all add: packView_def)
qed

section \<open>The selection loop\<close>

text \<open>Which entries are selected, over the rules as the engine decodes them.\<close>

definition ruleWanted :: "string \<Rightarrow> string \<Rightarrow> string \<Rightarrow> rule \<Rightarrow> bool" where
  "ruleWanted from to requestedRuleID r \<longleftrightarrow>
     (from = [] \<and> to = [] \<or> matchTransition (ruleTransitionOfRule r) from to \<noteq> MatchNone) \<and> (requestedRuleID = [] \<or> r_ID r = requestedRuleID)"

definition entryWanted :: "string \<Rightarrow> string \<Rightarrow> string \<Rightarrow> string \<Rightarrow> Entry \<Rightarrow> bool" where
  "entryWanted project from to requestedRuleID e \<longleftrightarrow>
     en_Project e = project \<and> (\<exists>r. ruleOf (en_Rule e) = Some r \<and> ruleWanted from to requestedRuleID r)"

lemma communityLoop_spec:
  assumes "\<forall>e\<in>set es. en_Project e = project \<longrightarrow> ruleOf (en_Rule e) \<noteq> None"
  shows "communityLoop project from to requestedRuleID es rules selected =
    (let wanted = filter (entryWanted project from to requestedRuleID) es
     in Inr (rules @ map en_Rule wanted, if requestedRuleID \<noteq> [] \<and> wanted \<noteq> [] then requestedRuleID else selected))"
  using assms
proof (induction es arbitrary: rules selected)
  case (Cons e es)
  show ?case
  proof (cases "en_Project e = project")
    case True
    then obtain r where r: "ruleOf (en_Rule e) = Some r" using Cons.prems by auto
    have "entryWanted project from to requestedRuleID e \<longleftrightarrow> ruleWanted from to requestedRuleID r"
      using True r by (simp add: entryWanted_def)
    then show ?thesis using Cons True ruleOf_reads(3) [OF r] ruleOf_binding [OF r]
      by (auto simp: ruleWanted_def bindingOf_def Let_def)
  qed (use Cons in \<open>simp add: entryWanted_def\<close>)
qed simp

lemma unmarshal_nonempty: "unmarshal d raw = Some x \<Longrightarrow> raw \<noteq> []"
  by (auto simp: unmarshal_def)

text \<open>Without versions and identifier the loop returns every rule of the project, each of which was read.\<close>

lemma communityLoop_all:
  "communityLoop project [] [] [] es rules selected = Inr (raws, sel) \<Longrightarrow>
     raws = rules @ map en_Rule (filter (\<lambda>e. en_Project e = project) es) \<and>
     (\<forall>e\<in>set es. en_Project e = project \<longrightarrow> en_Rule e \<noteq> [])"
proof (induction es arbitrary: rules selected)
  case (Cons e es)
  show ?case
  proof (cases "en_Project e = project")
    case True
    then obtain binding where "unmarshal decRuleBinding (en_Rule e) = Some binding"
      "communityLoop project [] [] [] es (rules @ [en_Rule e]) selected = Inr (raws, sel)"
      using Cons.prems by (auto split: sum.splits option.splits)
    then show ?thesis using Cons.IH True unmarshal_nonempty by fastforce
  qed (use Cons in auto)
qed simp

lemma communityRuleSet_all:
  assumes "communityRuleSet b project [] [] = Inr (rs, n)"
  obtains raw where "communityDocumentBytes (pb_pack b) (map en_Rule (filter (\<lambda>e. en_Project e = project) (communityEntries b))) [] = Inr raw"
    "ParseRuleSet raw (pb_registry b) = Inr rs"
    "map (ruleOf \<circ> en_Rule) (filter (\<lambda>e. en_Project e = project) (communityEntries b)) = map Some (rd_Rules (rs_document rs))"
proof -
  let ?es = "filter (\<lambda>e. en_Project e = project) (communityEntries b)"
  obtain raws sel raw where l: "communityLoop project [] [] [] (communityEntries b) [] [] = Inr (raws, sel)"
    "communityDocumentBytes (pb_pack b) raws [] = Inr raw" "ParseRuleSet raw (pb_registry b) = Inr rs"
    using assms by (auto simp: communityRuleSet_def communityRuleSetSelected_def)
  have raws: "raws = map en_Rule ?es" "[] \<notin> set raws" using communityLoop_all [OF l(1)] by auto
  show ?thesis using that l(2,3) communityDocument_parsed(1) [OF l(2,3) raws(2)] by (simp add: raws(1))
qed

section \<open>The invariant of a bundle\<close>

definition communityRules :: "communityBundle \<Rightarrow> string \<Rightarrow> rule list" where
  "communityRules b project = List.map_filter (ruleOf \<circ> en_Rule) (filter (\<lambda>e. en_Project e = project) (communityEntries b))"

definition entryID :: "Entry \<Rightarrow> string option" where
  "entryID e = map_option bi_ID (unmarshal decRuleBinding (en_Rule e))"

definition wfCommunity :: "communityBundle \<Rightarrow> bool" where
  "wfCommunity b \<longleftrightarrow>
     wfRegistry (pb_registry b) \<and> sorted_wrt (<) (map fst (pb_identities b)) \<and>
     (\<forall>e\<in>set (communityEntries b). \<exists>identity. map_of (pb_identities b) (en_Project e) = Some identity \<and>
        (\<forall>r. ruleOf (en_Rule e) = Some r \<longrightarrow> tr_Component (r_Subject r) = pj_Component identity)) \<and>
     distinct (map entryID (communityEntries b)) \<and>
     (\<forall>project\<in>fst ` set (pb_identities b). (\<exists>e\<in>set (communityEntries b). en_Project e = project) \<and>
        (\<exists>rules n. communityRuleSet b project [] [] = Inr (rules, n)))"

lemma communityAdmit_entries:
  assumes "communityAdmit definitions ids previous seen es"
  shows "distinct (map entryID es)" and "\<forall>e\<in>set es. \<exists>i. entryID e = Some i \<and> i \<notin> set seen"
    and "\<forall>e\<in>set es. \<exists>previous seen i. communityEntry definitions ids previous seen e = Some i"
  using assms
proof (induction es arbitrary: previous seen)
  case (Cons e es)
  case 1
  then obtain i where i: "communityEntry definitions ids previous seen e = Some i"
    "communityAdmit definitions ids (Some (en_Project e, i)) (i # seen) es" by (auto split: option.splits)
  then have "entryID e = Some i" by (auto simp: communityEntry_def entryID_def split: option.splits if_splits)
  with Cons(1,2) [OF i(2)] show ?case by fastforce
next
  case (Cons e es)
  case 2
  then obtain i where i: "communityEntry definitions ids previous seen e = Some i"
    "communityAdmit definitions ids (Some (en_Project e, i)) (i # seen) es" by (auto split: option.splits)
  then have "entryID e = Some i" "i \<notin> set seen" by (auto simp: communityEntry_def entryID_def split: option.splits if_splits)
  with Cons(2) [OF i(2)] show ?case by fastforce
next
  case (Cons e es)
  case 3
  then obtain i where i: "communityEntry definitions ids previous seen e = Some i"
    "communityAdmit definitions ids (Some (en_Project e, i)) (i # seen) es" by (auto split: option.splits)
  with Cons(3) [OF i(2)] show ?case by auto
qed simp_all

lemma communityEntry_admits:
  assumes "communityEntry definitions ids previous seen e = Some i"
  obtains identity binding where "map_of ids (en_Project e) = Some identity" "unmarshal decRuleBinding (en_Rule e) = Some binding"
    "tr_Component (bi_Subject binding) = pj_Component identity" "bi_Operator binding = ''forbid_predicate_value''" "communityWindow binding"
  using assms by (auto simp: communityEntry_def split: option.splits if_splits)

lemma loadRaw_form:
  assumes "loadRaw registryRaw packRaw definitions = Inr b"
  shows "communityHeaders (pb_registryDocument b) (pb_pack b)" and "allAdj validCommunityIdentity None (pg_Projects (pb_registryDocument b))"
    and "NewRegistry definitions = Inr (pb_registry b)" and "communityAdmit definitions (pb_identities b) None [] (communityEntries b)"
    and "pb_identities b = map (\<lambda>p. (pj_Slug p, p)) (pg_Projects (pb_registryDocument b))"
    and "\<exists>us. collect (communityComplete b) (map fst (pb_identities b)) = Inr us"
  using assms by (auto simp: loadRaw_def Let_def split: option.splits)

lemma loadRaw_wf:
  assumes "loadRaw registryRaw packRaw definitions = Inr b"
  shows "wfCommunity b"
proof -
  note f = loadRaw_form [OF assms]
  have "map fst (pb_identities b) = map pj_Slug (pg_Projects (pb_registryDocument b))" by (simp add: f(5) comp_def)
  then have sorted: "sorted_wrt (<) (map fst (pb_identities b))"
    using allAdj_mono [OF _ f(2), of "\<lambda>p x. \<not> outOfOrder pj_Slug p x"]
      allAdj_order [of pj_Slug "\<lambda>_. True" "pg_Projects (pb_registryDocument b)"] by (simp add: validCommunityIdentity_def)
  have "wfRegistry (pb_registry b)" using f(3) newRegistry_wf by (auto simp: NewRegistry_def)
  moreover have "\<exists>identity. map_of (pb_identities b) (en_Project e) = Some identity \<and>
      (\<forall>r. ruleOf (en_Rule e) = Some r \<longrightarrow> tr_Component (r_Subject r) = pj_Component identity)" if e: "e \<in> set (communityEntries b)" for e
  proof -
    obtain previous seen i where i: "communityEntry definitions (pb_identities b) previous seen e = Some i"
      using communityAdmit_entries(3) [OF f(4)] e by blast
    from communityEntry_admits [OF this] show ?thesis using ruleOf_binding by (metis (no_types) bindingOf_def option.inject ruleBinding.select_convs(3))
  qed
  moreover have "(\<exists>e\<in>set (communityEntries b). en_Project e = project) \<and> (\<exists>rules n. communityRuleSet b project [] [] = Inr (rules, n))"
    if p: "project \<in> fst ` set (pb_identities b)" for project
  proof -
    obtain us where "map (communityComplete b) (map fst (pb_identities b)) = map Inr us" using f(6) unfolding collect_iff by blast
    moreover have "communityComplete b project \<in> set (map (communityComplete b) (map fst (pb_identities b)))"
      unfolding set_map using p by (rule imageI)
    ultimately obtain u where "communityComplete b project = Inr u" by auto
    then show ?thesis by (auto simp: communityComplete_def filter_empty_conv)
  qed
  ultimately show ?thesis using sorted communityAdmit_entries(1) [OF f(4)] unfolding wfCommunity_def by blast
qed

text \<open>Every rule of a loaded bundle forbids a predicate value and was reviewed for at most ninety days.\<close>

lemma loadRaw_reviewed:
  assumes "loadRaw registryRaw packRaw definitions = Inr b" and "e \<in> set (communityEntries b)" and "ruleOf (en_Rule e) = Some r"
  obtains reviewed until where "r_Operator r = ''forbid_predicate_value''" "parseRFC3339 (ev_ReviewedAt (r_Evidence r)) = Some reviewed"
    "parseRFC3339 (ev_ValidUntil (r_Evidence r)) = Some until" "unixSeconds until - unixSeconds reviewed \<le> 7776000"
proof -
  obtain previous seen i where i: "communityEntry definitions (pb_identities b) previous seen e = Some i"
    using communityAdmit_entries(3) [OF loadRaw_form(4) [OF assms(1)]] assms(2) by blast
  obtain binding where "unmarshal decRuleBinding (en_Rule e) = Some binding" "bi_Operator binding = ''forbid_predicate_value''" "communityWindow binding"
    by (rule communityEntry_admits [OF i])
  then show ?thesis using that ruleOf_binding [OF assms(3)] by (auto simp: communityWindow_def bindingOf_def split: option.splits)
qed

section \<open>Selections of a loaded bundle\<close>

lemma map_filter_all: "map f xs = map Some ys \<Longrightarrow> List.map_filter f xs = ys"
proof (induction xs arbitrary: ys)
  case (Cons x xs)
  then show ?case by (cases ys) (auto simp: List.map_filter_def)
qed (simp add: List.map_filter_def)

lemma wfCommunity_rules:
  assumes "wfCommunity b" and "project \<in> fst ` set (pb_identities b)"
  shows "\<forall>e\<in>set (communityEntries b). en_Project e = project \<longrightarrow> ruleOf (en_Rule e) \<noteq> None"
    and "\<forall>r\<in>set (communityRules b project). validateRule r (pb_registry b) = None"
    and "sorted_wrt (<) (map r_ID (communityRules b project))"
proof -
  obtain rs n where "communityRuleSet b project [] [] = Inr (rs, n)" using assms by (auto simp: wfCommunity_def)
  then obtain raw where r: "ParseRuleSet raw (pb_registry b) = Inr rs"
    "map (ruleOf \<circ> en_Rule) (filter (\<lambda>e. en_Project e = project) (communityEntries b)) = map Some (rd_Rules (rs_document rs))"
    by (rule communityRuleSet_all)
  have "ruleOf (en_Rule e) \<in> set (map (ruleOf \<circ> en_Rule) (filter (\<lambda>e. en_Project e = project) (communityEntries b)))"
    if "e \<in> set (communityEntries b)" "en_Project e = project" for e using that by simp
  then show "\<forall>e\<in>set (communityEntries b). en_Project e = project \<longrightarrow> ruleOf (en_Rule e) \<noteq> None" unfolding r(2) by fastforce
  have "communityRules b project = rd_Rules (rs_document rs)" unfolding communityRules_def by (rule map_filter_all [OF r(2)])
  moreover have "wfRules (pb_registry b) (rs_document rs)" by (rule ParseRuleSet_issued [OF r(1)])
  ultimately show "\<forall>r\<in>set (communityRules b project). validateRule r (pb_registry b) = None"
    "sorted_wrt (<) (map r_ID (communityRules b project))" by (simp_all add: wfRules_def)
qed

lemma communityRules_filter:
  "List.map_filter (ruleOf \<circ> en_Rule) (filter (entryWanted project from to requestedRuleID) es) =
     filter (ruleWanted from to requestedRuleID) (List.map_filter (ruleOf \<circ> en_Rule) (filter (\<lambda>e. en_Project e = project) es))"
  by (induction es) (auto simp: List.map_filter_def entryWanted_def)

lemma communitySelection_total:
  assumes "wfCommunity b" and "project \<in> fst ` set (pb_identities b)"
  obtains rules raw where
    "communityRuleSetSelected b project from to requestedRuleID =
       Inr (rules, length (rd_Rules (rs_document rules)),
            if requestedRuleID \<noteq> [] \<and> rd_Rules (rs_document rules) \<noteq> [] then requestedRuleID else [])"
    "rd_Rules (rs_document rules) = filter (ruleWanted from to requestedRuleID) (communityRules b project)"
    "ParseRuleSet raw (pb_registry b) = Inr rules" "rd_Corpus (rs_document rules) = None"
proof -
  let ?es = "filter (\<lambda>e. en_Project e = project) (communityEntries b)"
  let ?Q = "entryWanted project from to requestedRuleID"
  have sub: "filter ?Q ?es = filter ?Q (communityEntries b)" by (auto simp: entryWanted_def intro!: filter_cong)
  obtain rs n where "communityRuleSet b project [] [] = Inr (rs, n)" using assms by (auto simp: wfCommunity_def)
  then obtain raw where r: "communityDocumentBytes (pb_pack b) (map en_Rule ?es) [] = Inr raw" "ParseRuleSet raw (pb_registry b) = Inr rs"
    by (rule communityRuleSet_all)
  have some: "\<forall>e\<in>set ?es. ruleOf (en_Rule e) \<noteq> None" using wfCommunity_rules(1) [OF assms] by auto
  obtain doc rules where d: "communityDocumentBytes (pb_pack b) (map en_Rule (filter ?Q (communityEntries b))) [] = Inr doc"
    "ParseRuleSet doc (pb_registry b) = Inr rules"
    using ruleDocument_selection [OF r(1) [unfolded communityDocumentBytes_view] r(2) some, of ?Q]
    unfolding sub communityDocumentBytes_view by blast
  have "[] \<notin> set (map en_Rule (filter ?Q (communityEntries b)))"
    by (auto simp: entryWanted_def ruleOf_def)
  note p = communityDocument_parsed [OF d this]
  have "rd_Rules (rs_document rules) = filter (ruleWanted from to requestedRuleID) (communityRules b project)"
    unfolding communityRules_def communityRules_filter [symmetric] by (rule map_filter_all [symmetric]) (use p(1) in simp)
  moreover have len: "length (filter ?Q (communityEntries b)) = length (rd_Rules (rs_document rules))" using p(1) by (metis length_map)
  then have "filter ?Q (communityEntries b) \<noteq> [] \<longleftrightarrow> rd_Rules (rs_document rules) \<noteq> []" by (metis length_0_conv)
  then have "communityRuleSetSelected b project from to requestedRuleID =
       Inr (rules, length (rd_Rules (rs_document rules)),
            if requestedRuleID \<noteq> [] \<and> rd_Rules (rs_document rules) \<noteq> [] then requestedRuleID else [])"
    using communityLoop_spec [OF wfCommunity_rules(1) [OF assms], of "from" to requestedRuleID "[]" "[]"] d len
    by (simp only: communityRuleSetSelected_def Let_def thenDo_simps prod.case append_Nil length_map) (simp add: engineCall_def)
  ultimately show ?thesis using that [OF _ _ d(2)] p(3) by simp
qed

end
