(* ===== verification/ProjectCheck.thy ===== *)
theory ProjectCheck
  imports ProjectPack
begin

text \<open>
  \<open>projectcheck/projectcheck.go\<close>, second half: the check of one community project, the publication of
  its report, the exit code, and the listings of projects, components and rule identities.

  Shown here: what a returned report contains (\<open>projectCheck_form\<close>), that it is published
  (\<open>projectCheck_published\<close>), which rules it is about (\<open>projectSelection\<close>) and that a check on a loaded
  bundle returns (\<open>projectCheck_total\<close>).
\<close>

section \<open>Reports\<close>

record projectReport =
  px_Schema :: string
  px_Project :: string
  px_RequestedRuleID :: string
  px_SelectedRuleID :: string
  px_Assessment :: string
  px_KnowledgeOrigin :: string
  px_KnowledgeRevision :: string
  px_KnowledgePackDigest :: string
  px_ProjectRegistryDigest :: string
  px_InputFileDigest :: string
  px_SourceAuthority :: string
  px_RuntimeReproduced :: int
  px_NetworkUsed :: bool
  px_NextAction :: string
  px_Check :: Report
  px_seal :: bool
  px_digest :: string

definition encProjectReport :: "projectReport \<Rightarrow> json" where
  "encProjectReport r =
     JObj ([(''schema'', JStr (px_Schema r)), (''project'', JStr (px_Project r))]
           @ omitBlank ''requestedRuleId'' (px_RequestedRuleID r) @ omitBlank ''selectedRuleId'' (px_SelectedRuleID r)
           @ [(''assessment'', JStr (px_Assessment r)), (''knowledgeOrigin'', JStr (px_KnowledgeOrigin r)),
              (''knowledgeRevision'', JStr (px_KnowledgeRevision r)), (''knowledgePackDigest'', JStr (px_KnowledgePackDigest r)),
              (''projectRegistryDigest'', JStr (px_ProjectRegistryDigest r)), (''inputFileDigest'', JStr (px_InputFileDigest r)),
              (''sourceAuthority'', JStr (px_SourceAuthority r)), (''runtimeReproduced'', encInt (px_RuntimeReproduced r)),
              (''networkUsed'', JBool (px_NetworkUsed r)), (''nextAction'', JStr (px_NextAction r)),
              (''check'', encReport (px_Check r))])"

definition projectReportBytes :: "projectReport \<Rightarrow> string" where
  "projectReportBytes report = jsonPrint (encProjectReport report)"

definition projectCheckSchema :: string where
  "projectCheckSchema = ''prufyx.io/community-project-source-check/v1alpha1''"
definition projectAuthority :: string where
  "projectAuthority = ''PACKAGED_MAINTAINER_REVIEWED_EXTERNAL_PROJECT_RULES_NOT_RUNTIME_PROOF''"

section \<open>The check\<close>

definition requestedTransition :: "string \<Rightarrow> string \<Rightarrow> (string \<times> string) option" where
  "requestedTransition inputRaw component =
     (case unmarshal decInputVersions inputRaw of
        None \<Rightarrow> None
      | Some (current, proposed) \<Rightarrow>
          (case (List.find (\<lambda>(c, _). c = component) current, List.find (\<lambda>(c, _). c = component) proposed) of
             (Some (_, from), Some (_, to)) \<Rightarrow> Some (from, to)
           | _ \<Rightarrow> None))"

definition projectNextAction :: "nat \<Rightarrow> string" where
  "projectNextAction selected =
     (if selected = 0
      then ''no reviewed rule matches this exact project transition; retain UNKNOWN or add independently reviewed embedded rule metadata''
      else ''review each scoped claim; whole-upgrade behavior, runtime evidence, and external signed updates remain unavailable'')"

definition projectReportFor :: "communityBundle \<Rightarrow> string \<Rightarrow> string \<Rightarrow> string \<Rightarrow> nat \<Rightarrow> string \<Rightarrow> Report \<Rightarrow> projectReport" where
  "projectReportFor b project requestedRuleID selectedRuleID selected inputRaw result =
     (let report = \<lparr>px_Schema = projectCheckSchema, px_Project = project, px_RequestedRuleID = requestedRuleID,
            px_SelectedRuleID = selectedRuleID, px_Assessment = ''UNKNOWN'', px_KnowledgeOrigin = ''embedded_only'',
            px_KnowledgeRevision = pp_Revision (pb_pack b), px_KnowledgePackDigest = pb_packDigest b,
            px_ProjectRegistryDigest = pb_registryDigest b, px_InputFileDigest = cncfDigest inputRaw,
            px_SourceAuthority = projectAuthority, px_RuntimeReproduced = 0, px_NetworkUsed = False,
            px_NextAction = projectNextAction selected, px_Check = result, px_seal = True, px_digest = []\<rparr>
      in report\<lparr>px_digest := cncfDigest (projectReportBytes report)\<rparr>)"

definition checkWithBundleRule :: "communityBundle \<Rightarrow> string \<Rightarrow> string \<Rightarrow> goTime \<Rightarrow> string \<Rightarrow> projectReport cncfResult" where
  "checkWithBundleRule b project inputRaw now requestedRuleID =
     (case map_of (pb_identities b) project of
        None \<Rightarrow> Inl CncfInvalid
      | Some identity \<Rightarrow>
          thenDo (orFail CncfInvalid (engineCall (ParseInput inputRaw (pb_registry b)))) (\<lambda>input.
            (case requestedTransition inputRaw (pj_Component identity) of
               None \<Rightarrow> Inl CncfInvalid
             | Some (from, to) \<Rightarrow>
                 thenDo (orFail CncfIntegrity (communityRuleSetSelected b project from to requestedRuleID)) (\<lambda>(rules, selected, selectedRuleID).
                 thenDo (orFail CncfInvalid (engineCall (Evaluate input rules now))) (\<lambda>result.
                   Inr (projectReportFor b project requestedRuleID selectedRuleID selected inputRaw result))))))"

definition checkWithBundle :: "communityBundle \<Rightarrow> string \<Rightarrow> string \<Rightarrow> goTime \<Rightarrow> projectReport cncfResult" where
  "checkWithBundle b project inputRaw now = checkWithBundleRule b project inputRaw now []"

definition projectCheck :: "communityFiles \<Rightarrow> string \<Rightarrow> string \<Rightarrow> goTime \<Rightarrow> projectReport cncfResult" where
  "projectCheck files project inputRaw now = thenDo (communityLoad files) (\<lambda>b. checkWithBundle b project inputRaw now)"

definition validateProjectInput :: "communityFiles \<Rightarrow> string \<Rightarrow> string \<Rightarrow> unit cncfResult" where
  "validateProjectInput files project inputRaw =
     thenDo (communityLoad files) (\<lambda>b. refuseIf (map_of (pb_identities b) project = None) CncfInvalid
       (thenDo (orFail CncfInvalid (engineCall (ParseInput inputRaw (pb_registry b)))) (\<lambda>_. Inr ())))"

definition routedRule :: "string \<Rightarrow> string \<Rightarrow> bool" where
  "routedRule project requestedRuleID \<longleftrightarrow>
     \<not> (project \<noteq> ''loki'' \<and> project \<noteq> ''mariadb-operator'' \<or>
        project = ''loki'' \<and> requestedRuleID \<noteq> lokiCompactorRuleID \<and> requestedRuleID \<noteq> lokiStructuredMetadataRuleID \<or>
        project = ''mariadb-operator'' \<and> requestedRuleID \<noteq> ''mariadb-operator.upgrade-26-6.requires-dataplane-prerequisite'')"

fun knownRule :: "string \<Rightarrow> Entry list \<Rightarrow> bool cncfResult" where
  "knownRule requestedRuleID [] = Inr False"
| "knownRule requestedRuleID (e # es) =
     (case unmarshal decRuleBinding (en_Rule e) of
        None \<Rightarrow> Inl CncfIntegrity
      | Some binding \<Rightarrow> if bi_ID binding = requestedRuleID then Inr True else knownRule requestedRuleID es)"

definition projectCheckRule :: "communityFiles \<Rightarrow> string \<Rightarrow> string \<Rightarrow> goTime \<Rightarrow> string \<Rightarrow> projectReport cncfResult" where
  "projectCheckRule files project inputRaw now requestedRuleID =
     refuseIf (\<not> routedRule project requestedRuleID) CncfInvalid
       (thenDo (communityLoad files) (\<lambda>b.
        thenDo (knownRule requestedRuleID (communityEntries b)) (\<lambda>known.
          refuseIf (\<not> known) CncfInvalid (checkWithBundleRule b project inputRaw now requestedRuleID))))"

section \<open>Publication and the exit code\<close>

definition MarshalProjectReport :: "projectReport \<Rightarrow> string cncfResult" where
  "MarshalProjectReport report =
     refuseIf (\<not> px_seal report \<or> px_Schema report \<noteq> projectCheckSchema \<or> px_Assessment report \<noteq> ''UNKNOWN'' \<or>
               px_KnowledgeOrigin report \<noteq> ''embedded_only'' \<or> px_NetworkUsed report \<or> px_RuntimeReproduced report \<noteq> 0) CncfIntegrity
     (refuseIf (px_RequestedRuleID report = [] \<and> px_SelectedRuleID report \<noteq> [] \<or>
                px_RequestedRuleID report \<noteq> [] \<and> px_SelectedRuleID report \<noteq> [] \<and> px_RequestedRuleID report \<noteq> px_SelectedRuleID report) CncfIntegrity
     (thenDo (orFail CncfIntegrity (engineCall (MarshalReport (px_Check report)))) (\<lambda>_.
      refuseIf (cncfDigest (projectReportBytes report) \<noteq> px_digest report) CncfIntegrity (Inr (projectReportBytes report)))))"

definition projectClaimExit :: "projectReport \<Rightarrow> nat" where
  "projectClaimExit report =
     (case MarshalProjectReport report of
        Inl _ \<Rightarrow> 3
      | Inr _ \<Rightarrow> if rp_Claims (px_Check report) = [] then 11 else claimCode False (rp_Claims (px_Check report)))"

section \<open>Listings\<close>

record communityRuleIdentity =
  pri_Project :: string
  pri_Component :: string
  pri_RuleID :: string
  pri_From :: string
  pri_To :: string
  pri_Range :: "VersionRange option"

definition communityTransition :: "communityRuleIdentity \<Rightarrow> RuleTransition" where
  "communityTransition r = \<lparr>rt_Component = pri_Component r, rt_From = pri_From r, rt_To = pri_To r, rt_Range = pri_Range r\<rparr>"

definition communityIdentityOf :: "Entry \<Rightarrow> communityRuleIdentity cncfResult" where
  "communityIdentityOf e =
     (case (RuleTransitionOf (en_Rule e), unmarshal decRuleBinding (en_Rule e)) of
        (Inr subject, Some binding) \<Rightarrow>
          refuseIf (bi_ID binding = [] \<or> rt_Component subject = [] \<or> rt_From subject = [] \<or> rt_To subject = []) CncfIntegrity
            (Inr \<lparr>pri_Project = en_Project e, pri_Component = rt_Component subject, pri_RuleID = bi_ID binding, pri_From = rt_From subject,
                  pri_To = rt_To subject, pri_Range = rt_Range subject\<rparr>)
      | _ \<Rightarrow> Inl CncfIntegrity)"

text \<open>
  Sorted by project and, within a project, by rule identifier. \<open>sort.Slice\<close> is not stable, but no two
  rules of a loaded bundle share both.
\<close>

definition communityIdentities :: "communityBundle \<Rightarrow> communityRuleIdentity list cncfResult" where
  "communityIdentities b =
     thenDo (collect communityIdentityOf (communityEntries b)) (\<lambda>result. Inr (sort_key pri_Project (sort_key pri_RuleID result)))"

definition CommunityRuleIdentities :: "communityFiles \<Rightarrow> communityRuleIdentity list cncfResult" where
  "CommunityRuleIdentities files = thenDo (communityLoad files) communityIdentities"

definition CommunityProjects :: "communityFiles \<Rightarrow> string list cncfResult" where
  "CommunityProjects files = thenDo (communityLoad files) (\<lambda>b. Inr (sort (map fst (pb_identities b))))"

definition ProjectComponent :: "communityFiles \<Rightarrow> string \<Rightarrow> string cncfResult" where
  "ProjectComponent files project =
     thenDo (communityLoad files) (\<lambda>b.
       (case map_of (pb_identities b) project of None \<Rightarrow> Inl CncfInvalid | Some identity \<Rightarrow> Inr (pj_Component identity)))"

section \<open>What a check returns\<close>

lemma projectCheck_form:
  "checkWithBundleRule b project inputRaw now ruleID = Inr report \<longleftrightarrow>
     (\<exists>identity input from to rules selected selectedRuleID result.
        map_of (pb_identities b) project = Some identity \<and> ParseInput inputRaw (pb_registry b) = Inr input \<and>
        requestedTransition inputRaw (pj_Component identity) = Some (from, to) \<and>
        communityRuleSetSelected b project from to ruleID = Inr (rules, selected, selectedRuleID) \<and>
        Evaluate input rules now = Inr result \<and>
        report = projectReportFor b project ruleID selectedRuleID selected inputRaw result)"
  by (auto simp: checkWithBundleRule_def split: option.splits)

lemma projectReportFor_sel [simp]:
  "px_Check (projectReportFor b project ruleID sel n inputRaw result) = result"
  "px_SelectedRuleID (projectReportFor b project ruleID sel n inputRaw result) = sel"
  "px_RequestedRuleID (projectReportFor b project ruleID sel n inputRaw result) = ruleID"
  by (simp_all add: projectReportFor_def Let_def)

lemma projectReportFor_published:
  assumes "MarshalReport result = Inr raw" and "sel = [] \<or> sel = ruleID \<and> ruleID \<noteq> []"
  shows "MarshalProjectReport (projectReportFor b project ruleID sel n inputRaw result) =
    Inr (projectReportBytes (projectReportFor b project ruleID sel n inputRaw result))"
  using assms by (auto simp: MarshalProjectReport_def projectReportFor_def Let_def projectReportBytes_def encProjectReport_def)

section \<open>The declared transition\<close>

lemma find_versions:
  "List.find (\<lambda>(c, _). c = k) (map (\<lambda>c. (ic_Component c, ic_Version c)) cs) =
     map_option (\<lambda>c. (ic_Component c, ic_Version c)) (List.find (\<lambda>c. ic_Component c = k) cs)"
  by (induction cs) auto

lemma requestedTransition_parsed:
  assumes "ParseInput inputRaw registry = Inr input"
  shows "requestedTransition inputRaw k = Some (from, to) \<longleftrightarrow>
    (\<exists>current proposed. findComponent (in_document input) ''current'' k = Some current \<and>
       findComponent (in_document input) ''proposed'' k = Some proposed \<and> from = ic_Version current \<and> to = ic_Version proposed)"
  unfolding requestedTransition_def decInputVersions_reads [OF assms] sideVersions_def option.case prod.case find_versions
  by (auto simp: findComponent_def sideOf_def split: option.splits)

lemma requestedTransition_nonempty:
  assumes "ParseInput inputRaw registry = Inr input" and "requestedTransition inputRaw k = Some (from, to)"
  shows "from \<noteq> []"
proof -
  obtain current where c: "findComponent (in_document input) ''current'' k = Some current" "from = ic_Version current"
    using requestedTransition_parsed [OF assms(1)] assms(2) by blast
  then have "current \<in> set (is_Components (id_Current (in_document input)))"
    by (auto simp: findComponent_def sideOf_def find_Some_iff)
  then have "validVersion from" using ParseInput_issued(1) [OF assms(1)] c(2) by (auto simp: wfInput_def wfSide_def wfComponent_def)
  then show ?thesis using parseVersion_Nil by (auto simp: validVersion_def)
qed

text \<open>The rules a check evaluates: those of the project whose subject matches the declared versions.\<close>

lemma projectSelection:
  assumes "wfCommunity b" and "map_of (pb_identities b) project = Some identity" and "ParseInput inputRaw (pb_registry b) = Inr input"
    and "requestedTransition inputRaw (pj_Component identity) = Some (from, to)"
  shows "filter (ruleWanted from to ruleID) (communityRules b project) =
    filter (\<lambda>r. subjectMatches (in_document input) r \<and> (ruleID = [] \<or> r_ID r = ruleID)) (communityRules b project)"
proof (rule filter_cong [OF refl])
  fix r assume "r \<in> set (communityRules b project)"
  then obtain e where e: "e \<in> set (communityEntries b)" "en_Project e = project" "ruleOf (en_Rule e) = Some r"
    by (auto simp: communityRules_def List.map_filter_def)
  then have "tr_Component (r_Subject r) = pj_Component identity" using assms(1,2) unfolding wfCommunity_def by force
  moreover obtain current proposed where "findComponent (in_document input) ''current'' (pj_Component identity) = Some current"
    "findComponent (in_document input) ''proposed'' (pj_Component identity) = Some proposed" "from = ic_Version current" "to = ic_Version proposed"
    using requestedTransition_parsed [OF assms(3)] assms(4) by blast
  ultimately show "ruleWanted from to ruleID r \<longleftrightarrow> subjectMatches (in_document input) r \<and> (ruleID = [] \<or> r_ID r = ruleID)"
    using requestedTransition_nonempty [OF assms(3,4)] by (auto simp: ruleWanted_def subjectMatches_def)
qed

lemma projectCheck_total:
  assumes "wfCommunity b" and "map_of (pb_identities b) project = Some identity" and "ParseInput inputRaw (pb_registry b) = Inr input"
    and "requestedTransition inputRaw (pj_Component identity) = Some (from, to)" and "validClock now"
  obtains rules result selected sel where
    "checkWithBundleRule b project inputRaw now ruleID = Inr (projectReportFor b project ruleID sel selected inputRaw result)"
    "Evaluate input rules now = Inr result" "MarshalReport result = Inr (jsonPrint (encReport result))"
    "issuedPair (pb_registry b) input rules" "rd_Corpus (rs_document rules) = None"
    "rd_Rules (rs_document rules) =
       filter (\<lambda>r. subjectMatches (in_document input) r \<and> (ruleID = [] \<or> r_ID r = ruleID)) (communityRules b project)"
    "sel = (if ruleID \<noteq> [] \<and> rd_Rules (rs_document rules) \<noteq> [] then ruleID else [])" "selected = length (rd_Rules (rs_document rules))"
proof -
  have p: "project \<in> fst ` set (pb_identities b)" using assms(2) by (force dest: map_of_SomeD)
  obtain rules raw where r: "communityRuleSetSelected b project from to ruleID =
       Inr (rules, length (rd_Rules (rs_document rules)), if ruleID \<noteq> [] \<and> rd_Rules (rs_document rules) \<noteq> [] then ruleID else [])"
    "rd_Rules (rs_document rules) = filter (ruleWanted from to ruleID) (communityRules b project)"
    "ParseRuleSet raw (pb_registry b) = Inr rules" "rd_Corpus (rs_document rules) = None"
    by (rule communitySelection_total [OF assms(1) p])
  have pair: "issuedPair (pb_registry b) input rules"
    using assms(1) ParseInput_issued [OF assms(3)] ParseRuleSet_issued [OF r(3)] by (simp add: issuedPair_def wfCommunity_def)
  obtain result where e: "Evaluate input rules now = Inr result" "MarshalReport result = Inr (jsonPrint (encReport result))"
    by (rule MarshalReport_issued [OF pair assms(5)])
  have "checkWithBundleRule b project inputRaw now ruleID = Inr (projectReportFor b project ruleID
      (if ruleID \<noteq> [] \<and> rd_Rules (rs_document rules) \<noteq> [] then ruleID else []) (length (rd_Rules (rs_document rules))) inputRaw result)"
    unfolding projectCheck_form using assms(2-4) r(1) e(1) by blast
  from that [OF this e pair r(4) r(2) [unfolded projectSelection [OF assms(1-4)]] refl refl] show ?thesis .
qed

text \<open>A report comes from an evaluation on a declared transition, so the totality lemma describes it.\<close>

lemma projectCheck_returned:
  assumes "wfCommunity b" and "checkWithBundleRule b project inputRaw now ruleID = Inr report"
  obtains identity input rules result selected sel where
    "map_of (pb_identities b) project = Some identity" "ParseInput inputRaw (pb_registry b) = Inr input"
    "report = projectReportFor b project ruleID sel selected inputRaw result"
    "Evaluate input rules now = Inr result" "MarshalReport result = Inr (jsonPrint (encReport result))"
    "issuedPair (pb_registry b) input rules" "rd_Corpus (rs_document rules) = None"
    "rd_Rules (rs_document rules) =
       filter (\<lambda>r. subjectMatches (in_document input) r \<and> (ruleID = [] \<or> r_ID r = ruleID)) (communityRules b project)"
    "sel = (if ruleID \<noteq> [] \<and> rd_Rules (rs_document rules) \<noteq> [] then ruleID else [])"
proof -
  obtain identity input "from" to rules result where f: "map_of (pb_identities b) project = Some identity"
    "ParseInput inputRaw (pb_registry b) = Inr input" "requestedTransition inputRaw (pj_Component identity) = Some (from, to)"
    "Evaluate input rules now = Inr result"
    using assms(2) unfolding projectCheck_form by blast
  obtain rules' result' selected sel where t:
    "checkWithBundleRule b project inputRaw now ruleID = Inr (projectReportFor b project ruleID sel selected inputRaw result')"
    "Evaluate input rules' now = Inr result'" "MarshalReport result' = Inr (jsonPrint (encReport result'))"
    "issuedPair (pb_registry b) input rules'" "rd_Corpus (rs_document rules') = None"
    "rd_Rules (rs_document rules') =
       filter (\<lambda>r. subjectMatches (in_document input) r \<and> (ruleID = [] \<or> r_ID r = ruleID)) (communityRules b project)"
    "sel = (if ruleID \<noteq> [] \<and> rd_Rules (rs_document rules') \<noteq> [] then ruleID else [])"
    by (rule projectCheck_total [OF assms(1) f(1-3) Evaluate_clock [OF f(4)]])
  have "report = projectReportFor b project ruleID sel selected inputRaw result'" using t(1) assms(2) by simp
  from that [OF f(1,2) this t(2-7)] show ?thesis .
qed

lemma projectCheck_published:
  assumes "wfCommunity b" and "checkWithBundleRule b project inputRaw now ruleID = Inr report"
  shows "MarshalProjectReport report = Inr (projectReportBytes report)"
  by (rule projectCheck_returned [OF assms]) (auto intro!: projectReportFor_published)

end
