(* ===== verification/ProjectCorpus.thy ===== *)
theory ProjectCorpus
  imports ProjectCheck
begin

text \<open>
  \<open>projectcheck/corpus.go\<close>: the whole community pack as one rule document, the maintainer's attestation
  over it, and the scope-completeness assessment against the attested corpus.

  Attestations, inventories and the declared scope have the shapes of \<open>cncfcheck/corpus.go\<close>, whose
  records and readers are used. Unlike there, \<open>load\<close> parses the rules of one project at a time, in the
  order (project, identifier), so the whole document is assembled here for the first time and its
  rules are sorted again.

  Shown here: the assembled rules are a permutation of the pack (\<open>communityOrdered_perm\<close>), whatever was
  accepted holds exactly the rules of the pack (\<open>communityWhole_rules\<close>), what an accepted attestation
  is bound to (\<open>communityAttested_bound\<close>) and that a returned assessment is published
  (\<open>communityAssess_published\<close>).
\<close>

section \<open>Documents\<close>

definition CommunityAttestationSchema :: string where
  "CommunityAttestationSchema = ''prufyx.io/community-project-corpus-attestation/v1alpha1''"
definition CommunityScopeSchema :: string where
  "CommunityScopeSchema = ''prufyx.io/community-project-scope-assessment/v1alpha1''"

definition CommunityAttestationLimitations :: "string list" where
  "CommunityAttestationLimitations =
     [''this attestation states only that every reviewed rule the maintainer holds for each listed component is present in this pack at this revision; it authors no compatibility claim and changes none'',
      ''it is not a statement that the listed upstream projects have no other incompatibilities, only that this corpus is not silently missing a rule the maintainer already reviewed'',
      ''components absent from this list are outside the attestation; a scope naming one can never reach a completeness verdict'']"

definition CommunityScopeLimitations :: "string list" where
  "CommunityScopeLimitations =
     [''the aggregate covers only the declared component scope; it is never SAFE and is not a whole-upgrade verdict'',
      ''the declared scope was validated against the caller'' @ CHR 0x27 # ''s own declared bundle and against compiled project identities; it was NOT cross-checked against observed cluster state'',
      ''completeness rests on the maintainer'' @ CHR 0x27 # ''s corpus attestation for the listed components at this pack revision; absence of evidence is reported as UNKNOWN, never as a pass'']"

section \<open>The unfiltered corpus\<close>

definition communityComponent :: "Entry \<Rightarrow> string cncfResult" where
  "communityComponent e =
     (case unmarshal decRuleBinding (en_Rule e) of
        None \<Rightarrow> Inl CncfIntegrity
      | Some binding \<Rightarrow> if tr_Component (bi_Subject binding) = [] then Inl CncfIntegrity else Inr (tr_Component (bi_Subject binding)))"

definition communityComponents :: "communityBundle \<Rightarrow> string list cncfResult" where
  "communityComponents b =
     thenDo (collect communityComponent (communityEntries b)) (\<lambda>seen.
       refuseIf (seen = []) CncfIntegrity (Inr (sort (remdups seen))))"

definition communityItem :: "Entry \<Rightarrow> (string \<times> string) cncfResult" where
  "communityItem e =
     (case unmarshal decRuleBinding (en_Rule e) of
        None \<Rightarrow> Inl CncfIntegrity
      | Some binding \<Rightarrow> if bi_ID binding = [] then Inl CncfIntegrity else Inr (bi_ID binding, en_Rule e))"

definition communityOrdered :: "communityBundle \<Rightarrow> string list cncfResult" where
  "communityOrdered b =
     thenDo (collect communityItem (communityEntries b)) (\<lambda>items.
       (let ordered = sort_key fst items in
        refuseIf (adjacentEqual (map fst ordered)) CncfIntegrity (Inr (map snd ordered))))"

definition communityWholeDocument :: "communityBundle \<Rightarrow> string list \<Rightarrow> string cncfResult" where
  "communityWholeDocument b corpus = thenDo (communityOrdered b) (\<lambda>rules. communityDocumentBytes (pb_pack b) rules corpus)"

definition communityWhole :: "communityBundle \<Rightarrow> string list \<Rightarrow> RuleSet cncfResult" where
  "communityWhole b corpus =
     thenDo (communityWholeDocument b corpus) (\<lambda>raw. orFail CncfIntegrity (engineCall (ParseRuleSet raw (pb_registry b))))"

definition communityWholeDigest :: "communityBundle \<Rightarrow> string cncfResult" where
  "communityWholeDigest b =
     thenDo (communityWhole b []) (\<lambda>parsed. orFail CncfIntegrity (engineCall (ruleSetDigest parsed)))"

definition communityInventory :: "communityBundle \<Rightarrow> CorpusInventory cncfResult" where
  "communityInventory b =
     thenDo (communityComponents b) (\<lambda>components.
     thenDo (communityWholeDigest b) (\<lambda>digest.
       Inr \<lparr>inv_Revision = pp_Revision (pb_pack b), inv_PackDigest = pb_packDigest b, inv_RuleSetDigest = digest,
            inv_RuleCount = int (length (communityEntries b)), inv_Components = components\<rparr>))"

definition CommunityUnfilteredCorpus :: "communityFiles \<Rightarrow> CorpusInventory cncfResult" where
  "CommunityUnfilteredCorpus files = thenDo (communityLoad files) communityInventory"

section \<open>Attestations\<close>

definition validCommunityAttestation :: "Attestation \<Rightarrow> bool" where
  "validCommunityAttestation a =
     (at_Schema a = CommunityAttestationSchema \<and> at_Attestation a = CorpusAttestation \<and> at_Revision a \<noteq> [] \<and>
      digestPattern (at_PackDigest a) \<and> digestPattern (at_RuleSetDigest a) \<and> 1 \<le> at_RuleCount a \<and>
      at_Components a \<noteq> [] \<and> allAdj (\<lambda>p c. c \<noteq> [] \<and> \<not> outOfOrder id p c) None (at_Components a) \<and>
      length (at_Limitations a) = length CommunityAttestationLimitations \<and>
      list_all (\<lambda>i. at_Limitations a ! i = CommunityAttestationLimitations ! i) [0..<length CommunityAttestationLimitations])"

definition ParseCommunityAttestation :: "string \<Rightarrow> Attestation cncfResult" where
  "ParseCommunityAttestation raw =
     (case strictPrefix (decAttestation \<circ> rawTree) raw of
        None \<Rightarrow> Inl CncfInvalid
      | Some a \<Rightarrow> refuseIf (\<not> validCommunityAttestation a) CncfInvalid (Inr a))"

definition communityAttestationOf :: "CorpusInventory \<Rightarrow> Attestation" where
  "communityAttestationOf inventory =
     \<lparr>at_Schema = CommunityAttestationSchema, at_Attestation = CorpusAttestation, at_Revision = inv_Revision inventory,
      at_PackDigest = inv_PackDigest inventory, at_RuleSetDigest = inv_RuleSetDigest inventory,
      at_RuleCount = inv_RuleCount inventory, at_Components = inv_Components inventory, at_Limitations = CommunityAttestationLimitations\<rparr>"

definition BuildCommunityAttestation :: "communityFiles \<Rightarrow> Attestation cncfResult" where
  "BuildCommunityAttestation files = thenDo (CommunityUnfilteredCorpus files) (\<lambda>inventory. Inr (communityAttestationOf inventory))"

definition communityAttested :: "communityBundle \<Rightarrow> string \<Rightarrow> (RuleSet \<times> Attestation) cncfResult" where
  "communityAttested b attestationRaw =
     thenDo (orFail CncfIntegrity (ParseCommunityAttestation attestationRaw)) (\<lambda>a.
     refuseIf (at_Revision a \<noteq> pp_Revision (pb_pack b) \<or> at_PackDigest a \<noteq> pb_packDigest b \<or>
               at_RuleCount a \<noteq> int (length (communityEntries b))) CncfIntegrity
     (thenDo (orFail CncfIntegrity (communityWholeDigest b)) (\<lambda>digest.
      refuseIf (digest \<noteq> at_RuleSetDigest a) CncfIntegrity
     (thenDo (orFail CncfIntegrity (communityComponents b)) (\<lambda>present.
      refuseIf (\<not> list_all (\<lambda>c. c \<in> set present) (at_Components a)) CncfIntegrity
     (thenDo (orFail CncfIntegrity (communityWhole b (at_Components a))) (\<lambda>parsed. Inr (parsed, a))))))))"

section \<open>Scope reports\<close>

record communityScopeReport =
  ps_Schema :: string
  ps_Assessment :: string
  ps_KnowledgeOrigin :: string
  ps_KnowledgeRevision :: string
  ps_KnowledgePackDigest :: string
  ps_ProjectRegistryDigest :: string
  ps_CorpusRuleSetDigest :: string
  ps_CorpusRuleCount :: int
  ps_AttestedComponents :: "string list"
  ps_ScopeComponents :: "string list"
  ps_InputFileDigest :: string
  ps_SourceAuthority :: string
  ps_RuntimeReproduced :: int
  ps_NetworkUsed :: bool
  ps_NextAction :: string
  ps_Limitations :: "string list"
  ps_Check :: Report
  ps_seal :: bool
  ps_digest :: string

definition encCommunityScope :: "communityScopeReport \<Rightarrow> json" where
  "encCommunityScope r =
     JObj [(''schema'', JStr (ps_Schema r)), (''assessment'', JStr (ps_Assessment r)),
           (''knowledgeOrigin'', JStr (ps_KnowledgeOrigin r)), (''knowledgeRevision'', JStr (ps_KnowledgeRevision r)),
           (''knowledgePackDigest'', JStr (ps_KnowledgePackDigest r)), (''projectRegistryDigest'', JStr (ps_ProjectRegistryDigest r)),
           (''corpusRuleSetDigest'', JStr (ps_CorpusRuleSetDigest r)), (''corpusRuleCount'', encInt (ps_CorpusRuleCount r)),
           (''attestedComponents'', encNilSlice JStr (ps_AttestedComponents r)),
           (''scopeComponents'', encNilSlice JStr (ps_ScopeComponents r)), (''inputFileDigest'', JStr (ps_InputFileDigest r)),
           (''sourceAuthority'', JStr (ps_SourceAuthority r)), (''runtimeReproduced'', encInt (ps_RuntimeReproduced r)),
           (''networkUsed'', JBool (ps_NetworkUsed r)), (''nextAction'', JStr (ps_NextAction r)),
           (''limitations'', encNilSlice JStr (ps_Limitations r)), (''check'', encReport (ps_Check r))]"

definition communityScopeBytes :: "communityScopeReport \<Rightarrow> string" where
  "communityScopeBytes report = jsonPrint (encCommunityScope report)"

definition communityScopeReportFor :: "communityBundle \<Rightarrow> Attestation \<Rightarrow> string list \<Rightarrow> string \<Rightarrow> Report \<Rightarrow> communityScopeReport" where
  "communityScopeReportFor b a declared inputRaw result =
     (let report = \<lparr>ps_Schema = CommunityScopeSchema, ps_Assessment = rp_Assessment result, ps_KnowledgeOrigin = ''embedded_only'',
            ps_KnowledgeRevision = pp_Revision (pb_pack b), ps_KnowledgePackDigest = pb_packDigest b,
            ps_ProjectRegistryDigest = pb_registryDigest b, ps_CorpusRuleSetDigest = at_RuleSetDigest a,
            ps_CorpusRuleCount = at_RuleCount a, ps_AttestedComponents = at_Components a, ps_ScopeComponents = declared,
            ps_InputFileDigest = cncfDigest inputRaw, ps_SourceAuthority = projectAuthority, ps_RuntimeReproduced = 0,
            ps_NetworkUsed = False,
            ps_NextAction = (if rp_Assessment result = AssessmentUnknown then nextUnresolved else nextEnumerated),
            ps_Limitations = CommunityScopeLimitations, ps_Check = result, ps_seal = True, ps_digest = []\<rparr>
      in report\<lparr>ps_digest := cncfDigest (communityScopeBytes report)\<rparr>)"

definition communityAssessWith :: "communityBundle \<Rightarrow> string \<Rightarrow> string \<Rightarrow> goTime \<Rightarrow> communityScopeReport cncfResult" where
  "communityAssessWith b attestationRaw inputRaw now =
     thenDo (orFail CncfIntegrity (communityAttested b attestationRaw)) (\<lambda>(rules, a).
       (case declaredScope inputRaw of
          None \<Rightarrow> Inl CncfInvalid
        | Some declared \<Rightarrow>
            refuseIf (declared = [] \<or> \<not> list_all (\<lambda>c. c \<in> set (map (pj_Component \<circ> snd) (pb_identities b))) declared) CncfInvalid
            (thenDo (orFail CncfInvalid (engineCall (ParseInput inputRaw (pb_registry b)))) (\<lambda>input.
             thenDo (orFail CncfInvalid (engineCall (Evaluate input rules now))) (\<lambda>result.
             thenDo (orFail CncfIntegrity (engineCall (MarshalReport result))) (\<lambda>_.
               Inr (communityScopeReportFor b a declared inputRaw result)))))))"

definition CommunityAssessScope :: "communityFiles \<Rightarrow> string \<Rightarrow> goTime \<Rightarrow> communityScopeReport cncfResult" where
  "CommunityAssessScope files inputRaw now =
     thenDo (communityLoad files) (\<lambda>b.
       (case cf_attestation files of
          None \<Rightarrow> Inl CncfIntegrity
        | Some attestationRaw \<Rightarrow> communityAssessWith b attestationRaw inputRaw now))"

definition MarshalCommunityScope :: "communityScopeReport \<Rightarrow> string cncfResult" where
  "MarshalCommunityScope report =
     refuseIf (\<not> ps_seal report \<or> ps_Schema report \<noteq> CommunityScopeSchema \<or> ps_KnowledgeOrigin report \<noteq> ''embedded_only'' \<or>
               ps_NetworkUsed report \<or> ps_RuntimeReproduced report \<noteq> 0) CncfIntegrity
     (refuseIf (ps_Assessment report \<notin> set [AssessmentUnknown, AssessmentBlocked, AssessmentScopeCompletePass]) CncfIntegrity
     (refuseIf (ps_Assessment report \<noteq> rp_Assessment (ps_Check report)) CncfIntegrity
     (thenDo (orFail CncfIntegrity (engineCall (MarshalReport (ps_Check report)))) (\<lambda>_.
      refuseIf (cncfDigest (communityScopeBytes report) \<noteq> ps_digest report) CncfIntegrity (Inr (communityScopeBytes report))))))"

section \<open>What the corpus holds\<close>

definition wholeRules :: "communityBundle \<Rightarrow> rule list" where
  "wholeRules b = List.map_filter (ruleOf \<circ> en_Rule) (communityEntries b)"

lemma communityOrdered_perm:
  assumes "communityOrdered b = Inr raws"
  shows "mset raws = mset (map en_Rule (communityEntries b))" and "[] \<notin> set raws"
proof -
  obtain items where i: "map communityItem (communityEntries b) = map Inr items" "raws = map snd (sort_key fst items)"
    using assms by (auto simp: communityOrdered_def collect_iff Let_def)
  have raw: "communityItem e = Inr x \<Longrightarrow> snd x = en_Rule e \<and> en_Rule e \<noteq> []" for e x
    by (auto simp: communityItem_def split: option.splits if_splits dest: unmarshal_nonempty)
  then have all: "list_all2 (\<lambda>e x. snd x = en_Rule e \<and> en_Rule e \<noteq> []) (communityEntries b) items"
    unfolding list_all2_conv_all_nth using arg_cong [OF i(1), of length] nth_map [of _ "communityEntries b" communityItem]
      nth_map [of _ items Inr] i(1) by (metis (no_types, lifting) length_map)
  have "map snd items = map en_Rule (communityEntries b) \<and> [] \<notin> set (map en_Rule (communityEntries b))"
    using all by (induction rule: list_all2_induct) auto
  then have "map snd items = map en_Rule (communityEntries b)" "[] \<notin> set (map en_Rule (communityEntries b))" by blast+
  moreover have "mset raws = mset (map snd items)" by (simp add: i(2))
  ultimately show perm: "mset raws = mset (map en_Rule (communityEntries b))" by simp
  show "[] \<notin> set raws" unfolding mset_eq_setD [OF perm] by fact
qed

lemma communityWhole_rules:
  assumes "wfCommunity b" and "communityWhole b corpus = Inr rs"
  shows "mset (rd_Rules (rs_document rs)) = mset (wholeRules b)"
    and "rd_Corpus (rs_document rs) = (if corpus = [] then None
      else Some \<lparr>co_Completeness = CorpusAttestation, co_Components = map utf8Coerce corpus\<rparr>)"
    and "\<exists>raw. ParseRuleSet raw (pb_registry b) = Inr rs"
proof -
  obtain raws raw where r: "communityOrdered b = Inr raws" "communityDocumentBytes (pb_pack b) raws corpus = Inr raw"
    "ParseRuleSet raw (pb_registry b) = Inr rs"
    using assms(2) by (auto simp: communityWhole_def communityWholeDocument_def)
  note p = communityDocument_parsed [OF r(2,3) communityOrdered_perm(2) [OF r(1)]]
  have "\<exists>r. ruleOf (en_Rule e) = Some r" if e: "e \<in> set (communityEntries b)" for e
  proof -
    have "\<exists>identity. map_of (pb_identities b) (en_Project e) = Some identity" using assms(1) e unfolding wfCommunity_def by blast
    then have "en_Project e \<in> fst ` set (pb_identities b)" by (force dest: map_of_SomeD)
    from wfCommunity_rules(1) [OF assms(1) this] e show ?thesis by blast
  qed
  then have "\<forall>e\<in>set (communityEntries b). \<exists>r. ruleOf (en_Rule e) = Some r" by blast
  then have "map (ruleOf \<circ> en_Rule) (communityEntries b) = map Some (wholeRules b)"
    unfolding wholeRules_def by (induction "communityEntries b") (auto simp: List.map_filter_def)
  then have "image_mset ruleOf (mset (map en_Rule (communityEntries b))) = image_mset Some (mset (wholeRules b))"
    by (simp flip: mset_map)
  then have "image_mset Some (mset (rd_Rules (rs_document rs))) = image_mset Some (mset (wholeRules b))"
    unfolding communityOrdered_perm(1) [OF r(1), symmetric] using p(1) by (simp flip: mset_map)
  then have "image_mset the (image_mset Some (mset (rd_Rules (rs_document rs)))) = image_mset the (image_mset Some (mset (wholeRules b)))"
    by (rule arg_cong)
  then show "mset (rd_Rules (rs_document rs)) = mset (wholeRules b)" by (simp add: multiset.map_comp comp_def)
  show "rd_Corpus (rs_document rs) = (if corpus = [] then None
      else Some \<lparr>co_Completeness = CorpusAttestation, co_Components = map utf8Coerce corpus\<rparr>)" by (rule p(3))
  show "\<exists>raw. ParseRuleSet raw (pb_registry b) = Inr rs" using r(3) by blast
qed

section \<open>What an attestation binds\<close>

lemma communityAttested_bound:
  assumes "communityAttested b raw = Inr (rules, a)"
  shows "validCommunityAttestation a" and "at_Revision a = pp_Revision (pb_pack b)" and "at_PackDigest a = pb_packDigest b"
    and "at_RuleCount a = int (length (communityEntries b))" and "communityWholeDigest b = Inr (at_RuleSetDigest a)"
    and "communityWhole b (at_Components a) = Inr rules"
    and "\<exists>present. communityComponents b = Inr present \<and> set (at_Components a) \<subseteq> set present"
  using assms by (auto simp: communityAttested_def ParseCommunityAttestation_def list_all_iff split: option.splits)

lemma communityComponents_set:
  assumes "wfCommunity b" and "communityComponents b = Inr present" and "component \<in> set present"
  obtains r where "r \<in> set (wholeRules b)" "tr_Component (r_Subject r) = component"
proof -
  obtain seen where s: "map communityComponent (communityEntries b) = map Inr seen" "present = sort (remdups seen)"
    using assms(2) by (auto simp: communityComponents_def collect_iff)
  then have "Inr component \<in> set (map communityComponent (communityEntries b))" using assms(3) by simp
  then obtain e where e: "e \<in> set (communityEntries b)" "communityComponent e = Inr component" by auto
  obtain identity where "map_of (pb_identities b) (en_Project e) = Some identity" using assms(1) e(1) unfolding wfCommunity_def by blast
  then have "en_Project e \<in> fst ` set (pb_identities b)" by (force dest: map_of_SomeD)
  from wfCommunity_rules(1) [OF assms(1) this] e(1) obtain r where r: "ruleOf (en_Rule e) = Some r" by blast
  have "tr_Component (r_Subject r) = component"
    using e(2) ruleOf_binding [OF r] by (simp add: communityComponent_def bindingOf_def split: if_splits)
  moreover have "r \<in> set (wholeRules b)" using e(1) r by (force simp: wholeRules_def List.map_filter_def)
  ultimately show ?thesis using that by blast
qed

section \<open>What an assessment means\<close>

lemma communityAssess_form:
  "communityAssessWith b attestationRaw inputRaw now = Inr report \<longleftrightarrow>
     (\<exists>rules a declared input result raw. communityAttested b attestationRaw = Inr (rules, a) \<and>
        declaredScope inputRaw = Some declared \<and> declared \<noteq> [] \<and> set declared \<subseteq> pj_Component ` snd ` set (pb_identities b) \<and>
        ParseInput inputRaw (pb_registry b) = Inr input \<and> Evaluate input rules now = Inr result \<and>
        MarshalReport result = Inr raw \<and> report = communityScopeReportFor b a declared inputRaw result)"
  by (auto simp: communityAssessWith_def list_all_iff image_comp split: option.splits)

lemma communityScopeReportFor_published:
  assumes "MarshalReport result = Inr raw"
  shows "MarshalCommunityScope (communityScopeReportFor b a declared inputRaw result) =
    Inr (communityScopeBytes (communityScopeReportFor b a declared inputRaw result))"
proof -
  have "rp_Assessment result \<in> set [AssessmentUnknown, AssessmentBlocked, AssessmentScopeCompletePass]"
    using assms
    by (auto simp: MarshalReport_def legalAssessment_def deriveAssessment_iff blockAssessment_def Let_def
        split: if_splits option.splits sum.splits)
  then show ?thesis using assms
    by (simp add: MarshalCommunityScope_def communityScopeReportFor_def Let_def communityScopeBytes_def encCommunityScope_def)
qed

lemma communityAssess_published:
  "communityAssessWith b attestationRaw inputRaw now = Inr report \<Longrightarrow> MarshalCommunityScope report = Inr (communityScopeBytes report)"
  unfolding communityAssess_form using communityScopeReportFor_published by blast

lemma communityAssess_evaluated:
  assumes "wfCommunity b" and "communityAssessWith b attestationRaw inputRaw now = Inr report"
  obtains rules a input scope where
    "communityAttested b attestationRaw = Inr (rules, a)" "ParseInput inputRaw (pb_registry b) = Inr input"
    "id_Scope (in_document input) = Some scope" "isc_Components scope = ps_ScopeComponents report"
    "Evaluate input rules now = Inr (ps_Check report)" "ps_Assessment report = rp_Assessment (ps_Check report)"
    "issuedPair (pb_registry b) input rules" "validClock now" "ps_AttestedComponents report = at_Components a"
proof -
  obtain rules a declared input result where r: "communityAttested b attestationRaw = Inr (rules, a)"
    "declaredScope inputRaw = Some declared" "ParseInput inputRaw (pb_registry b) = Inr input"
    "Evaluate input rules now = Inr result" "report = communityScopeReportFor b a declared inputRaw result"
    using assms(2) unfolding communityAssess_form by blast
  obtain scope where s: "id_Scope (in_document input) = Some scope" "isc_Components scope = declared"
    using declaredScope_parsed [OF r(3,2)] by blast
  obtain raw where "ParseRuleSet raw (pb_registry b) = Inr rules"
    using communityWhole_rules(3) [OF assms(1) communityAttested_bound(6) [OF r(1)]] by blast
  then have pair: "issuedPair (pb_registry b) input rules"
    using assms(1) ParseInput_issued [OF r(3)] ParseRuleSet_issued by (simp add: issuedPair_def wfCommunity_def)
  show ?thesis using that [OF r(1,3) s(1) _ _ _ pair Evaluate_clock [OF r(4)]] r(4,5) s(2)
    by (simp add: communityScopeReportFor_def Let_def)
qed

end
