(* ===== verification/ProjectSamples.thy ===== *)
theory ProjectSamples
  imports ProjectCorpus CncfSamples
begin

text \<open>
  A community bundle of two projects with the three sample rules, and the attestation of its corpus:
  the concrete data on which the properties of the package are witnessed.
\<close>

section \<open>The bundle\<close>

definition communityProject :: "string \<Rightarrow> string \<Rightarrow> communityIdentity" where
  "communityProject slug component =
     \<lparr>pj_Slug = slug, pj_Name = slug, pj_RepositoryURL = ''https://github.com/'' @ slug, pj_Component = component,
      pj_IdentityAuthority = ''MAINTAINER_REVIEWED_EXTERNAL_REPOSITORY'', pj_CNCFMembership = ''NOT_ASSERTED''\<rparr>"

definition communityIstio :: communityIdentity where
  "communityIstio = communityProject ''istio'' ''pkg:github/istio/istio''"
definition communityNats :: communityIdentity where
  "communityNats = communityProject ''nats'' ''pkg:github/nats-io/nats-server''"

definition sampleCommunity :: communityBundle where
  "sampleCommunity =
     \<lparr>pb_registryDocument = \<lparr>pg_Schema = ''prufyx.io/community-project-registry/v1alpha1'', pg_Revision = ''1'',
        pg_Projects = [communityIstio, communityNats]\<rparr>,
      pb_pack = \<lparr>pp_Schema = communityPackSchemaRanged, pp_Revision = ''rev-1'', pp_PolicyID = ''policy'', pp_PolicyDigest = sampleDigest,
        pp_Entries = Some [sampleEntry ''istio'' samplePredicate, sampleEntry ''nats'' sampleDependency, sampleEntry ''nats'' sampleRanged]\<rparr>,
      pb_registry = sampleRegistry, pb_identities = [(''istio'', communityIstio), (''nats'', communityNats)],
      pb_packDigest = sampleDigest, pb_registryDigest = sampleDigest\<rparr>"

lemma sampleCommunity_entries:
  "communityEntries sampleCommunity = [sampleEntry ''istio'' samplePredicate, sampleEntry ''nats'' sampleDependency, sampleEntry ''nats'' sampleRanged]"
  by (simp add: sampleCommunity_def goSlice_def)

lemma sampleCommunity_sel [simp]:
  "pb_registry sampleCommunity = sampleRegistry" "pb_identities sampleCommunity = [(''istio'', communityIstio), (''nats'', communityNats)]"
  "pb_packDigest sampleCommunity = sampleDigest" "pp_Revision (pb_pack sampleCommunity) = ''rev-1''"
  "pj_Component communityIstio = ''pkg:github/istio/istio''" "pj_Component communityNats = ''pkg:github/nats-io/nats-server''"
  by (simp_all add: sampleCommunity_def communityIstio_def communityNats_def communityProject_def)

lemma sampleEntry_rule: "en_Rule (sampleEntry p r) = ruleText r" "en_Project (sampleEntry p r) = p"
  by (simp_all add: sampleEntry_def)

text \<open>Its documents are those of the sample bundle, whose entries are the same.\<close>

lemma sampleCommunity_document: "communityDocumentBytes (pb_pack sampleCommunity) rules corpus = ruleDocumentBytes sampleBundle rules corpus"
  by (simp add: communityDocumentBytes_def ruleDocumentBytes_def sampleCommunity_def sampleBundle_def samplePack_def
      split: sum.split option.split)

lemma sampleCommunity_whole: "packEntries sampleBundle = communityEntries sampleCommunity"
  by (simp add: sampleCommunity_entries) (simp add: sampleBundle_def samplePack_def goSlice_def)

lemma sampleCommunity_ruleOf: "\<forall>e\<in>set (communityEntries sampleCommunity). ruleOf (en_Rule e) \<noteq> None"
  by (simp add: sampleCommunity_entries sampleEntry_rule sampleRule_of)

lemma sampleCommunity_project: "\<exists>rules n. communityRuleSet sampleCommunity project [] [] = Inr (rules, n)"
proof -
  let ?es = "communityEntries sampleCommunity"
  obtain doc rs where d: "ruleDocumentBytes sampleBundle (map en_Rule ?es) [] = Inr doc" "ParseRuleSet doc sampleRegistry = Inr rs"
    using samplePack_whole
    by (auto simp: packRuleSet_def parseRules_def parseRulesCorpus_def sampleCommunity_whole split: option.splits)
  obtain doc' rs' where s: "ruleDocumentBytes sampleBundle (map en_Rule (filter (entryWanted project [] [] []) ?es)) [] = Inr doc'"
    "ParseRuleSet doc' sampleRegistry = Inr rs'"
    by (rule ruleDocument_selection [OF d sampleCommunity_ruleOf])
  have "\<forall>e\<in>set ?es. en_Project e = project \<longrightarrow> ruleOf (en_Rule e) \<noteq> None" using sampleCommunity_ruleOf by blast
  from communityLoop_spec [OF this, of "[]" "[]" "[]" "[]" "[]"] s show ?thesis
    by (simp add: communityRuleSet_def communityRuleSetSelected_def sampleCommunity_document Let_def thenDo_def engineCall_def)
qed

lemma sampleCommunity_wf: "wfCommunity sampleCommunity"
proof -
  have "wfRegistry sampleRegistry" by (rule newRegistry_wf [OF sampleRegistry_new])
  moreover have "''istio'' < ''nats''" by code_simp
  moreover have "map entryID (communityEntries sampleCommunity) = map Some [''istio-legacy'', ''nats-mesh'', ''nats-range'']"
    by (simp add: sampleCommunity_entries entryID_def sampleEntry_rule sampleRule_of [THEN ruleOf_binding] bindingOf_def
        samplePredicate_def [THEN arg_cong, of r_ID] sampleDependency_def [THEN arg_cong, of r_ID] sampleRanged_def [THEN arg_cong, of r_ID])
  moreover have "tr_Component (r_Subject samplePredicate) = ''pkg:github/istio/istio''" "tr_Component (r_Subject sampleDependency) = ''pkg:github/nats-io/nats-server''"
    "tr_Component (r_Subject sampleRanged) = ''pkg:github/nats-io/nats-server''" by (simp_all add: samplePredicate_def sampleDependency_def sampleRanged_def)
  ultimately show ?thesis using sampleCommunity_project
    by (simp add: wfCommunity_def sampleCommunity_entries sampleEntry_rule sampleRule_of)
qed

lemma sampleCommunity_rules: "communityRules sampleCommunity ''istio'' = [samplePredicate]"
  "wholeRules sampleCommunity = [samplePredicate, sampleDependency, sampleRanged]"
  by (simp_all add: communityRules_def wholeRules_def sampleCommunity_entries sampleEntry_rule sampleRule_of List.map_filter_def)

lemma sampleCommunity_input: "ParseInput (sampleInputText legacy) (pb_registry sampleCommunity) = Inr (sampleInput legacy)"
  by (simp add: sampleInput_parsed)

lemma sampleCommunity_transition:
  "requestedTransition (sampleInputText legacy) (pj_Component communityIstio) = Some (''1.20.3'', ''1.21.0'')"
  unfolding requestedTransition_parsed [OF sampleCommunity_input]
  by (simp add: findComponent_def sideOf_def sampleInput_def sampleInputDoc_def)

section \<open>The attestation of the corpus\<close>

lemma sampleCommunity_ordered: "communityOrdered sampleCommunity = Inr (map en_Rule (communityEntries sampleCommunity))"
proof -
  have "map communityItem (communityEntries sampleCommunity) = map Inr
      [(''istio-legacy'', ruleText samplePredicate), (''nats-mesh'', ruleText sampleDependency), (''nats-range'', ruleText sampleRanged)]"
    by (simp add: sampleCommunity_entries communityItem_def sampleEntry_rule sampleRule_of [THEN ruleOf_binding] bindingOf_def
        samplePredicate_def [THEN arg_cong, of r_ID] sampleDependency_def [THEN arg_cong, of r_ID] sampleRanged_def [THEN arg_cong, of r_ID])
  moreover have "''istio-legacy'' < ''nats-mesh''" "''nats-mesh'' < ''nats-range''" "''istio-legacy'' < ''nats-range''" by code_simp+
  ultimately show ?thesis
    by (simp add: communityOrdered_def collect_iff [THEN iffD2] sampleCommunity_entries sampleEntry_rule)
qed

lemma sampleCommunity_parse:
  "communityWhole sampleCommunity corpus = orFail CncfIntegrity (parseRulesCorpus sampleBundle (map en_Rule (packEntries sampleBundle)) corpus)"
proof -
  have "validateCNCFReviewWindows (map en_Rule (packEntries sampleBundle)) = None"
    unfolding samplePack_texts by (simp add: validateCNCFReviewWindows_def sampleRule_window)
  then show ?thesis
    by (simp add: communityWhole_def communityWholeDocument_def sampleCommunity_ordered sampleCommunity_document parseRulesCorpus_def
        sampleCommunity_whole [symmetric] samplePack_bytes)
qed

lemma sampleCommunity_attested:
  obtains a raw where "communityAttested sampleCommunity raw = Inr (sampleRules, a)" "at_Components a = sampleComponents"
proof -
  obtain whole where w: "packRuleSet sampleBundle [] = Inr whole" "ruleSetValid whole" using unfilteredRuleSetDigest_wf [OF sampleBundle_wf] by blast
  then have "communityWhole sampleCommunity [] = Inr whole" by (simp add: sampleCommunity_parse packRuleSet_def parseRules_def)
  then have digest: "communityWholeDigest sampleCommunity = Inr (rs_digest whole)" "digestRE (rs_digest whole)"
    using w(2) by (simp_all add: communityWholeDigest_def ruleSetDigest_def engineCall_def orFail_def) (simp add: ruleSetValid_def)
  let ?a = "communityAttestationOf \<lparr>inv_Revision = ''rev-1'', inv_PackDigest = sampleDigest, inv_RuleSetDigest = rs_digest whole,
    inv_RuleCount = 3, inv_Components = sampleComponents\<rparr>"
  have "digestPattern sampleDigest" "allAdj (\<lambda>p c. c \<noteq> [] \<and> \<not> outOfOrder id p c) None sampleComponents" by code_simp+
  then have v: "validCommunityAttestation ?a"
    using digest(2) by (simp add: validCommunityAttestation_def communityAttestationOf_def digestPattern_iff list_all_iff sampleComponents_def)
  have "list_all utf8Valid ([CommunityAttestationSchema, CorpusAttestation, ''rev-1'', sampleDigest] @ sampleComponents @ CommunityAttestationLimitations)"
    by code_simp
  then have "strictJSON (decAttestation \<circ> rawTree) (attestationText ?a) = Some ?a"
    using utf8Valid_ascii [OF digestRE_ascii [OF digest(2)]]
    by (intro attestationText_decodes) (auto simp: communityAttestationOf_def list_all_iff)
  then have "strictPrefix (decAttestation \<circ> rawTree) (attestationText ?a) = Some ?a"
    by (auto simp: strictJSON_def bind_eq_Some_conv strictPrefix_complete)
  moreover have "communityWhole sampleCommunity sampleComponents = Inr sampleRules"
    using samplePack_attested by (simp add: sampleCommunity_parse sampleComponents_def)
  moreover have "communityComponents sampleCommunity = Inr sampleComponents"
  proof -
    have "map communityComponent (communityEntries sampleCommunity) = map Inr (map (tr_Component \<circ> r_Subject) [samplePredicate, sampleDependency, sampleRanged])"
      using sampleRule_of [THEN ruleOf_binding]
      by (simp add: sampleCommunity_entries communityComponent_def sampleEntry_rule bindingOf_def)
         (simp add: samplePredicate_def sampleDependency_def sampleRanged_def)
    then have "collect communityComponent (communityEntries sampleCommunity) = Inr (map (tr_Component \<circ> r_Subject) [samplePredicate, sampleDependency, sampleRanged])"
      by (simp only: collect_iff)
    moreover have "sort (remdups (map (tr_Component \<circ> r_Subject) [samplePredicate, sampleDependency, sampleRanged])) = sampleComponents" by code_simp
    ultimately show ?thesis by (simp add: communityComponents_def)
  qed
  ultimately have "communityAttested sampleCommunity (attestationText ?a) = Inr (sampleRules, ?a)"
    using v digest(1)
    by (simp add: communityAttested_def ParseCommunityAttestation_def list_all_iff)
       (simp add: communityAttestationOf_def sampleCommunity_entries)
  with that show ?thesis by (simp add: communityAttestationOf_def)
qed

lemma sampleCommunity_assessed:
  obtains attestationRaw report where "communityAssessWith sampleCommunity attestationRaw (sampleInputText False) sampleNow = Inr report"
    "ps_Assessment report = AssessmentScopeCompletePass"
proof -
  obtain a raw where a: "communityAttested sampleCommunity raw = Inr (sampleRules, a)" by (rule sampleCommunity_attested)
  obtain result where r: "Evaluate (sampleInput False) sampleRules sampleNow = Inr result" "MarshalReport result = Inr (jsonPrint (encReport result))"
    by (rule MarshalReport_issued [OF sample_issued sampleNow_valid])
  have "communityAssessWith sampleCommunity raw (sampleInputText False) sampleNow =
      Inr (communityScopeReportFor sampleCommunity a sampleComponents (sampleInputText False) result)"
    unfolding communityAssess_form using a r sampleScope_declared sampleCommunity_input by (auto simp: sampleComponents_def)
  moreover have "ps_Assessment (communityScopeReportFor sampleCommunity a sampleComponents (sampleInputText False) result) = AssessmentScopeCompletePass"
    using samplePass [OF r(1)] by (simp add: communityScopeReportFor_def)
  ultimately show ?thesis by (rule that)
qed

end
