(* ===== verification/ProjectProperties.thy ===== *)
theory ProjectProperties
  imports ProjectSamples CncfProperties
begin

text \<open>
  The properties of the package \<open>projectcheck\<close>: the check of one community project and the scope
  assessment against the whole attested community pack.
\<close>

section \<open>The check of one project\<close>

text \<open>
  C36. On a loaded community bundle the check of a listed project returns a publishable report for every
  admitted input that declares the project's component on both sides, at every admissible clock. The
  report has exactly one claim per rule of the project whose reviewed transition matches the declared
  versions and, when a rule is requested, whose identifier is the requested one, in the order of the
  pack and with the status the engine's specification gives. Where none matches there is no claim,
  never that of another rule, and the requested rule is recorded as selected only if it was evaluated.
\<close>

theorem project_check_exact:
  assumes "wfCommunity b" and "map_of (pb_identities b) project = Some identity"
    and "ParseInput inputRaw (pb_registry b) = Inr input"
    and "requestedTransition inputRaw (pj_Component identity) = Some (declaredFrom, declaredTo)"
    and "\<not> timeIsZero now" and "t_utc now" and "t_nsec now = 0"
  shows "\<exists>report. checkWithBundleRule b project inputRaw now ruleID = Inr report \<and>
    MarshalProjectReport report = Inr (projectReportBytes report) \<and>
    verdicts (px_Check report) = expectedVerdicts (in_document input) now
      (filter (\<lambda>r. subjectMatches (in_document input) r \<and> (ruleID = [] \<or> r_ID r = ruleID)) (communityRules b project)) \<and>
    px_SelectedRuleID report = (if ruleID \<noteq> [] \<and> rp_Claims (px_Check report) \<noteq> [] then ruleID else [])"
proof -
  have "validClock now" using assms(5-7) by (simp add: validClock_def)
  then obtain rules result selected sel where t:
    "checkWithBundleRule b project inputRaw now ruleID = Inr (projectReportFor b project ruleID sel selected inputRaw result)"
    "Evaluate input rules now = Inr result" "issuedPair (pb_registry b) input rules"
    "rd_Rules (rs_document rules) =
       filter (\<lambda>r. subjectMatches (in_document input) r \<and> (ruleID = [] \<or> r_ID r = ruleID)) (communityRules b project)"
    "sel = (if ruleID \<noteq> [] \<and> rd_Rules (rs_document rules) \<noteq> [] then ruleID else [])"
    by (rule projectCheck_total [OF assms(1-4)])
  have v: "verdicts result = expectedVerdicts (in_document input) now (rd_Rules (rs_document rules))"
    by (rule Evaluate_verdicts [OF t(3,2)])
  then have "rp_Claims result \<noteq> [] \<longleftrightarrow> rd_Rules (rs_document rules) \<noteq> []"
    by (auto simp: verdicts_def expectedVerdicts_def dest: arg_cong [of _ _ length])
  then show ?thesis using t(1,4,5) v projectCheck_published [OF assms(1) t(1)] by auto
qed

theorem project_check_exact_witness:
  "\<exists>report. checkWithBundleRule sampleCommunity ''istio'' (sampleInputText True) sampleNow [] = Inr report \<and>
    verdicts (px_Check report) = [(''istio-legacy'', ''BLOCKED'')]"
proof -
  have id: "map_of (pb_identities sampleCommunity) ''istio'' = Some communityIstio" by simp
  have now: "\<not> timeIsZero sampleNow" "t_utc sampleNow" "t_nsec sampleNow = 0" using sampleNow_valid by (simp_all add: validClock_def)
  have "subjectMatches (sampleInputDoc True) samplePredicate" "expectedStatus (sampleInputDoc True) samplePredicate sampleNow = ''BLOCKED''"
    "r_ID samplePredicate = ''istio-legacy''"
    by (simp add: subjectMatches_def findComponent_def sideOf_def sampleInputDoc_def samplePredicate_def; code_simp)
       (code_simp, simp add: samplePredicate_def)
  then show ?thesis
    using project_check_exact [OF sampleCommunity_wf id sampleCommunity_input sampleCommunity_transition now, of True "[]"]
    by (auto simp: sampleCommunity_rules expectedVerdicts_def sampleInput_def)
qed

section \<open>The attested community pack\<close>




end
