(* ===== verification/Spec2Isabelle.thy ===== *)
theory Spec2Isabelle
  imports CncfProperties ValidationProperties EventProperties ProjectProperties
begin

text \<open>
  Prufyx is a command-line tool that judges a declared upgrade of cluster components against reviewed
  rules. This development models its constraint engine (\<open>cli/internal/constraintengine\<close>), the package
  that serves the embedded and external CNCF knowledge (\<open>cli/internal/cncfcheck\<close>), its sibling for
  reviewed community projects (\<open>cli/internal/projectcheck\<close>), the decisions, candidate reports and policy references of \<open>cli/internal/validation\<close>, and the check of CloudEvents
  texts (\<open>cli/internal/cloudeventsstructuredjson\<close>).

  \<^bold>\<open>How the parts interact.\<close> \<open>cncfcheck\<close> reads three packaged files (landscape, priorities, rule pack),
  checks them and builds a fact registry. For a command it selects raw rules from the pack, marshals
  them into a rule document and hands document and operator input to the engine as bytes. The engine
  gates the JSON, checks shapes, decodes strictly, validates, and issues sealed values; \<open>Evaluate\<close>
  yields one claim per rule and, when the input declares a scope and the document attests a corpus,
  an aggregate; \<open>MarshalReport\<close> publishes only what passes an integrity gate, and \<open>Replay\<close> compares
  recomputed bytes. \<open>cncfcheck\<close> wraps the report, publishes and replays it the same way, and derives
  the exit code. \<open>projectcheck\<close> does the same for eight community projects from two packaged files, with
  boolean facts only and without falling back to rules of other transitions. \<open>validation\<close> is independent of both: it reduces evidence to a decision, reads the
  policy a proposal is bound to, and serializes candidate reports that must stay UNKNOWN. The
  CloudEvents check reads a profile, scans an event text with a scanner of its own and derives a
  claim and an exit code.

  \<^bold>\<open>Theories.\<close>
  \<^item> \<open>Prelude\<close>, \<open>GoText\<close>, \<open>GoDigest\<close>, \<open>GoJson\<close>, \<open>GoRaw\<close>, \<open>GoTime\<close>: what the code uses of Go's language and
    library. First-error loops and binary search; bytes, UTF-8 and the regular expressions as
    predicates; SHA-256; \<open>encoding/json\<close> as a tree with decoding by field tags, and as raw messages that
    are compacted and escaped on output; RFC 3339 times. Strings are byte strings (\<open>char list\<close>).
  \<^item> \<open>Versions\<close>, \<open>Contracts\<close>, \<open>Digests\<close>, \<open>FactRegistry\<close> (\<open>contracts.go\<close>): release versions on 32-bit words,
    constants and patterns, records of every document and report type with their JSON encodings, and
    the registry of facts.
  \<^item> \<open>Matching\<close> (\<open>match.go\<close>): transition matcher, ranges, overlap test. \<open>Shapes\<close>, \<open>Parsing\<close> (\<open>parse.go\<close>):
    JSON gate, exact shapes, validators, \<open>ParseInput\<close>, \<open>ParseRuleSet\<close>. \<open>RuleEvaluation\<close>, \<open>Reporting\<close>
    (\<open>evaluate.go\<close>): rule verdicts, reports, publication, replay. \<open>Scoping\<close>, \<open>ScopeGate\<close> (\<open>scope.go\<close>): the
    completeness aggregate and its gate.
  \<^item> \<open>CncfRegistry\<close> (\<open>registry.go\<close>), \<open>CncfPack\<close> (\<open>pack.go\<close>), \<open>CncfCheck\<close> (\<open>check.go\<close>), \<open>CncfCorpus\<close> (\<open>corpus.go\<close>),
    \<open>CncfCatalog\<close> (\<open>catalog.go\<close>), \<open>CncfExternal\<close> (\<open>external.go\<close>): the package \<open>cncfcheck\<close>, one theory per file.
    \<open>CncfTotal\<close> shows that a check on a loaded bundle always returns.
  \<^item> \<open>ProjectPack\<close>, \<open>ProjectCheck\<close> (\<open>projectcheck.go\<close>), \<open>ProjectCorpus\<close> (\<open>corpus.go\<close>): the package \<open>projectcheck\<close>:
    load and rule selection; checks, reports and listings; attestation and scope assessment. The rule
    documents are those of \<open>CncfPack\<close>, through \<open>packView\<close>.
  \<^item> \<open>Decision\<close>, \<open>CandidatePatterns\<close>, \<open>Candidate\<close>, \<open>PolicyRef\<close> (\<open>validation/contracts.go\<close>): \<open>ReduceDecision\<close>; the
    patterns, scalars, URLs and times; \<open>CandidateReport\<close>, its validation, its canonical bytes and the
    content of the files written for it; \<open>PolicyReference\<close> and its strict reader. \<open>GoRegexp\<close>: the package
    \<open>regexp\<close> as far as these patterns use it, a matcher on runes with its language.
  \<^item> \<open>EventScan\<close> (the scanner of \<open>event.go\<close>), \<open>EventProfile\<close> (\<open>profile.go\<close>), \<open>EventCheck\<close> (\<open>Observe\<close> of \<open>event.go\<close>,
    \<open>evaluate.go\<close>): the package \<open>cloudeventsstructuredjson\<close>. The scanner's position is the unread rest of
    the text.
  \<^item> \<open>Samples\<close>, \<open>CncfSamples\<close>, \<open>ProjectSamples\<close>: the concrete inputs, rules, bundles, attestations and
    external pack on which the properties are witnessed. \<open>CncfProperties\<close>: the properties of \<open>cncfcheck\<close>
    (C24 to C39). \<open>ProjectProperties\<close>: those of \<open>projectcheck\<close> (C9, C36). \<open>ValidationProperties\<close>: those of
    \<open>validation\<close> (C27, C40). \<open>EventProperties\<close>: those of the CloudEvents check (C17, C18, C20). This theory: the properties of the engine and the reducer (the
    others up to C23).

  \<^bold>\<open>Representation.\<close> A Go struct is a record whose fields carry a two-letter prefix; a nil-able slice that
  the code tells apart from an empty one is an option of a list. An error is a value: the engine's
  results are \<open>error + 'a\<close>, those of \<open>cncfcheck\<close> and \<open>projectcheck\<close> \<open>cncfError + 'a\<close>, and every early return is a branch. The
  private seal pointer of an issued value is a flag, and the digest recorded with it a string, so a
  forged or modified value can be stated. Maps filled in a loop are association lists where the last
  entry wins. A clock is an argument. Where the code parses a text a second time with a lenient
  struct, the model does so too, and lemmas (\<open>readsOf\<close>) show that the two readings agree.

  \<^bold>\<open>Interfaces.\<close> Locales state what one part relies on in another: \<open>rule_evaluator\<close> (what the aggregate
  needs of \<open>evaluateRule\<close>), \<open>search_contract\<close> (\<open>sort.Search\<close>), \<open>compare_by_key\<close> (the comparison of
  versions) and \<open>digest_function\<close> (the shape of every digest the gates compare); each is interpreted on
  the model's own definitions.

  \<^bold>\<open>What is shown.\<close> Engine: issued values evaluate, publish and replay (C1, C6, C7); the aggregate is
  sound and complete for its specification and the publication gate trusts no scalar (C2 to C5, C22);
  verdicts refine a specification (C8) and required facts are canonical; ranged rules are bounded
  and disjoint (C10 to C13); parsed documents satisfy their invariants (C14 to C16); versions,
  reducer and canonical texts (C19, C21, C23). Package \<open>cncfcheck\<close>: the compiled registry
  exists (C24); what the engine receives is what the raw rules say (C25, C26); which rules a check
  evaluates, that it always returns, replays exactly and exits with the documented code (C28 to C32);
  attestations bind the whole pack and scope assessments leave no rule out (C33 to C35); external packs
  are admitted soundly, never mixed with the embedded rules, and carry the earliest expiry (C37 to
  C39). Package \<open>projectcheck\<close>: a check returns exactly the verdicts of the matching rules (C36) and a
  scope assessment covers the whole re-sorted pack (C9). Package \<open>validation\<close>: a candidate report
  that is serialized claims nothing, discloses nothing and is a fixed point (C27); a valid policy
  reference survives its own text (C40). CloudEvents: the scanner ends on every text (C17), the verdict
  is the one the parsed text deserves (C18), and profiles are read back as written (C20).

  \<^bold>\<open>Bounds and fuel.\<close> The JSON readers recurse on fuel of one more than twice the length of the text;
  \<open>parse_fuel\<close> shows that more fuel changes nothing. The CloudEvents scanner runs on fuel of one more
  than twice the length, and running out is a result of its own, which C17 excludes. A repetition of
  a regular expression is iterated as often as the text has runes, which \<open>ends_lang\<close> shows to be enough.
  All other recursion is structural or has a measure. Version fields are 32-bit words as in the code; line numbers, counts and Unix seconds are
  unbounded integers, which the size limits of the documents keep far below 64 bits. The limits of the
  code (bytes, depth, members, rules, entries) are the constants of the model.

  \<^bold>\<open>Parameters and limits of the model.\<close> The packaged files are an argument of \<open>load\<close> and of every
  exported function of \<open>cncfcheck\<close> and \<open>projectcheck\<close>, and the capability file one of \<open>ParseProfile\<close>, since they are data.
  Of several names that address one field of a struct the decoders keep the last; only names with
  U+017F can repeat a field past the duplicate test of a profile. \<open>strings.ToLower\<close>, which needs the Unicode
  tables, is the argument \<open>lower\<close> of the external scanner. \<open>url.Parse\<close> is modelled as far as
  \<open>immutableGitURL\<close> and \<open>httpsRepository\<close> observe it; the latter refuses bracketed IP hosts. Deep
  copies that protect issued values from their callers are the identity here; \<open>CanonicalCandidateReport\<close>
  also reorders the caller's slices in place, of which the model keeps the returned value.

  \<^bold>\<open>Not modelled.\<close> The native configuration readers, the knowledge store with its TUF verification, bundle and observation
  import, the collector, the command router and the maintainer tools: they rest on file-system
  transactions, processes, the network or vendored YAML, TOML, TUF and X.509 code. Of
  \<open>validation/contracts.go\<close>, proposed bundles (whose configuration values are bounded by the length of
  their original bytes) and the output root, which stages, renames and syncs files.
\<close>

section \<open>Evaluation, publication and replay\<close>

text \<open>
  C1. For an input and a rule set that the parsers issued under one registry, and an explicit
  non-zero UTC clock without sub-seconds, \<open>Evaluate\<close> returns a report, \<open>MarshalReport\<close> publishes it,
  and \<open>Replay\<close> of the published bytes at the same clock returns the same report.
\<close>

theorem evaluate_publish_replay:
  assumes "newRegistry definitions limit = Inr registry"
    and "ParseInput rawInput registry = Inr input" and "ParseRuleSet rawRules registry = Inr rules"
    and "\<not> timeIsZero now" and "t_utc now" and "t_nsec now = 0"
  shows "\<exists>report raw. Evaluate input rules now = Inr report \<and> MarshalReport report = Inr raw \<and>
    Replay input rules now raw = Inr report"
proof -
  obtain report where "Evaluate input rules now = Inr report" "MarshalReport report = Inr (jsonPrint (encReport report))"
    by (rule MarshalReport_issued [OF issuedPair_parsed [OF assms(1-3)]]) (use assms(4-6) in \<open>auto simp: validClock_def\<close>)
  then show ?thesis by (auto simp: Replay_def)
qed

theorem evaluate_publish_replay_witness:
  "\<exists>report raw. Evaluate (sampleInput True) sampleRules sampleNow = Inr report \<and> MarshalReport report = Inr raw \<and>
    Replay (sampleInput True) sampleRules sampleNow raw = Inr report"
  using evaluate_publish_replay [OF sampleRegistry_new sampleInput_parsed [of True] sampleRules_parsed, of sampleNow]
    sampleNow_valid by (simp add: validClock_def)



text \<open>
  C3. With a declared scope and an attested corpus the aggregate is BLOCKED exactly when some rule
  about a declared component has current evidence, matches the declared transition, has all its
  applicability conditions declared and matching, and is violated by the declared input.
\<close>

theorem blocked_iff:
  assumes "newRegistry definitions limit = Inr registry"
    and "ParseInput rawInput registry = Inr input" and "ParseRuleSet rawRules registry = Inr rules"
    and "\<not> timeIsZero now" and "t_utc now" and "t_nsec now = 0"
    and "Evaluate input rules now = Inr report"
    and "id_Scope (in_document input) = Some scope" and "rd_Corpus (rs_document rules) = Some corpus"
  shows "rp_Assessment report = AssessmentBlocked \<longleftrightarrow>
    (\<exists>r\<in>set (rd_Rules (rs_document rules)). tr_Component (r_Subject r) \<in> set (isc_Components scope) \<and>
       evidenceCurrent r now \<and> subjectMatches (in_document input) r \<and> conditionsHold (in_document input) r \<and>
       constraintViolated (in_document input) r = Some True)"
  using blocked_issued [OF issuedPair_parsed [OF assms(1-3)] _ assms(7-9)] assms(4-6)
  unfolding expectedStatus_iff(1) by (simp add: validClock_def)

theorem blocked_iff_witness:
  "\<exists>report. Evaluate (sampleInput True) sampleRules sampleNow = Inr report \<and> rp_Assessment report = AssessmentBlocked"
proof -
  obtain report where r: "Evaluate (sampleInput True) sampleRules sampleNow = Inr report"
    by (rule MarshalReport_issued [OF sample_issued sampleNow_valid])
  have sc: "id_Scope (in_document (sampleInput True)) =
      Some \<lparr>isc_Declaration = ScopeDeclaration, isc_Components = [''pkg:github/istio/istio'', ''pkg:github/nats-io/nats-server'']\<rparr>"
    and co: "rd_Corpus (rs_document sampleRules) =
      Some \<lparr>co_Completeness = CorpusAttestation, co_Components = [''pkg:github/istio/istio'', ''pkg:github/nats-io/nats-server'']\<rparr>"
    by (simp_all add: sampleInput_def sampleInputDoc_def sampleRules_def sampleRulesDoc_def)
  have docs: "in_document (sampleInput True) = sampleInputDoc True" "rd_Rules (rs_document sampleRules) = rd_Rules sampleRulesDoc"
    by (simp_all add: sampleInput_def sampleRules_def)
  have "\<exists>r\<in>set (rd_Rules sampleRulesDoc). tr_Component (r_Subject r) \<in> set [''pkg:github/istio/istio'', ''pkg:github/nats-io/nats-server''] \<and>
      evidenceCurrent r sampleNow \<and> subjectMatches (sampleInputDoc True) r \<and> conditionsHold (sampleInputDoc True) r \<and>
      constraintViolated (sampleInputDoc True) r = Some True"
    by code_simp
  then have "rp_Assessment report = AssessmentBlocked"
    using blocked_iff [OF sampleRegistry_new sampleInput_parsed sampleRules_parsed _ _ _ r sc co]
      sampleNow_valid unfolding docs validClock_def by simp
  with r show ?thesis by blast
qed

text \<open>
  C4. The publication gate trusts no scalar: any report it publishes as SCOPE_COMPLETE_PASS, however
  it was put together, carries a block in which every component is attested and has a passing
  anchor-reviewed rule, every evaluated rule has a PASS claim, every skipped rule is excluded under
  an exclusion reason, and every claim is accounted for exactly once or counted out of scope.
\<close>

theorem published_pass_sound:
  assumes "MarshalReport report = Inr raw" and "rp_Assessment report = AssessmentScopeCompletePass"
  shows "\<exists>block. rp_ScopeCompleteness report = Some block \<and>
    (\<forall>e\<in>set (so_Components block). cs_CorpusAttested e \<and> (\<exists>i\<in>set (cs_EvaluatedRuleIDs e).
       claimStatuses (rp_Claims report) i = Some ''PASS'' \<and> \<not> claimRangeMatched (rp_Claims report) i)) \<and>
    (\<forall>e\<in>set (so_Components block). \<forall>i\<in>set (cs_EvaluatedRuleIDs e). claimStatuses (rp_Claims report) i = Some ''PASS'') \<and>
    (\<forall>e\<in>set (so_Components block). \<forall>n\<in>set (cs_NotEvaluated e).
       ne_Applicability n = ApplicabilityNotApplicable \<and> ne_ReasonCode n \<in> set exclusionReasons) \<and>
    distinct (blockIDs (so_Components block)) \<and>
    int (length (blockIDs (so_Components block))) + so_OutOfScopeRules block = int (length (rp_Claims report))"
proof -
  have legal: "legalAssessment report" using assms(1) by (auto simp: MarshalReport_def split: if_splits)
  then obtain block where b: "rp_ScopeCompleteness report = Some block"
    using assms(2) by (cases "rp_ScopeCompleteness report") (auto simp: legalAssessment_def engine_defs)
  have vb: "validScopeBlock block (rp_Claims report) (rp_EngineContractDigest report)"
    and da: "deriveAssessment block (rp_Claims report) = Inr (AssessmentScopeCompletePass, so_UnresolvedReason block)"
    using legal b assms(2) by (auto simp: legalAssessment_def split: if_splits sum.splits prod.splits)
  let ?cs = "so_Components block" and ?cl = "rp_Claims report"
  have res: "referencesResolve ?cl ?cs" and pass: "blockAssessment ?cl ?cs = AssessmentScopeCompletePass"
    using da by (auto simp: deriveAssessment_iff)
  have all: "\<forall>i\<in>set (evaluatedIDs ?cs). claimStatuses ?cl i = Some ''PASS''"
    using res pass unfolding blockAssessment_pass referencesResolve_def anyBlocked_def by blast
  have un: "\<forall>e\<in>set ?cs. cs_CorpusAttested e \<and> anchorReviewed ?cl e" "\<forall>n\<in>set (skippedIn ?cs). \<not> isUndetermined n"
    using pass unfolding blockAssessment_pass scopeUnresolved_Nil by blast+
  have ok: "\<forall>e\<in>set ?cs. \<forall>n\<in>set (cs_NotEvaluated e). skippedOK n"
    using vb by (auto simp: validScopeBlock_iff entryOK_def)
  have pass_e: "\<forall>e\<in>set ?cs. \<forall>i\<in>set (cs_EvaluatedRuleIDs e). claimStatuses ?cl i = Some ''PASS''"
    using all by (auto simp: evaluatedIDs_def)
  moreover have "\<forall>e\<in>set ?cs. \<forall>n\<in>set (cs_NotEvaluated e). \<not> isUndetermined n" using un(2) by (auto simp: skippedIn_def)
  ultimately show ?thesis
    using b un(1) ok vb unfolding skippedOK_def anchorReviewed_def validScopeBlock_iff by blast
qed

theorem published_pass_sound_witness:
  "\<exists>report raw block. MarshalReport report = Inr raw \<and> rp_ScopeCompleteness report = Some block \<and>
    (\<forall>e\<in>set (so_Components block). cs_CorpusAttested e) \<and> distinct (blockIDs (so_Components block))"
proof -
  obtain report where r: "Evaluate (sampleInput False) sampleRules sampleNow = Inr report"
    "MarshalReport report = Inr (jsonPrint (encReport report))"
    by (rule MarshalReport_issued [OF sample_issued sampleNow_valid])
  have "rp_Assessment report = AssessmentScopeCompletePass"
    using samplePass r(1) by simp
  from published_pass_sound [OF r(2) this] r(2) show ?thesis by blast
qed

text \<open>
  C5. A report on an input without a declared scope, or under rules without a corpus attestation,
  is UNKNOWN and carries no scope block, whatever its claims say.
\<close>

theorem unscoped_unknown:
  assumes "Evaluate input rules now = Inr report"
    and "id_Scope (in_document input) = None \<or> rd_Corpus (rs_document rules) = None"
  shows "rp_Assessment report = AssessmentUnknown \<and> rp_ScopeCompleteness report = None"
proof -
  have "buildScopeCompleteness (in_document input) (rs_document rules) claims digest = (None, AssessmentUnknown)" for claims digest
    using assms(2) by (auto simp: buildScopeCompleteness_def split: option.splits)
  then show ?thesis
    using assms(1) by (auto simp: Evaluate_def issueReport_def Let_def split: if_splits sum.splits prod.splits)
qed

theorem unscoped_unknown_witness:
  "\<exists>report. Evaluate (sampleInput True) sampleExactRules sampleNow = Inr report \<and>
    rp_Assessment report = AssessmentUnknown \<and> rp_ScopeCompleteness report = None"
proof -
  obtain report where "Evaluate (sampleInput True) sampleExactRules sampleNow = Inr report"
    by (rule MarshalReport_issued [OF sampleExact_issued sampleNow_valid])
  moreover have "rd_Corpus (rs_document sampleExactRules) = None" by (simp add: sampleExactRules_def sampleExactDoc_def)
  ultimately show ?thesis using unscoped_unknown [of "sampleInput True" sampleExactRules sampleNow report] by blast
qed




section \<open>The verdict on one rule\<close>

text \<open>
  C8. A rule that passed validation always yields a claim (no nil dereference). The claim is BLOCKED
  exactly when its evidence is current, its subject and applicability conditions hold and the
  declared input violates the constraint; PASS exactly when they hold and the constraint is
  satisfied; otherwise UNKNOWN. The freshness is recorded as current exactly for current evidence.
\<close>

theorem evaluateRule_verdict:
  assumes "validateRule r registry = None"
  shows "\<exists>c. evaluateRule input r now = Inr c \<and> cl_RuleID c = r_ID r \<and>
    (cl_Status c = ''BLOCKED'' \<longleftrightarrow> evidenceCurrent r now \<and> subjectMatches input r \<and> conditionsHold input r \<and>
       constraintViolated input r = Some True) \<and>
    (cl_Status c = ''PASS'' \<longleftrightarrow> evidenceCurrent r now \<and> subjectMatches input r \<and> conditionsHold input r \<and>
       constraintViolated input r = Some False) \<and>
    cl_Status c \<in> {''PASS'', ''BLOCKED'', ''UNKNOWN''} \<and>
    (cl_EvidenceFreshness c = ''current'' \<longleftrightarrow> evidenceCurrent r now)"
proof -
  obtain c where c: "evaluateRule input r now = Inr c" "claimOK input r now c" using evaluateRule_ok [OF assms] by blast
  show ?thesis
    using c(1) claimOK_sel [OF c(2)] expectedStatus_iff [of input r now] by (intro exI [of _ c]) simp
qed

theorem evaluateRule_verdict_witness:
  "\<exists>c. evaluateRule (sampleInputDoc True) samplePredicate sampleNow = Inr c \<and> cl_Status c = ''BLOCKED''"
proof -
  have "evidenceCurrent samplePredicate sampleNow \<and> subjectMatches (sampleInputDoc True) samplePredicate \<and>
      conditionsHold (sampleInputDoc True) samplePredicate \<and> constraintViolated (sampleInputDoc True) samplePredicate = Some True"
    by code_simp
  then show ?thesis
    using evaluateRule_verdict [OF sampleRule_valid(1), of "sampleInputDoc True" sampleNow] by auto
qed

text \<open>
  The required facts of a validated rule are exactly the facts of its conditions, in strictly
  increasing key order (so without duplicates), and pass the checks of the publication gate.
\<close>

lemma requiredFacts_canonical:
  assumes "newRegistry definitions limit = Inr registry" and "validateRule r registry = None"
  shows "set (requiredFacts r) = requiredFactOf ` set (ruleConditions r) \<and>
    sorted_wrt (<) (map requiredFactKey (requiredFacts r)) \<and> validRequiredFacts (requiredFacts r)"
proof -
  note v = validateRule_facts [OF assms(2)]
  have wf: "wfRegistry registry" by (rule newRegistry_wf [OF assms(1)])
  have cond: "\<forall>c\<in>set (ruleConditions r). validateCondition c registry = None"
    using v(9) by (auto simp: ruleConditions_def split: option.splits intro: validateOperator_cases [OF v(10)])
  have reg: "\<forall>c\<in>set (ruleConditions r). regularFact (requiredFactOf c)"
    using cond validateCondition_fact [OF _ wf] by (auto simp: regularFact_def requiredFactOf_def)
  show ?thesis using requiredFacts_sorted [OF reg] requiredFacts_valid [OF assms(2) wf] by simp
qed

section \<open>Reviewed ranges\<close>

text \<open>
  C10. Every transition that a validated ranged rule matches is a strict upgrade, and its two
  versions lie in the minor lines of the reviewed anchor pair.
\<close>

theorem range_match_bounded:
  assumes "validateRule r registry = None" and "r_Range r \<noteq> None"
    and "matchTransition (ruleTransitionOfRule r) from to \<noteq> MatchNone"
  shows "VersionLess from to \<and>
    (\<exists>a b x y. parseVersion (tr_From (r_Subject r)) = Some a \<and> parseVersion (tr_To (r_Subject r)) = Some b \<and>
       parseVersion from = Some x \<and> parseVersion to = Some y \<and>
       v_major x = v_major a \<and> v_minor x = v_minor a \<and> v_major y = v_major b \<and> v_minor y = v_minor b)"
proof -
  obtain rng where rng: "r_Range r = Some rng" using assms(2) by auto
  have "validateRange r = None" using validateRule_facts(5) [OF assms(1)] by (simp add: regularSubject_def)
  from validateRange_guards [OF this rng] obtain fg fl tg tl where g:
    "parseVersion (vb_Gte (vr_From rng)) = Some fg" "parseVersion (vb_Lt (vr_From rng)) = Some fl"
    "parseVersion (vb_Gte (vr_To rng)) = Some tg" "parseVersion (vb_Lt (vr_To rng)) = Some tl" "fl \<le> tg"
    "inBound (tr_From (r_Subject r)) (vr_From rng)" "inBound (tr_To (r_Subject r)) (vr_To rng)"
    "withinOneMinorLine fg fl" "withinOneMinorLine tg tl" by metis
  have in_rng: "inBound from (vr_From rng)" "inBound to (vr_To rng)"
    using assms(3) g(6,7) rng by (auto simp: matchTransition_iff)
  have "\<exists>x y. parseVersion from = Some x \<and> parseVersion to = Some y \<and> x < y"
    using in_rng g(1-5) by (auto simp: inBound_iff versionIn_def)
  moreover obtain a where "parseVersion (tr_From (r_Subject r)) = Some a" "v_major a = v_major fg" "v_minor a = v_minor fg"
    by (rule inBound_minorLine [OF g(1,2,8,6)])
  moreover obtain b where "parseVersion (tr_To (r_Subject r)) = Some b" "v_major b = v_major tg" "v_minor b = v_minor tg"
    by (rule inBound_minorLine [OF g(3,4,9,7)])
  moreover obtain x where "parseVersion from = Some x" "v_major x = v_major fg" "v_minor x = v_minor fg"
    by (rule inBound_minorLine [OF g(1,2,8) in_rng(1)])
  moreover obtain y where "parseVersion to = Some y" "v_major y = v_major tg" "v_minor y = v_minor tg"
    by (rule inBound_minorLine [OF g(3,4,9) in_rng(2)])
  ultimately show ?thesis by (auto simp: VersionLess_iff)
qed

theorem range_match_bounded_witness:
  "matchTransition (ruleTransitionOfRule sampleRanged) ''2.9.7'' ''2.10.9'' = MatchRange \<and> VersionLess ''2.9.7'' ''2.10.9''"
proof -
  have "matchTransition (ruleTransitionOfRule sampleRanged) ''2.9.7'' ''2.10.9'' = MatchRange" "r_Range sampleRanged \<noteq> None"
    by code_simp+
  then show ?thesis using range_match_bounded [OF sampleRule_valid(3), of "''2.9.7''" "''2.10.9''"] by simp
qed

text \<open>
  C11. The overlap test is exact: for two rules that passed validation it holds if and only if some
  declared transition matches both subjects.
\<close>

theorem overlap_exact:
  assumes "validateRule a registry = None" and "validateRule b registry = None"
  shows "regionsOverlap (ruleTransitionOfRule a) (ruleTransitionOfRule b) \<longleftrightarrow>
    (\<exists>from to. matchTransition (ruleTransitionOfRule a) from to \<noteq> MatchNone \<and>
       matchTransition (ruleTransitionOfRule b) from to \<noteq> MatchNone)"
  using regionsOverlap_exact validateRule_facts(5) assms by blast

theorem overlap_exact_witness:
  "\<exists>from to. matchTransition (ruleTransitionOfRule sampleDependency) from to \<noteq> MatchNone \<and>
     matchTransition (ruleTransitionOfRule sampleRanged) from to \<noteq> MatchNone"
proof -
  have "regionsOverlap (ruleTransitionOfRule sampleDependency) (ruleTransitionOfRule sampleRanged)" by code_simp
  then show ?thesis using overlap_exact [OF sampleRule_valid(2,3)] by blast
qed

text \<open>
  C12. In a parsed rule set no declared transition is matched by two different rules about the same
  component that constrain the same thing, when at least one of them has a range.
\<close>

theorem parsed_rules_disjoint:
  assumes "ParseRuleSet raw registry = Inr rules"
    and "a \<in> set (rd_Rules (rs_document rules))" and "b \<in> set (rd_Rules (rs_document rules))" and "a \<noteq> b"
    and "r_Range a \<noteq> None" and "tr_Component (r_Subject a) = tr_Component (r_Subject b)" and "constraintKey a = constraintKey b"
  shows "matchTransition (ruleTransitionOfRule a) from to = MatchNone \<or>
    matchTransition (ruleTransitionOfRule b) from to = MatchNone"
proof -
  let ?rs = "rd_Rules (rs_document rules)"
  have wf: "\<forall>r\<in>set ?rs. validateRule r registry = None" "validateRangeOverlaps ?rs = None"
    using ParseRuleSet_issued(1) [OF assms(1)] assms(2,5) by (auto simp: wfRules_def)
  obtain i j where ij: "i < length ?rs" "?rs ! i = a" "j < length ?rs" "?rs ! j = b"
    using assms(2,3) by (auto simp: in_set_conv_nth)
  have disjoint: "\<not> regionsOverlap (ruleTransitionOfRule (?rs ! k)) (ruleTransitionOfRule (?rs ! l))"
    if "k < l" "l < length ?rs" "{?rs ! k, ?rs ! l} = {a, b}" for k l
    using validateRangeOverlaps_sound [OF wf(2) that(1,2)] that(3) assms(5-7) by (auto simp: doubleton_eq_iff)
  have reg: "regularSubject a" "regularSubject b" using validateRule_facts(5) wf(1) assms(2,3) by blast+
  have "i \<noteq> j" using ij assms(4) by auto
  then have "i < j \<or> j < i" by auto
  then show ?thesis
  proof
    assume "i < j"
    then show ?thesis using disjoint [of i j] ij regionsOverlap_exact [OF reg] by auto
  next
    assume "j < i"
    then show ?thesis using disjoint [of j i] ij regionsOverlap_exact [OF reg(2,1)] by (auto simp: insert_commute)
  qed
qed

text \<open>
  The witness uses a second ranged document: two ranged rules with one key, over different minor
  lines.
\<close>

theorem parsed_rules_disjoint_witness:
  "matchTransition (ruleTransitionOfRule sampleRanged) ''2.9.7'' ''2.10.0'' = MatchNone \<or>
     matchTransition (ruleTransitionOfRule sampleRangedNext) ''2.9.7'' ''2.10.0'' = MatchNone"
proof (rule parsed_rules_disjoint [OF sampleTwoRanges_parsed])
  show "sampleRanged \<in> set (rd_Rules (rs_document sampleTwoRanges))" "sampleRangedNext \<in> set (rd_Rules (rs_document sampleTwoRanges))"
    by (simp_all add: sampleTwoRanges_def sampleTwoRangesDoc_def)
  show "sampleRanged \<noteq> sampleRangedNext" "r_Range sampleRanged \<noteq> None"
    "tr_Component (r_Subject sampleRanged) = tr_Component (r_Subject sampleRangedNext)"
    "constraintKey sampleRanged = constraintKey sampleRangedNext"
    by (simp_all add: sampleRanged_def sampleRangedNext_def constraintKey_def)
qed

text \<open>
  C13. A mandatory intermediate version of a validated ranged rule lies strictly between the two
  versions of every transition the rule matches.
\<close>

theorem intermediate_between:
  assumes "validateRule r registry = None" and "r_Operator r = ''require_intermediate_version''" and "r_Range r \<noteq> None"
    and "matchTransition (ruleTransitionOfRule r) from to \<noteq> MatchNone"
  shows "VersionLess from (r_Intermediate r) \<and> VersionLess (r_Intermediate r) to"
proof -
  note v = validateRule_facts [OF assms(1)]
  obtain rng where rng: "r_Range r = Some rng" using assms(3) by auto
  have gap: "versionLE (vb_Lt (vr_From rng)) (r_Intermediate r)" "VersionLess (r_Intermediate r) (vb_Gte (vr_To rng))"
    using assms(2) rng by (auto intro: validateOperator_cases [OF v(10)])
  have "validateRange r = None" using v(5) by (simp add: regularSubject_def)
  from validateRange_guards [OF this rng] have
    "inBound (tr_From (r_Subject r)) (vr_From rng)" "inBound (tr_To (r_Subject r)) (vr_To rng)" by metis+
  then have "inBound from (vr_From rng)" "inBound to (vr_To rng)"
    using assms(4) rng by (auto simp: matchTransition_iff)
  with gap show ?thesis by (auto simp: inBound_iff versionIn_def versionLE_iff VersionLess_iff)
qed

theorem intermediate_between_witness:
  "VersionLess ''2.8.1'' (r_Intermediate sampleIntermediate) \<and> VersionLess (r_Intermediate sampleIntermediate) ''2.10.4''"
proof (rule intermediate_between [OF sampleIntermediate_valid])
  show "r_Operator sampleIntermediate = ''require_intermediate_version''" "r_Range sampleIntermediate \<noteq> None"
    by (simp_all add: sampleIntermediate_def)
  show "matchTransition (ruleTransitionOfRule sampleIntermediate) ''2.8.1'' ''2.10.4'' \<noteq> MatchNone" by code_simp
qed

section \<open>What the parsers guarantee\<close>

text \<open>
  C14. In a parsed input with a declared scope, either side lists exactly the scoped components, in
  the same strictly increasing order.
\<close>

theorem parsed_scope_exact:
  assumes "ParseInput raw registry = Inr input" and "id_Scope (in_document input) = Some scope"
  shows "map ic_Component (is_Components (id_Current (in_document input))) = isc_Components scope \<and>
    map ic_Component (is_Components (id_Proposed (in_document input))) = isc_Components scope \<and>
    sorted_wrt (<) (isc_Components scope)"
  using ParseInput_issued(1) [OF assms(1)] assms(2) by (auto simp: wfInput_def wfScope_def)

theorem parsed_scope_exact_witness:
  "map ic_Component (is_Components (id_Current (in_document (sampleInput True)))) = [''pkg:github/istio/istio'', ''pkg:github/nats-io/nats-server'']"
  using parsed_scope_exact [OF sampleInput_parsed, of True
      "\<lparr>isc_Declaration = ScopeDeclaration, isc_Components = [''pkg:github/istio/istio'', ''pkg:github/nats-io/nats-server'']\<rparr>"]
  by (simp add: sampleInput_def sampleInputDoc_def)

text \<open>
  C15. Every fact of a parsed input is registered for the component that carries it; a declared
  boolean fact has a boolean, a declared enum fact one of the registered tokens, and a fact in any
  other state no value at all.
\<close>

theorem parsed_facts_typed:
  assumes "newRegistry definitions limit = Inr registry" and "ParseInput raw registry = Inr input"
    and "c \<in> set (is_Components (id_Current (in_document input))) \<union> set (is_Components (id_Proposed (in_document input)))"
    and "f \<in> set (ic_Facts c)"
  shows "\<exists>d. registryDefinition registry (if_ID f) = Some d \<and> fd_Component d = ic_Component c \<and>
    (if if_State f = ''declared''
     then (if fd_Type d = FactBool then if_BoolValue f \<noteq> None \<and> if_EnumValue f = []
           else if_BoolValue f = None \<and> if_EnumValue f \<in> set (fd_EnumTokens d))
     else if_State f \<in> {''missing'', ''unsupported'', ''conflict''} \<and> if_BoolValue f = None \<and> if_EnumValue f = [])"
proof -
  have v: "validateFact f (ic_Component c) registry = None"
    using ParseInput_issued(1) [OF assms(2)] assms(3,4) by (auto simp: wfInput_def wfSide_def wfComponent_def)
  then obtain d where d: "registryDefinition registry (if_ID f) = Some d" "fd_Component d = ic_Component c"
    by (auto simp: validateFact_def split: option.splits if_splits)
  have "wfDefinition d" using registryDefinition_wf [OF newRegistry_wf [OF assms(1)] d(1)] by simp
  then have t: "fd_Type d = FactBool \<or> fd_Type d = FactEnum" "sorted (fd_EnumTokens d)"
    using wfDefinition_enum by (auto simp: wfDefinition_def)
  have ne: "FactEnum \<noteq> FactBool" by (simp add: engine_defs)
  from v d t ne show ?thesis
    by (auto simp: validateFact_def contains_sorted split: if_splits)
qed

theorem parsed_facts_typed_witness:
  "\<exists>d. registryDefinition sampleRegistry ''component.istio.legacy'' = Some d \<and> fd_Component d = ''pkg:github/istio/istio''"
  using parsed_facts_typed [OF sampleRegistry_new sampleInput_parsed, of
      "hd (is_Components (id_Current (in_document (sampleInput True))))" True
      "hd (ic_Facts (hd (is_Components (id_Current (in_document (sampleInput True))))))"]
  by (auto simp: sampleInput_def sampleInputDoc_def)

text \<open>
  C16. The corpus of a parsed rule set attests no component vacuously: each attested component is the
  subject of a rule of the document.
\<close>

theorem corpus_not_vacuous:
  assumes "ParseRuleSet raw registry = Inr rules" and "rd_Corpus (rs_document rules) = Some corpus"
    and "component \<in> set (co_Components corpus)"
  shows "\<exists>r\<in>set (rd_Rules (rs_document rules)). tr_Component (r_Subject r) = component"
  using validateCorpus_attested [OF _ assms(2,3)] ParseRuleSet_issued(1) [OF assms(1)] by (simp add: wfRules_def)

theorem corpus_not_vacuous_witness:
  "\<exists>r\<in>set (rd_Rules (rs_document sampleRules)). tr_Component (r_Subject r) = ''pkg:github/nats-io/nats-server''"
  using corpus_not_vacuous [OF sampleRules_parsed, of "\<lparr>co_Completeness = CorpusAttestation, co_Components = [''pkg:github/istio/istio'', ''pkg:github/nats-io/nats-server'']\<rparr>"
      "''pkg:github/nats-io/nats-server''"]
  by (simp add: sampleRules_def sampleRulesDoc_def)

section \<open>Versions, decisions and the partition\<close>

text \<open>
  C19. Version comparison is defined exactly on valid release versions, agrees with the
  lexicographic order of the three components, and is zero only for identical texts.
\<close>

theorem compareVersions_order:
  "(compareVersions a b = None \<longleftrightarrow> \<not> validVersion a \<or> \<not> validVersion b) \<and>
   (\<forall>x y. parseVersion a = Some x \<and> parseVersion b = Some y \<longrightarrow>
      (\<exists>c. compareVersions a b = Some c \<and> (c < 0 \<longleftrightarrow> x < y) \<and> (0 < c \<longleftrightarrow> y < x) \<and> (c = 0 \<longleftrightarrow> a = b)))"
proof -
  have "\<exists>c. compareVersions a b = Some c \<and> (c < 0 \<longleftrightarrow> x < y) \<and> (0 < c \<longleftrightarrow> y < x) \<and> (c = 0 \<longleftrightarrow> a = b)"
    if xy: "parseVersion a = Some x" "parseVersion b = Some y" for x y
  proof -
    obtain c where c: "compareVersions a b = Some c" "c < 0 \<longleftrightarrow> x < y" "0 < c \<longleftrightarrow> y < x" by (rule ver.cmp_defined [OF xy])
    then have "c = 0 \<longleftrightarrow> x = y" by (meson linorder_less_linear order_less_irrefl)
    also have "x = y \<longleftrightarrow> a = b" using xy parseVersion_inject [of a x b] by auto
    finally show ?thesis using c by blast
  qed
  then show ?thesis by (auto simp: compareVersions_None)
qed

theorem compareVersions_order_witness:
  "\<exists>c. compareVersions ''1.9.10'' ''1.10.9'' = Some c \<and> c < 0"
proof -
  have "parseVersion ''1.9.10'' = Some (NV 1 9 10)" "parseVersion ''1.10.9'' = Some (NV 1 10 9)" by code_simp+
  moreover have "NV 1 9 10 < NV 1 10 9" by (simp add: version_less_iff)
  ultimately show ?thesis using compareVersions_order [of "''1.9.10''" "''1.10.9''"] by blast
qed





section \<open>The JSON gate\<close>



end
